(* ===== verification/Prelude.thy ===== *)
theory Prelude
  imports
    "HOL-Library.AList"
    "HOL-Library.Char_ord"
    "HOL-Library.List_Lexorder"
    "HOL-Library.Word"
begin

text \<open>
  The Go vocabulary every component of the development shares.

  Errors. \<open>Error status format\<close> is the coordinator's \<^verbatim>\<open>*Error\<close> value: the HTTP-style
  status and the format text of the message, whose arguments are not rendered.
  \<open>Fault format\<close> is any other Go \<^verbatim>\<open>error\<close> value.

  Maps and sets. A Go map is an association list with distinct keys, read with
  \<open>map_of\<close> and written with \<open>AList.update\<close> and \<open>AList.delete\<close>; the order
  of the list is the order in which \<^verbatim>\<open>range\<close> visits the map, and the theorems hold for every
  order. A \<^verbatim>\<open>map[K]bool\<close> that is only ever written with \<^verbatim>\<open>true\<close> or deleted from is the
  list of its keys.

  Integers. \<open>wrap32\<close> is the wrap-around of \<^verbatim>\<open>int32\<close> arithmetic. Record and byte counters
  (\<^verbatim>\<open>int64\<close>) are \<open>int\<close>; hashes, round-robin counters and segment numbers are words.

  Text. A Go string is a byte string, here \<open>string\<close>; \<open>itoa\<close> prints a
  non-negative integer as \<^verbatim>\<open>%d\<close> does.
\<close>

named_theorems go_defs \<open>definitions that component proofs unfold\<close>
named_theorems frame_simps \<open>which fields an operation leaves unchanged\<close>

subsection \<open>Errors and results\<close>

datatype error = Error int string | Fault string

type_synonym 'a result = "error + 'a"

text \<open>
  A handler returns its result and the state it leaves, whether it fails or not;
  \<open>andThen\<close> is \<^verbatim>\<open>if err != nil { return err }\<close>.
\<close>

definition andThen :: "'a result \<times> 's \<Rightarrow> ('a \<Rightarrow> 's \<Rightarrow> 'b result \<times> 's) \<Rightarrow> 'b result \<times> 's" where
  "andThen m f = (case m of (Inl err, s) \<Rightarrow> (Inl err, s) | (Inr x, s) \<Rightarrow> f x s)"

lemma andThen_simps [simp]:
  "andThen (Inl err, s) f = (Inl err, s)"
  "andThen (Inr x, s) f = f x s"
  by (simp_all add: andThen_def)

text \<open>A property of the state that both parts keep is kept by the sequence.\<close>

lemma andThen_inv:
  "I (snd m) \<Longrightarrow> (\<And>x s. I s \<Longrightarrow> I (snd (f x s))) \<Longrightarrow> I (snd (andThen m f))"
  by (cases m; cases "fst m") (auto simp: andThen_def)

subsection \<open>Maps and sets\<close>

type_synonym ('k, 'v) gomap = "('k \<times> 'v) list"
type_synonym 'k goset = "'k list"

definition map_get :: "'v \<Rightarrow> ('k, 'v) gomap \<Rightarrow> 'k \<Rightarrow> 'v" where
  "map_get d m k = (case map_of m k of None \<Rightarrow> d | Some v \<Rightarrow> v)"

definition map_vals :: "('v \<Rightarrow> 'w) \<Rightarrow> ('k, 'v) gomap \<Rightarrow> ('k, 'w) gomap" where
  "map_vals f m = map (\<lambda>(k, v). (k, f v)) m"

definition set_add :: "'k \<Rightarrow> 'k goset \<Rightarrow> 'k goset" where
  "set_add k s = (if k \<in> set s then s else s @ [k])"

definition set_del :: "'k \<Rightarrow> 'k goset \<Rightarrow> 'k goset" where
  "set_del k s = removeAll k s"

subsection \<open>Integers and text\<close>

definition wrap32 :: "int \<Rightarrow> int" where
  "wrap32 i = (i + 2 ^ 31) mod 2 ^ 32 - 2 ^ 31"

definition digit :: "nat \<Rightarrow> char" where
  "digit d = char_of (48 + d)"

fun itoa :: "nat \<Rightarrow> string" where
  "itoa n = (if n < 10 then [digit n] else itoa (n div 10) @ [digit (n mod 10)])"

declare itoa.simps [simp del]

definition HasPrefix :: "string \<Rightarrow> string \<Rightarrow> bool" where
  "HasPrefix s p \<longleftrightarrow> take (length p) s = p"

subsection \<open>Lists indexed by the program's integers\<close>

definition in_range :: "int \<Rightarrow> 'a list \<Rightarrow> bool" where
  "in_range i xs \<longleftrightarrow> 0 \<le> i \<and> i < int (length xs)"

definition removeSegment :: "'a list \<Rightarrow> 'a \<Rightarrow> 'a list" where
  "removeSegment xs x = filter (\<lambda>y. y \<noteq> x) xs"

subsection \<open>Lemmas on maps and sets\<close>

lemma map_of_map_vals [simp]: "map_of (map_vals f m) k = map_option f (map_of m k)"
  by (induction m) (auto simp: map_vals_def)

lemma map_fst_map_vals [simp]: "map fst (map_vals f m) = map fst m"
  by (induction m) (auto simp: map_vals_def)

lemma map_fst_entry [simp]: "map (fst \<circ> (\<lambda>(k, v). (k, g k v))) m = map fst m"
  by (induction m) auto

lemma set_map_vals: "set (map_vals f m) = (\<lambda>(k, v). (k, f v)) ` set m"
  by (simp add: map_vals_def)

lemma map_vals_id [simp]: "map_vals (\<lambda>x. x) m = m"
  by (simp add: map_vals_def)

lemma map_vals_comp: "map_vals f (map_vals g m) = map_vals (f \<circ> g) m"
  by (simp add: map_vals_def comp_def split_def)

lemma map_vals_cong: "(\<And>k v. (k, v) \<in> set m \<Longrightarrow> f v = g v) \<Longrightarrow> map_vals f m = map_vals g m"
  by (auto simp: map_vals_def)

lemma map_vals_idI: "(\<And>k v. (k, v) \<in> set m \<Longrightarrow> f v = v) \<Longrightarrow> map_vals f m = m"
  using map_vals_cong [of m f "\<lambda>x. x"] by simp

lemma set_set_add [simp]: "set (set_add k s) = insert k (set s)"
  by (auto simp: set_add_def)

lemma set_set_del [simp]: "set (set_del k s) = set s - {k}"
  by (simp add: set_del_def)

lemma distinct_set_add [simp]: "distinct (set_add k s) = distinct s"
  by (simp add: set_add_def)

lemma distinct_set_del [simp]: "distinct s \<Longrightarrow> distinct (set_del k s)"
  by (simp add: set_del_def distinct_removeAll)

lemma set_del_notin [simp]: "k \<notin> set s \<Longrightarrow> set_del k s = s"
  by (simp add: set_del_def)

lemma set_removeSegment [simp]: "set (removeSegment xs x) = set xs - {x}"
  by (auto simp: removeSegment_def)

lemma distinct_removeSegment [simp]: "distinct xs \<Longrightarrow> distinct (removeSegment xs x)"
  by (simp add: removeSegment_def)

lemma removeSegment_notin [simp]: "x \<notin> set xs \<Longrightarrow> removeSegment xs x = xs"
  by (simp add: removeSegment_def filter_id_conv) (metis)

lemma map_of_update_iff: "map_of (AList.update k v m) k' = (if k' = k then Some v else map_of m k')"
  by (simp add: AList.update_conv')

lemma map_of_delete_iff: "map_of (AList.delete k m) k' = (if k' = k then None else map_of m k')"
  by (simp add: AList.delete_conv')

lemma distinct_fst_update [simp]:
  "distinct (map fst m) \<Longrightarrow> distinct (map fst (AList.update k v m))"
  by (rule AList.distinct_update)

lemma distinct_fst_delete [simp]:
  "distinct (map fst m) \<Longrightarrow> distinct (map fst (AList.delete k m))"
  by (rule AList.distinct_delete)

lemma map_of_in_set: "distinct (map fst m) \<Longrightarrow> map_of m k = Some v \<longleftrightarrow> (k, v) \<in> set m"
  by simp

lemma set_update_iff:
  "distinct (map fst m) \<Longrightarrow>
   (k', v') \<in> set (AList.update k v m) \<longleftrightarrow> (if k' = k then v' = v else (k', v') \<in> set m)"
  by (metis AList.distinct_update map_of_update_iff map_of_eq_Some_iff option.inject)

lemma set_update_subset:
  "set (AList.update k v m) \<subseteq> insert (k, v) (set m)"
  by (induction m) auto

lemma snd_set_update: "snd ` set (AList.update k v m) \<subseteq> insert v (snd ` set m)"
  by (induction m) auto

lemma set_delete_iff: "(k', v') \<in> set (AList.delete k m) \<longleftrightarrow> k' \<noteq> k \<and> (k', v') \<in> set m"
  by (auto simp: AList.delete_eq)

lemmas map_simps = map_of_update_iff map_of_delete_iff

subsection \<open>Lemmas on text\<close>

lemma digit_inj: "digit a = digit b \<Longrightarrow> a < 10 \<Longrightarrow> b < 10 \<Longrightarrow> a = b"
proof -
  assume "digit a = digit b" "a < 10" "b < 10"
  then have "of_char (digit a) = (of_char (digit b) :: nat)" by simp
  with \<open>a < 10\<close> \<open>b < 10\<close> show "a = b" by (simp add: digit_def)
qed

lemma digit_neq_slash: "d < 10 \<Longrightarrow> digit d \<noteq> CHR ''/''"
proof
  assume "d < 10" "digit d = CHR ''/''"
  then have "of_char (digit d) = (of_char (CHR ''/'') :: nat)" by simp
  with \<open>d < 10\<close> show False by (simp add: digit_def)
qed

lemma itoa_nonempty [simp]: "itoa n \<noteq> []" "[] \<noteq> itoa n"
  by (subst itoa.simps, simp)+

lemma itoa_no_slash: "CHR ''/'' \<notin> set (itoa n)"
proof (induction n rule: itoa.induct)
  case (1 n)
  then show ?case
    by (subst itoa.simps) (auto dest: digit_neq_slash [rotated] simp: digit_neq_slash [symmetric])
qed

lemma itoa_inj: "itoa m = itoa n \<Longrightarrow> m = n"
proof (induction m arbitrary: n rule: itoa.induct)
  case (1 m)
  show ?case
  proof (cases "m < 10 \<or> n < 10")
    case True
    have "m < 10 \<and> n < 10"
    proof (rule ccontr)
      assume "\<not> (m < 10 \<and> n < 10)"
      with True 1(2) show False
        by (auto simp: itoa.simps [of m] itoa.simps [of n] split: if_splits)
    qed
    with 1(2) show ?thesis
      by (auto simp: itoa.simps [of m] itoa.simps [of n] dest: digit_inj)
  next
    case False
    then have "itoa (m div 10) = itoa (n div 10)" "digit (m mod 10) = digit (n mod 10)"
      using 1(2) by (auto simp: itoa.simps [of m] itoa.simps [of n])
    then have "m div 10 = n div 10" "m mod 10 = n mod 10"
      using 1(1) False by (auto dest: digit_inj)
    then show ?thesis by (metis div_mult_mod_eq)
  qed
qed

text \<open>Splitting a text at the first occurrence of a separator is unambiguous.\<close>

lemma split_at_sep:
  "xs @ c # ys = xs' @ c # ys' \<Longrightarrow> c \<notin> set xs \<Longrightarrow> c \<notin> set xs' \<Longrightarrow> xs = xs' \<and> ys = ys'"
proof (induction xs arbitrary: xs')
  case Nil
  then show ?case by (cases xs') auto
next
  case (Cons a xs)
  then show ?case by (cases xs') auto
qed

lemma wrap32_id: "- (2 ^ 31) \<le> i \<Longrightarrow> i < 2 ^ 31 \<Longrightarrow> wrap32 i = i"
  by (simp add: wrap32_def)

lemma wrap32_range: "- (2 ^ 31) \<le> wrap32 i \<and> wrap32 i < 2 ^ 31"
proof -
  have "0 \<le> (i + 2 ^ 31) mod 2 ^ 32" "(i + 2 ^ 31) mod 2 ^ 32 < (2 ^ 32 :: int)"
    by (simp_all)
  then show ?thesis by (simp add: wrap32_def)
qed

text \<open>ASCII white space.\<close>

definition is_space :: "char \<Rightarrow> bool" where
  "is_space c \<longleftrightarrow> c = CHR '' '' \<or> 9 \<le> (of_char c :: nat) \<and> (of_char c :: nat) \<le> 13"

end
