(* ===== verification/Graph.thy ===== *)
theory Graph
  imports Prelude
begin

text \<open>
  The vocabulary of a workload graph, after \<^verbatim>\<open>api/graph/graph.go\<close>: the channels between
  operations, how records are partitioned across them, when they are delivered, whether they
  are kept, and how a cycle iterates.

  An enumeration of the source is a string type with an empty zero value; its model has one
  constructor per declared constant and, where the code tests for the zero value, one for the
  empty string.
\<close>

datatype PartitioningMode = PartitionUnset | PartitionHash | PartitionRoundRobin | PartitionBroadcast

datatype Delivery = DeliveryPipelined | DeliveryMaterialized

datatype Durability = DurabilityEphemeral | DurabilityRetained

datatype CombineMode = CombineNone | CombineSum | CombineMin | CombineMax | CombineCount

definition Idempotent :: "CombineMode \<Rightarrow> bool" where
  "Idempotent c \<longleftrightarrow> c = CombineMin \<or> c = CombineMax"

record Partitioning =
  p_mode :: PartitioningMode
  p_partitions :: int

datatype FeedbackMode = FeedbackUnset | FeedbackSynchronous | FeedbackAsynchronous

record Feedback =
  f_mode :: FeedbackMode
  f_maxEpochs :: int
  f_overflow :: string

record Channel =
  ch_name :: string
  ch_from :: string
  ch_to :: string
  ch_partitioning :: Partitioning
  ch_delivery :: Delivery
  ch_durability :: Durability
  ch_combine :: CombineMode
  ch_feedback :: "Feedback option"

end
