(* ===== verification/Api.thy ===== *)
theory Api
  imports Graph
begin

text \<open>
  The wire types of the coordinator protocol, after \<^verbatim>\<open>pkg/coordinator/api.go\<close>, and the JSON
  values records carry. A number keeps its literal text, as \<^verbatim>\<open>decoder.UseNumber\<close> makes it;
  an object is the list of its members.
\<close>

datatype json =
    JNull | JBool bool | JNumber string | JString string
  | JArray "json list" | JObject "(string \<times> json) list"

text \<open>
  \<^verbatim>\<open>json.Marshal\<close> writes the members of a map in key order, so two values marshal to the
  same bytes when they agree after sorting the members of every object.
\<close>

fun canon :: "json \<Rightarrow> json" where
  "canon (JArray xs) = JArray (map canon xs)"
| "canon (JObject kvs) = JObject (sort_key fst (map (\<lambda>(k, v). (k, canon v)) kvs))"
| "canon v = v"

definition sameJSONValue :: "json \<Rightarrow> json \<Rightarrow> bool" where
  "sameJSONValue a b \<longleftrightarrow> canon a = canon b"

record Record =
  r_key :: string
  r_value :: json
  r_epoch :: int

record OperationSpec =
  os_name :: string
  os_replicas :: int

record PodRegistration =
  reg_operation :: string
  reg_pod :: string
  reg_incarnation :: string
  reg_addr :: string
  reg_slots :: int

record TaskID =
  t_channel :: string
  t_partition :: int
  t_epoch :: int
  t_attempt :: int

record SegmentAnnouncement =
  a_id :: string
  a_appendID :: string
  a_channel :: string
  a_partition :: int
  a_epoch :: int
  a_records :: int
  a_bytes :: int
  a_holder :: string
  a_producer :: string
  a_durable :: bool
  a_task :: TaskID
  a_overflowed :: int

record SegmentRef =
  ref_id :: string
  ref_appendID :: string
  ref_holder :: string
  ref_records :: int
  ref_bytes :: int
  ref_epoch :: int
  ref_offset :: int

record AppendBatch =
  ab_appendID :: string
  ab_partition :: int
  ab_records :: "Record list"

record PartitionPosition =
  pp_partition :: int
  pp_offset :: int

record SubscriptionAck =
  sa_partition :: int
  sa_offset :: int
  sa_appendID :: string

record PartitionWork =
  w_partition :: int
  w_segments :: "SegmentRef list"

record ConsumeResponse =
  resp_work :: "PartitionWork list"
  resp_sealed :: bool
  resp_drained :: bool
  resp_epoch :: int
  resp_quiescent :: bool
  resp_productionClosed :: bool
  resp_finiteEpochs :: bool
  resp_maxEpochs :: int
  resp_mode :: FeedbackMode

record SegmentAck =
  k_id :: string
  k_appendID :: string
  k_holder :: string
  k_pod :: string
  k_failure :: string
  k_retryAfterMillis :: int

record ChannelMetrics =
  cm_name :: string
  cm_from :: string
  cm_to :: string
  cm_sealed :: bool
  cm_pending :: int
  cm_inFlight :: int
  cm_produced :: int
  cm_epoch :: int
  cm_overflowed :: int
  cm_lost :: int
  cm_productionClosed :: bool
  cm_acknowledged :: int
  cm_latestDeliveryFailure :: string
  cm_pendingByPartition :: "int list"

record OperationMetrics =
  om_name :: string
  om_runnableTasks :: int
  om_complete :: bool
  om_holdsUnconsumed :: bool
  om_livePods :: int

record Metrics =
  m_channels :: "ChannelMetrics list"
  m_operations :: "OperationMetrics list"

text \<open>\<^verbatim>\<open>sameRecords\<close> compares two batches record by record.\<close>

definition sameRecords :: "Record list \<Rightarrow> Record list \<Rightarrow> bool" where
  "sameRecords a b \<longleftrightarrow>
     length a = length b \<and>
     list_all2 (\<lambda>x y. r_key x = r_key y \<and> r_epoch x = r_epoch y
                    \<and> sameJSONValue (r_value x) (r_value y)) a b"

lemma sameJSONValue_refl [simp]: "sameJSONValue a a"
  by (simp add: sameJSONValue_def)

lemma sameRecords_refl [simp]: "sameRecords rs rs"
  by (simp add: sameRecords_def list_all2_refl)

end
