(* ===== verification/Ownership.thy ===== *)
theory Ownership
  imports Api
begin

text \<open>
  Worker pods, the per-operation registry, and hash-partition ownership, after
  \<^verbatim>\<open>pod\<close>, \<^verbatim>\<open>operation\<close>, \<^verbatim>\<open>balanceHash\<close>, \<^verbatim>\<open>HashPartition\<close> and the key functions of
  \<^verbatim>\<open>pkg/coordinator/coordinator.go\<close>.

  \<^verbatim>\<open>balanceHash\<close> keeps every pinned partition with its live owner and hands the other
  partitions out, least loaded pod first. Shown here: every partition gets a live owner, a
  pinned partition with a live owner never moves, no other partition count is touched, the
  result is a fixed point, and loads stay within one of each other when nothing is pinned.
\<close>

unbundle bit_operations_syntax

record pod =
  p_name :: string
  p_op :: string
  p_addr :: string
  p_slots :: int
  p_lastSeen :: int
  p_done :: bool
  p_incarnation :: string
  p_cohortSlot :: nat

record operation =
  o_pods :: "(string, pod) gomap"
  o_epochDone :: "(string, int) gomap"
  o_owner :: "(string, string) gomap"
  o_pinned :: "string goset"
  o_replicas :: int
  o_retired :: "(string, string goset) gomap"
  o_nextCohortSlot :: nat
  o_freeCohortSlots :: "nat list"
  o_completed :: bool

definition new_operation :: operation where
  "new_operation = \<lparr>o_pods = [], o_epochDone = [], o_owner = [], o_pinned = [], o_replicas = 0,
     o_retired = [], o_nextCohortSlot = 0, o_freeCohortSlots = [], o_completed = False\<rparr>"

subsection \<open>Keys\<close>

definition liveIDs :: "operation \<Rightarrow> string list" where
  "liveIDs o1 = sort (map fst (o_pods o1))"

definition ownerKey :: "nat \<Rightarrow> nat \<Rightarrow> string" where
  "ownerKey partitions p = itoa partitions @ ''/'' @ itoa p"

definition deliveryKey :: "string \<Rightarrow> string \<Rightarrow> string" where
  "deliveryKey podName incarnation = podName @ [CHR 0x00] @ incarnation"

definition deliveryPod :: "string \<Rightarrow> string" where
  "deliveryPod key = takeWhile (\<lambda>c. c \<noteq> CHR 0x00) key"

definition cohortKey :: "pod \<Rightarrow> string" where
  "cohortKey p = ''slot:'' @ itoa (p_cohortSlot p)"

subsection \<open>Hash partitioning\<close>

text \<open>\<^verbatim>\<open>hash/fnv\<close>'s 32-bit FNV-1a over the bytes of the key.\<close>

definition fnv32a :: "string \<Rightarrow> 32 word" where
  "fnv32a key = fold (\<lambda>c h. (h XOR of_char c) * 16777619) key 2166136261"

text \<open>
  The number of partitions is positive wherever the code calls \<^verbatim>\<open>HashPartition\<close>; with zero
  partitions the division panics.
\<close>

definition HashPartition :: "string \<Rightarrow> int \<Rightarrow> int" where
  "HashPartition key partitions = uint (fnv32a key mod (word_of_int partitions))"

subsection \<open>Balancing\<close>

text \<open>
  The first loop of \<^verbatim>\<open>balanceHash\<close>: drop entries of dead owners, count pinned partitions as
  load of their owner, and collect the rest. \<open>load\<close> is the map of the code with its zero
  default.
\<close>

fun balance_scan ::
  "string list \<Rightarrow> nat \<Rightarrow> nat list \<Rightarrow> operation \<times> (string \<Rightarrow> nat) \<times> nat list
     \<Rightarrow> operation \<times> (string \<Rightarrow> nat) \<times> nat list" where
  "balance_scan ids n [] st = st"
| "balance_scan ids n (p # ps) (o1, load, free) =
     (let k = ownerKey n p in
      case map_of (o_owner o1) k of
        None \<Rightarrow> balance_scan ids n ps (o1, load, free @ [p])
      | Some own \<Rightarrow>
          if own \<notin> set ids then
            balance_scan ids n ps
              (o1\<lparr>o_owner := AList.delete k (o_owner o1), o_pinned := set_del k (o_pinned o1)\<rparr>,
               load, free @ [p])
          else if k \<in> set (o_pinned o1) then
            balance_scan ids n ps (o1, load(own := load own + 1), free)
          else balance_scan ids n ps (o1, load, free @ [p]))"

definition least_loaded :: "(string \<Rightarrow> nat) \<Rightarrow> string list \<Rightarrow> string" where
  "least_loaded load ids =
     fold (\<lambda>id best. if load id < load best then id else best) (tl ids) (hd ids)"

fun balance_assign ::
  "string list \<Rightarrow> nat \<Rightarrow> nat list \<Rightarrow> (string \<Rightarrow> nat) \<Rightarrow> (string, string) gomap
     \<Rightarrow> (string, string) gomap" where
  "balance_assign ids n [] load own = own"
| "balance_assign ids n (p # ps) load own =
     (let best = least_loaded load ids in
      balance_assign ids n ps (load(best := load best + 1))
        (AList.update (ownerKey n p) best own))"

definition balanceHash :: "operation \<Rightarrow> nat \<Rightarrow> operation" where
  "balanceHash o1 n =
     (let ids = liveIDs o1 in
      if ids = [] then o1
      else
        (let (o2, load, free) = balance_scan ids n [0..<n] (o1, (\<lambda>_. 0), [])
         in o2\<lparr>o_owner := balance_assign ids n free load (o_owner o2)\<rparr>))"

subsection \<open>Keys are unambiguous\<close>

lemma ownerKey_inj [simp]: "ownerKey n p = ownerKey n' p' \<longleftrightarrow> n = n' \<and> p = p'"
proof
  assume "ownerKey n p = ownerKey n' p'"
  then have "itoa n @ CHR ''/'' # itoa p = itoa n' @ CHR ''/'' # itoa p'"
    by (simp add: ownerKey_def)
  then have "itoa n = itoa n' \<and> itoa p = itoa p'"
    by (rule split_at_sep) (rule itoa_no_slash)+
  then show "n = n' \<and> p = p'" by (auto dest: itoa_inj)
qed auto

lemma cohortKey_inj: "cohortKey p = cohortKey q \<longleftrightarrow> p_cohortSlot p = p_cohortSlot q"
  by (auto simp: cohortKey_def dest: itoa_inj)

lemma deliveryPod_deliveryKey:
  assumes "CHR 0x00 \<notin> set podName"
  shows "deliveryPod (deliveryKey podName incarnation) = podName"
proof -
  have "c \<noteq> CHR 0x00" if "c \<in> set podName" for c
    using that assms by metis
  then show ?thesis
    by (simp add: deliveryPod_def deliveryKey_def takeWhile_append2)
qed

lemma deliveryKey_inj:
  assumes "CHR 0x00 \<notin> set p" and "CHR 0x00 \<notin> set p'"
  shows "deliveryKey p i = deliveryKey p' i' \<longleftrightarrow> p = p' \<and> i = i'"
  using split_at_sep [of p "CHR 0x00" i p' i'] assms by (auto simp: deliveryKey_def)

subsection \<open>Hash partitions are in range\<close>

lemma HashPartition_nonneg: "0 \<le> HashPartition key n"
  by (simp add: HashPartition_def)

lemma HashPartition_less:
  assumes "0 < n" and "n < 2 ^ 32"
  shows "HashPartition key n < n"
proof -
  have u: "uint (word_of_int n :: 32 word) = n"
    using assms by (simp add: uint_word_of_int)
  then have "uint (fnv32a key mod word_of_int n) = uint (fnv32a key) mod n"
    by (simp add: uint_mod)
  with assms show ?thesis by (simp add: HashPartition_def)
qed

subsection \<open>The least loaded pod\<close>

lemma fold_least:
  "(let r = fold (\<lambda>id best. if load id < load best then id else best) xs b in
     r \<in> insert b (set xs) \<and> (\<forall>x \<in> insert b (set xs). (load r :: nat) \<le> load x))"
proof (induction xs arbitrary: b)
  case (Cons x xs)
  show ?case
    using Cons.IH [of "if load x < load b then x else b"] by (auto simp: Let_def split: if_splits)
qed simp

lemma least_loaded_in: "ids \<noteq> [] \<Longrightarrow> least_loaded load ids \<in> set ids"
  using fold_least [of load "tl ids" "hd ids"] by (cases ids) (auto simp: least_loaded_def Let_def)

lemma least_loaded_le: "w \<in> set ids \<Longrightarrow> load (least_loaded load ids) \<le> load w"
  using fold_least [of load "tl ids" "hd ids"] by (cases ids) (auto simp: least_loaded_def Let_def)

subsection \<open>The scan\<close>

text \<open>\<open>kept\<close>: the partition is pinned to a live owner, so it stays where it is.\<close>

definition kept :: "string list \<Rightarrow> nat \<Rightarrow> operation \<Rightarrow> nat \<Rightarrow> bool" where
  "kept ids n o1 p \<longleftrightarrow>
     (case map_of (o_owner o1) (ownerKey n p) of
        None \<Rightarrow> False
      | Some own \<Rightarrow> own \<in> set ids \<and> ownerKey n p \<in> set (o_pinned o1))"

definition dead :: "string list \<Rightarrow> nat \<Rightarrow> operation \<Rightarrow> nat \<Rightarrow> bool" where
  "dead ids n o1 p \<longleftrightarrow>
     (case map_of (o_owner o1) (ownerKey n p) of None \<Rightarrow> False | Some own \<Rightarrow> own \<notin> set ids)"

definition kept_load :: "string list \<Rightarrow> nat \<Rightarrow> operation \<Rightarrow> nat list \<Rightarrow> string \<Rightarrow> nat" where
  "kept_load ids n o1 ps w =
     length (filter (\<lambda>p. kept ids n o1 p \<and> map_of (o_owner o1) (ownerKey n p) = Some w) ps)"

definition drop_dead :: "string list \<Rightarrow> nat \<Rightarrow> nat list \<Rightarrow> operation \<Rightarrow> operation" where
  "drop_dead ids n ps o1 =
     (let ks = map (ownerKey n) (filter (dead ids n o1) ps) in
      o1\<lparr>o_owner := filter (\<lambda>(k, _). k \<notin> set ks) (o_owner o1),
         o_pinned := filter (\<lambda>k. k \<notin> set ks) (o_pinned o1)\<rparr>)"

lemma map_of_filter_key: "map_of (filter (\<lambda>(k, _). P k) m) k = (if P k then map_of m k else None)"
  by (induction m) auto

lemma kept_delete_other:
  "q \<noteq> p \<Longrightarrow>
   kept ids n (o1\<lparr>o_owner := AList.delete (ownerKey n q) (o_owner o1),
                  o_pinned := set_del (ownerKey n q) (o_pinned o1)\<rparr>) p = kept ids n o1 p"
  "q \<noteq> p \<Longrightarrow>
   dead ids n (o1\<lparr>o_owner := AList.delete (ownerKey n q) (o_owner o1),
                  o_pinned := set_del (ownerKey n q) (o_pinned o1)\<rparr>) p = dead ids n o1 p"
  by (simp_all add: kept_def dead_def map_of_delete_iff split: option.split)

lemma balance_scan_eq:
  "distinct ps \<Longrightarrow>
   balance_scan ids n ps (o1, load, free) =
     (drop_dead ids n ps o1, (\<lambda>w. load w + kept_load ids n o1 ps w),
      free @ filter (\<lambda>p. \<not> kept ids n o1 p) ps)"
proof (induction ps arbitrary: o1 load free)
  case Nil
  then show ?case by (simp add: drop_dead_def kept_load_def)
next
  case (Cons p ps)
  let ?k = "ownerKey n p"
  let ?d = "o1\<lparr>o_owner := AList.delete ?k (o_owner o1), o_pinned := set_del ?k (o_pinned o1)\<rparr>"
  have p: "p \<notin> set ps" and d: "distinct ps" using Cons.prems by auto
  consider (none) "map_of (o_owner o1) ?k = None"
    | (dead) own where "map_of (o_owner o1) ?k = Some own" "own \<notin> set ids"
    | (pin) own where "map_of (o_owner o1) ?k = Some own" "own \<in> set ids" "?k \<in> set (o_pinned o1)"
    | (free) own where "map_of (o_owner o1) ?k = Some own" "own \<in> set ids" "?k \<notin> set (o_pinned o1)"
    by (cases "map_of (o_owner o1) ?k") auto
  then show ?case
  proof cases
    case dead
    have k: "kept ids n ?d q = kept ids n o1 q" "dead ids n ?d q = dead ids n o1 q"
      "map_of (o_owner ?d) (ownerKey n q) = map_of (o_owner o1) (ownerKey n q)"
      if "q \<in> set ps" for q
    proof -
      have "p \<noteq> q" using that p by auto
      then show "kept ids n ?d q = kept ids n o1 q" "dead ids n ?d q = dead ids n o1 q"
        "map_of (o_owner ?d) (ownerKey n q) = map_of (o_owner o1) (ownerKey n q)"
        by (simp_all add: kept_delete_other map_of_delete_iff)
    qed
    have same: "filter (\<lambda>q. \<not> kept ids n ?d q) ps = filter (\<lambda>q. \<not> kept ids n o1 q) ps"
      "filter (dead ids n ?d) ps = filter (dead ids n o1) ps"
      "kept_load ids n ?d ps = kept_load ids n o1 ps"
      unfolding kept_load_def using p
      by (auto intro!: ext arg_cong [of _ _ length] filter_cong simp: k map_of_delete_iff)
    have nk: "\<not> kept ids n o1 p" "dead ids n o1 p"
      using dead by (auto simp: kept_def dead_def)
    let ?ks = "ownerKey n ` {q \<in> set ps. dead ids n o1 q}"
    have "filter (\<lambda>(k, _). k \<notin> ?ks) (AList.delete ?k (o_owner o1)) =
        filter (\<lambda>(k, _). k \<noteq> ?k \<and> k \<notin> ?ks) (o_owner o1)"
      "filter (\<lambda>k. k \<notin> ?ks) (set_del ?k (o_pinned o1)) =
        filter (\<lambda>k. k \<noteq> ?k \<and> k \<notin> ?ks) (o_pinned o1)"
      by (auto simp: AList.delete_eq set_del_def removeAll_filter_not_eq intro!: filter_cong)
    then have dd: "drop_dead ids n ps ?d = drop_dead ids n (p # ps) o1"
      using nk unfolding drop_dead_def same by (simp add: Let_def)
    have kc: "kept_load ids n o1 (p # ps) = kept_load ids n o1 ps"
      using nk by (auto simp: kept_load_def)
    show ?thesis
      using dead nk by (simp add: Cons.IH [OF d] dd kc same)
  qed (auto simp: Cons.IH [OF d] kept_def dead_def drop_dead_def kept_load_def fun_eq_iff)
qed

lemma liveIDs_drop_dead [simp]: "liveIDs (drop_dead ids n ps o1) = liveIDs o1"
  by (simp add: liveIDs_def drop_dead_def)

lemma balanceHash_eq:
  "liveIDs o1 \<noteq> [] \<Longrightarrow>
   balanceHash o1 n =
     (let ids = liveIDs o1; o2 = drop_dead ids n [0..<n] o1 in
      o2\<lparr>o_owner := balance_assign ids n (filter (\<lambda>p. \<not> kept ids n o1 p) [0..<n])
            (kept_load ids n o1 [0..<n]) (o_owner o2)\<rparr>)"
  by (simp add: balanceHash_def balance_scan_eq Let_def)

subsection \<open>The assignment of free partitions\<close>

text \<open>The owners \<open>balance_assign\<close> chooses, in the order it assigns the free partitions.\<close>

fun choices :: "string list \<Rightarrow> (string \<Rightarrow> nat) \<Rightarrow> nat list \<Rightarrow> (nat \<times> string) list" where
  "choices ids load [] = []"
| "choices ids load (p # ps) =
     (let best = least_loaded load ids in (p, best) # choices ids (load(best := load best + 1)) ps)"

definition put_owner :: "nat \<Rightarrow> nat \<times> string \<Rightarrow> (string, string) gomap \<Rightarrow> (string, string) gomap" where
  "put_owner n = (\<lambda>(p, w) own. AList.update (ownerKey n p) w own)"

lemma put_owner_simp [simp]: "put_owner n (p, w) own = AList.update (ownerKey n p) w own"
  by (simp add: put_owner_def)

lemma balance_assign_choices:
  "balance_assign ids n ps load own = fold (put_owner n) (choices ids load ps) own"
  by (induction ps arbitrary: load own) (simp_all add: Let_def)

lemma map_fst_choices [simp]: "map fst (choices ids load ps) = ps"
  by (induction ps arbitrary: load) (simp_all add: Let_def)

lemma choices_live: "ids \<noteq> [] \<Longrightarrow> (p, w) \<in> set (choices ids load ps) \<Longrightarrow> w \<in> set ids"
  by (induction ps arbitrary: load) (auto simp: Let_def least_loaded_in)

lemma map_of_fold_put_owner:
  "distinct (map fst cs) \<Longrightarrow>
   map_of (fold (put_owner n) cs own) (ownerKey m p) =
     (if m = n then (case map_of cs p of Some w \<Rightarrow> Some w | None \<Rightarrow> map_of own (ownerKey m p))
      else map_of own (ownerKey m p))"
proof (induction cs arbitrary: own)
  case (Cons c cs)
  obtain q w where c: "c = (q, w)" by force
  have "map_of cs q = None" using Cons.prems by (simp add: c map_of_eq_None_iff)
  with Cons show ?case by (auto simp: c map_of_update_iff split: option.split)
qed auto

lemma map_of_fold_put_owner_other:
  "(\<And>p. k \<noteq> ownerKey n p) \<Longrightarrow> map_of (fold (put_owner n) cs own) k = map_of own k"
  by (induction cs arbitrary: own) (auto simp: map_of_update_iff)

lemma fold_put_owner_triv:
  "(\<And>p w. (p, w) \<in> set cs \<Longrightarrow> map_of own (ownerKey n p) = Some w) \<Longrightarrow>
   fold (put_owner n) cs own = own"
  by (induction cs arbitrary: own) (auto simp: AList.update_triv)

text \<open>Greedy assignment keeps loads within one of each other.\<close>

lemma choices_balanced:
  assumes "ids \<noteq> []" and "\<forall>a \<in> set ids. \<forall>b \<in> set ids. load a \<le> load b + 1"
  shows "\<forall>a \<in> set ids. \<forall>b \<in> set ids.
     load a + length (filter (\<lambda>c. snd c = a) (choices ids load ps))
       \<le> load b + length (filter (\<lambda>c. snd c = b) (choices ids load ps)) + 1"
  using assms
proof (induction ps arbitrary: load)
  case (Cons p ps)
  let ?w = "least_loaded load ids"
  let ?l = "load(?w := load ?w + 1)"
  have "?l a \<le> ?l b + 1" if "a \<in> set ids" "b \<in> set ids" for a b
    using Cons.prems(2) that least_loaded_le [of b ids load] by (auto intro: le_SucI)
  then have "\<forall>a \<in> set ids. \<forall>b \<in> set ids.
     ?l a + length (filter (\<lambda>c. snd c = a) (choices ids ?l ps))
       \<le> ?l b + length (filter (\<lambda>c. snd c = b) (choices ids ?l ps)) + 1"
    using Cons.IH [of ?l] Cons.prems by blast
  moreover have "load a + length (filter (\<lambda>c. snd c = a) (choices ids load (p # ps)))
      = ?l a + length (filter (\<lambda>c. snd c = a) (choices ids ?l ps))" for a
    by (simp add: Let_def)
  ultimately show ?case by (simp only:) 
qed simp

subsection \<open>What balancing achieves\<close>

text \<open>The free partitions of a balancing round and the owners it chooses for them.\<close>

definition free_parts :: "operation \<Rightarrow> nat \<Rightarrow> nat list" where
  "free_parts o1 n = filter (\<lambda>p. \<not> kept (liveIDs o1) n o1 p) [0..<n]"

definition round_choices :: "operation \<Rightarrow> nat \<Rightarrow> (nat \<times> string) list" where
  "round_choices o1 n =
     choices (liveIDs o1) (kept_load (liveIDs o1) n o1 [0..<n]) (free_parts o1 n)"

lemma balanceHash_choices:
  "liveIDs o1 \<noteq> [] \<Longrightarrow>
   balanceHash o1 n =
     (drop_dead (liveIDs o1) n [0..<n] o1)
       \<lparr>o_owner := fold (put_owner n) (round_choices o1 n)
          (o_owner (drop_dead (liveIDs o1) n [0..<n] o1))\<rparr>"
  by (simp add: balanceHash_eq Let_def balance_assign_choices round_choices_def free_parts_def)

lemma balanceHash_frame [simp]:
  "o_pods (balanceHash o1 n) = o_pods o1"
  "o_epochDone (balanceHash o1 n) = o_epochDone o1"
  "o_replicas (balanceHash o1 n) = o_replicas o1"
  "o_retired (balanceHash o1 n) = o_retired o1"
  "o_nextCohortSlot (balanceHash o1 n) = o_nextCohortSlot o1"
  "o_freeCohortSlots (balanceHash o1 n) = o_freeCohortSlots o1"
  "o_completed (balanceHash o1 n) = o_completed o1"
  by (simp_all add: balanceHash_def balance_scan_eq drop_dead_def Let_def)

lemma liveIDs_balanceHash [simp]: "liveIDs (balanceHash o1 n) = liveIDs o1"
  by (simp add: liveIDs_def)

lemma distinct_round_choices: "distinct (map fst (round_choices o1 n))"
  by (simp add: round_choices_def free_parts_def)

lemma fst_round_choices: "fst ` set (round_choices o1 n) = set (free_parts o1 n)"
  by (simp add: round_choices_def flip: set_map)

lemma map_of_drop_dead:
  "map_of (o_owner (drop_dead ids n ps o1)) k =
     (if k \<in> ownerKey n ` {p \<in> set ps. dead ids n o1 p} then None else map_of (o_owner o1) k)"
  by (simp add: drop_dead_def Let_def map_of_filter_key)

lemma owner_balanceHash:
  assumes "liveIDs o1 \<noteq> []" and "p < n"
  shows "map_of (o_owner (balanceHash o1 n)) (ownerKey n p) =
    (if kept (liveIDs o1) n o1 p then map_of (o_owner o1) (ownerKey n p)
     else map_of (round_choices o1 n) p)"
proof (cases "kept (liveIDs o1) n o1 p")
  case True
  then have "p \<notin> fst ` set (round_choices o1 n)"
    by (simp add: fst_round_choices free_parts_def)
  then have "map_of (round_choices o1 n) p = None"
    by (simp add: map_of_eq_None_iff)
  moreover have "\<not> dead (liveIDs o1) n o1 p"
    using True by (auto simp: kept_def dead_def split: option.splits)
  ultimately show ?thesis
    using assms True by (auto simp: balanceHash_choices map_of_fold_put_owner
        distinct_round_choices map_of_drop_dead)
next
  case False
  then have "p \<in> fst ` set (round_choices o1 n)"
    using assms by (simp add: fst_round_choices free_parts_def)
  then obtain w where "map_of (round_choices o1 n) p = Some w"
    by (metis weak_map_of_SomeI imageE prod.collapse)
  then show ?thesis
    using assms False by (simp add: balanceHash_choices map_of_fold_put_owner distinct_round_choices)
qed

lemma round_choices_Some:
  assumes "p < n" and "\<not> kept (liveIDs o1) n o1 p"
  obtains w where "map_of (round_choices o1 n) p = Some w"
proof -
  have "p \<in> fst ` set (round_choices o1 n)"
    using assms by (simp add: fst_round_choices free_parts_def)
  then show thesis by (metis that weak_map_of_SomeI imageE prod.collapse)
qed

lemma balanceHash_live_owner:
  assumes "liveIDs o1 \<noteq> []" and "p < n"
  shows "\<exists>w \<in> set (liveIDs o1). map_of (o_owner (balanceHash o1 n)) (ownerKey n p) = Some w"
proof (cases "kept (liveIDs o1) n o1 p")
  case True
  then show ?thesis
    using assms by (auto simp: owner_balanceHash kept_def split: option.splits)
next
  case False
  then obtain w where w: "map_of (round_choices o1 n) p = Some w"
    using round_choices_Some assms by blast
  then have "w \<in> set (liveIDs o1)"
    using choices_live [OF assms(1)] unfolding round_choices_def by (blast dest: map_of_SomeD)
  with w False assms show ?thesis by (simp add: owner_balanceHash)
qed

lemma balanceHash_pinned_stays:
  assumes "map_of (o_owner o1) (ownerKey n p) = Some w" and "w \<in> set (liveIDs o1)"
    and "ownerKey n p \<in> set (o_pinned o1)" and "p < n"
  shows "map_of (o_owner (balanceHash o1 n)) (ownerKey n p) = Some w"
proof -
  have "liveIDs o1 \<noteq> []" using assms(2) by auto
  with assms show ?thesis by (simp add: owner_balanceHash kept_def)
qed

lemma balanceHash_other_count:
  assumes "m \<noteq> n"
  shows "map_of (o_owner (balanceHash o1 n)) (ownerKey m p) = map_of (o_owner o1) (ownerKey m p)"
proof (cases "liveIDs o1 = []")
  case True
  then show ?thesis by (simp add: balanceHash_def)
next
  case False
  then show ?thesis
    using assms by (auto simp: balanceHash_choices map_of_fold_put_owner distinct_round_choices
        map_of_drop_dead)
qed

text \<open>
  The pinned keys all have an owner: the code pins a key only after it assigned it, and
  deletes both together. Under this invariant balancing twice is balancing once.
\<close>

definition pinned_owned :: "operation \<Rightarrow> bool" where
  "pinned_owned o1 \<longleftrightarrow> (\<forall>k \<in> set (o_pinned o1). map_of (o_owner o1) k \<noteq> None)"

lemma pinned_balanceHash:
  assumes "liveIDs o1 \<noteq> []"
  shows "set (o_pinned (balanceHash o1 n)) =
    set (o_pinned o1) - ownerKey n ` {p. p < n \<and> dead (liveIDs o1) n o1 p}"
  using assms by (auto simp: balanceHash_choices drop_dead_def Let_def)

lemma kept_balanceHash:
  assumes live: "liveIDs o1 \<noteq> []" and pin: "pinned_owned o1" and p: "p < n"
  shows "kept (liveIDs o1) n (balanceHash o1 n) p = kept (liveIDs o1) n o1 p"
proof -
  obtain w where w: "w \<in> set (liveIDs o1)"
    "map_of (o_owner (balanceHash o1 n)) (ownerKey n p) = Some w"
    using balanceHash_live_owner live p by blast
  have "ownerKey n p \<in> set (o_pinned (balanceHash o1 n)) \<longleftrightarrow> kept (liveIDs o1) n o1 p"
    using pin p by (auto simp: pinned_balanceHash live kept_def dead_def pinned_owned_def
        split: option.splits)
  with w show ?thesis by (simp add: kept_def [of _ _ "balanceHash o1 n"])
qed

lemma pinned_owned_balanceHash:
  assumes "pinned_owned o1"
  shows "pinned_owned (balanceHash o1 n)"
proof (cases "liveIDs o1 = []")
  case True
  then show ?thesis using assms by (simp add: balanceHash_def)
next
  case False
  show ?thesis
    unfolding pinned_owned_def
  proof
    fix k assume k: "k \<in> set (o_pinned (balanceHash o1 n))"
    then have o: "map_of (o_owner o1) k \<noteq> None" and
      nd: "k \<notin> ownerKey n ` {p. p < n \<and> dead (liveIDs o1) n o1 p}"
      using assms False by (auto simp: pinned_owned_def pinned_balanceHash)
    show "map_of (o_owner (balanceHash o1 n)) k \<noteq> None"
    proof (cases "\<exists>p. k = ownerKey n p")
      case True
      then obtain p where "k = ownerKey n p" by blast
      with o nd False show ?thesis
        by (auto simp: balanceHash_choices map_of_fold_put_owner distinct_round_choices
            map_of_drop_dead split: option.split)
    next
      case F: False
      with o False show ?thesis
        by (auto simp: balanceHash_choices map_of_fold_put_owner_other map_of_drop_dead)
    qed
  qed
qed

lemma drop_dead_id:
  assumes "\<And>p. p \<in> set ps \<Longrightarrow> \<not> dead ids n o1 p"
  shows "drop_dead ids n ps o1 = o1"
proof -
  have "filter (dead ids n o1) ps = []" using assms by (simp add: filter_empty_conv)
  then show ?thesis by (simp add: drop_dead_def)
qed

lemma round_choices_balanceHash:
  assumes live: "liveIDs o1 \<noteq> []" and pin: "pinned_owned o1"
  shows "round_choices (balanceHash o1 n) n = round_choices o1 n"
proof -
  let ?k = "\<lambda>o'. filter (\<lambda>p. \<not> kept (liveIDs o1) n o' p) [0..<n]"
  have f: "?k (balanceHash o1 n) = ?k o1"
    by (rule filter_cong) (simp_all add: kept_balanceHash live pin)
  have l: "kept_load (liveIDs o1) n (balanceHash o1 n) [0..<n] = kept_load (liveIDs o1) n o1 [0..<n]"
    unfolding kept_load_def
    by (intro ext arg_cong [of _ _ length] filter_cong)
      (auto simp: kept_balanceHash live pin owner_balanceHash)
  show ?thesis by (simp add: round_choices_def free_parts_def f l)
qed

lemma balanceHash_twice:
  assumes "pinned_owned o1"
  shows "balanceHash (balanceHash o1 n) n = balanceHash o1 n"
proof (cases "liveIDs o1 = []")
  case True
  then show ?thesis by (simp add: balanceHash_def)
next
  case live: False
  let ?b = "balanceHash o1 n"
  have nd: "\<not> dead (liveIDs o1) n ?b p" if "p \<in> set [0..<n]" for p
    using that balanceHash_live_owner [OF live, of p n] by (auto simp: dead_def)
  have ow: "map_of (o_owner ?b) (ownerKey n p) = Some w" if "(p, w) \<in> set (round_choices o1 n)" for p w
  proof -
    from that have "map_of (round_choices o1 n) p = Some w" and "p \<in> set (free_parts o1 n)"
      by (auto simp: distinct_round_choices simp flip: fst_round_choices intro: rev_image_eqI)
    then show ?thesis using live by (simp add: owner_balanceHash free_parts_def)
  qed
  have dd: "drop_dead (liveIDs o1) n [0..<n] ?b = ?b"
    by (rule drop_dead_id) (rule nd)
  have rc: "fold (put_owner n) (round_choices o1 n) (o_owner ?b) = o_owner ?b"
    by (rule fold_put_owner_triv) (rule ow)
  show ?thesis
    by (simp add: balanceHash_choices [of ?b] live dd round_choices_balanceHash [OF live assms] rc)
qed

text \<open>How many of the \<open>n\<close> partitions a pod owns.\<close>

definition owned_count :: "operation \<Rightarrow> nat \<Rightarrow> string \<Rightarrow> nat" where
  "owned_count o1 n w =
     length (filter (\<lambda>p. map_of (o_owner o1) (ownerKey n p) = Some w) [0..<n])"

lemma length_filter_snd:
  "distinct (map fst cs) \<Longrightarrow>
   length (filter (\<lambda>c. snd c = w) cs) = length (filter (\<lambda>p. map_of cs p = Some w) (map fst cs))"
proof (induction cs)
  case (Cons c cs)
  obtain k v where c: "c = (k, v)" by force
  have "filter (\<lambda>p. map_of (c # cs) p = Some w) (map fst cs) =
      filter (\<lambda>p. map_of cs p = Some w) (map fst cs)"
    using Cons.prems c by (intro filter_cong) (auto simp: image_iff)
  moreover have "map_of (c # cs) k = Some v" by (simp add: c)
  ultimately show ?case using Cons by (simp add: c)
qed simp

lemma balanceHash_loads:
  assumes live: "liveIDs o1 \<noteq> []" and none: "\<And>p. p < n \<Longrightarrow> ownerKey n p \<notin> set (o_pinned o1)"
    and "a \<in> set (liveIDs o1)" and "b \<in> set (liveIDs o1)"
  shows "owned_count (balanceHash o1 n) n a \<le> owned_count (balanceHash o1 n) n b + 1"
proof -
  have nk: "\<not> kept (liveIDs o1) n o1 p" if "p < n" for p
    using none [OF that] by (auto simp: kept_def split: option.splits)
  then have fp: "free_parts o1 n = [0..<n]" by (simp add: free_parts_def)
  have kl: "kept_load (liveIDs o1) n o1 [0..<n] = (\<lambda>_. 0)"
    using nk by (auto simp: kept_load_def fun_eq_iff)
  let ?cs = "choices (liveIDs o1) (\<lambda>_. 0) [0..<n]"
  have cs: "round_choices o1 n = ?cs" by (simp add: round_choices_def fp kl)
  have cnt: "owned_count (balanceHash o1 n) n w = length (filter (\<lambda>c. snd c = w) ?cs)" for w
    unfolding owned_count_def
    by (simp add: length_filter_snd)
      (auto intro!: arg_cong [of _ _ length] filter_cong simp: owner_balanceHash live nk cs)
  show ?thesis
    using choices_balanced [OF live, of "\<lambda>_. 0" "[0..<n]"] assms(3,4) by (simp add: cnt)
qed

subsection \<open>What the assignment promises\<close>

text \<open>An operation with two live pods whose first of three partitions is pinned.\<close>

definition sample_pod :: "string \<Rightarrow> nat \<Rightarrow> pod" where
  "sample_pod w slot = \<lparr>p_name = w, p_op = ''count'', p_addr = ''10.0.0.1:9000'', p_slots = 1,
     p_lastSeen = 0, p_done = False, p_incarnation = ''i1'', p_cohortSlot = slot\<rparr>"

definition sample_operation :: operation where
  "sample_operation = new_operation\<lparr>o_pods := [(''b'', sample_pod ''b'' 0), (''a'', sample_pod ''a'' 1)],
     o_owner := [(ownerKey 3 0, ''b''), (ownerKey 3 1, ''gone'')], o_pinned := [ownerKey 3 0],
     o_nextCohortSlot := 2\<rparr>"

lemma sample_operation_reads:
  "liveIDs sample_operation = [''a'', ''b'']" "pinned_owned sample_operation"
  "map_of (o_owner sample_operation) (ownerKey 3 0) = Some ''b''"
  "o_pinned sample_operation = [ownerKey 3 0]"
  by (simp_all add: sample_operation_def liveIDs_def new_operation_def pinned_owned_def)

text \<open>
  C22: after balancing, each of the \<open>n\<close> partitions belongs to a live pod; a partition whose
  live owner has been handed work keeps that owner; and the partitions of channels with
  another partition count are not touched.
\<close>

theorem balanceHash_assigns:
  assumes "liveIDs o1 \<noteq> []"
  shows "(\<forall>p < n. \<exists>w \<in> set (liveIDs o1). map_of (o_owner (balanceHash o1 n)) (ownerKey n p) = Some w)
    \<and> (\<forall>p < n. \<forall>w \<in> set (liveIDs o1). map_of (o_owner o1) (ownerKey n p) = Some w
          \<and> ownerKey n p \<in> set (o_pinned o1)
        \<longrightarrow> map_of (o_owner (balanceHash o1 n)) (ownerKey n p) = Some w)
    \<and> (\<forall>m p. m \<noteq> n \<longrightarrow>
        map_of (o_owner (balanceHash o1 n)) (ownerKey m p) = map_of (o_owner o1) (ownerKey m p))"
  using balanceHash_live_owner [OF assms] balanceHash_pinned_stays [of o1] balanceHash_other_count by blast

theorem balanceHash_assigns_witness:
  "map_of (o_owner (balanceHash sample_operation 3)) (ownerKey 3 0) = Some ''b''
   \<and> map_of (o_owner (balanceHash sample_operation 3)) (ownerKey 3 1) \<noteq> Some ''gone''"
proof -
  have live: "liveIDs sample_operation \<noteq> []" by (simp add: sample_operation_reads)
  note a = balanceHash_assigns [OF live, of 3]
  have "map_of (o_owner (balanceHash sample_operation 3)) (ownerKey 3 0) = Some ''b''"
    using a [THEN conjunct2, THEN conjunct1, rule_format, of 0 "''b''"] by (simp add: sample_operation_reads)
  moreover have "map_of (o_owner (balanceHash sample_operation 3)) (ownerKey 3 1) \<noteq> Some ''gone''"
    using a [THEN conjunct1, rule_format, of 1] by (auto simp: sample_operation_reads)
  ultimately show ?thesis ..
qed

text \<open>
  The assignment is a fixed point: balancing again with the same pods and the same pinned
  partitions changes nothing, so ownership does not flap.
\<close>

theorem balanceHash_fixed_point:
  "pinned_owned o1 \<Longrightarrow> balanceHash (balanceHash o1 n) n = balanceHash o1 n"
  by (rule balanceHash_twice)

theorem balanceHash_fixed_point_witness:
  "balanceHash (balanceHash sample_operation 3) 3 = balanceHash sample_operation 3"
  by (rule balanceHash_fixed_point) (rule sample_operation_reads)

text \<open>
  C23: while no partition of a channel is pinned, two live pods differ by at most one partition:
  a pod that registers after the first one receives its share.
\<close>

theorem balanceHash_even:
  assumes "\<forall>p < n. ownerKey n p \<notin> set (o_pinned o1)" and "a \<in> set (liveIDs o1)" and "b \<in> set (liveIDs o1)"
  shows "owned_count (balanceHash o1 n) n a \<le> owned_count (balanceHash o1 n) n b + 1"
  by (rule balanceHash_loads) (use assms in auto)

theorem balanceHash_even_witness:
  "owned_count (balanceHash sample_operation 2) 2 ''a'' \<le> owned_count (balanceHash sample_operation 2) 2 ''b'' + 1"
  by (rule balanceHash_even) (simp_all add: sample_operation_reads)

end
