(* ===== verification/State.thy ===== *)
theory State
  imports Ownership
begin

text \<open>
  The state of the coordinator, after the types \<^verbatim>\<open>segment\<close>, \<^verbatim>\<open>channel\<close>, \<^verbatim>\<open>subscription\<close>
  and \<^verbatim>\<open>Coordinator\<close> of \<^verbatim>\<open>pkg/coordinator/coordinator.go\<close>, and the operations on one channel.

  Aliasing. The code shares one \<^verbatim>\<open>*segment\<close> between a channel's queues, log, in-flight set,
  held list, history and indexes. The model gives each channel a store \<open>c_heap\<close> of its
  segments; a pointer is a position in it, allocation appends to it, and a pointer comparison is
  a comparison of positions. Segments never move between channels.

  Panics. Reading or writing a slice out of range stops a Go request with a run-time panic.
  The channel operations that index a slice set \<open>c_panic\<close> in that case; the rest of the
  channel is meaningless from then on, and the invariant of the development shows that the flag
  stays clear.

  Time. \<open>env_now\<close> is the clock reading of one request, in nanoseconds; the code reads the
  clock several times under its mutex. \<open>env_commit\<close> and \<open>env_put\<close> are the outcomes of
  the durable writer's \<^verbatim>\<open>Commit\<close> and \<^verbatim>\<open>PutImmutable\<close> during the request.
\<close>

definition PodTTL :: int where
  "PodTTL = 20 * 1000000000"

subsection \<open>Segments, subscriptions, channels\<close>

type_synonym sref = nat

record segment =
  s_id :: string
  s_holder :: string
  s_producer :: string
  s_op :: string
  s_channel :: string
  s_part :: int
  s_epoch :: int
  s_records :: int
  s_bytes :: int
  s_durable :: bool
  s_task :: TaskID
  s_appendID :: string
  s_offset :: int
  s_delivered :: "string goset"
  s_acked :: "string goset"
  s_retryAfter :: "(string, int) gomap"
  s_lost :: bool
  s_released :: bool
  s_retentionDeleted :: bool
  s_reported :: bool
  s_data :: "Record list option"

definition key :: "segment \<Rightarrow> string" where
  "key s = s_holder s @ ''/'' @ s_id s"

record subscriptionDelivery =
  d_offset :: int
  d_appendID :: string
  d_owner :: string

record subscription =
  sub_name :: string
  sub_operation :: string
  sub_positions :: "int list"
  sub_inflight :: "(int, subscriptionDelivery) gomap"

record channel =
  c_spec :: Channel
  c_sealed :: bool
  c_produced :: int
  c_overflowed :: int
  c_lost :: int
  c_acknowledged :: int
  c_latestDeliveryFailure :: string
  c_epoch :: int
  c_finiteEpochs :: bool
  c_maxEpochs :: int
  c_productionClosed :: "int goset"
  c_rr :: "64 word"
  c_queues :: "sref list list"
  c_log :: "sref list"
  c_cursor :: "(string, nat) gomap"
  c_inflight :: "(string, sref) gomap"
  c_held :: "sref list"
  c_epochDone :: "(string, int) gomap"
  c_records :: "Record list"
  c_history :: "sref list list"
  c_historyBase :: "int list"
  c_appendIDs :: "(string, sref) gomap"
  c_subscriptions :: "(string, subscription) gomap"
  c_all :: "(string, sref) gomap"
  c_heap :: "segment list"
  c_panic :: bool

definition seg :: "channel \<Rightarrow> sref \<Rightarrow> segment" where
  "seg c r = c_heap c ! r"

definition upd_seg :: "sref \<Rightarrow> (segment \<Rightarrow> segment) \<Rightarrow> channel \<Rightarrow> channel" where
  "upd_seg r f c = c\<lparr>c_heap := (c_heap c)[r := f (seg c r)]\<rparr>"

definition partitions :: "channel \<Rightarrow> int" where
  "partitions c = p_partitions (ch_partitioning (c_spec c))"

definition external :: "channel \<Rightarrow> bool" where
  "external c \<longleftrightarrow> ch_to (c_spec c) = ''''"

definition broadcast :: "channel \<Rightarrow> bool" where
  "broadcast c \<longleftrightarrow> p_mode (ch_partitioning (c_spec c)) = PartitionBroadcast"

definition feedbackMode :: "channel \<Rightarrow> FeedbackMode" where
  "feedbackMode c =
     (case ch_feedback (c_spec c) of
        None \<Rightarrow> FeedbackUnset
      | Some f \<Rightarrow> if f_mode f = FeedbackAsynchronous then FeedbackAsynchronous
                  else FeedbackSynchronous)"

definition synchronous :: "channel \<Rightarrow> bool" where
  "synchronous c \<longleftrightarrow> feedbackMode c = FeedbackSynchronous"

definition retained :: "channel \<Rightarrow> bool" where
  "retained c \<longleftrightarrow> ch_durability (c_spec c) = DurabilityRetained"

subsection \<open>The coordinator\<close>

record coordinator =
  co_channels :: "(string, channel) gomap"
  co_ops :: "(string, operation) gomap"
  co_selfAddr :: string
  co_nextID :: "64 word"
  co_wake :: nat
  co_durable :: bool
  co_tombstoneKeys :: "string goset"
  co_failed :: "error option"

record env =
  env_now :: int
  env_commit :: "error option"
  env_put :: "string \<Rightarrow> error option"

definition New :: "string \<Rightarrow> coordinator" where
  "New selfAddr = \<lparr>co_channels = [], co_ops = [], co_selfAddr = selfAddr, co_nextID = 0,
     co_wake = 0, co_durable = False, co_tombstoneKeys = [], co_failed = None\<rparr>"

text \<open>
  \<^verbatim>\<open>co.op(name)\<close> creates the operation when it is unknown; \<open>ensure_op\<close> is that write and
  \<open>get_op\<close> the value read.
\<close>

definition get_op :: "coordinator \<Rightarrow> string \<Rightarrow> operation" where
  "get_op co name = map_get new_operation (co_ops co) name"

definition upd_op :: "string \<Rightarrow> (operation \<Rightarrow> operation) \<Rightarrow> coordinator \<Rightarrow> coordinator" where
  "upd_op name f co = co\<lparr>co_ops := AList.update name (f (get_op co name)) (co_ops co)\<rparr>"

definition ensure_op :: "string \<Rightarrow> coordinator \<Rightarrow> coordinator" where
  "ensure_op name co = upd_op name (\<lambda>o1. o1) co"

definition get :: "coordinator \<Rightarrow> string \<Rightarrow> channel result" where
  "get co name =
     (case map_of (co_channels co) name of
        None \<Rightarrow> Inl (Error 404 ''channel %q not found'')
      | Some c \<Rightarrow> Inr c)"

definition upd_channel :: "string \<Rightarrow> (channel \<Rightarrow> channel) \<Rightarrow> coordinator \<Rightarrow> coordinator" where
  "upd_channel name f co =
     co\<lparr>co_channels := map (\<lambda>(n, c). (n, if n = name then f c else c)) (co_channels co)\<rparr>"

definition map_channels :: "(channel \<Rightarrow> channel) \<Rightarrow> coordinator \<Rightarrow> coordinator" where
  "map_channels f co = co\<lparr>co_channels := map_vals f (co_channels co)\<rparr>"

definition channelNames :: "coordinator \<Rightarrow> string list" where
  "channelNames co = sort (map fst (co_channels co))"

text \<open>Waking long-polling readers closes and replaces one Go channel: a counter here.\<close>

definition wake :: "coordinator \<Rightarrow> coordinator" where
  "wake co = co\<lparr>co_wake := Suc (co_wake co)\<rparr>"

definition commitLocked :: "env \<Rightarrow> coordinator \<Rightarrow> unit result \<times> coordinator" where
  "commitLocked e co =
     (case co_failed co of
        Some err \<Rightarrow> (Inl err, co)
      | None \<Rightarrow>
          if \<not> co_durable co then (Inr (), co)
          else (case env_commit e of
                  None \<Rightarrow> (Inr (), co)
                | Some _ \<Rightarrow>
                    (let f = Fault ''durable checkpoint failed; restart required: %w''
                     in (Inl f, co\<lparr>co_failed := Some f\<rparr>))))"

definition requireDurableWriterLocked :: "coordinator \<Rightarrow> unit result" where
  "requireDurableWriterLocked co = (case co_failed co of Some err \<Rightarrow> Inl err | None \<Rightarrow> Inr ())"

definition failure :: "coordinator \<Rightarrow> error option" where
  "failure co = co_failed co"

subsection \<open>Operations on one channel\<close>

definition upd_queue :: "int \<Rightarrow> (sref list \<Rightarrow> sref list) \<Rightarrow> channel \<Rightarrow> channel" where
  "upd_queue p f c =
     (if in_range p (c_queues c)
      then c\<lparr>c_queues := (c_queues c)[nat p := f (c_queues c ! nat p)]\<rparr>
      else c\<lparr>c_panic := True\<rparr>)"

definition enqueue :: "sref \<Rightarrow> channel \<Rightarrow> channel" where
  "enqueue r c =
     (if broadcast c then c\<lparr>c_log := c_log c @ [r]\<rparr>
      else upd_queue (s_part (seg c r)) (\<lambda>q. q @ [r]) c)"

text \<open>
  \<^verbatim>\<open>index\<close> adds a segment to the channel's structures; the second component of the result is
  the offset the segment carries afterwards.
\<close>

definition beyondBound :: "channel \<Rightarrow> segment \<Rightarrow> bool" where
  "beyondBound c s \<longleftrightarrow>
     (case ch_feedback (c_spec c) of None \<Rightarrow> False | Some f \<Rightarrow> f_maxEpochs f \<le> s_epoch s)"

definition index :: "segment \<Rightarrow> channel \<Rightarrow> channel \<times> int" where
  "index s0 c =
     (let s = (if s_appendID s0 = '''' then s0\<lparr>s_appendID := s_producer s0 @ ''/'' @ s_id s0\<rparr>
               else s0) in
      if map_of (c_all c) (key s) \<noteq> None then (c, s_offset s)
      else
        (let partition = (if broadcast c then 0 else s_part s) in
         if \<not> in_range partition (c_history c) \<or> \<not> in_range partition (c_historyBase c)
         then (c\<lparr>c_panic := True\<rparr>, s_offset s)
         else
           (let p = nat partition;
                off = c_historyBase c ! p + int (length (c_history c ! p));
                r = length (c_heap c);
                c1 = c\<lparr>c_heap := c_heap c @ [s\<lparr>s_offset := off\<rparr>],
                       c_all := AList.update (key s) r (c_all c),
                       c_appendIDs := AList.update (s_appendID s) r (c_appendIDs c),
                       c_history := (c_history c)[p := c_history c ! p @ [r]],
                       c_produced := c_produced c + s_records s\<rparr>
            in (if beyondBound c s then
                  upd_seg r (\<lambda>x. x\<lparr>s_released := True\<rparr>)
                    (c1\<lparr>c_produced := c_produced c1 - s_records s\<rparr>)
                else if c_finiteEpochs c \<and> c_epoch c < s_epoch s then
                  c1\<lparr>c_held := c_held c1 @ [r]\<rparr>
                else enqueue r c1, off))))"

definition durableHolder :: "string \<Rightarrow> bool" where
  "durableHolder holder \<longleftrightarrow> HasPrefix holder ''http://'' \<or> HasPrefix holder ''https://''"

definition sameAppend :: "segment \<Rightarrow> SegmentAnnouncement \<Rightarrow> string \<Rightarrow> bool" where
  "sameAppend s a name \<longleftrightarrow>
     (let producer = (if a_producer a = '''' then s_op s else a_producer a) in
      s_id s = a_id a \<and> s_holder s = a_holder a \<and> s_producer s = producer \<and> s_channel s = name
      \<and> s_part s = a_partition a \<and> s_epoch s = a_epoch a \<and> s_records s = a_records a
      \<and> s_bytes s = a_bytes a \<and> s_durable s = (a_durable a \<or> durableHolder (a_holder a))
      \<and> s_task s = a_task a)"

definition markLost :: "sref \<Rightarrow> channel \<Rightarrow> channel" where
  "markLost r c =
     (let s = seg c r;
          c1 = upd_seg r (\<lambda>x. x\<lparr>s_lost := True, s_released := True, s_delivered := []\<rparr>)
                 (c\<lparr>c_lost := c_lost c + s_records s,
                    c_inflight := AList.delete (key s) (c_inflight c)\<rparr>);
          c2 = (if broadcast c1 then c1 else upd_queue (s_part s) (\<lambda>q. removeSegment q r) c1)
      in c2\<lparr>c_held := removeSegment (c_held c2) r\<rparr>)"

text \<open>
  \<^verbatim>\<open>partitionOf\<close>: the partition of a record the way producer pods compute it, and the advanced
  round-robin counter. The number of partitions is positive on every configured channel.
\<close>

definition partitionOf :: "channel \<Rightarrow> Record \<Rightarrow> int \<times> channel" where
  "partitionOf c r =
     (case p_mode (ch_partitioning (c_spec c)) of
        PartitionBroadcast \<Rightarrow> (0, c)
      | PartitionHash \<Rightarrow> (HashPartition (r_key r) (partitions c), c)
      | _ \<Rightarrow> (uint (c_rr c mod word_of_int (partitions c)), c\<lparr>c_rr := c_rr c + 1\<rparr>))"

text \<open>\<^verbatim>\<open>assigned\<close>: the partitions a pod may read, and the operation after balancing.\<close>

definition assigned :: "channel \<Rightarrow> operation \<Rightarrow> string \<Rightarrow> nat list \<times> operation" where
  "assigned c o1 podName =
     (let n = nat (partitions c) in
      if p_mode (ch_partitioning (c_spec c)) = PartitionHash then
        (let o2 = balanceHash o1 n
         in (filter (\<lambda>p. map_get '''' (o_owner o2) (ownerKey n p) = podName) [0..<n], o2))
      else
        (let ids = liveIDs o1; idx = length (filter (\<lambda>x. x < podName) ids) in
         if ids = [] then ([], o1)
         else (filter (\<lambda>p. p mod length ids = idx) [0..<n], o1)))"

definition pendingSegs :: "channel \<Rightarrow> sref list \<Rightarrow> int" where
  "pendingSegs c rs =
     sum_list (map (\<lambda>r. s_records (seg c r))
       (filter (\<lambda>r. \<not> s_lost (seg c r) \<and> \<not> s_released (seg c r)) rs))"

definition pendingByPartition :: "channel \<Rightarrow> int list" where
  "pendingByPartition c =
     (if broadcast c then
        (if c_cursor c = [] then [pendingSegs c (c_log c)]
         else [sum_list (map (\<lambda>(_, cur). pendingSegs c (drop cur (c_log c))) (c_cursor c))])
      else map (\<lambda>q. sum_list (map (\<lambda>r. s_records (seg c r)) q)) (c_queues c))"

definition pending :: "channel \<Rightarrow> int" where
  "pending c = sum_list (pendingByPartition c)"

definition heldRecords :: "channel \<Rightarrow> int" where
  "heldRecords c = sum_list (map (\<lambda>r. s_records (seg c r)) (c_held c))"

definition inflightRecords :: "channel \<Rightarrow> int" where
  "inflightRecords c =
     sum_list (map (\<lambda>(_, r).
       if broadcast c then s_records (seg c r) * int (length (s_delivered (seg c r)))
       else s_records (seg c r)) (c_inflight c))"

definition quiet :: "channel \<Rightarrow> bool" where
  "quiet c \<longleftrightarrow> pending c = 0 \<and> c_inflight c = []"

definition gated :: "channel \<Rightarrow> bool" where
  "gated c \<longleftrightarrow>
     (if ch_delivery (c_spec c) \<noteq> DeliveryMaterialized then False
      else if c_finiteEpochs c then c_epoch c \<notin> set (c_productionClosed c)
      else \<not> c_sealed c)"

definition ref :: "segment \<Rightarrow> SegmentRef" where
  "ref s = \<lparr>ref_id = s_id s, ref_appendID = s_appendID s, ref_holder = s_holder s,
     ref_records = s_records s, ref_bytes = s_bytes s, ref_epoch = s_epoch s,
     ref_offset = s_offset s\<rparr>"

end
