(* ===== verification/Registry.thy ===== *)
theory Registry
  imports Topology
begin

text \<open>
  Worker processes, after \<^verbatim>\<open>Register\<close>, \<^verbatim>\<open>touch\<close>, \<^verbatim>\<open>requireIncarnation\<close>,
  \<^verbatim>\<open>expireAllExcept\<close>, \<^verbatim>\<open>expireConsumer\<close>, \<^verbatim>\<open>returnConsumerDeliveries\<close> and
  \<^verbatim>\<open>expireHolder\<close> of \<^verbatim>\<open>pkg/coordinator/coordinator.go\<close>.

  Each handler is built from updates of one operation (\<open>touch_op\<close>, \<open>drop_pod\<close>, \<dots>) and of
  one channel (\<open>return_channel\<close>, \<open>lose_channel\<close>), which is how the code writes them: the
  registry part of a handler only writes \<^verbatim>\<open>o\<close>, the delivery part only writes \<^verbatim>\<open>c\<close>.
\<close>

subsection \<open>Liveness of one pod\<close>

definition touch_op ::
  "int \<Rightarrow> string \<Rightarrow> string \<Rightarrow> string \<Rightarrow> int \<Rightarrow> operation \<Rightarrow> operation" where
  "touch_op now opName podName addr slots o1 =
     (let (p, o2) =
        (case map_of (o_pods o1) podName of
           Some p \<Rightarrow> (p, o1)
         | None \<Rightarrow>
             (let (slot, o2) =
                (case o_freeCohortSlots o1 of
                   [] \<Rightarrow> (o_nextCohortSlot o1, o1\<lparr>o_nextCohortSlot := Suc (o_nextCohortSlot o1)\<rparr>)
                 | s # rest \<Rightarrow> (s, o1\<lparr>o_freeCohortSlots := rest\<rparr>))
              in (\<lparr>p_name = podName, p_op = opName, p_addr = '''', p_slots = 0, p_lastSeen = 0,
                    p_done = False, p_incarnation = '''', p_cohortSlot = slot\<rparr>, o2)));
        p1 = (if addr \<noteq> '''' then p\<lparr>p_addr := addr\<rparr> else p);
        p2 = (if 0 < slots then p1\<lparr>p_slots := slots\<rparr> else p1)
      in o2\<lparr>o_pods := AList.update podName (p2\<lparr>p_lastSeen := now\<rparr>) (o_pods o2)\<rparr>)"

definition touch :: "env \<Rightarrow> string \<Rightarrow> string \<Rightarrow> string \<Rightarrow> int \<Rightarrow> coordinator \<Rightarrow> coordinator" where
  "touch e opName podName addr slots co = upd_op opName (touch_op (env_now e) opName podName addr slots) co"

text \<open>\<^verbatim>\<open>co.op(opName)\<close> in the first line creates an unknown operation.\<close>

definition requireIncarnation ::
  "string \<Rightarrow> string \<Rightarrow> string \<Rightarrow> coordinator \<Rightarrow> pod result \<times> coordinator" where
  "requireIncarnation opName podName incarnation co =
     (let co1 = ensure_op opName co in
      case map_of (o_pods (get_op co1 opName)) podName of
        None \<Rightarrow> (Inl (Error 409 ''pod %q is not registered''), co1)
      | Some p \<Rightarrow>
          if p_incarnation p \<noteq> incarnation
          then (Inl (Error 409 ''incarnation for pod %q is no longer active''), co1)
          else (Inr p, co1))"

text \<open>The check of a handler that verifies the caller only when \<open>active\<close> holds.\<close>

definition verify ::
  "bool \<Rightarrow> string \<Rightarrow> string \<Rightarrow> string \<Rightarrow> coordinator \<Rightarrow> unit result \<times> coordinator" where
  "verify active opName podName incarnation co =
     (if active
      then andThen (requireIncarnation opName podName incarnation co) (\<lambda>_ co1. (Inr (), co1))
      else (Inr (), co))"

subsection \<open>Returning the work of a consumer\<close>

definition return_op :: "string \<Rightarrow> operation \<Rightarrow> operation" where
  "return_op w o1 =
     o1\<lparr>o_owner := filter (\<lambda>(_, owner). owner \<noteq> w) (o_owner o1),
        o_pinned := filter (\<lambda>k. map_of (o_owner o1) k \<noteq> Some w) (o_pinned o1),
        o_epochDone := AList.delete w (o_epochDone o1)\<rparr>"

definition return_subscription ::
  "string \<Rightarrow> string \<Rightarrow> string \<Rightarrow> bool \<Rightarrow> subscription \<Rightarrow> subscription" where
  "return_subscription opName w incarnation everything sub =
     (if sub_operation sub \<noteq> opName then sub
      else sub\<lparr>sub_inflight := filter (\<lambda>(_, d). \<not> (deliveryPod (d_owner d) = w
               \<and> (everything \<or> d_owner d = deliveryKey w incarnation))) (sub_inflight sub)\<rparr>)"

text \<open>
  One turn of the loop over \<^verbatim>\<open>c.inflight\<close>. The variable \<^verbatim>\<open>delivery\<close> of the code is declared
  outside the loop and keeps the key found for an earlier segment, so it is threaded through.
\<close>

definition return_segment ::
  "string \<Rightarrow> bool \<Rightarrow> string \<times> sref \<Rightarrow> channel \<times> string \<Rightarrow> channel \<times> string" where
  "return_segment w everything kr st =
     (let (k, r) = kr; (c, delivery0) = st; s = seg c r;
          owned0 = (delivery0 \<in> set (s_delivered s));
          (delivery, owned) =
            (if everything \<and> \<not> owned0 then
               (case find (\<lambda>d. deliveryPod d = w) (s_delivered s) of
                  Some d \<Rightarrow> (d, True) | None \<Rightarrow> (delivery0, False))
             else (delivery0, owned0))
      in if \<not> owned then (c, delivery)
         else
           (let c1 = upd_seg r (\<lambda>x. x\<lparr>s_delivered := set_del delivery (s_delivered x)\<rparr>) c;
                c2 = c1\<lparr>c_inflight := AList.delete k (c_inflight c1)\<rparr>
            in if broadcast c
               then (if set_del delivery (s_delivered s) = [] then c2 else c1, delivery)
               else (if s_lost s then c2 else upd_queue (s_part s) (\<lambda>q. r # q) c2, delivery)))"

definition return_channel ::
  "string \<Rightarrow> string \<Rightarrow> string \<Rightarrow> bool \<Rightarrow> channel \<Rightarrow> channel" where
  "return_channel opName w incarnation everything c =
     (let c1 = c\<lparr>c_subscriptions :=
                  map_vals (return_subscription opName w incarnation everything) (c_subscriptions c)\<rparr>
      in if ch_to (c_spec c) \<noteq> opName then c1
         else
           (let c2 = c1\<lparr>c_cursor := AList.delete w (c_cursor c1),
                        c_epochDone := AList.delete w (c_epochDone c1)\<rparr>
            in fst (fold (return_segment w everything) (c_inflight c2)
                      (c2, deliveryKey w incarnation))))"

definition returnConsumerDeliveries ::
  "string \<Rightarrow> string \<Rightarrow> string \<Rightarrow> bool \<Rightarrow> coordinator \<Rightarrow> coordinator" where
  "returnConsumerDeliveries opName w incarnation everything co =
     map_channels (return_channel opName w incarnation everything) (upd_op opName (return_op w) co)"

subsection \<open>Expiry\<close>

definition expireConsumer :: "string \<Rightarrow> string \<Rightarrow> coordinator \<Rightarrow> coordinator" where
  "expireConsumer opName w co = returnConsumerDeliveries opName w '''' True co"

definition lose_channel :: "string \<Rightarrow> channel \<Rightarrow> channel" where
  "lose_channel podName c =
     fold (\<lambda>(_, r) c1. let s = seg c1 r in
            if s_producer s \<noteq> podName \<or> s_durable s \<or> s_released s \<or> s_lost s then c1
            else markLost r c1) (c_all c) c"

definition expireHolder :: "string \<Rightarrow> coordinator \<Rightarrow> coordinator" where
  "expireHolder podName co = map_channels (lose_channel podName) co"

definition drop_pod :: "string \<Rightarrow> operation \<Rightarrow> operation" where
  "drop_pod w o1 =
     (case map_of (o_pods o1) w of
        None \<Rightarrow> o1
      | Some p \<Rightarrow> o1\<lparr>o_pods := AList.delete w (o_pods o1),
                     o_freeCohortSlots := insort (p_cohortSlot p) (o_freeCohortSlots o1)\<rparr>)"

definition expired_pods :: "env \<Rightarrow> string \<Rightarrow> string \<Rightarrow> coordinator \<Rightarrow> (string \<times> string) list" where
  "expired_pods e skipOperation skipPod co =
     concat (map (\<lambda>(opName, o1).
       map (\<lambda>(w, _). (opName, w))
         (filter (\<lambda>(w, p). \<not> (opName = skipOperation \<and> w = skipPod)
                        \<and> \<not> (env_now e - PodTTL < p_lastSeen p)) (o_pods o1))) (co_ops co))"

text \<open>
  Go collects nothing first: it deletes from the maps it ranges over. The pods it visits and
  their \<^verbatim>\<open>lastSeen\<close> are those of the start, because the body deletes only the visited pod.
\<close>

definition expireAllExcept :: "env \<Rightarrow> string \<Rightarrow> string \<Rightarrow> coordinator \<Rightarrow> coordinator" where
  "expireAllExcept e skipOperation skipPod co =
     fold (\<lambda>(opName, w) co1. expireHolder w (expireConsumer opName w (upd_op opName (drop_pod w) co1)))
       (expired_pods e skipOperation skipPod co) co"

definition expireAll :: "env \<Rightarrow> coordinator \<Rightarrow> coordinator" where
  "expireAll e co = expireAllExcept e '''' '''' co"

subsection \<open>Registration\<close>

definition retire_op :: "string \<Rightarrow> pod \<Rightarrow> operation \<Rightarrow> operation" where
  "retire_op w p o1 =
     (if p_incarnation p \<noteq> ''''
      then o1\<lparr>o_retired := AList.update w
               (set_add (p_incarnation p) (map_get [] (o_retired o1) w)) (o_retired o1)\<rparr>
      else o1)"

definition set_pod :: "string \<Rightarrow> (pod \<Rightarrow> pod) \<Rightarrow> operation \<Rightarrow> operation" where
  "set_pod w f o1 =
     o1\<lparr>o_pods := map (\<lambda>(k, p). (k, if k = w then f p else p)) (o_pods o1)\<rparr>"

definition restart_op :: "string \<Rightarrow> string \<Rightarrow> operation \<Rightarrow> operation" where
  "restart_op w incarnation o1 =
     (set_pod w (\<lambda>p. p\<lparr>p_done := False, p_incarnation := incarnation\<rparr>) o1)
       \<lparr>o_epochDone := AList.update w (-1) (o_epochDone o1), o_completed := False\<rparr>"

definition replaceProcess :: "PodRegistration \<Rightarrow> pod \<Rightarrow> coordinator \<Rightarrow> coordinator" where
  "replaceProcess reg p co =
     upd_op (reg_operation reg) (restart_op (reg_pod reg) (reg_incarnation reg))
       (returnConsumerDeliveries (reg_operation reg) (reg_pod reg) (p_incarnation p) False
          (upd_op (reg_operation reg) (retire_op (reg_pod reg) p) co))"

definition enrol_op :: "int \<Rightarrow> PodRegistration \<Rightarrow> operation \<Rightarrow> operation" where
  "enrol_op now reg o1 =
     (let o2 = touch_op now (reg_operation reg) (reg_pod reg) (reg_addr reg) (reg_slots reg) o1;
          o3 = set_pod (reg_pod reg) (\<lambda>p. p\<lparr>p_incarnation := reg_incarnation reg\<rparr>) o2
      in if map_of (o_epochDone o3) (reg_pod reg) = None
         then o3\<lparr>o_epochDone := AList.update (reg_pod reg) (-1) (o_epochDone o3)\<rparr> else o3)"

definition Register :: "env \<Rightarrow> PodRegistration \<Rightarrow> coordinator \<Rightarrow> unit result \<times> coordinator" where
  "Register e reg co =
     (if reg_operation reg = '''' \<or> reg_pod reg = ''''
      then (Inl (Error 400 ''operation and pod are required''), co)
      else
        (let co1 = ensure_op (reg_operation reg)
                     (expireAllExcept e (reg_operation reg) (reg_pod reg) co);
             o1 = get_op co1 (reg_operation reg);
             enrol = (\<lambda>co2. commitLocked e
                        (upd_op (reg_operation reg) (enrol_op (env_now e) reg) co2))
         in if reg_incarnation reg \<noteq> ''''
               \<and> reg_incarnation reg \<in> set (map_get [] (o_retired o1) (reg_pod reg))
            then (Inl (Error 409 ''incarnation %q for pod %q has been replaced''), co1)
            else
              (case map_of (o_pods o1) (reg_pod reg) of
                 None \<Rightarrow> enrol co1
               | Some p \<Rightarrow>
                   if p_incarnation p = reg_incarnation reg then enrol co1
                   else if p_incarnation p \<noteq> '''' \<and> reg_incarnation reg = ''''
                   then (Inl (Error 409 ''pod %q requires an incarnation''), co1)
                   else enrol (replaceProcess reg p co1))))"

end
