(* ===== verification/Progress.thy ===== *)
theory Progress
  imports Registry
begin

text \<open>
  How the graph makes progress, after \<^verbatim>\<open>seal\<close>, \<^verbatim>\<open>release\<close>, \<^verbatim>\<open>releaseBroadcast\<close>,
  \<^verbatim>\<open>consumedByEveryReplica\<close>, \<^verbatim>\<open>broadcastFullyConsumed\<close>, \<^verbatim>\<open>settle\<close>, \<^verbatim>\<open>advanceEpoch\<close>,
  \<^verbatim>\<open>recordOperationEpochDone\<close> and the handlers \<^verbatim>\<open>SourceDone\<close>, \<^verbatim>\<open>EpochDoneSession\<close>,
  \<^verbatim>\<open>OperationEpochDoneSession\<close> and \<^verbatim>\<open>Seal\<close> of \<^verbatim>\<open>pkg/coordinator/coordinator.go\<close>.
\<close>

subsection \<open>Sealing and releasing\<close>

definition seal_channel :: "channel \<Rightarrow> channel" where
  "seal_channel c =
     (let c1 = c\<lparr>c_sealed := True, c_productionClosed := set_add (c_epoch c) (c_productionClosed c)\<rparr>
      in if synchronous c
         then (fold (\<lambda>r. upd_seg r (\<lambda>s. s\<lparr>s_released := True\<rparr>)) (c_held c1) c1)\<lparr>c_held := []\<rparr>
         else c1)"

definition seal :: "string \<Rightarrow> coordinator \<Rightarrow> coordinator" where
  "seal name co = wake (upd_channel name seal_channel co)"

definition release :: "sref \<Rightarrow> channel \<Rightarrow> channel" where
  "release r c =
     (let s = seg c r in
      if s_data s \<noteq> None \<and> \<not> retained c
      then (upd_seg r (\<lambda>x. x\<lparr>s_released := True, s_data := None\<rparr>) c)
             \<lparr>c_all := AList.delete (key s) (c_all c)\<rparr>
      else upd_seg r (\<lambda>x. x\<lparr>s_released := True\<rparr>) c)"

text \<open>\<^verbatim>\<open>consumedByEveryReplica\<close> reads the consuming operation, creating it when unknown.\<close>

definition consumedByEveryReplica :: "operation \<Rightarrow> segment \<Rightarrow> bool" where
  "consumedByEveryReplica o1 s \<longleftrightarrow>
     (let want = max (o_replicas o1) (int (length (o_pods o1)))
      in if want = 0 then False else want \<le> int (length (s_acked s)))"

definition releaseBroadcast :: "operation \<Rightarrow> channel \<Rightarrow> channel" where
  "releaseBroadcast o1 c =
     (if \<not> broadcast c \<or> external c then c
      else fold (\<lambda>(_, r) c1.
             if \<not> s_lost (seg c1 r) \<and> \<not> s_released (seg c1 r) \<and> consumedByEveryReplica o1 (seg c1 r)
             then release r c1 else c1) (c_all c) c)"

definition broadcastFullyConsumed :: "operation \<Rightarrow> channel \<Rightarrow> bool" where
  "broadcastFullyConsumed o1 c \<longleftrightarrow>
     list_all (\<lambda>r. s_lost (seg c r) \<or> s_released (seg c r) \<or> consumedByEveryReplica o1 (seg c r))
       (c_log c)"

subsection \<open>Termination of asynchronous loops\<close>

text \<open>
  What \<^verbatim>\<open>settle\<close> demands of every other channel \<open>d\<close> into the cycle before it seals the
  feedback channel.
\<close>

definition cycle_idle :: "string goset \<Rightarrow> channel \<Rightarrow> bool" where
  "cycle_idle members d \<longleftrightarrow>
     (if ch_to (c_spec d) \<notin> set members then True
      else if ch_from (c_spec d) \<in> set members then ch_feedback (c_spec d) \<noteq> None \<or> quiet d
      else c_sealed d \<and> quiet d \<and> \<not> 0 < heldRecords d)"

text \<open>
  One turn of the loop of \<^verbatim>\<open>settle\<close>. The operation is created when the code asks for it,
  which it does for a segment that is neither lost nor released.
\<close>

definition settle1 :: "string \<Rightarrow> coordinator \<Rightarrow> coordinator" where
  "settle1 name co =
     (case map_of (co_channels co) name of
        None \<Rightarrow> co
      | Some c0 \<Rightarrow>
          (let to = ch_to (c_spec c0);
               co0 = (if broadcast c0 \<and> \<not> external c0
                         \<and> list_ex (\<lambda>(_, r). \<not> s_lost (seg c0 r) \<and> \<not> s_released (seg c0 r)) (c_all c0)
                      then ensure_op to co else co);
               co1 = upd_channel name (releaseBroadcast (get_op co0 to)) co0;
               c = releaseBroadcast (get_op co0 to) c0
           in if c_sealed c \<or> feedbackMode c \<noteq> FeedbackAsynchronous then co1
              else if list_all (\<lambda>(n, d). n = name
                        \<or> cycle_idle (cycleMembers (specs_of co1) (c_spec c)) d) (co_channels co1)
                      \<and> quiet c
              then seal name co1 else co1))"

definition settle :: "coordinator \<Rightarrow> coordinator" where
  "settle co = fold settle1 (map fst (co_channels co)) co"

subsection \<open>Epochs\<close>

definition advanceEpoch :: "channel \<Rightarrow> channel" where
  "advanceEpoch c =
     (let c1 = c\<lparr>c_epoch := wrap32 (c_epoch c + 1)\<rparr>;
          c2 = (if c_sealed c1
                then c1\<lparr>c_productionClosed := set_add (c_epoch c1) (c_productionClosed c1)\<rparr> else c1)
      in (fold enqueue (filter (\<lambda>r. s_epoch (seg c2 r) = c_epoch c2) (c_held c2)) c2)
           \<lparr>c_held := filter (\<lambda>r. s_epoch (seg c2 r) \<noteq> c_epoch c2) (c_held c2)\<rparr>)"

text \<open>Whether a channel is done with an epoch as far as its consumer is concerned.\<close>

definition epoch_ready :: "int \<Rightarrow> channel \<Rightarrow> bool" where
  "epoch_ready epoch c \<longleftrightarrow> c_epoch c = epoch \<and> epoch \<in> set (c_productionClosed c) \<and> quiet c"

definition mark_epoch_op :: "string \<Rightarrow> int \<Rightarrow> operation \<Rightarrow> operation" where
  "mark_epoch_op w epoch o1 = o1\<lparr>o_epochDone := AList.update w epoch (o_epochDone o1)\<rparr>"

definition epoch_complete :: "env \<Rightarrow> int \<Rightarrow> operation \<Rightarrow> bool" where
  "epoch_complete e epoch o1 \<longleftrightarrow>
     (let required = max (o_replicas o1) (int (length (o_pods o1)));
          done_pods = int (length (filter (\<lambda>(w, p). env_now e - PodTTL < p_lastSeen p
                                              \<and> epoch \<le> map_get 0 (o_epochDone o1) w) (o_pods o1)))
      in \<not> (required = 0 \<or> done_pods < required))"

text \<open>
  The two loops that close an epoch: over the channels the operation produces, and over the
  channels it consumes. \<^verbatim>\<open>seal\<close> wakes the readers once per sealed channel.
\<close>

definition closes_loop :: "int \<Rightarrow> channel \<Rightarrow> bool" where
  "closes_loop epoch c \<longleftrightarrow>
     synchronous c \<and> (case ch_feedback (c_spec c) of
                         None \<Rightarrow> False | Some f \<Rightarrow> f_maxEpochs f \<le> wrap32 (epoch + 1))"

definition close_output :: "string \<Rightarrow> int \<Rightarrow> channel \<Rightarrow> channel" where
  "close_output opName epoch c =
     (if ch_from (c_spec c) \<noteq> opName \<or> \<not> c_finiteEpochs c then c
      else if closes_loop epoch c then seal_channel c
      else c\<lparr>c_productionClosed :=
               set_add (if synchronous c then wrap32 (epoch + 1) else epoch) (c_productionClosed c)\<rparr>)"

definition advance_input :: "string \<Rightarrow> int \<Rightarrow> channel \<Rightarrow> channel" where
  "advance_input opName epoch c =
     (if ch_to (c_spec c) = opName \<and> c_finiteEpochs c \<and> c_epoch c = epoch then advanceEpoch c else c)"

definition close_epoch :: "string \<Rightarrow> int \<Rightarrow> coordinator \<Rightarrow> coordinator" where
  "close_epoch opName epoch co =
     (let sealed = filter (\<lambda>(_, c). ch_from (c_spec c) = opName \<and> c_finiteEpochs c
                             \<and> closes_loop epoch c) (co_channels co);
          co1 = map_channels (close_output opName epoch) co;
          co2 = co1\<lparr>co_wake := co_wake co1 + length sealed\<rparr>
      in map_channels (advance_input opName epoch) co2)"

definition recordOperationEpochDone ::
  "env \<Rightarrow> string \<Rightarrow> string \<Rightarrow> int \<Rightarrow> coordinator \<Rightarrow> unit result \<times> coordinator" where
  "recordOperationEpochDone e opName podName epoch co =
     (let co1 = ensure_op opName co; o1 = get_op co1 opName in
      case map_of (o_epochDone o1) podName of
        None \<Rightarrow> (Inl (Error 400 ''unknown worker pod %q''), co1)
      | Some d \<Rightarrow>
          if epoch \<le> d then (Inr (), co1)
          else if list_ex (\<lambda>(_, c). ch_to (c_spec c) = opName \<and> c_finiteEpochs c
                              \<and> \<not> epoch_ready epoch c) (co_channels co1)
          then (Inl (Error 425 ''operation %q still has open or unconsumed input at epoch %d''), co1)
          else
            (let co2 = upd_op opName (mark_epoch_op podName epoch) co1 in
             if epoch_complete e epoch (get_op co2 opName) then (Inr (), close_epoch opName epoch co2)
             else (Inr (), co2)))"

subsection \<open>Handlers\<close>

definition Seal :: "env \<Rightarrow> string \<Rightarrow> coordinator \<Rightarrow> unit result \<times> coordinator" where
  "Seal e name co =
     (case get co name of
        Inl err \<Rightarrow> (Inl err, co)
      | Inr _ \<Rightarrow> commitLocked e (settle (seal name co)))"

definition SourceDone :: "env \<Rightarrow> PodRegistration \<Rightarrow> coordinator \<Rightarrow> unit result \<times> coordinator" where
  "SourceDone e reg co =
     (if reg_operation reg = '''' \<or> reg_pod reg = ''''
      then (Inl (Error 400 ''operation and pod are required''), co)
      else
        andThen (requireIncarnation (reg_operation reg) (reg_pod reg) (reg_incarnation reg) co)
          (\<lambda>_ co1.
             let co2 = upd_op (reg_operation reg) (set_pod (reg_pod reg) (\<lambda>p. p\<lparr>p_done := True\<rparr>)) co1
             in andThen
                  (if hasInbound co2 (reg_operation reg) then (Inr (), co2)
                   else recordOperationEpochDone e (reg_operation reg) (reg_pod reg) 0 co2)
                  (\<lambda>_ co3. commitLocked e co3)))"

definition mark_epoch_channel :: "string \<Rightarrow> int \<Rightarrow> channel \<Rightarrow> channel" where
  "mark_epoch_channel podName epoch c = c\<lparr>c_epochDone := AList.update podName epoch (c_epochDone c)\<rparr>"

definition EpochDoneSession ::
  "env \<Rightarrow> string \<Rightarrow> string \<Rightarrow> string \<Rightarrow> string \<Rightarrow> int \<Rightarrow> coordinator \<Rightarrow> unit result \<times> coordinator"
where
  "EpochDoneSession e name opName podName incarnation epoch co =
     (case get co name of
        Inl err \<Rightarrow> (Inl err, co)
      | Inr c \<Rightarrow>
          if \<not> synchronous c
          then (Inl (Error 400 ''channel %q is not a Synchronous feedback channel''), co)
          else
            andThen (verify (opName \<noteq> '''') opName podName incarnation co) (\<lambda>_ co1.
              case map_of (c_epochDone c) podName of
                None \<Rightarrow> (Inl (Error 400 ''unknown consumer pod %q''), co1)
              | Some d \<Rightarrow>
                  (let co2 = (if d < epoch then upd_channel name (mark_epoch_channel podName epoch) co1
                              else co1);
                       co3 = touch e (ch_to (c_spec c)) podName '''' 0 co2
                   in andThen (recordOperationEpochDone e (ch_to (c_spec c)) podName epoch co3)
                        (\<lambda>_ co4. commitLocked e co4))))"

definition OperationEpochDoneSession ::
  "env \<Rightarrow> string \<Rightarrow> string \<Rightarrow> string \<Rightarrow> int \<Rightarrow> coordinator \<Rightarrow> unit result \<times> coordinator" where
  "OperationEpochDoneSession e opName podName incarnation epoch co =
     (if opName = '''' \<or> podName = ''''
      then (Inl (Error 400 ''operation and pod are required''), co)
      else
        andThen (requireIncarnation opName podName incarnation co) (\<lambda>_ co1.
          let co2 = expireAllExcept e opName podName
                      (upd_op opName (set_pod podName (\<lambda>p. p\<lparr>p_lastSeen := env_now e\<rparr>)) co1)
          in andThen (recordOperationEpochDone e opName podName epoch co2)
               (\<lambda>_ co3. commitLocked e co3)))"

definition EpochDone :: "env \<Rightarrow> string \<Rightarrow> string \<Rightarrow> int \<Rightarrow> coordinator \<Rightarrow> unit result \<times> coordinator" where
  "EpochDone e name podName epoch co = EpochDoneSession e name '''' podName '''' epoch co"

definition OperationEpochDone ::
  "env \<Rightarrow> string \<Rightarrow> string \<Rightarrow> int \<Rightarrow> coordinator \<Rightarrow> unit result \<times> coordinator" where
  "OperationEpochDone e opName podName epoch co = OperationEpochDoneSession e opName podName '''' epoch co"

end
