(* ===== verification/Producing.thy ===== *)
theory Producing
  imports Progress
begin

text \<open>
  Producing, after \<^verbatim>\<open>AnnounceSession\<close>, \<^verbatim>\<open>Produce\<close>, \<^verbatim>\<open>Segment\<close> and \<^verbatim>\<open>ReleasedSession\<close> of
  \<^verbatim>\<open>pkg/coordinator/coordinator.go\<close>.

  \<^verbatim>\<open>json.Marshal\<close> of a batch of records cannot fail: record values come from a JSON decoder.
\<close>

subsection \<open>Announcing segments held by workers\<close>

definition ann_appendID :: "SegmentAnnouncement \<Rightarrow> string" where
  "ann_appendID a = (if a_appendID a = '''' then a_holder a @ ''/'' @ a_id a else a_appendID a)"

text \<open>The first loop: reject the request or learn whether it brings anything new.\<close>

fun announce_check ::
  "string \<Rightarrow> channel \<Rightarrow> SegmentAnnouncement list \<Rightarrow> bool \<Rightarrow> bool result" where
  "announce_check name c [] hasNew = Inr hasNew"
| "announce_check name c (a # anns) hasNew =
     (if a_id a = '''' then announce_check name c anns True
      else if a_channel a \<noteq> '''' \<and> a_channel a \<noteq> name
      then Inl (Error 400 ''segment %q announced for channel %q on channel %q'')
      else
        (case map_of (c_appendIDs c) (ann_appendID a) of
           Some r \<Rightarrow>
             if \<not> sameAppend (seg c r) a name
             then Inl (Error 409 ''append %q already committed with different metadata'')
             else announce_check name c anns hasNew
         | None \<Rightarrow>
             if c_sealed c then Inl (Error 409 ''channel %q is sealed'')
             else if c_finiteEpochs c \<and> a_epoch a < c_epoch c
             then Inl (Error 400 ''segment epoch %d is behind channel epoch %d'')
             else if \<not> broadcast c \<and> (a_partition a < 0 \<or> partitions c \<le> a_partition a)
             then Inl (Error 400 ''partition %d out of range for channel %q'')
             else announce_check name c anns True))"

definition announced :: "string \<Rightarrow> string \<Rightarrow> string \<Rightarrow> SegmentAnnouncement \<Rightarrow> segment" where
  "announced name opName from a =
     \<lparr>s_id = a_id a, s_holder = a_holder a,
      s_producer = (if a_producer a = '''' then opName else a_producer a),
      s_op = (if opName = '''' then from else opName), s_channel = name, s_part = a_partition a,
      s_epoch = a_epoch a, s_records = a_records a, s_bytes = a_bytes a,
      s_durable = (a_durable a \<or> durableHolder (a_holder a)), s_task = a_task a,
      s_appendID = ann_appendID a, s_offset = 0, s_delivered = [], s_acked = [],
      s_retryAfter = [], s_lost = False, s_released = False, s_retentionDeleted = False,
      s_reported = False, s_data = None\<rparr>"

definition announce1 :: "string \<Rightarrow> string \<Rightarrow> SegmentAnnouncement \<Rightarrow> channel \<Rightarrow> channel" where
  "announce1 name opName a c =
     (if a_id a = '''' then c\<lparr>c_overflowed := c_overflowed c + a_overflowed a\<rparr>
      else if map_of (c_appendIDs c) (ann_appendID a) \<noteq> None then c
      else fst (index (announced name opName (ch_from (c_spec c)) a)
                  (c\<lparr>c_overflowed := c_overflowed c + a_overflowed a\<rparr>)))"

definition AnnounceSession ::
  "env \<Rightarrow> string \<Rightarrow> string \<Rightarrow> string \<Rightarrow> string \<Rightarrow> SegmentAnnouncement list \<Rightarrow> coordinator
     \<Rightarrow> unit result \<times> coordinator" where
  "AnnounceSession e name opName podName incarnation anns co =
     (case requireDurableWriterLocked co of
        Inl err \<Rightarrow> (Inl err, co)
      | Inr _ \<Rightarrow>
          (case get co name of
             Inl err \<Rightarrow> (Inl err, co)
           | Inr c \<Rightarrow>
               if \<not> mayProduce co c opName
               then (Inl (Error 403 ''operation %q may not produce on channel %q (producer is %q)''), co)
               else
                 andThen (verify (podName \<noteq> '''') opName podName incarnation co) (\<lambda>_ co1.
                   case announce_check name c anns False of
                     Inl err \<Rightarrow> (Inl err, co1)
                   | Inr hasNew \<Rightarrow>
                       if \<not> hasNew then (Inr (), co1)
                       else commitLocked e
                              (settle (upd_channel name (fold (announce1 name opName) anns) co1)))))"

definition Announce ::
  "env \<Rightarrow> string \<Rightarrow> string \<Rightarrow> SegmentAnnouncement list \<Rightarrow> coordinator \<Rightarrow> unit result \<times> coordinator"
where
  "Announce e name opName anns co = AnnounceSession e name opName '''' '''' anns co"

subsection \<open>Producing through the coordinator\<close>

text \<open>
  Grouping by partition and epoch in order of first appearance: \<^verbatim>\<open>order\<close> and \<^verbatim>\<open>groups\<close> of the
  code are one list of groups here. Computing a partition advances the round-robin counter.
\<close>

fun add_group :: "int \<times> int \<Rightarrow> Record \<Rightarrow> ((int \<times> int) \<times> Record list) list
    \<Rightarrow> ((int \<times> int) \<times> Record list) list" where
  "add_group k r [] = [(k, [r])]"
| "add_group k r ((k', rs) # gs) =
     (if k' = k then (k', rs @ [r]) # gs else (k', rs) # add_group k r gs)"

fun group_records :: "Record list \<Rightarrow> channel \<Rightarrow> ((int \<times> int) \<times> Record list) list
    \<Rightarrow> ((int \<times> int) \<times> Record list) list \<times> channel" where
  "group_records [] c gs = (gs, c)"
| "group_records (r # rs) c gs =
     (let (p, c1) = partitionOf c r in group_records rs c1 (add_group (p, r_epoch r) r gs))"

definition produced_segment ::
  "string \<Rightarrow> string \<Rightarrow> string \<Rightarrow> int \<times> int \<Rightarrow> Record list \<Rightarrow> segment" where
  "produced_segment name sid holder k rs =
     \<lparr>s_id = sid, s_holder = holder, s_producer = ''coordinator'', s_op = '''', s_channel = name,
      s_part = fst k, s_epoch = snd k, s_records = int (length rs), s_bytes = 0, s_durable = False,
      s_task = \<lparr>t_channel = '''', t_partition = 0, t_epoch = 0, t_attempt = 0\<rparr>,
      s_appendID = ''coordinator/'' @ sid, s_offset = 0, s_delivered = [], s_acked = [],
      s_retryAfter = [], s_lost = False, s_released = False, s_retentionDeleted = False,
      s_reported = False, s_data = Some rs\<rparr>"

fun produce_groups :: "env \<Rightarrow> string \<Rightarrow> ((int \<times> int) \<times> Record list) list \<Rightarrow> coordinator
    \<Rightarrow> unit result \<times> coordinator" where
  "produce_groups e name [] co = (Inr (), co)"
| "produce_groups e name ((k, rs) # gs) co =
     (let nextID = co_nextID co + 1;
          co1 = co\<lparr>co_nextID := nextID\<rparr>;
          sid = ''ext-'' @ itoa (unat nextID)
      in case (if co_durable co then env_put e (''segments/'' @ sid) else None) of
           Some err \<Rightarrow> (Inl err, co1)
         | None \<Rightarrow>
             produce_groups e name gs
               (upd_channel name
                  (\<lambda>c. fst (index (produced_segment name sid (co_selfAddr co) k rs) c)) co1))"

definition Produce ::
  "env \<Rightarrow> string \<Rightarrow> string \<Rightarrow> Record list \<Rightarrow> coordinator \<Rightarrow> unit result \<times> coordinator" where
  "Produce e name opName recs co =
     (case get co name of
        Inl err \<Rightarrow> (Inl err, co)
      | Inr c \<Rightarrow>
          if \<not> mayProduce co c opName
          then (Inl (Error 403 ''operation %q may not produce on channel %q (producer is %q)''), co)
          else if c_sealed c then (Inl (Error 409 ''channel %q is sealed''), co)
          else if external c
          then commitLocked e (wake (upd_channel name
                 (\<lambda>d. d\<lparr>c_records := c_records d @ recs,
                         c_produced := c_produced d + int (length recs)\<rparr>) co))
          else
            (let (gs, c1) = group_records recs c [];
                 co1 = upd_channel name (\<lambda>d. d\<lparr>c_rr := c_rr c1\<rparr>) co
             in if list_ex (\<lambda>((_, ep), _). c_finiteEpochs c \<and> ep < c_epoch c) gs
                then (Inl (Error 400 ''record epoch %d is behind channel epoch %d''), co1)
                else andThen (produce_groups e name gs co1)
                       (\<lambda>_ co2. commitLocked e (settle co2))))"

definition Segment :: "string \<Rightarrow> coordinator \<Rightarrow> Record list option" where
  "Segment sid co =
     (let k = co_selfAddr co @ ''/'' @ sid in
      fold (\<lambda>(_, c) found. case found of
              Some d \<Rightarrow> Some d
            | None \<Rightarrow> (case map_of (c_all c) k of None \<Rightarrow> None | Some r \<Rightarrow> s_data (seg c r)))
        (co_channels co) None)"

subsection \<open>Deleting released segments\<close>

definition deletable :: "string \<Rightarrow> channel \<Rightarrow> sref \<Rightarrow> bool" where
  "deletable podName c r \<longleftrightarrow>
     (let s = seg c r in
      (\<not> retained c \<or> s_retentionDeleted s) \<and> s_producer s = podName \<and> s_released s \<and> s_data s = None)"

definition forget_channel :: "string \<Rightarrow> channel \<Rightarrow> channel" where
  "forget_channel podName c = c\<lparr>c_all := filter (\<lambda>(_, r). \<not> deletable podName c r) (c_all c)\<rparr>"

definition released_ids :: "string \<Rightarrow> channel \<Rightarrow> string list" where
  "released_ids podName c =
     map (\<lambda>(_, r). s_id (seg c r)) (filter (\<lambda>(_, r). deletable podName c r) (c_all c))"

text \<open>
  When the commit fails the removed entries are put back and the tombstones added by this
  request are dropped, also one that another request had added before.
\<close>

definition ReleasedSession ::
  "env \<Rightarrow> string \<Rightarrow> string \<Rightarrow> string \<Rightarrow> coordinator \<Rightarrow> string list result \<times> coordinator" where
  "ReleasedSession e opName podName incarnation co =
     andThen (verify (opName \<noteq> '''') opName podName incarnation co) (\<lambda>_ co1.
       let co2 = expireAll e co1;
           out = concat (map (\<lambda>(_, c). released_ids podName c) (co_channels co2));
           co3 = (map_channels (forget_channel podName) co2)
                   \<lparr>co_tombstoneKeys := fold set_add out (co_tombstoneKeys co2)\<rparr>
       in case commitLocked e co3 of
            (Inr _, co4) \<Rightarrow> (Inr (sort out), co4)
          | (Inl err, co4) \<Rightarrow>
              (Inl err, co4\<lparr>co_channels := co_channels co2,
                            co_tombstoneKeys := fold set_del out (co_tombstoneKeys co4)\<rparr>))"

text \<open>The two forms that name no operation; \<open>Released\<close> drops the error.\<close>

definition Released :: "env \<Rightarrow> string \<Rightarrow> coordinator \<Rightarrow> string list \<times> coordinator" where
  "Released e podName co =
     (case ReleasedSession e '''' podName '''' co of
        (Inl _, co1) \<Rightarrow> ([], co1) | (Inr out, co1) \<Rightarrow> (out, co1))"

definition ReleasedCommitted :: "env \<Rightarrow> string \<Rightarrow> coordinator \<Rightarrow> string list result \<times> coordinator" where
  "ReleasedCommitted e podName co = ReleasedSession e '''' podName '''' co"

end
