(* ===== verification/Persistence.thy ===== *)
theory Persistence
  imports Producing
begin

text \<open>
  The durable form of the coordinator, after \<^verbatim>\<open>pkg/coordinator/persistence.go\<close> and
  \<^verbatim>\<open>rebindHeldSegments\<close> of \<^verbatim>\<open>pkg/coordinator/coordinator.go\<close>.

  The checkpoint body is the JSON text of \<open>persistedCoordinator\<close>; the model keeps the value
  that text encodes. JSON drops the difference between an empty and a missing map, which
  \<^verbatim>\<open>restore\<close> evens out and the model does not have.

  Segments are written once, under their append ID, and every structure of the channel refers
  to them by append ID. Restoring therefore renumbers the segment store. \<open>c_view\<close> reads a
  channel with every reference replaced by the segment it denotes, and the round trip is stated
  on that reading.
\<close>

subsection \<open>Persisted types\<close>

record persistedPod =
  pp_operation :: string
  pp_address :: string
  pp_slots :: int
  pp_lastSeen :: int
  pp_done :: bool
  pp_incarnation :: string
  pp_cohortSlot :: nat

record persistedOperation =
  po_pods :: "(string, persistedPod) gomap"
  po_owners :: "(string, string) gomap"
  po_pinned :: "string goset"
  po_epochDone :: "(string, int) gomap"
  po_replicas :: int
  po_retired :: "(string, string goset) gomap"
  po_nextCohortSlot :: nat
  po_freeCohortSlots :: "nat list"
  po_completed :: bool

record persistedSubscriptionWork =
  pw_offset :: int
  pw_appendID :: string
  pw_owner :: string

record persistedSubscription =
  psub_name :: string
  psub_operation :: string
  psub_positions :: "int list"
  psub_inFlight :: "(int, persistedSubscriptionWork) gomap"

record persistedSegment =
  ps_id :: string
  ps_holder :: string
  ps_producer :: string
  ps_operation :: string
  ps_channel :: string
  ps_partition :: int
  ps_epoch :: int
  ps_records :: int
  ps_bytes :: int
  ps_durable :: bool
  ps_task :: TaskID
  ps_delivered :: "string goset"
  ps_acked :: "string goset"
  ps_retryAfter :: "(string, int) gomap"
  ps_appendID :: string
  ps_offset :: int
  ps_retentionDeleted :: bool
  ps_lost :: bool
  ps_released :: bool
  ps_reported :: bool
  ps_data :: "Record list option"

record persistedChannel =
  pc_spec :: Channel
  pc_sealed :: bool
  pc_produced :: int
  pc_overflowed :: int
  pc_lost :: int
  pc_acknowledged :: int
  pc_latestDeliveryFailure :: string
  pc_epoch :: int
  pc_finiteEpochs :: bool
  pc_maxEpochs :: int
  pc_productionClosed :: "int goset"
  pc_roundRobin :: "64 word"
  pc_segments :: "(string, persistedSegment) gomap"
  pc_queues :: "string list list"
  pc_log :: "string list"
  pc_held :: "string list"
  pc_cursor :: "(string, nat) gomap"
  pc_epochDone :: "(string, int) gomap"
  pc_records :: "Record list"
  pc_appendIndex :: bool
  pc_all :: "string list"
  pc_history :: "string list list"
  pc_historyBase :: "int list"
  pc_subscriptions :: "(string, persistedSubscription) gomap"

record persistedCoordinator =
  pco_nextID :: "64 word"
  pco_channels :: "(string, persistedChannel) gomap"
  pco_operations :: "(string, persistedOperation) gomap"

subsection \<open>Taking a snapshot\<close>

definition snapshot_pod :: "pod \<Rightarrow> persistedPod" where
  "snapshot_pod p = \<lparr>pp_operation = p_op p, pp_address = p_addr p, pp_slots = p_slots p,
     pp_lastSeen = p_lastSeen p, pp_done = p_done p, pp_incarnation = p_incarnation p,
     pp_cohortSlot = p_cohortSlot p\<rparr>"

definition snapshot_operation :: "operation \<Rightarrow> persistedOperation" where
  "snapshot_operation o1 = \<lparr>po_pods = map_vals snapshot_pod (o_pods o1), po_owners = o_owner o1,
     po_pinned = o_pinned o1, po_epochDone = o_epochDone o1, po_replicas = o_replicas o1,
     po_retired = o_retired o1, po_nextCohortSlot = o_nextCohortSlot o1,
     po_freeCohortSlots = o_freeCohortSlots o1, po_completed = o_completed o1\<rparr>"

definition snapshot_subscription :: "subscription \<Rightarrow> persistedSubscription" where
  "snapshot_subscription sub = \<lparr>psub_name = sub_name sub, psub_operation = sub_operation sub,
     psub_positions = sub_positions sub,
     psub_inFlight = map_vals (\<lambda>d. \<lparr>pw_offset = d_offset d, pw_appendID = d_appendID d,
       pw_owner = d_owner d\<rparr>) (sub_inflight sub)\<rparr>"

definition snapshot_segment :: "segment \<Rightarrow> persistedSegment" where
  "snapshot_segment s = \<lparr>ps_id = s_id s, ps_holder = s_holder s, ps_producer = s_producer s,
     ps_operation = s_op s, ps_channel = s_channel s, ps_partition = s_part s,
     ps_epoch = s_epoch s, ps_records = s_records s, ps_bytes = s_bytes s, ps_durable = s_durable s,
     ps_task = s_task s, ps_delivered = s_delivered s, ps_acked = s_acked s,
     ps_retryAfter = s_retryAfter s, ps_appendID = s_appendID s, ps_offset = s_offset s,
     ps_retentionDeleted = s_retentionDeleted s, ps_lost = s_lost s, ps_released = s_released s,
     ps_reported = s_reported s, ps_data = s_data s\<rparr>"

definition snapshot_channel :: "channel \<Rightarrow> persistedChannel" where
  "snapshot_channel c =
     (let names = map (\<lambda>r. s_appendID (seg c r)) in
      \<lparr>pc_spec = c_spec c, pc_sealed = c_sealed c, pc_produced = c_produced c,
       pc_overflowed = c_overflowed c, pc_lost = c_lost c, pc_acknowledged = c_acknowledged c,
       pc_latestDeliveryFailure = c_latestDeliveryFailure c, pc_epoch = c_epoch c,
       pc_finiteEpochs = c_finiteEpochs c, pc_maxEpochs = c_maxEpochs c,
       pc_productionClosed = c_productionClosed c, pc_roundRobin = c_rr c,
       pc_segments = map_vals (\<lambda>r. snapshot_segment (seg c r)) (c_appendIDs c),
       pc_queues = map names (c_queues c), pc_log = names (c_log c), pc_held = names (c_held c),
       pc_cursor = c_cursor c, pc_epochDone = c_epochDone c, pc_records = c_records c,
       pc_appendIndex = True, pc_all = names (map snd (c_all c)),
       pc_history = map names (c_history c), pc_historyBase = c_historyBase c,
       pc_subscriptions = map_vals snapshot_subscription (c_subscriptions c)\<rparr>)"

definition snapshot :: "coordinator \<Rightarrow> persistedCoordinator" where
  "snapshot co = \<lparr>pco_nextID = co_nextID co,
     pco_channels = map_vals snapshot_channel (co_channels co),
     pco_operations = map_vals snapshot_operation (co_ops co)\<rparr>"

definition tombstones :: "coordinator \<Rightarrow> string list" where
  "tombstones co =
     sort (co_tombstoneKeys co @
       concat (map (\<lambda>(_, c). if retained c then []
                 else map (\<lambda>(_, r). s_id (seg c r)) (filter (\<lambda>(_, r). s_released (seg c r)) (c_all c)))
         (co_channels co)))"

subsection \<open>Restoring\<close>

definition restore_pod :: "string \<Rightarrow> persistedPod \<Rightarrow> pod" where
  "restore_pod w pp = \<lparr>p_name = w, p_op = pp_operation pp, p_addr = pp_address pp,
     p_slots = pp_slots pp, p_lastSeen = pp_lastSeen pp, p_done = pp_done pp,
     p_incarnation = pp_incarnation pp, p_cohortSlot = pp_cohortSlot pp\<rparr>"

definition restore_operation :: "persistedOperation \<Rightarrow> operation" where
  "restore_operation po = \<lparr>o_pods = map (\<lambda>(w, pp). (w, restore_pod w pp)) (po_pods po),
     o_epochDone = po_epochDone po, o_owner = po_owners po, o_pinned = po_pinned po,
     o_replicas = po_replicas po, o_retired = po_retired po,
     o_nextCohortSlot = po_nextCohortSlot po, o_freeCohortSlots = po_freeCohortSlots po,
     o_completed = po_completed po\<rparr>"

definition restore_subscription :: "persistedSubscription \<Rightarrow> subscription" where
  "restore_subscription ps = \<lparr>sub_name = psub_name ps, sub_operation = psub_operation ps,
     sub_positions = psub_positions ps,
     sub_inflight = map_vals (\<lambda>w. \<lparr>d_offset = pw_offset w, d_appendID = pw_appendID w,
       d_owner = pw_owner w\<rparr>) (psub_inFlight ps)\<rparr>"

definition restore_segment :: "persistedSegment \<Rightarrow> segment" where
  "restore_segment ps = \<lparr>s_id = ps_id ps, s_holder = ps_holder ps, s_producer = ps_producer ps,
     s_op = ps_operation ps, s_channel = ps_channel ps, s_part = ps_partition ps,
     s_epoch = ps_epoch ps, s_records = ps_records ps, s_bytes = ps_bytes ps,
     s_durable = (ps_durable ps \<or> durableHolder (ps_holder ps)), s_task = ps_task ps,
     s_appendID = (if ps_appendID ps = '''' then ps_producer ps @ ''/'' @ ps_id ps
                   else ps_appendID ps),
     s_offset = ps_offset ps, s_delivered = ps_delivered ps, s_acked = ps_acked ps,
     s_retryAfter = ps_retryAfter ps, s_lost = ps_lost ps, s_released = ps_released ps,
     s_retentionDeleted = ps_retentionDeleted ps, s_reported = ps_reported ps,
     s_data = ps_data ps\<rparr>"

text \<open>One turn of the loop over \<^verbatim>\<open>pc.Segments\<close>; the second component collects the aliases.\<close>

definition restore1 ::
  "persistedChannel \<Rightarrow> string \<times> persistedSegment \<Rightarrow> channel \<times> string list \<Rightarrow> channel \<times> string list"
where
  "restore1 pc kps st =
     (let (k, ps) = kps; (c, aliases) = st;
          s = restore_segment ps; r = length (c_heap c);
          c1 = c\<lparr>c_heap := c_heap c @ [s],
                 c_appendIDs := AList.update (s_appendID s) r (c_appendIDs c)\<rparr>;
          (c2, aliases2) =
            (if k \<noteq> s_appendID s
             then (c1\<lparr>c_appendIDs := AList.update k r (c_appendIDs c1)\<rparr>, aliases @ [k])
             else (c1, aliases));
          c3 = (if \<not> pc_appendIndex pc \<or> k \<in> set (pc_all pc) \<or> s_appendID s \<in> set (pc_all pc)
                then c2\<lparr>c_all := AList.update (key s) r (c_all c2)\<rparr> else c2);
          c4 = (if s_delivered s \<noteq> []
                then c3\<lparr>c_inflight := AList.update (key s) r (c_inflight c3)\<rparr> else c3)
      in (c4, aliases2))"

definition restore_base :: "persistedChannel \<Rightarrow> channel" where
  "restore_base pc =
     \<lparr>c_spec = pc_spec pc, c_sealed = pc_sealed pc, c_produced = pc_produced pc,
      c_overflowed = pc_overflowed pc, c_lost = pc_lost pc, c_acknowledged = pc_acknowledged pc,
      c_latestDeliveryFailure = pc_latestDeliveryFailure pc, c_epoch = pc_epoch pc,
      c_finiteEpochs = pc_finiteEpochs pc, c_maxEpochs = pc_maxEpochs pc,
      c_productionClosed = pc_productionClosed pc, c_rr = pc_roundRobin pc, c_queues = [],
      c_log = [], c_cursor = pc_cursor pc, c_inflight = [], c_held = [],
      c_epochDone = pc_epochDone pc, c_records = pc_records pc, c_history = [],
      c_historyBase = pc_historyBase pc, c_appendIDs = [], c_subscriptions = [], c_all = [],
      c_heap = [], c_panic = False\<rparr>"

definition restore_channel :: "persistedChannel \<Rightarrow> channel" where
  "restore_channel pc =
     (let (c, aliases) = fold (restore1 pc) (pc_segments pc) (restore_base pc, []);
          refs = List.map_filter (map_of (c_appendIDs c));
          n = nat (p_partitions (ch_partitioning (pc_spec pc)))
      in c\<lparr>c_history := (if pc_history pc = [] then replicate n [] else map refs (pc_history pc)),
           c_historyBase := (if pc_historyBase pc = [] then replicate n 0 else pc_historyBase pc),
           c_subscriptions := map_vals restore_subscription (pc_subscriptions pc),
           c_queues := map refs (pc_queues pc),
           c_log := refs (pc_log pc), c_held := refs (pc_held pc),
           c_appendIDs := fold AList.delete aliases (c_appendIDs c)\<rparr>)"

definition restore :: "persistedCoordinator \<Rightarrow> coordinator \<Rightarrow> coordinator" where
  "restore inp co =
     co\<lparr>co_nextID := pco_nextID inp,
        co_ops := map_vals restore_operation (pco_operations inp),
        co_channels := map_vals restore_channel (pco_channels inp)\<rparr>"

text \<open>\<^verbatim>\<open>rebindHeldSegments\<close>: a key added during the range is skipped when it is visited.\<close>

definition rebind1 :: "string \<Rightarrow> string \<times> sref \<Rightarrow> channel \<Rightarrow> channel" where
  "rebind1 selfAddr kr c =
     (let (k, r) = kr; s = seg c r in
      if s_data s = None \<or> s_holder s = selfAddr then c
      else
        (let c1 = c\<lparr>c_all := AList.delete k (c_all c)\<rparr>;
             c2 = (if map_of (c_inflight c1) k = Some r
                   then c1\<lparr>c_inflight := AList.update (selfAddr @ ''/'' @ s_id s) r
                                           (AList.delete k (c_inflight c1))\<rparr> else c1);
             c3 = upd_seg r (\<lambda>x. x\<lparr>s_holder := selfAddr\<rparr>) c2
         in c3\<lparr>c_all := AList.update (selfAddr @ ''/'' @ s_id s) r (c_all c3)\<rparr>))"

definition rebindHeldSegments :: "string \<Rightarrow> coordinator \<Rightarrow> coordinator" where
  "rebindHeldSegments selfAddr co =
     map_channels (\<lambda>c. fold (rebind1 selfAddr) (c_all c) c) co"

end
