(* ===== verification/Consuming.thy ===== *)
theory Consuming
  imports Persistence
begin

text \<open>
  Consuming, after \<^verbatim>\<open>ConsumeSession\<close>, \<^verbatim>\<open>AckSession\<close>, \<^verbatim>\<open>NackSession\<close>, \<^verbatim>\<open>segmentForAck\<close>,
  \<^verbatim>\<open>containsSegment\<close> and \<^verbatim>\<open>Records\<close> of \<^verbatim>\<open>pkg/coordinator/coordinator.go\<close>.

  \<^verbatim>\<open>Records\<close> blocks between readings; its model takes the states the reader sees at the start
  and at each wake-up, the end of the list being the deadline.
\<close>

subsection \<open>Handing out work\<close>

definition retry_at :: "segment \<Rightarrow> string \<Rightarrow> int option" where
  "retry_at s dk = map_of (s_retryAfter s) dk"

text \<open>A missing entry is Go's zero time, before which no clock reading lies.\<close>

definition delayed :: "int \<Rightarrow> segment \<Rightarrow> string \<Rightarrow> bool" where
  "delayed now s dk \<longleftrightarrow> (case retry_at s dk of None \<Rightarrow> False | Some t \<Rightarrow> now < t)"

definition deliver :: "string \<Rightarrow> sref \<Rightarrow> channel \<Rightarrow> channel" where
  "deliver dk r c =
     (upd_seg r (\<lambda>s. s\<lparr>s_delivered := set_add dk (s_delivered s)\<rparr>) c)
       \<lparr>c_inflight := AList.update (key (seg c r)) r (c_inflight c)\<rparr>"

text \<open>The loop over the log of a Broadcast channel, on the part the pod has not read.\<close>

fun consume_log ::
  "int \<Rightarrow> string \<Rightarrow> string \<Rightarrow> string \<Rightarrow> int \<Rightarrow> sref list \<Rightarrow> SegmentRef list \<Rightarrow> channel
     \<Rightarrow> SegmentRef list \<times> channel" where
  "consume_log now podName dk ck limit [] segs c = (segs, c)"
| "consume_log now podName dk ck limit (r # rs) segs c =
     (let s = seg c r in
      if \<not> int (length segs) < limit \<or> delayed now s dk then (segs, c)
      else
        (let c1 = c\<lparr>c_cursor := AList.update podName (Suc (map_get 0 (c_cursor c) podName)) (c_cursor c)\<rparr>
         in if s_lost s \<or> s_released s \<or> ck \<in> set (s_acked s)
            then consume_log now podName dk ck limit rs segs c1
            else consume_log now podName dk ck limit rs (segs @ [ref s]) (deliver dk r c1)))"

text \<open>The loop over one partition; \<open>n\<close> segments were handed out on earlier partitions.\<close>

fun consume_queue ::
  "int \<Rightarrow> string \<Rightarrow> int \<Rightarrow> int \<Rightarrow> nat \<Rightarrow> sref list \<Rightarrow> SegmentRef list \<Rightarrow> channel
     \<Rightarrow> SegmentRef list \<times> channel" where
  "consume_queue now dk limit n p [] segs c = (segs, c)"
| "consume_queue now dk limit n p (r # q) segs c =
     (let s = seg c r in
      if \<not> n + int (length segs) < limit \<or> delayed now s dk then (segs, c)
      else consume_queue now dk limit n p q (segs @ [ref s])
             (deliver dk r (upd_queue (int p) (\<lambda>_. q) c)))"

fun consume_partitions ::
  "int \<Rightarrow> string \<Rightarrow> int \<Rightarrow> nat list \<Rightarrow> int \<Rightarrow> PartitionWork list \<Rightarrow> channel \<Rightarrow> operation
     \<Rightarrow> PartitionWork list \<times> channel \<times> operation" where
  "consume_partitions now dk limit [] n work c o1 = (work, c, o1)"
| "consume_partitions now dk limit (p # ps) n work c o1 =
     (if \<not> in_range (int p) (c_queues c) then (work, c\<lparr>c_panic := True\<rparr>, o1)
      else
        (let (segs, c1) = consume_queue now dk limit n p (c_queues c ! p) [] c in
         if segs = [] then consume_partitions now dk limit ps n work c1 o1
         else consume_partitions now dk limit ps (n + int (length segs))
                (work @ [\<lparr>w_partition = int p, w_segments = segs\<rparr>]) c1
                (if p_mode (ch_partitioning (c_spec c)) = PartitionHash
                 then o1\<lparr>o_pinned := set_add (ownerKey (nat (partitions c)) p) (o_pinned o1)\<rparr>
                 else o1)))"

definition consume_work ::
  "int \<Rightarrow> string \<Rightarrow> string \<Rightarrow> pod \<Rightarrow> int \<Rightarrow> channel \<Rightarrow> operation
     \<Rightarrow> PartitionWork list \<times> channel \<times> operation" where
  "consume_work now podName dk p limit c o1 =
     (if gated c then ([], c, o1)
      else if broadcast c then
        (let (segs, c1) = consume_log now podName dk (cohortKey p) limit
                            (drop (map_get 0 (c_cursor c) podName) (c_log c)) [] c
         in (if segs = [] then [] else [\<lparr>w_partition = 0, w_segments = segs\<rparr>], c1, o1))
      else
        (let (ps, o2) = assigned c o1 podName in consume_partitions now dk limit ps 0 [] c o2))"

definition consume_response :: "channel \<Rightarrow> PartitionWork list \<Rightarrow> channel \<Rightarrow> ConsumeResponse" where
  "consume_response c work c' =
     (let closed = (c_epoch c \<in> set (c_productionClosed c)) in
      \<lparr>resp_work = work, resp_sealed = c_sealed c, resp_drained = (c_sealed c' \<and> quiet c'),
       resp_epoch = c_epoch c, resp_quiescent = (c_finiteEpochs c' \<and> closed \<and> quiet c'),
       resp_productionClosed = closed, resp_finiteEpochs = c_finiteEpochs c,
       resp_maxEpochs = (if c_finiteEpochs c then c_maxEpochs c
                         else (case ch_feedback (c_spec c) of None \<Rightarrow> 0 | Some f \<Rightarrow> f_maxEpochs f)),
       resp_mode = feedbackMode c\<rparr>)"

definition enter_channel :: "string \<Rightarrow> channel \<Rightarrow> channel" where
  "enter_channel podName c =
     (if map_of (c_cursor c) podName = None
      then c\<lparr>c_cursor := AList.update podName 0 (c_cursor c),
             c_epochDone := AList.update podName (-1) (c_epochDone c)\<rparr>
      else c)"

text \<open>
  \<open>admit\<close> is the check of the calling process: a caller without an incarnation whose pod is
  unknown is registered on the spot.
\<close>

definition admit ::
  "env \<Rightarrow> string \<Rightarrow> string \<Rightarrow> string \<Rightarrow> coordinator \<Rightarrow> unit result \<times> coordinator" where
  "admit e opName podName incarnation co =
     (case requireIncarnation opName podName incarnation co of
        (Inr _, co1) \<Rightarrow> (Inr (), co1)
      | (Inl err, co1) \<Rightarrow>
          if incarnation \<noteq> '''' \<or> map_of (o_pods (get_op co1 opName)) podName \<noteq> None
          then (Inl err, co1)
          else (Inr (), touch e opName podName '''' 0 co1))"

definition hand_out ::
  "env \<Rightarrow> string \<Rightarrow> string \<Rightarrow> string \<Rightarrow> string \<Rightarrow> int \<Rightarrow> coordinator
     \<Rightarrow> ConsumeResponse \<times> coordinator" where
  "hand_out e name to podName incarnation limit co =
     (let c = the (map_of (co_channels co) name);
          o1 = get_op co to;
          p = the (map_of (o_pods o1) podName);
          (work, c', o2) = consume_work (env_now e) podName (deliveryKey podName incarnation) p limit c o1
      in (consume_response c work c', upd_op to (\<lambda>_. o2) (upd_channel name (\<lambda>_. c') co)))"

definition ConsumeSession ::
  "env \<Rightarrow> string \<Rightarrow> string \<Rightarrow> string \<Rightarrow> string \<Rightarrow> int \<Rightarrow> coordinator
     \<Rightarrow> ConsumeResponse result \<times> coordinator" where
  "ConsumeSession e name opName podName incarnation limit co =
     (case get co name of
        Inl err \<Rightarrow> (Inl err, co)
      | Inr c \<Rightarrow>
          if external c
          then (Inl (Error 400 ''channel %q has no consuming operation; read it with GET records''), co)
          else if opName \<noteq> '''' \<and> ch_to (c_spec c) \<noteq> opName
          then (Inl (Error 403 ''operation %q may not consume channel %q (consumer is %q)''), co)
          else if podName = '''' then (Inl (Error 400 ''pod is required''), co)
          else
            (let to = ch_to (c_spec c) in
             andThen (admit e to podName incarnation co) (\<lambda>_ co1.
               let co2 = upd_op to (set_pod podName (\<lambda>p. p\<lparr>p_lastSeen := env_now e\<rparr>)) co1;
                   co3 = upd_channel name (enter_channel podName) co2;
                   co4 = settle (expireAll e co3);
                   (resp, co5) = hand_out e name to podName incarnation limit co4
               in case commitLocked e co5 of
                    (Inr _, co6) \<Rightarrow> (Inr resp, co6)
                  | (Inl err, co6) \<Rightarrow> (Inl err, restore (snapshot co) co6))))"

subsection \<open>Acknowledging\<close>

definition segmentForAck :: "channel \<Rightarrow> SegmentAck \<Rightarrow> sref option \<times> bool" where
  "segmentForAck c a =
     (if k_appendID a \<noteq> '''' then
        (let s = map_of (c_appendIDs c) (k_appendID a)
         in (s, case s of None \<Rightarrow> False | Some r \<Rightarrow> s_id (seg c r) = k_id a))
      else
        (let s = map_of (c_all c) (k_holder a @ ''/'' @ k_id a) in (s, s \<noteq> None)))"

definition containsSegment :: "sref list \<Rightarrow> sref \<Rightarrow> bool" where
  "containsSegment xs x \<longleftrightarrow> list_ex (\<lambda>y. y = x) xs"

definition settle_ack :: "string \<Rightarrow> string \<Rightarrow> sref \<Rightarrow> channel \<Rightarrow> channel" where
  "settle_ack owned acknowledger r c =
     (let s = seg c r;
          c1 = (if acknowledger \<in> set (s_acked s) then c
                else c\<lparr>c_acknowledged := c_acknowledged c + s_records s\<rparr>);
          c2 = upd_seg r (\<lambda>x. x\<lparr>s_delivered := set_del owned (s_delivered x),
                                s_retryAfter := AList.delete owned (s_retryAfter x),
                                s_acked := set_add acknowledger (s_acked x)\<rparr>) c1;
          c3 = (if set_del owned (s_delivered s) = []
                then c2\<lparr>c_inflight := AList.delete (key s) (c_inflight c2)\<rparr> else c2)
      in if broadcast c3 then c3 else release r c3)"

definition ack1 ::
  "pod option \<Rightarrow> (string, pod) gomap \<Rightarrow> string \<Rightarrow> string \<Rightarrow> SegmentAck \<Rightarrow> channel \<Rightarrow> channel"
where
  "ack1 p pods podName incarnation a c =
     (let ackPod = (if podName \<noteq> '''' then podName else k_pod a);
          acknowledgingPod = (case p of Some q \<Rightarrow> Some q | None \<Rightarrow> map_of pods ackPod);
          owned = deliveryKey ackPod incarnation
      in case segmentForAck c a of
           (Some r, True) \<Rightarrow>
             if s_lost (seg c r) \<or> owned \<notin> set (s_delivered (seg c r)) then c
             else settle_ack owned
                    (case acknowledgingPod of
                       Some q \<Rightarrow> if broadcast c then cohortKey q else ackPod
                     | None \<Rightarrow> ackPod) r c
         | _ \<Rightarrow> c)"

definition AckSession ::
  "env \<Rightarrow> string \<Rightarrow> string \<Rightarrow> string \<Rightarrow> string \<Rightarrow> SegmentAck list \<Rightarrow> coordinator
     \<Rightarrow> unit result \<times> coordinator" where
  "AckSession e name opName podName incarnation acks co =
     (case get co name of
        Inl err \<Rightarrow> (Inl err, co)
      | Inr c \<Rightarrow>
          andThen (if podName \<noteq> ''''
                   then andThen (requireIncarnation opName podName incarnation co)
                          (\<lambda>p co1. (Inr (Some p), co1))
                   else (Inr None, co)) (\<lambda>p co1.
            let co2 = (if p = None \<and> acks \<noteq> [] then ensure_op (ch_to (c_spec c)) co1 else co1);
                pods = o_pods (get_op co2 (ch_to (c_spec c)))
            in commitLocked e
                 (settle (upd_channel name (fold (ack1 p pods podName incarnation) acks) co2))))"

definition nack1 :: "int \<Rightarrow> string \<Rightarrow> string \<Rightarrow> SegmentAck \<Rightarrow> channel \<Rightarrow> channel" where
  "nack1 now podName owned a c =
     (case fst (segmentForAck c a) of
        None \<Rightarrow> c
      | Some r \<Rightarrow>
          if owned \<notin> set (s_delivered (seg c r)) then c
          else
            (let s = seg c r;
                 c1 = upd_seg r (\<lambda>x. x\<lparr>s_delivered := set_del owned (s_delivered x),
                        s_retryAfter := (if 0 < k_retryAfterMillis a
                          then AList.update owned (now + k_retryAfterMillis a * 1000000) (s_retryAfter x)
                          else s_retryAfter x)\<rparr>) c;
                 c2 = (if k_failure a \<noteq> '''' then c1\<lparr>c_latestDeliveryFailure := k_failure a\<rparr> else c1);
                 c3 = (if set_del owned (s_delivered s) = []
                       then c2\<lparr>c_inflight := AList.delete (key s) (c_inflight c2)\<rparr> else c2)
             in if broadcast c3 then c3\<lparr>c_cursor := AList.update podName 0 (c_cursor c3)\<rparr>
                else if \<not> s_lost s \<and> \<not> s_released s then
                  (if \<not> in_range (s_part s) (c_queues c3) then c3\<lparr>c_panic := True\<rparr>
                   else if \<not> containsSegment (c_queues c3 ! nat (s_part s)) r
                   then upd_queue (s_part s) (\<lambda>q. r # q) c3 else c3)
                else c3))"

definition NackSession ::
  "env \<Rightarrow> string \<Rightarrow> string \<Rightarrow> string \<Rightarrow> string \<Rightarrow> SegmentAck list \<Rightarrow> coordinator
     \<Rightarrow> unit result \<times> coordinator" where
  "NackSession e name opName podName incarnation acks co =
     (case get co name of
        Inl err \<Rightarrow> (Inl err, co)
      | Inr _ \<Rightarrow>
          andThen (requireIncarnation opName podName incarnation co) (\<lambda>_ co1.
            commitLocked e (settle
              (upd_channel name
                 (fold (nack1 (env_now e) podName (deliveryKey podName incarnation)) acks) co1))))"

subsection \<open>Reading a channel without a consumer\<close>

definition read_records :: "string \<Rightarrow> nat \<Rightarrow> channel \<Rightarrow> Record list" where
  "read_records k after c = filter (\<lambda>r. k = '''' \<or> r_key r = k) (drop after (c_records c))"

definition clamp :: "int \<Rightarrow> nat \<Rightarrow> nat" where
  "clamp after n = min (nat after) n"

fun Records ::
  "string \<Rightarrow> string \<Rightarrow> int \<Rightarrow> bool \<Rightarrow> coordinator \<Rightarrow> coordinator list \<Rightarrow> (Record list \<times> nat) result"
where
  "Records name k after waiting co [] =
     (case get co name of
        Inl err \<Rightarrow> Inl err
      | Inr c \<Rightarrow>
          if \<not> external c
          then Inl (Error 400 ''channel %q is consumed by operation %q; its records live on worker pods'')
          else Inr (read_records k (clamp after (length (c_records c))) c, length (c_records c)))"
| "Records name k after waiting co (co' # cos) =
     (case get co name of
        Inl err \<Rightarrow> Inl err
      | Inr c \<Rightarrow>
          if \<not> external c
          then Inl (Error 400 ''channel %q is consumed by operation %q; its records live on worker pods'')
          else
            (let a = clamp after (length (c_records c)); out = read_records k a c in
             if out \<noteq> [] \<or> c_sealed c \<or> \<not> waiting then Inr (out, length (c_records c))
             else Records name k (int a) waiting co' cos))"

subsection \<open>The forms without a process identity\<close>

definition Consume ::
  "env \<Rightarrow> string \<Rightarrow> string \<Rightarrow> string \<Rightarrow> int \<Rightarrow> coordinator \<Rightarrow> ConsumeResponse result \<times> coordinator" where
  "Consume e name opName podName limit co = ConsumeSession e name opName podName '''' limit co"

definition Ack :: "env \<Rightarrow> string \<Rightarrow> SegmentAck list \<Rightarrow> coordinator \<Rightarrow> unit result \<times> coordinator" where
  "Ack e name acks co = AckSession e name '''' '''' '''' acks co"

end
