(* ===== verification/Subscriptions.thy ===== *)
theory Subscriptions
  imports Consuming
begin

text \<open>
  Ordered appends and named subscriptions on retained channels, after
  \<^verbatim>\<open>pkg/coordinator/subscriptions.go\<close>.
\<close>

definition upd_sub :: "string \<Rightarrow> (subscription \<Rightarrow> subscription) \<Rightarrow> channel \<Rightarrow> channel" where
  "upd_sub name f c =
     c\<lparr>c_subscriptions := map (\<lambda>(n, sub). (n, if n = name then f sub else sub)) (c_subscriptions c)\<rparr>"

subsection \<open>Appending\<close>

definition batch_segment :: "string \<Rightarrow> string \<Rightarrow> string \<Rightarrow> AppendBatch \<Rightarrow> segment" where
  "batch_segment name sid holder batch =
     \<lparr>s_id = sid, s_holder = holder, s_producer = '''', s_op = '''', s_channel = name,
      s_part = ab_partition batch, s_epoch = 0, s_records = int (length (ab_records batch)),
      s_bytes = 0, s_durable = False,
      s_task = \<lparr>t_channel = '''', t_partition = 0, t_epoch = 0, t_attempt = 0\<rparr>,
      s_appendID = ab_appendID batch, s_offset = 0, s_delivered = [], s_acked = [],
      s_retryAfter = [], s_lost = False, s_released = False, s_retentionDeleted = False,
      s_reported = False,
      s_data = (if ab_records batch = [] then None else Some (ab_records batch))\<rparr>"

text \<open>
  Appending nothing to a nil slice gives a nil slice, so the data of an empty batch is missing,
  not empty; a missing slice compares as an empty one in \<^verbatim>\<open>sameRecords\<close>.
\<close>

definition data_records :: "segment \<Rightarrow> Record list" where
  "data_records s = (case s_data s of None \<Rightarrow> [] | Some rs \<Rightarrow> rs)"

definition append_channel ::
  "string \<Rightarrow> string \<Rightarrow> string \<Rightarrow> AppendBatch \<Rightarrow> channel \<Rightarrow> channel \<times> int" where
  "append_channel name sid holder batch c = index (batch_segment name sid holder batch) c"

definition AppendSession ::
  "env \<Rightarrow> string \<Rightarrow> string \<Rightarrow> string \<Rightarrow> string \<Rightarrow> AppendBatch \<Rightarrow> coordinator
     \<Rightarrow> int result \<times> coordinator" where
  "AppendSession e name opName podName incarnation batch co =
     (case requireDurableWriterLocked co of
        Inl err \<Rightarrow> (Inl err, co)
      | Inr _ \<Rightarrow>
          (case get co name of
             Inl err \<Rightarrow> (Inl err, co)
           | Inr c \<Rightarrow>
               if \<not> retained c then (Inl (Error 400 ''channel %q is not retained''), co)
               else if \<not> mayProduce co c opName
               then (Inl (Error 403 ''operation %q may not produce on channel %q''), co)
               else
                 andThen (verify (podName \<noteq> '''') opName podName incarnation co) (\<lambda>_ co1.
                   if ab_appendID batch = '''' then (Inl (Error 400 ''appendId is required''), co1)
                   else if ab_partition batch < 0 \<or> partitions c \<le> ab_partition batch
                   then (Inl (Error 400 ''partition %d out of range''), co1)
                   else
                     (case map_of (c_appendIDs c) (ab_appendID batch) of
                        Some r \<Rightarrow>
                          if s_part (seg c r) \<noteq> ab_partition batch
                             \<or> \<not> sameRecords (data_records (seg c r)) (ab_records batch)
                          then (Inl (Error 409 ''append %q already committed with different records''), co1)
                          else (Inr (s_offset (seg c r)), co1)
                      | None \<Rightarrow>
                          if c_sealed c then (Inl (Error 409 ''channel %q is sealed''), co1)
                          else
                            (let nextID = co_nextID co1 + 1;
                                 sid = ''coordinator-'' @ itoa (unat nextID);
                                 (c', off) = append_channel name sid (co_selfAddr co1) batch c;
                                 co2 = upd_channel name (\<lambda>_. c') (co1\<lparr>co_nextID := nextID\<rparr>)
                             in andThen (commitLocked e co2) (\<lambda>_ co3. (Inr off, co3)))))))"

definition Append ::
  "env \<Rightarrow> string \<Rightarrow> string \<Rightarrow> AppendBatch \<Rightarrow> coordinator \<Rightarrow> int result \<times> coordinator" where
  "Append e name opName batch co = AppendSession e name opName '''' '''' batch co"

subsection \<open>Named cursors\<close>

definition new_subscription :: "string \<Rightarrow> string \<Rightarrow> channel \<Rightarrow> subscription" where
  "new_subscription name opName c =
     \<lparr>sub_name = name, sub_operation = opName, sub_positions = c_historyBase c, sub_inflight = []\<rparr>"

definition SetSubscription ::
  "env \<Rightarrow> string \<Rightarrow> string \<Rightarrow> string \<Rightarrow> coordinator \<Rightarrow> unit result \<times> coordinator" where
  "SetSubscription e channelName name opName co =
     (if name = '''' then (Inl (Error 400 ''subscription name is required''), co)
      else
        (case requireDurableWriterLocked co of
           Inl err \<Rightarrow> (Inl err, co)
         | Inr _ \<Rightarrow>
             (case get co channelName of
                Inl err \<Rightarrow> (Inl err, co)
              | Inr c \<Rightarrow>
                  if \<not> retained c then (Inl (Error 400 ''channel %q is not retained''), co)
                  else
                    (case map_of (c_subscriptions c) name of
                       Some prior \<Rightarrow>
                         if sub_operation prior \<noteq> opName
                         then (Inl (Error 409 ''subscription %q is already bound to operation %q''), co)
                         else (Inr (), co)
                     | None \<Rightarrow>
                         commitLocked e
                           (upd_channel channelName (\<lambda>d. d\<lparr>c_subscriptions :=
                              AList.update name (new_subscription name opName d) (c_subscriptions d)\<rparr>) co)))))"

subsection \<open>Reading\<close>

definition subscriptionDrained :: "channel \<Rightarrow> subscription \<Rightarrow> bool" where
  "subscriptionDrained c sub \<longleftrightarrow>
     sub_inflight sub = [] \<and>
     list_all (\<lambda>p. \<not> sub_positions sub ! p < c_historyBase c ! p + int (length (c_history c ! p)))
       [0..<length (sub_positions sub)]"

definition entry_work :: "channel \<Rightarrow> nat \<Rightarrow> int \<Rightarrow> PartitionWork" where
  "entry_work c p i = \<lparr>w_partition = int p, w_segments = [ref (seg c (c_history c ! p ! nat i))]\<rparr>"

text \<open>
  The loop over the partitions of one request. A position or partition outside the slices of
  the channel is a run-time panic of the code: it ends the loop with the flag set.
\<close>

fun subscription_work ::
  "string \<Rightarrow> int \<Rightarrow> channel \<Rightarrow> nat list \<Rightarrow> PartitionWork list \<Rightarrow> subscription
     \<Rightarrow> PartitionWork list result \<times> subscription \<times> bool" where
  "subscription_work owner limit c [] work sub = (Inr work, sub, False)"
| "subscription_work owner limit c (p # ps) work sub =
     (if limit \<le> int (length work) then (Inr work, sub, False)
      else if length (sub_positions sub) \<le> p \<or> length (c_historyBase c) \<le> p \<or> length (c_history c) \<le> p
      then (Inr work, sub, True)
      else
        (let position = sub_positions sub ! p; base = c_historyBase c ! p;
             n = int (length (c_history c ! p))
         in if position < base
            then (Inl (Error 410 ''subscription %q position %d on partition %d is no longer retained''),
                  sub, False)
            else
              (case map_of (sub_inflight sub) (int p) of
                 Some d \<Rightarrow>
                   (let i = d_offset d - base in
                    subscription_work owner limit c ps
                      (if sub_operation sub = '''' \<and> d_owner d = owner \<and> 0 \<le> i \<and> i < n
                       then work @ [entry_work c p i] else work) sub)
               | None \<Rightarrow>
                   if n \<le> position - base then subscription_work owner limit c ps work sub
                   else
                     (let entry = seg c (c_history c ! p ! nat (position - base)) in
                      subscription_work owner limit c ps
                        (work @ [entry_work c p (position - base)])
                        (sub\<lparr>sub_inflight := AList.update (int p)
                            \<lparr>d_offset = position, d_appendID = s_appendID entry, d_owner = owner\<rparr>
                            (sub_inflight sub)\<rparr>)))))"

definition subscription_response :: "channel \<Rightarrow> PartitionWork list \<Rightarrow> subscription \<Rightarrow> ConsumeResponse"
where
  "subscription_response c work sub =
     \<lparr>resp_work = work, resp_sealed = c_sealed c,
      resp_drained = (c_sealed c \<and> subscriptionDrained c sub), resp_epoch = 0,
      resp_quiescent = False, resp_productionClosed = False, resp_finiteEpochs = False,
      resp_maxEpochs = 0, resp_mode = FeedbackUnset\<rparr>"

definition ConsumeSubscription ::
  "env \<Rightarrow> string \<Rightarrow> string \<Rightarrow> string \<Rightarrow> string \<Rightarrow> int \<Rightarrow> coordinator
     \<Rightarrow> ConsumeResponse result \<times> coordinator" where
  "ConsumeSubscription e channelName name podName incarnation max0 co =
     (case get co channelName of
        Inl err \<Rightarrow> (Inl err, co)
      | Inr c \<Rightarrow>
          (case map_of (c_subscriptions c) name of
             None \<Rightarrow> (Inl (Error 404 ''subscription %q not found''), co)
           | Some sub \<Rightarrow>
               andThen
                 (if sub_operation sub \<noteq> '''' then
                    andThen (requireIncarnation (sub_operation sub) podName incarnation co) (\<lambda>_ co1.
                      let (ps, o2) = assigned c (get_op co1 (sub_operation sub)) podName
                      in (Inr ps, upd_op (sub_operation sub) (\<lambda>_. o2) co1))
                  else if podName = '''' then (Inl (Error 400 ''reader is required''), co)
                  else (Inr [0..<nat (partitions c)], co))
                 (\<lambda>ps co1.
                    let limit = (if max0 \<le> 0 then 100 else max0);
                        (r, sub', panic) =
                          subscription_work (deliveryKey podName incarnation) limit c ps [] sub;
                        co2 = upd_channel channelName
                                (\<lambda>d. upd_sub name (\<lambda>_. sub') (if panic then d\<lparr>c_panic := True\<rparr> else d)) co1
                    in case r of
                         Inl err \<Rightarrow> (Inl err, co2)
                       | Inr work \<Rightarrow>
                           andThen (if work \<noteq> [] then commitLocked e co2 else (Inr (), co2))
                             (\<lambda>_ co3. (Inr (subscription_response c work sub'), co3)))))"

subsection \<open>Moving a cursor\<close>

definition ack_subscription1 :: "string \<Rightarrow> SubscriptionAck \<Rightarrow> subscription \<times> bool \<Rightarrow> subscription \<times> bool"
where
  "ack_subscription1 owner a st =
     (let (sub, panic) = st in
      case map_of (sub_inflight sub) (sa_partition a) of
        None \<Rightarrow> (sub, panic)
      | Some d \<Rightarrow>
          if d_owner d \<noteq> owner \<or> d_offset d \<noteq> sa_offset a \<or> d_appendID d \<noteq> sa_appendID a
          then (sub, panic)
          else if \<not> in_range (sa_partition a) (sub_positions sub) then (sub, True)
          else (sub\<lparr>sub_inflight := AList.delete (sa_partition a) (sub_inflight sub),
                    sub_positions := (sub_positions sub)[nat (sa_partition a) := sa_offset a + 1]\<rparr>, panic))"

definition AckSubscription ::
  "env \<Rightarrow> string \<Rightarrow> string \<Rightarrow> string \<Rightarrow> string \<Rightarrow> SubscriptionAck list \<Rightarrow> coordinator
     \<Rightarrow> unit result \<times> coordinator" where
  "AckSubscription e channelName name podName incarnation acks co =
     (case get co channelName of
        Inl err \<Rightarrow> (Inl err, co)
      | Inr c \<Rightarrow>
          (case map_of (c_subscriptions c) name of
             None \<Rightarrow> (Inl (Error 404 ''subscription %q not found''), co)
           | Some sub \<Rightarrow>
               andThen (verify (sub_operation sub \<noteq> '''') (sub_operation sub) podName incarnation co)
                 (\<lambda>_ co1.
                    let (sub', panic) =
                          fold (ack_subscription1 (deliveryKey podName incarnation)) acks (sub, False)
                    in commitLocked e (upd_channel channelName
                         (\<lambda>d. upd_sub name (\<lambda>_. sub') (if panic then d\<lparr>c_panic := True\<rparr> else d)) co1))))"

fun check_positions :: "channel \<Rightarrow> int \<Rightarrow> int \<Rightarrow> string \<Rightarrow> PartitionPosition list \<Rightarrow> unit result" where
  "check_positions c n status message [] = Inr ()"
| "check_positions c n status message (q # qs) =
     (if pp_partition q < 0 \<or> n \<le> pp_partition q
      then Inl (Error 400 ''partition %d out of range'')
      else
        (let base = c_historyBase c ! nat (pp_partition q);
             end = base + int (length (c_history c ! nat (pp_partition q)))
         in if pp_offset q < base \<or> end < pp_offset q then Inl (Error status message)
            else check_positions c n status message qs))"

definition move_cursor :: "PartitionPosition \<Rightarrow> subscription \<Rightarrow> subscription" where
  "move_cursor q sub =
     sub\<lparr>sub_positions := (sub_positions sub)[nat (pp_partition q) := pp_offset q]\<rparr>"

definition ReplaySubscription ::
  "env \<Rightarrow> string \<Rightarrow> string \<Rightarrow> PartitionPosition list \<Rightarrow> coordinator \<Rightarrow> unit result \<times> coordinator"
where
  "ReplaySubscription e channelName name positions co =
     (case get co channelName of
        Inl err \<Rightarrow> (Inl err, co)
      | Inr c \<Rightarrow>
          (case map_of (c_subscriptions c) name of
             None \<Rightarrow> (Inl (Error 404 ''subscription %q not found''), co)
           | Some sub \<Rightarrow>
               if sub_inflight sub \<noteq> []
               then (Inl (Error 409 ''subscription %q has deliveries in flight''), co)
               else
                 (case check_positions c (int (length (sub_positions sub))) 410
                         ''position %d on partition %d is unavailable'' positions of
                    Inl err \<Rightarrow> (Inl err, co)
                  | Inr _ \<Rightarrow>
                      commitLocked e (upd_channel channelName
                        (upd_sub name (fold move_cursor positions)) co))))"

subsection \<open>Retention\<close>

definition delete_entry :: "sref \<Rightarrow> channel \<Rightarrow> channel" where
  "delete_entry r c =
     (let s = seg c r;
          c1 = upd_seg r (\<lambda>x. x\<lparr>s_data := None, s_retentionDeleted := True, s_released := True\<rparr>)
                 (c\<lparr>c_appendIDs := AList.delete (s_appendID s) (c_appendIDs c)\<rparr>)
      in if s_producer s = '''' then c1\<lparr>c_all := AList.delete (key s) (c_all c1)\<rparr> else c1)"

text \<open>
  The second loop. Two positions on one partition with decreasing offsets pass the checks of
  the first loop and give a negative count here, which is a run-time panic.
\<close>

definition delete_before :: "PartitionPosition \<Rightarrow> channel \<Rightarrow> channel" where
  "delete_before q c =
     (let p = nat (pp_partition q);
          count = pp_offset q - c_historyBase c ! p
      in if count < 0 \<or> int (length (c_history c ! p)) < count then c\<lparr>c_panic := True\<rparr>
         else
           (let c1 = fold delete_entry (take (nat count) (c_history c ! p)) c
            in c1\<lparr>c_history := (c_history c1)[p := drop (nat count) (c_history c1 ! p)],
                  c_historyBase := (c_historyBase c1)[p := pp_offset q]\<rparr>))"

definition DeleteRetainedBefore ::
  "env \<Rightarrow> string \<Rightarrow> PartitionPosition list \<Rightarrow> coordinator \<Rightarrow> unit result \<times> coordinator" where
  "DeleteRetainedBefore e channelName positions co =
     (case get co channelName of
        Inl err \<Rightarrow> (Inl err, co)
      | Inr c \<Rightarrow>
          if \<not> retained c then (Inl (Error 400 ''channel %q is not retained''), co)
          else
            (case check_positions c (int (length (c_history c))) 400
                    ''retention position %d on partition %d is out of range'' positions of
               Inl err \<Rightarrow> (Inl err, co)
             | Inr _ \<Rightarrow> commitLocked e (upd_channel channelName (fold delete_before positions) co)))"

definition subscriptionNames :: "channel \<Rightarrow> string list" where
  "subscriptionNames c = sort (map fst (c_subscriptions c))"

end
