(* ===== verification/Reporting.thy ===== *)
theory Reporting
  imports Subscriptions
begin

text \<open>
  What the coordinator reports, after \<^verbatim>\<open>Metrics\<close> and \<^verbatim>\<open>operationMetrics\<close> of
  \<^verbatim>\<open>pkg/coordinator/coordinator.go\<close>. Reporting is not read-only: it expires pods, settles
  loops and latches the completion of operations.
\<close>

definition channelMetrics :: "string \<Rightarrow> channel \<Rightarrow> ChannelMetrics" where
  "channelMetrics n c =
     \<lparr>cm_name = n, cm_from = ch_from (c_spec c), cm_to = ch_to (c_spec c), cm_sealed = c_sealed c,
      cm_pending = pending c + heldRecords c, cm_inFlight = inflightRecords c,
      cm_produced = c_produced c, cm_epoch = c_epoch c, cm_overflowed = c_overflowed c,
      cm_lost = c_lost c, cm_productionClosed = (c_epoch c \<in> set (c_productionClosed c)),
      cm_acknowledged = c_acknowledged c, cm_latestDeliveryFailure = c_latestDeliveryFailure c,
      cm_pendingByPartition = pendingByPartition c\<rparr>"

text \<open>\<^verbatim>\<open>fmt.Sprint(p)\<close> of a partition number.\<close>

definition task_key :: "channel \<Rightarrow> nat \<Rightarrow> string" where
  "task_key c p =
     (if p_mode (ch_partitioning (c_spec c)) = PartitionHash
      then ''hash/'' @ ownerKey (nat (partitions c)) p
      else ch_name (c_spec c) @ ''/'' @ itoa p)"

definition runnable_keys :: "channel \<Rightarrow> string list" where
  "runnable_keys c =
     (if gated c then []
      else map (\<lambda>(p, _). task_key c p)
             (filter (\<lambda>(_, v). v \<noteq> 0) (enumerate 0 (pendingByPartition c))))"

definition runnable :: "coordinator \<Rightarrow> string \<Rightarrow> string goset" where
  "runnable co name =
     fold (\<lambda>(_, c) ks. if ch_to (c_spec c) = name then fold set_add (runnable_keys c) ks else ks)
       (co_channels co) []"

definition inbound_finished :: "operation \<Rightarrow> channel \<Rightarrow> bool" where
  "inbound_finished o1 c \<longleftrightarrow>
     c_sealed c \<and> quiet c \<and> heldRecords c = 0 \<and> (broadcast c \<longrightarrow> broadcastFullyConsumed o1 c)"

definition holdsUnconsumed :: "coordinator \<Rightarrow> string \<Rightarrow> bool" where
  "holdsUnconsumed co name \<longleftrightarrow>
     list_ex (\<lambda>(_, c). \<not> retained c \<and>
       list_ex (\<lambda>(_, r). let s = seg c r in
         s_data s = None \<and> \<not> s_durable s \<and> \<not> s_released s \<and> s_op s = name) (c_all c)) (co_channels co)"

definition operation_complete :: "coordinator \<Rightarrow> string \<Rightarrow> bool" where
  "operation_complete co name \<longleftrightarrow>
     (let o1 = get_op co name;
          inbound = filter (\<lambda>(_, c). ch_to (c_spec c) = name) (co_channels co)
      in list_all (\<lambda>(_, c). inbound_finished o1 c) inbound
         \<and> runnable co name = []
         \<and> (inbound \<noteq> [] \<or> o_pods o1 \<noteq> [])
         \<and> (o_pods o1 \<noteq> [] \<or> o_completed o1)
         \<and> (o_replicas o1 \<le> int (length (o_pods o1)) \<or> o_completed o1)
         \<and> list_all (\<lambda>(_, p). p_done p) (o_pods o1))"

definition operationMetrics :: "string \<Rightarrow> coordinator \<Rightarrow> OperationMetrics \<times> coordinator" where
  "operationMetrics name co0 =
     (let co = ensure_op name co0; o1 = get_op co name; tasks = runnable co name;
          completed = (if operation_complete co name then True
                       else if tasks \<noteq> [] then False else o_completed o1)
      in (\<lparr>om_name = name, om_runnableTasks = int (length tasks), om_complete = completed,
           om_holdsUnconsumed = holdsUnconsumed co name, om_livePods = int (length (o_pods o1))\<rparr>,
          upd_op name (\<lambda>o2. o2\<lparr>o_completed := completed\<rparr>) co))"

fun operations_metrics :: "string list \<Rightarrow> coordinator \<Rightarrow> OperationMetrics list \<times> coordinator" where
  "operations_metrics [] co = ([], co)"
| "operations_metrics (n # ns) co =
     (let (om, co1) = operationMetrics n co; (oms, co2) = operations_metrics ns co1 in (om # oms, co2))"

definition Metrics :: "env \<Rightarrow> coordinator \<Rightarrow> Metrics \<times> coordinator" where
  "Metrics e co =
     (let co1 = settle (expireAll e co);
          chans = map (\<lambda>n. channelMetrics n (the (map_of (co_channels co1) n))) (channelNames co1);
          (oms, co2) = operations_metrics (sort (map fst (co_ops co1))) co1
      in (\<lparr>m_channels = chans, m_operations = oms\<rparr>, co2))"

end
