(* ===== verification/Shape.thy ===== *)
theory Shape
  imports Reporting
begin

text \<open>
  The shape of one channel, and that every operation on a channel keeps it.

  \<open>wfc\<close> says: the slices have one entry per partition, every reference lies inside the segment
  store, every map files a segment under its own key, queue \<open>p\<close> holds segments of partition
  \<open>p\<close>, the offsets of the retained history continue its base, cursors lie inside the log,
  subscription deliveries sit at the position of their partition, and no slice access has left
  its range. It is what keeps the code's slice accesses in range from one request to the next.
\<close>

subsection \<open>What the elementary updates leave alone\<close>

lemma in_range_update: "in_range i (xs[j := x]) = in_range i xs"
  by (simp add: in_range_def)

lemma upd_seg_frame [simp]:
  "c_spec (upd_seg r f c) = c_spec c" "c_sealed (upd_seg r f c) = c_sealed c"
  "c_produced (upd_seg r f c) = c_produced c" "c_lost (upd_seg r f c) = c_lost c"
  "c_acknowledged (upd_seg r f c) = c_acknowledged c" "c_epoch (upd_seg r f c) = c_epoch c"
  "c_finiteEpochs (upd_seg r f c) = c_finiteEpochs c" "c_queues (upd_seg r f c) = c_queues c"
  "c_log (upd_seg r f c) = c_log c" "c_cursor (upd_seg r f c) = c_cursor c"
  "c_inflight (upd_seg r f c) = c_inflight c" "c_held (upd_seg r f c) = c_held c"
  "c_history (upd_seg r f c) = c_history c" "c_historyBase (upd_seg r f c) = c_historyBase c"
  "c_appendIDs (upd_seg r f c) = c_appendIDs c" "c_all (upd_seg r f c) = c_all c"
  "c_subscriptions (upd_seg r f c) = c_subscriptions c" "c_panic (upd_seg r f c) = c_panic c"
  "length (c_heap (upd_seg r f c)) = length (c_heap c)"
  by (simp_all add: upd_seg_def)

lemma seg_upd_seg [simp]:
  "seg (upd_seg r f c) x = (if x = r \<and> r < length (c_heap c) then f (seg c r) else seg c x)"
  by (cases "r < length (c_heap c)") (auto simp: upd_seg_def seg_def nth_list_update not_less list_update_beyond)

lemma upd_queue_frame [simp]:
  "c_spec (upd_queue p f c) = c_spec c" "c_sealed (upd_queue p f c) = c_sealed c"
  "c_produced (upd_queue p f c) = c_produced c" "c_lost (upd_queue p f c) = c_lost c"
  "c_acknowledged (upd_queue p f c) = c_acknowledged c" "c_epoch (upd_queue p f c) = c_epoch c"
  "c_finiteEpochs (upd_queue p f c) = c_finiteEpochs c" "c_heap (upd_queue p f c) = c_heap c"
  "c_log (upd_queue p f c) = c_log c" "c_cursor (upd_queue p f c) = c_cursor c"
  "c_inflight (upd_queue p f c) = c_inflight c" "c_held (upd_queue p f c) = c_held c"
  "c_history (upd_queue p f c) = c_history c" "c_historyBase (upd_queue p f c) = c_historyBase c"
  "c_appendIDs (upd_queue p f c) = c_appendIDs c" "c_all (upd_queue p f c) = c_all c"
  "c_subscriptions (upd_queue p f c) = c_subscriptions c"
  by (simp_all add: upd_queue_def)

lemma seg_upd_queue [simp]: "seg (upd_queue p f c) x = seg c x"
  by (simp add: seg_def)

lemma upd_queue_in_range:
  "in_range p (c_queues c) \<Longrightarrow>
   upd_queue p f c = c\<lparr>c_queues := (c_queues c)[nat p := f (c_queues c ! nat p)]\<rparr>"
  by (simp add: upd_queue_def)

lemma seg_update_other [simp]:
  "seg (c\<lparr>c_sealed := b\<rparr>) = seg c" "seg (c\<lparr>c_produced := i\<rparr>) = seg c" "seg (c\<lparr>c_lost := i\<rparr>) = seg c"
  "seg (c\<lparr>c_acknowledged := i\<rparr>) = seg c" "seg (c\<lparr>c_overflowed := i\<rparr>) = seg c"
  "seg (c\<lparr>c_latestDeliveryFailure := t\<rparr>) = seg c" "seg (c\<lparr>c_epoch := i\<rparr>) = seg c"
  "seg (c\<lparr>c_finiteEpochs := b\<rparr>) = seg c" "seg (c\<lparr>c_maxEpochs := i\<rparr>) = seg c"
  "seg (c\<lparr>c_productionClosed := s\<rparr>) = seg c" "seg (c\<lparr>c_rr := w\<rparr>) = seg c"
  "seg (c\<lparr>c_queues := q\<rparr>) = seg c" "seg (c\<lparr>c_log := l\<rparr>) = seg c" "seg (c\<lparr>c_cursor := cu\<rparr>) = seg c"
  "seg (c\<lparr>c_inflight := m\<rparr>) = seg c" "seg (c\<lparr>c_held := l\<rparr>) = seg c"
  "seg (c\<lparr>c_epochDone := ed\<rparr>) = seg c" "seg (c\<lparr>c_records := rs\<rparr>) = seg c"
  "seg (c\<lparr>c_history := h\<rparr>) = seg c" "seg (c\<lparr>c_historyBase := hb\<rparr>) = seg c"
  "seg (c\<lparr>c_appendIDs := m\<rparr>) = seg c" "seg (c\<lparr>c_subscriptions := su\<rparr>) = seg c"
  "seg (c\<lparr>c_all := m\<rparr>) = seg c" "seg (c\<lparr>c_panic := b\<rparr>) = seg c" "seg (c\<lparr>c_spec := sp\<rparr>) = seg c"
  by (simp_all add: seg_def fun_eq_iff)

lemma spec_reads:
  assumes "c_spec c' = c_spec c"
  shows "broadcast c' = broadcast c" "external c' = external c" "partitions c' = partitions c"
    "synchronous c' = synchronous c" "retained c' = retained c"
  using assms by (simp_all add: broadcast_def external_def partitions_def synchronous_def
      feedbackMode_def retained_def)

lemmas spec_reads_upd [simp] =
  spec_reads [OF upd_seg_frame(1)] spec_reads [OF upd_queue_frame(1)]

lemma broadcast_update [simp]:
  "broadcast (c\<lparr>c_sealed := xsealed\<rparr>) = broadcast c"
  "broadcast (c\<lparr>c_produced := xproduced\<rparr>) = broadcast c"
  "broadcast (c\<lparr>c_lost := xlost\<rparr>) = broadcast c"
  "broadcast (c\<lparr>c_acknowledged := xacknowledged\<rparr>) = broadcast c"
  "broadcast (c\<lparr>c_overflowed := xoverflowed\<rparr>) = broadcast c"
  "broadcast (c\<lparr>c_latestDeliveryFailure := xlatestDeliveryFailure\<rparr>) = broadcast c"
  "broadcast (c\<lparr>c_epoch := xepoch\<rparr>) = broadcast c"
  "broadcast (c\<lparr>c_finiteEpochs := xfiniteEpochs\<rparr>) = broadcast c"
  "broadcast (c\<lparr>c_maxEpochs := xmaxEpochs\<rparr>) = broadcast c"
  "broadcast (c\<lparr>c_productionClosed := xproductionClosed\<rparr>) = broadcast c"
  "broadcast (c\<lparr>c_rr := xrr\<rparr>) = broadcast c"
  "broadcast (c\<lparr>c_queues := xqueues\<rparr>) = broadcast c"
  "broadcast (c\<lparr>c_log := xlog\<rparr>) = broadcast c"
  "broadcast (c\<lparr>c_cursor := xcursor\<rparr>) = broadcast c"
  "broadcast (c\<lparr>c_inflight := xinflight\<rparr>) = broadcast c"
  "broadcast (c\<lparr>c_held := xheld\<rparr>) = broadcast c"
  "broadcast (c\<lparr>c_epochDone := xepochDone\<rparr>) = broadcast c"
  "broadcast (c\<lparr>c_records := xrecords\<rparr>) = broadcast c"
  "broadcast (c\<lparr>c_history := xhistory\<rparr>) = broadcast c"
  "broadcast (c\<lparr>c_historyBase := xhistoryBase\<rparr>) = broadcast c"
  "broadcast (c\<lparr>c_appendIDs := xappendIDs\<rparr>) = broadcast c"
  "broadcast (c\<lparr>c_subscriptions := xsubscriptions\<rparr>) = broadcast c"
  "broadcast (c\<lparr>c_all := xall\<rparr>) = broadcast c"
  "broadcast (c\<lparr>c_panic := xpanic\<rparr>) = broadcast c"
  "broadcast (c\<lparr>c_heap := xheap\<rparr>) = broadcast c"
  by (simp_all add: broadcast_def)

lemma external_update [simp]:
  "external (c\<lparr>c_sealed := xsealed\<rparr>) = external c"
  "external (c\<lparr>c_produced := xproduced\<rparr>) = external c"
  "external (c\<lparr>c_lost := xlost\<rparr>) = external c"
  "external (c\<lparr>c_acknowledged := xacknowledged\<rparr>) = external c"
  "external (c\<lparr>c_overflowed := xoverflowed\<rparr>) = external c"
  "external (c\<lparr>c_latestDeliveryFailure := xlatestDeliveryFailure\<rparr>) = external c"
  "external (c\<lparr>c_epoch := xepoch\<rparr>) = external c"
  "external (c\<lparr>c_finiteEpochs := xfiniteEpochs\<rparr>) = external c"
  "external (c\<lparr>c_maxEpochs := xmaxEpochs\<rparr>) = external c"
  "external (c\<lparr>c_productionClosed := xproductionClosed\<rparr>) = external c"
  "external (c\<lparr>c_rr := xrr\<rparr>) = external c"
  "external (c\<lparr>c_queues := xqueues\<rparr>) = external c"
  "external (c\<lparr>c_log := xlog\<rparr>) = external c"
  "external (c\<lparr>c_cursor := xcursor\<rparr>) = external c"
  "external (c\<lparr>c_inflight := xinflight\<rparr>) = external c"
  "external (c\<lparr>c_held := xheld\<rparr>) = external c"
  "external (c\<lparr>c_epochDone := xepochDone\<rparr>) = external c"
  "external (c\<lparr>c_records := xrecords\<rparr>) = external c"
  "external (c\<lparr>c_history := xhistory\<rparr>) = external c"
  "external (c\<lparr>c_historyBase := xhistoryBase\<rparr>) = external c"
  "external (c\<lparr>c_appendIDs := xappendIDs\<rparr>) = external c"
  "external (c\<lparr>c_subscriptions := xsubscriptions\<rparr>) = external c"
  "external (c\<lparr>c_all := xall\<rparr>) = external c"
  "external (c\<lparr>c_panic := xpanic\<rparr>) = external c"
  "external (c\<lparr>c_heap := xheap\<rparr>) = external c"
  by (simp_all add: external_def)

lemma partitions_update [simp]:
  "partitions (c\<lparr>c_sealed := xsealed\<rparr>) = partitions c"
  "partitions (c\<lparr>c_produced := xproduced\<rparr>) = partitions c"
  "partitions (c\<lparr>c_lost := xlost\<rparr>) = partitions c"
  "partitions (c\<lparr>c_acknowledged := xacknowledged\<rparr>) = partitions c"
  "partitions (c\<lparr>c_overflowed := xoverflowed\<rparr>) = partitions c"
  "partitions (c\<lparr>c_latestDeliveryFailure := xlatestDeliveryFailure\<rparr>) = partitions c"
  "partitions (c\<lparr>c_epoch := xepoch\<rparr>) = partitions c"
  "partitions (c\<lparr>c_finiteEpochs := xfiniteEpochs\<rparr>) = partitions c"
  "partitions (c\<lparr>c_maxEpochs := xmaxEpochs\<rparr>) = partitions c"
  "partitions (c\<lparr>c_productionClosed := xproductionClosed\<rparr>) = partitions c"
  "partitions (c\<lparr>c_rr := xrr\<rparr>) = partitions c"
  "partitions (c\<lparr>c_queues := xqueues\<rparr>) = partitions c"
  "partitions (c\<lparr>c_log := xlog\<rparr>) = partitions c"
  "partitions (c\<lparr>c_cursor := xcursor\<rparr>) = partitions c"
  "partitions (c\<lparr>c_inflight := xinflight\<rparr>) = partitions c"
  "partitions (c\<lparr>c_held := xheld\<rparr>) = partitions c"
  "partitions (c\<lparr>c_epochDone := xepochDone\<rparr>) = partitions c"
  "partitions (c\<lparr>c_records := xrecords\<rparr>) = partitions c"
  "partitions (c\<lparr>c_history := xhistory\<rparr>) = partitions c"
  "partitions (c\<lparr>c_historyBase := xhistoryBase\<rparr>) = partitions c"
  "partitions (c\<lparr>c_appendIDs := xappendIDs\<rparr>) = partitions c"
  "partitions (c\<lparr>c_subscriptions := xsubscriptions\<rparr>) = partitions c"
  "partitions (c\<lparr>c_all := xall\<rparr>) = partitions c"
  "partitions (c\<lparr>c_panic := xpanic\<rparr>) = partitions c"
  "partitions (c\<lparr>c_heap := xheap\<rparr>) = partitions c"
  by (simp_all add: partitions_def)

lemma synchronous_update [simp]:
  "synchronous (c\<lparr>c_sealed := xsealed\<rparr>) = synchronous c"
  "synchronous (c\<lparr>c_produced := xproduced\<rparr>) = synchronous c"
  "synchronous (c\<lparr>c_lost := xlost\<rparr>) = synchronous c"
  "synchronous (c\<lparr>c_acknowledged := xacknowledged\<rparr>) = synchronous c"
  "synchronous (c\<lparr>c_overflowed := xoverflowed\<rparr>) = synchronous c"
  "synchronous (c\<lparr>c_latestDeliveryFailure := xlatestDeliveryFailure\<rparr>) = synchronous c"
  "synchronous (c\<lparr>c_epoch := xepoch\<rparr>) = synchronous c"
  "synchronous (c\<lparr>c_finiteEpochs := xfiniteEpochs\<rparr>) = synchronous c"
  "synchronous (c\<lparr>c_maxEpochs := xmaxEpochs\<rparr>) = synchronous c"
  "synchronous (c\<lparr>c_productionClosed := xproductionClosed\<rparr>) = synchronous c"
  "synchronous (c\<lparr>c_rr := xrr\<rparr>) = synchronous c"
  "synchronous (c\<lparr>c_queues := xqueues\<rparr>) = synchronous c"
  "synchronous (c\<lparr>c_log := xlog\<rparr>) = synchronous c"
  "synchronous (c\<lparr>c_cursor := xcursor\<rparr>) = synchronous c"
  "synchronous (c\<lparr>c_inflight := xinflight\<rparr>) = synchronous c"
  "synchronous (c\<lparr>c_held := xheld\<rparr>) = synchronous c"
  "synchronous (c\<lparr>c_epochDone := xepochDone\<rparr>) = synchronous c"
  "synchronous (c\<lparr>c_records := xrecords\<rparr>) = synchronous c"
  "synchronous (c\<lparr>c_history := xhistory\<rparr>) = synchronous c"
  "synchronous (c\<lparr>c_historyBase := xhistoryBase\<rparr>) = synchronous c"
  "synchronous (c\<lparr>c_appendIDs := xappendIDs\<rparr>) = synchronous c"
  "synchronous (c\<lparr>c_subscriptions := xsubscriptions\<rparr>) = synchronous c"
  "synchronous (c\<lparr>c_all := xall\<rparr>) = synchronous c"
  "synchronous (c\<lparr>c_panic := xpanic\<rparr>) = synchronous c"
  "synchronous (c\<lparr>c_heap := xheap\<rparr>) = synchronous c"
  by (simp_all add: synchronous_def feedbackMode_def)

lemma retained_update [simp]:
  "retained (c\<lparr>c_sealed := xsealed\<rparr>) = retained c"
  "retained (c\<lparr>c_produced := xproduced\<rparr>) = retained c"
  "retained (c\<lparr>c_lost := xlost\<rparr>) = retained c"
  "retained (c\<lparr>c_acknowledged := xacknowledged\<rparr>) = retained c"
  "retained (c\<lparr>c_overflowed := xoverflowed\<rparr>) = retained c"
  "retained (c\<lparr>c_latestDeliveryFailure := xlatestDeliveryFailure\<rparr>) = retained c"
  "retained (c\<lparr>c_epoch := xepoch\<rparr>) = retained c"
  "retained (c\<lparr>c_finiteEpochs := xfiniteEpochs\<rparr>) = retained c"
  "retained (c\<lparr>c_maxEpochs := xmaxEpochs\<rparr>) = retained c"
  "retained (c\<lparr>c_productionClosed := xproductionClosed\<rparr>) = retained c"
  "retained (c\<lparr>c_rr := xrr\<rparr>) = retained c"
  "retained (c\<lparr>c_queues := xqueues\<rparr>) = retained c"
  "retained (c\<lparr>c_log := xlog\<rparr>) = retained c"
  "retained (c\<lparr>c_cursor := xcursor\<rparr>) = retained c"
  "retained (c\<lparr>c_inflight := xinflight\<rparr>) = retained c"
  "retained (c\<lparr>c_held := xheld\<rparr>) = retained c"
  "retained (c\<lparr>c_epochDone := xepochDone\<rparr>) = retained c"
  "retained (c\<lparr>c_records := xrecords\<rparr>) = retained c"
  "retained (c\<lparr>c_history := xhistory\<rparr>) = retained c"
  "retained (c\<lparr>c_historyBase := xhistoryBase\<rparr>) = retained c"
  "retained (c\<lparr>c_appendIDs := xappendIDs\<rparr>) = retained c"
  "retained (c\<lparr>c_subscriptions := xsubscriptions\<rparr>) = retained c"
  "retained (c\<lparr>c_all := xall\<rparr>) = retained c"
  "retained (c\<lparr>c_panic := xpanic\<rparr>) = retained c"
  "retained (c\<lparr>c_heap := xheap\<rparr>) = retained c"
  by (simp_all add: retained_def)

subsection \<open>The shape of a channel\<close>

definition sized :: "channel \<Rightarrow> bool" where
  "sized c \<longleftrightarrow> 0 < partitions c \<and> partitions c < 2 ^ 31 \<and> length (c_queues c) = nat (partitions c)
     \<and> length (c_history c) = nat (partitions c) \<and> length (c_historyBase c) = nat (partitions c)"

definition all_refs :: "channel \<Rightarrow> sref set" where
  "all_refs c = \<Union> (set ` set (c_queues c)) \<union> set (c_log c) \<union> set (c_held c) \<union> snd ` set (c_inflight c)
     \<union> \<Union> (set ` set (c_history c)) \<union> snd ` set (c_appendIDs c) \<union> snd ` set (c_all c)"

definition refs_ok :: "channel \<Rightarrow> bool" where
  "refs_ok c \<longleftrightarrow> all_refs c \<subseteq> {..<length (c_heap c)}"

definition maps_ok :: "channel \<Rightarrow> bool" where
  "maps_ok c \<longleftrightarrow> distinct (map fst (c_all c)) \<and> distinct (map fst (c_inflight c))
     \<and> distinct (map fst (c_appendIDs c)) \<and> distinct (map fst (c_cursor c))
     \<and> distinct (map fst (c_subscriptions c))
     \<and> (\<forall>(k, r) \<in> set (c_all c). key (seg c r) = k)
     \<and> (\<forall>(k, r) \<in> set (c_inflight c). key (seg c r) = k)
     \<and> (\<forall>(a, r) \<in> set (c_appendIDs c). s_appendID (seg c r) = a)"

definition parts_ok :: "channel \<Rightarrow> bool" where
  "parts_ok c \<longleftrightarrow> \<not> broadcast c \<longrightarrow>
     (\<forall>r < length (c_heap c). in_range (s_part (seg c r)) (c_queues c))
     \<and> (\<forall>p < length (c_queues c). \<forall>r \<in> set (c_queues c ! p). s_part (seg c r) = int p)"

definition cursors_ok :: "channel \<Rightarrow> bool" where
  "cursors_ok c \<longleftrightarrow> (\<forall>(_, n) \<in> set (c_cursor c). n \<le> length (c_log c))"

definition history_ok :: "channel \<Rightarrow> bool" where
  "history_ok c \<longleftrightarrow> (\<forall>p < length (c_history c). \<forall>i < length (c_history c ! p).
     s_offset (seg c (c_history c ! p ! i)) = c_historyBase c ! p + int i)"

definition sub_ok :: "channel \<Rightarrow> subscription \<Rightarrow> bool" where
  "sub_ok c sub \<longleftrightarrow> length (sub_positions sub) = nat (partitions c)
     \<and> distinct (map fst (sub_inflight sub))
     \<and> (\<forall>(p, d) \<in> set (sub_inflight sub). in_range p (sub_positions sub)
          \<and> d_offset d = sub_positions sub ! nat p)"

definition subs_ok :: "channel \<Rightarrow> bool" where
  "subs_ok c \<longleftrightarrow> (\<forall>(_, sub) \<in> set (c_subscriptions c). sub_ok c sub)"

definition wfc :: "channel \<Rightarrow> bool" where
  "wfc c \<longleftrightarrow> sized c \<and> refs_ok c \<and> maps_ok c \<and> parts_ok c \<and> cursors_ok c \<and> history_ok c \<and> subs_ok c
     \<and> \<not> c_panic c"

lemmas wf_parts = sized_def refs_ok_def all_refs_def maps_ok_def parts_ok_def cursors_ok_def
  history_ok_def subs_ok_def sub_ok_def

text \<open>Updates of fields the shape does not mention.\<close>

lemma wf_other [simp]:
  "wfc (c\<lparr>c_sealed := b\<rparr>) = wfc c" "wfc (c\<lparr>c_produced := i\<rparr>) = wfc c" "wfc (c\<lparr>c_lost := i\<rparr>) = wfc c"
  "wfc (c\<lparr>c_acknowledged := i\<rparr>) = wfc c" "wfc (c\<lparr>c_overflowed := i\<rparr>) = wfc c"
  "wfc (c\<lparr>c_latestDeliveryFailure := t\<rparr>) = wfc c" "wfc (c\<lparr>c_epoch := i\<rparr>) = wfc c"
  "wfc (c\<lparr>c_finiteEpochs := b\<rparr>) = wfc c" "wfc (c\<lparr>c_maxEpochs := i\<rparr>) = wfc c"
  "wfc (c\<lparr>c_productionClosed := s\<rparr>) = wfc c" "wfc (c\<lparr>c_rr := w\<rparr>) = wfc c"
  "wfc (c\<lparr>c_epochDone := ed\<rparr>) = wfc c" "wfc (c\<lparr>c_records := rs\<rparr>) = wfc c"
  by (simp_all add: wfc_def wf_parts)

text \<open>An update of a segment that keeps its identity, place and size.\<close>

definition keeps :: "(segment \<Rightarrow> segment) \<Rightarrow> bool" where
  "keeps f \<longleftrightarrow> (\<forall>s. key (f s) = key s \<and> s_part (f s) = s_part s \<and> s_appendID (f s) = s_appendID s
     \<and> s_offset (f s) = s_offset s \<and> s_records (f s) = s_records s \<and> s_epoch (f s) = s_epoch s)"

lemma keeps_seg:
  assumes "keeps f"
  shows "key (seg (upd_seg r f c) x) = key (seg c x)"
    "s_part (seg (upd_seg r f c) x) = s_part (seg c x)"
    "s_appendID (seg (upd_seg r f c) x) = s_appendID (seg c x)"
    "s_offset (seg (upd_seg r f c) x) = s_offset (seg c x)"
    "s_records (seg (upd_seg r f c) x) = s_records (seg c x)"
    "s_epoch (seg (upd_seg r f c) x) = s_epoch (seg c x)"
  using assms by (auto simp: keeps_def)

lemma wf_upd_seg:
  assumes "keeps f"
  shows "wfc (upd_seg r f c) = wfc c"
  unfolding wfc_def wf_parts
  by (simp only: keeps_seg [OF assms] upd_seg_frame spec_reads_upd)

lemma wfD:
  assumes "wfc c"
  shows "sized c" "refs_ok c" "maps_ok c" "parts_ok c" "cursors_ok c" "history_ok c" "subs_ok c"
    "\<not> c_panic c"
  using assms by (simp_all add: wfc_def)

lemma wf_ref: "wfc c \<Longrightarrow> x \<in> all_refs c \<Longrightarrow> x < length (c_heap c)"
  using wfD(2) by (auto simp: refs_ok_def)

lemma wf_refs:
  assumes "wfc c"
  shows "(k, r) \<in> set (c_inflight c) \<Longrightarrow> r < length (c_heap c)"
    "(k, r) \<in> set (c_all c) \<Longrightarrow> r < length (c_heap c)"
    "(k, r) \<in> set (c_appendIDs c) \<Longrightarrow> r < length (c_heap c)"
    "r \<in> set (c_held c) \<Longrightarrow> r < length (c_heap c)"
    "r \<in> set (c_log c) \<Longrightarrow> r < length (c_heap c)"
    "q \<in> set (c_queues c) \<Longrightarrow> r \<in> set q \<Longrightarrow> r < length (c_heap c)"
    "h \<in> set (c_history c) \<Longrightarrow> r \<in> set h \<Longrightarrow> r < length (c_heap c)"
  by (rule wf_ref [OF assms], auto simp: all_refs_def rev_image_eqI)+

lemma wf_part:
  "wfc c \<Longrightarrow> \<not> broadcast c \<Longrightarrow> r < length (c_heap c) \<Longrightarrow> in_range (s_part (seg c r)) (c_queues c)"
  using wfD(4) by (simp add: parts_ok_def)

lemma wf_queue_part:
  "wfc c \<Longrightarrow> \<not> broadcast c \<Longrightarrow> p < length (c_queues c) \<Longrightarrow> r \<in> set (c_queues c ! p)
   \<Longrightarrow> s_part (seg c r) = int p"
  using wfD(4) by (simp add: parts_ok_def)

lemma distinct_map_filter: "distinct (map f xs) \<Longrightarrow> distinct (map f (filter P xs))"
  by (induction xs) auto

text \<open>Replacing one map by another whose entries are sound.\<close>

lemma wf_inflight:
  "wfc c \<Longrightarrow> distinct (map fst m) \<Longrightarrow> (\<And>k r. (k, r) \<in> set m \<Longrightarrow> r < length (c_heap c) \<and> key (seg c r) = k)
   \<Longrightarrow> wfc (c\<lparr>c_inflight := m\<rparr>)"
  unfolding wfc_def wf_parts by auto

lemma wf_all:
  "wfc c \<Longrightarrow> distinct (map fst m) \<Longrightarrow> (\<And>k r. (k, r) \<in> set m \<Longrightarrow> r < length (c_heap c) \<and> key (seg c r) = k)
   \<Longrightarrow> wfc (c\<lparr>c_all := m\<rparr>)"
  unfolding wfc_def wf_parts by auto

lemma wf_appendIDs:
  "wfc c \<Longrightarrow> distinct (map fst m)
   \<Longrightarrow> (\<And>k r. (k, r) \<in> set m \<Longrightarrow> r < length (c_heap c) \<and> s_appendID (seg c r) = k)
   \<Longrightarrow> wfc (c\<lparr>c_appendIDs := m\<rparr>)"
  unfolding wfc_def wf_parts by auto

lemma wf_keys:
  assumes "wfc c"
  shows "(k, r) \<in> set (c_inflight c) \<Longrightarrow> key (seg c r) = k" "(k, r) \<in> set (c_all c) \<Longrightarrow> key (seg c r) = k"
    "(k, r) \<in> set (c_appendIDs c) \<Longrightarrow> s_appendID (seg c r) = k" "distinct (map fst (c_inflight c))"
    "distinct (map fst (c_all c))" "distinct (map fst (c_appendIDs c))"
    "distinct (map fst (c_cursor c))" "distinct (map fst (c_subscriptions c))"
  using wfD(3) [OF assms] unfolding maps_ok_def by auto

lemma wf_inflight_add:
  "wfc c \<Longrightarrow> c_inflight c = m \<Longrightarrow> r < length (c_heap c) \<Longrightarrow> k = key (seg c r)
   \<Longrightarrow> wfc (c\<lparr>c_inflight := AList.update k r m\<rparr>)"
  by (rule wf_inflight)
    (auto simp: wf_keys set_update_iff wf_refs split: if_splits)

lemma wf_inflight_del: "wfc c \<Longrightarrow> c_inflight c = m \<Longrightarrow> wfc (c\<lparr>c_inflight := AList.delete k m\<rparr>)"
  by (rule wf_inflight) (auto simp: wf_keys set_delete_iff wf_refs)

lemma wf_all_del: "wfc c \<Longrightarrow> c_all c = m \<Longrightarrow> wfc (c\<lparr>c_all := AList.delete k m\<rparr>)"
  by (rule wf_all) (auto simp: wf_keys set_delete_iff wf_refs)

lemma wf_all_filter: "wfc c \<Longrightarrow> wfc (c\<lparr>c_all := filter P (c_all c)\<rparr>)"
  by (rule wf_all) (auto simp: wf_keys wf_refs intro: distinct_map_filter)

lemma wf_appendIDs_del:
  "wfc c \<Longrightarrow> c_appendIDs c = m \<Longrightarrow> wfc (c\<lparr>c_appendIDs := AList.delete k m\<rparr>)"
  by (rule wf_appendIDs) (auto simp: wf_keys set_delete_iff wf_refs)

lemma wf_held: "wfc c \<Longrightarrow> set l \<subseteq> {..<length (c_heap c)} \<Longrightarrow> wfc (c\<lparr>c_held := l\<rparr>)"
  by (simp add: wfc_def wf_parts)

lemma wf_held_subset: "wfc c \<Longrightarrow> set l \<subseteq> set (c_held c) \<Longrightarrow> wfc (c\<lparr>c_held := l\<rparr>)"
  by (rule wf_held) (auto dest: wf_refs(4))

lemma wf_log: "wfc c \<Longrightarrow> r < length (c_heap c) \<Longrightarrow> wfc (c\<lparr>c_log := c_log c @ [r]\<rparr>)"
  by (force simp: wfc_def wf_parts)

lemma wf_cursor:
  "wfc c \<Longrightarrow> distinct (map fst m) \<Longrightarrow> (\<And>w n. (w, n) \<in> set m \<Longrightarrow> n \<le> length (c_log c))
   \<Longrightarrow> wfc (c\<lparr>c_cursor := m\<rparr>)"
  unfolding wfc_def wf_parts by auto

lemma wf_cursor_le: "wfc c \<Longrightarrow> (w, n) \<in> set (c_cursor c) \<Longrightarrow> n \<le> length (c_log c)"
  using wfD(5) [of c] unfolding cursors_ok_def by blast

lemma wf_cursor_upd:
  "wfc c \<Longrightarrow> c_cursor c = m \<Longrightarrow> n \<le> length (c_log c)
   \<Longrightarrow> wfc (c\<lparr>c_cursor := AList.update w n m\<rparr>)"
  by (rule wf_cursor) (auto simp: wf_keys set_update_iff wf_cursor_le split: if_splits)

lemma wf_cursor_del: "wfc c \<Longrightarrow> c_cursor c = m \<Longrightarrow> wfc (c\<lparr>c_cursor := AList.delete w m\<rparr>)"
  by (rule wf_cursor) (auto simp: wf_keys set_delete_iff wf_cursor_le)

lemma wf_subs:
  assumes "wfc c" and "distinct (map fst m)" and "\<And>n sub. (n, sub) \<in> set m \<Longrightarrow> sub_ok c sub"
  shows "wfc (c\<lparr>c_subscriptions := m\<rparr>)"
proof -
  have "sub_ok (c\<lparr>c_subscriptions := m\<rparr>) = sub_ok c" by (simp add: sub_ok_def fun_eq_iff)
  then have "subs_ok (c\<lparr>c_subscriptions := m\<rparr>)" using assms(3) by (auto simp: subs_ok_def)
  then show ?thesis
    using wfD [OF assms(1)] assms(2)
    by (simp add: wfc_def sized_def refs_ok_def all_refs_def maps_ok_def parts_ok_def cursors_ok_def
        history_ok_def)
qed

lemma wf_sub_ok: "wfc c \<Longrightarrow> (n, sub) \<in> set (c_subscriptions c) \<Longrightarrow> sub_ok c sub"
  using wfD(7) [of c] unfolding subs_ok_def by blast

lemma wf_queues:
  assumes "wfc c" and "length q = length (c_queues c)" and "\<Union> (set ` set q) \<subseteq> {..<length (c_heap c)}"
    and "\<not> broadcast c \<Longrightarrow> \<forall>p < length q. \<forall>r \<in> set (q ! p). s_part (seg c r) = int p"
  shows "wfc (c\<lparr>c_queues := q\<rparr>)"
proof -
  have "in_range i q = in_range i (c_queues c)" for i using assms(2) by (simp add: in_range_def)
  then show ?thesis
    using assms unfolding wfc_def wf_parts by simp
qed

lemma wf_upd_queue:
  assumes "wfc c" and "in_range p (c_queues c)"
    and "\<And>r. r \<in> set (f (c_queues c ! nat p)) \<Longrightarrow>
           r < length (c_heap c) \<and> (\<not> broadcast c \<longrightarrow> s_part (seg c r) = p)"
  shows "wfc (upd_queue p f c)"
  unfolding upd_queue_in_range [OF assms(2)]
proof (rule wf_queues)
  let ?q = "(c_queues c)[nat p := f (c_queues c ! nat p)]"
  have p: "p = int (nat p)" "nat p < length (c_queues c)" using assms(2) by (auto simp: in_range_def)
  have "s_part (seg c r) = int i" if "\<not> broadcast c" "i < length ?q" "r \<in> set (?q ! i)" for i r
  proof (cases "i = nat p")
    case True
    with that p assms(3) [of r] show ?thesis by simp
  next
    case False
    with that wf_queue_part [OF assms(1) that(1), of i r] show ?thesis by simp
  qed
  then show "\<forall>i < length ?q. \<forall>r \<in> set (?q ! i). s_part (seg c r) = int i" if "\<not> broadcast c"
    using that by blast
  show "\<Union> (set ` set ((c_queues c)[nat p := f (c_queues c ! nat p)])) \<subseteq> {..<length (c_heap c)}"
    using assms(3) wf_refs(6) [OF assms(1)] by (auto dest!: subsetD [OF set_update_subset_insert])
qed (use assms in auto)

lemmas wf_intros = wf_inflight_add wf_inflight_del wf_all_del wf_all_filter wf_appendIDs_del
  wf_cursor_upd wf_cursor_del

subsection \<open>Operations on segments\<close>

lemma keeps_simps [simp]:
  "keeps (\<lambda>s. s\<lparr>s_released := b\<rparr>)" "keeps (\<lambda>s. s\<lparr>s_delivered := g s\<rparr>)"
  "keeps (\<lambda>s. s\<lparr>s_released := b, s_data := d\<rparr>)"
  "keeps (\<lambda>s. s\<lparr>s_lost := b1, s_released := b2, s_delivered := l\<rparr>)"
  "keeps (\<lambda>s. s\<lparr>s_delivered := g s, s_retryAfter := h s, s_acked := k s\<rparr>)"
  "keeps (\<lambda>s. s\<lparr>s_delivered := g s, s_retryAfter := h s\<rparr>)"
  "keeps (\<lambda>s. s\<lparr>s_data := d, s_retentionDeleted := b1, s_released := b2\<rparr>)"
  by (simp_all add: keeps_def key_def)

lemma wf_upd [simp]: "keeps f \<Longrightarrow> wfc (upd_seg r f c) = wfc c"
  by (rule wf_upd_seg)

lemma wf_queue_elem:
  assumes "wfc c" and "in_range p (c_queues c)" and "r \<in> set (c_queues c ! nat p)"
  shows "r < length (c_heap c) \<and> (\<not> broadcast c \<longrightarrow> s_part (seg c r) = p)"
proof -
  have p: "p = int (nat p)" "nat p < length (c_queues c)" using assms(2) by (auto simp: in_range_def)
  then show ?thesis
    using wf_refs(6) [OF assms(1) nth_mem assms(3)] wf_queue_part [OF assms(1) _ p(2) assms(3)] by simp
qed

text \<open>
  A segment enters its own queue, at the back when it is enqueued and at the front when a
  delivery is returned; elements may leave any queue.
\<close>

lemma wf_queue_grow:
  assumes "wfc c" and "\<not> broadcast c" and "r < length (c_heap c)"
    and "set (f (c_queues c ! nat (s_part (seg c r)))) \<subseteq> insert r (set (c_queues c ! nat (s_part (seg c r))))"
  shows "wfc (upd_queue (s_part (seg c r)) f c)"
proof (rule wf_upd_queue [OF assms(1) wf_part [OF assms(1-3)]])
  fix x assume "x \<in> set (f (c_queues c ! nat (s_part (seg c r))))"
  then show "x < length (c_heap c) \<and> (\<not> broadcast c \<longrightarrow> s_part (seg c x) = s_part (seg c r))"
    using assms wf_queue_elem [OF assms(1) wf_part [OF assms(1-3)]] by blast
qed

lemma wf_queue_subset:
  assumes "wfc c" and "in_range p (c_queues c)" and "set (f (c_queues c ! nat p)) \<subseteq> set (c_queues c ! nat p)"
  shows "wfc (upd_queue p f c)"
  using assms by (auto intro!: wf_upd_queue [OF assms(1,2)] dest: wf_queue_elem [OF assms(1,2)])

lemma wf_enqueue: "wfc c \<Longrightarrow> r < length (c_heap c) \<Longrightarrow> wfc (enqueue r c)"
  by (auto simp: enqueue_def wf_log intro!: wf_queue_grow)

lemma enqueue_frame [simp]:
  "c_heap (enqueue r c) = c_heap c" "c_spec (enqueue r c) = c_spec c" "c_held (enqueue r c) = c_held c"
  "c_inflight (enqueue r c) = c_inflight c" "c_all (enqueue r c) = c_all c"
  "c_epoch (enqueue r c) = c_epoch c" "c_finiteEpochs (enqueue r c) = c_finiteEpochs c"
  "c_produced (enqueue r c) = c_produced c" "c_lost (enqueue r c) = c_lost c"
  "c_acknowledged (enqueue r c) = c_acknowledged c" "c_appendIDs (enqueue r c) = c_appendIDs c"
  "c_history (enqueue r c) = c_history c" "c_historyBase (enqueue r c) = c_historyBase c"
  by (simp_all add: enqueue_def)

lemma seg_enqueue [simp]: "seg (enqueue r c) = seg c"
  by (simp add: seg_def fun_eq_iff)

lemma wf_markLost:
  assumes "wfc c" and "r < length (c_heap c)"
  shows "wfc (markLost r c)"
proof -
  let ?f = "\<lambda>x. x\<lparr>s_lost := True, s_released := True, s_delivered := []\<rparr>"
  let ?c1 = "upd_seg r ?f (c\<lparr>c_lost := c_lost c + s_records (seg c r),
      c_inflight := AList.delete (key (seg c r)) (c_inflight c)\<rparr>)"
  let ?c2 = "if broadcast ?c1 then ?c1 else upd_queue (s_part (seg c r)) (\<lambda>q. removeSegment q r) ?c1"
  have 1: "wfc ?c1" using assms(1) by (simp add: wf_inflight_del)
  have 2: "wfc ?c2"
    using 1 wf_part [OF assms(1) _ assms(2)] by (auto intro!: wf_queue_subset)
  have "wfc (?c2\<lparr>c_held := removeSegment (c_held ?c2) r\<rparr>)"
    by (rule wf_held_subset [OF 2]) simp
  then show ?thesis by (simp only: markLost_def Let_def)
qed

lemma wf_release: "wfc c \<Longrightarrow> wfc (release r c)"
  by (simp add: release_def Let_def wf_all_del)

lemma wf_deliver: "wfc c \<Longrightarrow> r < length (c_heap c) \<Longrightarrow> wfc (deliver dk r c)"
  by (simp add: deliver_def wf_inflight_add key_def)

text \<open>
  Adding a fresh segment, the first part of \<^verbatim>\<open>index\<close>: it goes to the end of the store, of the
  indexes and of the history of its partition.
\<close>

definition file_segment :: "segment \<Rightarrow> nat \<Rightarrow> channel \<Rightarrow> channel" where
  "file_segment s p c =
     c\<lparr>c_heap := c_heap c @ [s\<lparr>s_offset := c_historyBase c ! p + int (length (c_history c ! p))\<rparr>],
       c_all := AList.update (key s) (length (c_heap c)) (c_all c),
       c_appendIDs := AList.update (s_appendID s) (length (c_heap c)) (c_appendIDs c),
       c_history := (c_history c)[p := c_history c ! p @ [length (c_heap c)]],
       c_produced := c_produced c + s_records s\<rparr>"

lemma file_segment_frame [simp]:
  "c_spec (file_segment s p c) = c_spec c" "c_queues (file_segment s p c) = c_queues c"
  "c_held (file_segment s p c) = c_held c" "c_inflight (file_segment s p c) = c_inflight c"
  "c_log (file_segment s p c) = c_log c" "c_epoch (file_segment s p c) = c_epoch c"
  "c_finiteEpochs (file_segment s p c) = c_finiteEpochs c" "c_lost (file_segment s p c) = c_lost c"
  "c_acknowledged (file_segment s p c) = c_acknowledged c"
  "c_produced (file_segment s p c) = c_produced c + s_records s"
  "length (c_heap (file_segment s p c)) = Suc (length (c_heap c))"
  by (simp_all add: file_segment_def)

lemma seg_file_old [simp]: "r < length (c_heap c) \<Longrightarrow> seg (file_segment s p c) r = seg c r"
  by (simp add: seg_def file_segment_def nth_append)

lemma seg_file_new [simp]:
  "seg (file_segment s p c) (length (c_heap c)) =
     s\<lparr>s_offset := c_historyBase c ! p + int (length (c_history c ! p))\<rparr>"
  by (simp add: seg_def file_segment_def nth_append)

definition index_name :: "segment \<Rightarrow> segment" where
  "index_name s =
     (if s_appendID s = '''' then s\<lparr>s_appendID := s_producer s @ ''/'' @ s_id s\<rparr> else s)"

definition index_partition :: "channel \<Rightarrow> segment \<Rightarrow> int" where
  "index_partition c s = (if broadcast c then 0 else s_part s)"

text \<open>The second part of \<^verbatim>\<open>index\<close> decides where the filed segment \<open>r\<close> goes.\<close>

definition route :: "segment \<Rightarrow> channel \<Rightarrow> sref \<Rightarrow> channel \<Rightarrow> channel" where
  "route s c r c1 =
     (if beyondBound c s then
        upd_seg r (\<lambda>x. x\<lparr>s_released := True\<rparr>) (c1\<lparr>c_produced := c_produced c1 - s_records s\<rparr>)
      else if c_finiteEpochs c \<and> c_epoch c < s_epoch s then c1\<lparr>c_held := c_held c1 @ [r]\<rparr>
      else enqueue r c1)"

lemma index_eq:
  assumes "in_range (index_partition c (index_name s)) (c_history c)"
    and "in_range (index_partition c (index_name s)) (c_historyBase c)"
  shows "fst (index s c) =
     (let s1 = index_name s in
      if map_of (c_all c) (key s1) \<noteq> None then c
      else route s1 c (length (c_heap c)) (file_segment s1 (nat (index_partition c s1)) c))"
  using assms
  by (simp add: index_def index_name_def [symmetric] index_partition_def [symmetric] Let_def
      file_segment_def route_def)

lemma file_segment_fields:
  "c_all (file_segment s p c) = AList.update (key s) (length (c_heap c)) (c_all c)"
  "c_appendIDs (file_segment s p c) = AList.update (s_appendID s) (length (c_heap c)) (c_appendIDs c)"
  "c_history (file_segment s p c) = (c_history c)[p := c_history c ! p @ [length (c_heap c)]]"
  "c_historyBase (file_segment s p c) = c_historyBase c" "c_cursor (file_segment s p c) = c_cursor c"
  "c_subscriptions (file_segment s p c) = c_subscriptions c" "c_panic (file_segment s p c) = c_panic c"
  by (simp_all add: file_segment_def)

lemma spec_reads_file [simp]:
  "broadcast (file_segment s p c) = broadcast c" "external (file_segment s p c) = external c"
  "partitions (file_segment s p c) = partitions c" "synchronous (file_segment s p c) = synchronous c"
  by (rule spec_reads, simp)+

lemma Union_set_update_snoc:
  "\<Union> (set ` set (xss[p := xss ! p @ [x]])) \<subseteq> insert x (\<Union> (set ` set xss))"
proof (cases "p < length xss")
  case True
  then show ?thesis using nth_mem [OF True] by (auto dest!: subsetD [OF set_update_subset_insert])
qed (auto simp: not_less list_update_beyond)

lemma Un_insert_mono:
  "H' \<subseteq> insert x H \<Longrightarrow> I' \<subseteq> insert x I \<Longrightarrow> A' \<subseteq> insert x A
   \<Longrightarrow> R \<union> H' \<union> I' \<union> A' \<subseteq> insert x (R \<union> H \<union> I \<union> A)"
  by blast

lemma all_refs_file: "all_refs (file_segment s p c) \<subseteq> insert (length (c_heap c)) (all_refs c)"
  unfolding all_refs_def file_segment_frame file_segment_fields
  by (rule Un_insert_mono) (rule Union_set_update_snoc snd_set_update)+

lemma refs_ok_file: "refs_ok c \<Longrightarrow> refs_ok (file_segment s p c)"
  using all_refs_file [of s p c] by (auto simp: refs_ok_def lessThan_def)

lemma maps_ok_file:
  assumes "wfc c"
  shows "maps_ok (file_segment s p c)"
  using wfD(3) [OF assms] wf_refs(1-3) [OF assms]
  unfolding maps_ok_def
  by (auto simp: file_segment_fields set_update_iff key_def split: if_splits)

lemma history_ok_file:
  assumes "wfc c" and p: "p < length (c_history c)"
  shows "history_ok (file_segment s p c)"
  unfolding history_ok_def
proof (intro allI impI)
  fix q i
  assume "q < length (c_history (file_segment s p c))"
    and i: "i < length (c_history (file_segment s p c) ! q)"
  then have q: "q < length (c_history c)" by (simp add: file_segment_fields)
  have old: "s_offset (seg (file_segment s p c) (c_history c ! q ! i)) = c_historyBase c ! q + int i"
    if "i < length (c_history c ! q)"
    using that q wfD(6) [OF assms(1)] wf_refs(7) [OF assms(1) nth_mem [OF q] nth_mem [OF that]]
    by (simp add: history_ok_def)
  show "s_offset (seg (file_segment s p c) (c_history (file_segment s p c) ! q ! i)) =
      c_historyBase (file_segment s p c) ! q + int i"
  proof (cases "q = p \<and> i = length (c_history c ! p)")
    case True
    then show ?thesis using p by (simp add: file_segment_fields nth_append)
  next
    case False
    then have "i < length (c_history c ! q)" and "c_history (file_segment s p c) ! q ! i = c_history c ! q ! i"
      using i q p by (auto simp: file_segment_fields nth_list_update nth_append split: if_splits)
    with old show ?thesis by (simp add: file_segment_fields)
  qed
qed

lemma wf_file:
  assumes "wfc c" and "p < length (c_history c)"
    and "\<not> broadcast c \<Longrightarrow> in_range (s_part s) (c_queues c)"
  shows "wfc (file_segment s p c)"
proof -
  have "sized (file_segment s p c)" "cursors_ok (file_segment s p c)" "subs_ok (file_segment s p c)"
    "\<not> c_panic (file_segment s p c)"
    using wfD [OF assms(1)]
    by (simp_all add: sized_def cursors_ok_def subs_ok_def sub_ok_def file_segment_fields)
  moreover have "parts_ok (file_segment s p c)"
    unfolding parts_ok_def
  proof (intro impI conjI allI ballI)
    assume nb: "\<not> broadcast (file_segment s p c)"
    show "in_range (s_part (seg (file_segment s p c) r)) (c_queues (file_segment s p c))"
      if "r < length (c_heap (file_segment s p c))" for r
      using that nb assms(3) wf_part [OF assms(1), of r]
      by (cases "r = length (c_heap c)") auto
    show "s_part (seg (file_segment s p c) r) = int q"
      if "q < length (c_queues (file_segment s p c))" "r \<in> set (c_queues (file_segment s p c) ! q)" for q r
      using that nb wf_queue_part [OF assms(1), of q r] wf_refs(6) [OF assms(1) nth_mem, of q r] by simp
  qed
  ultimately show ?thesis
    using refs_ok_file [OF wfD(2) [OF assms(1)]] maps_ok_file [OF assms(1)] history_ok_file [OF assms(1,2)]
    by (simp add: wfc_def)
qed

lemma wf_route:
  "wfc c1 \<Longrightarrow> r < length (c_heap c1) \<Longrightarrow> wfc (route s c r c1)"
  by (auto simp: route_def wf_enqueue intro!: wf_held dest: wf_refs(4))

text \<open>A segment may be indexed when its partition is one of the channel's.\<close>

definition fits :: "channel \<Rightarrow> segment \<Rightarrow> bool" where
  "fits c s \<longleftrightarrow> broadcast c \<or> 0 \<le> s_part s \<and> s_part s < partitions c"

lemma fits_range:
  assumes "sized c" and "fits c s"
  shows "in_range (index_partition c (index_name s)) (c_history c)"
    "in_range (index_partition c (index_name s)) (c_historyBase c)"
    "\<not> broadcast c \<Longrightarrow> in_range (s_part s) (c_queues c)"
  using assms by (auto simp: sized_def fits_def index_partition_def index_name_def in_range_def)

lemma wf_index:
  assumes "wfc c" and "fits c s"
  shows "wfc (fst (index s c))"
proof -
  note r = fits_range [OF wfD(1) [OF assms(1)] assms(2)]
  have n: "nat (index_partition c (index_name s)) < length (c_history c)"
    using r(1) by (simp add: in_range_def nat_less_iff)
  have "wfc (file_segment (index_name s) (nat (index_partition c (index_name s))) c)"
    by (rule wf_file [OF assms(1) n]) (use r(3) in \<open>simp add: index_name_def\<close>)
  then show ?thesis
    using assms(1) by (simp add: index_eq [OF r(1,2)] Let_def wf_route)
qed

subsection \<open>Operations on a channel\<close>

text \<open>
  A channel update that keeps the shape and the size of the segment store; loops over references
  are sequences of such updates.
\<close>

definition wf_stable :: "channel \<Rightarrow> channel \<Rightarrow> bool" where
  "wf_stable c c' \<longleftrightarrow> (wfc c \<longrightarrow> wfc c') \<and> length (c_heap c') = length (c_heap c)"

lemma wf_stable_refl [simp]: "wf_stable c c"
  by (simp add: wf_stable_def)

lemma wf_stable_trans: "wf_stable a b \<Longrightarrow> wf_stable b c \<Longrightarrow> wf_stable a c"
  by (simp add: wf_stable_def)

lemma wf_stableD: "wf_stable c c' \<Longrightarrow> wfc c \<Longrightarrow> wfc c'"
  by (simp add: wf_stable_def)

lemma fold_stable:
  assumes "\<And>x c'. x \<in> set xs \<Longrightarrow> length (c_heap c') = length (c_heap c) \<Longrightarrow> wf_stable c' (f x c')"
  shows "wf_stable c (fold f xs c)"
  using assms
proof (induction xs arbitrary: c)
  case (Cons x xs)
  have "wf_stable c (f x c)" using Cons.prems by simp
  moreover from this have "wf_stable (f x c) (fold f xs (f x c))"
    by (intro Cons.IH) (use Cons.prems in \<open>auto simp: wf_stable_def\<close>)
  ultimately show ?case by (simp add: wf_stable_trans)
qed simp

lemma markLost_heap [simp]: "length (c_heap (markLost r c)) = length (c_heap c)"
  by (simp add: markLost_def Let_def)

lemma stable_markLost: "r < length (c_heap c) \<Longrightarrow> wf_stable c (markLost r c)"
  by (simp add: wf_stable_def wf_markLost)

lemma wf_lose_channel:
  assumes "wfc c"
  shows "wfc (lose_channel w c)"
  unfolding lose_channel_def
  by (rule wf_stableD [OF fold_stable assms])
    (use wf_refs(2) [OF assms] in \<open>auto simp: Let_def intro!: stable_markLost\<close>)

lemma release_heap [simp]: "length (c_heap (release r c)) = length (c_heap c)"
  by (simp add: release_def Let_def)

lemma stable_release: "wf_stable c (release r c)"
  by (simp add: wf_stable_def wf_release)

lemma wf_releaseBroadcast: "wfc c \<Longrightarrow> wfc (releaseBroadcast o1 c)"
  unfolding releaseBroadcast_def
  by (auto intro!: wf_stableD [OF fold_stable] intro: stable_release)

lemma wf_seal_channel: "wfc c \<Longrightarrow> wfc (seal_channel c)"
proof -
  assume "wfc c"
  let ?c1 = "c\<lparr>c_sealed := True, c_productionClosed := set_add (c_epoch c) (c_productionClosed c)\<rparr>"
  have "wfc (fold (\<lambda>r. upd_seg r (\<lambda>s. s\<lparr>s_released := True\<rparr>)) (c_held ?c1) ?c1)"
    by (rule wf_stableD [OF fold_stable]) (simp_all add: wf_stable_def \<open>wfc c\<close>)
  then show ?thesis
    using \<open>wfc c\<close> by (auto simp: seal_channel_def Let_def intro: wf_held)
qed

lemma wf_advanceEpoch:
  assumes "wfc c"
  shows "wfc (advanceEpoch c)"
proof -
  have *: "wfc ((fold enqueue (filter P (c_held c2)) c2)\<lparr>c_held := filter Q (c_held c2)\<rparr>)"
    if "wfc c2" for c2 P Q
  proof -
    have "wf_stable c2 (fold enqueue (filter P (c_held c2)) c2)"
      by (rule fold_stable) (use wf_refs(4) [OF that] in \<open>auto simp: wf_stable_def wf_enqueue\<close>)
    then show ?thesis
      using that wf_refs(4) [OF that] by (auto simp: wf_stable_def intro!: wf_held)
  qed
  show ?thesis unfolding advanceEpoch_def Let_def by (rule *) (simp add: assms)
qed

text \<open>
  One turn of the loop over the deliveries of a gone process: the delivery it finds, and what
  returning it does.
\<close>

definition find_delivery :: "string \<Rightarrow> bool \<Rightarrow> string \<Rightarrow> segment \<Rightarrow> string option" where
  "find_delivery w everything d s =
     (if d \<in> set (s_delivered s) then Some d
      else if everything then find (\<lambda>x. deliveryPod x = w) (s_delivered s) else None)"

definition give_back :: "string \<Rightarrow> string \<Rightarrow> sref \<Rightarrow> channel \<Rightarrow> channel" where
  "give_back d k r c =
     (let c1 = upd_seg r (\<lambda>x. x\<lparr>s_delivered := set_del d (s_delivered x)\<rparr>) c;
          c2 = c1\<lparr>c_inflight := AList.delete k (c_inflight c1)\<rparr>
      in if broadcast c then (if set_del d (s_delivered (seg c r)) = [] then c2 else c1)
         else if s_lost (seg c r) then c2 else upd_queue (s_part (seg c r)) (\<lambda>q. r # q) c2)"

lemma return_segment_eq:
  "return_segment w everything (k, r) (c, d) =
     (case find_delivery w everything d (seg c r) of
        None \<Rightarrow> (c, d) | Some d' \<Rightarrow> (give_back d' k r c, d'))"
  by (auto simp: return_segment_def find_delivery_def give_back_def Let_def split: option.split)

lemma find_delivery_in: "find_delivery w everything d s = Some d' \<Longrightarrow> d' \<in> set (s_delivered s)"
  by (auto simp: find_delivery_def find_Some_iff split: if_splits)

lemma give_back_heap [simp]: "length (c_heap (give_back d k r c)) = length (c_heap c)"
  by (simp add: give_back_def Let_def)

lemma wf_give_back: "wfc c \<Longrightarrow> r < length (c_heap c) \<Longrightarrow> wfc (give_back d k r c)"
proof -
  assume a: "wfc c" "r < length (c_heap c)"
  define c2 where "c2 = (upd_seg r (\<lambda>x. x\<lparr>s_delivered := set_del d (s_delivered x)\<rparr>) c)
    \<lparr>c_inflight := AList.delete k (c_inflight c)\<rparr>"
  have 2: "wfc c2" "length (c_heap c2) = length (c_heap c)" "s_part (seg c2 r) = s_part (seg c r)"
    "broadcast c2 = broadcast c"
    using a by (simp_all add: c2_def wf_inflight_del)
  then show ?thesis
    using a wf_queue_grow [of c2 r "\<lambda>q. r # q"]
    by (auto simp: give_back_def Let_def simp flip: c2_def)
qed

lemma stable_return_segment:
  "r < length (c_heap c) \<Longrightarrow> wf_stable c (fst (return_segment w everything (k, r) (c, d)))"
  by (simp add: return_segment_eq wf_stable_def wf_give_back split: option.split)

lemma wf_inflight_snd: "wfc c \<Longrightarrow> \<forall>x \<in> set (c_inflight c). snd x < length (c_heap c)"
  using wf_refs(1) [of c] by (metis prod.collapse)

lemma wf_return_subs:
  assumes "wfc c"
  shows "wfc (c\<lparr>c_subscriptions := map_vals (return_subscription opName w inc everything) (c_subscriptions c)\<rparr>)"
proof (rule wf_subs [OF assms])
  have "sub_ok c (return_subscription opName w inc everything sub)" if "sub_ok c sub" for sub
    using that by (auto simp: sub_ok_def return_subscription_def intro: distinct_map_filter)
  then show "sub_ok c sub"
    if "(n, sub) \<in> set (map_vals (return_subscription opName w inc everything) (c_subscriptions c))" for n sub
    using that wf_sub_ok [OF assms] by (auto simp: set_map_vals)
qed (simp add: wf_keys(8) [OF assms])

lemma wf_return_channel:
  assumes "wfc c"
  shows "wfc (return_channel opName w inc everything c)"
proof -
  let ?c1 = "c\<lparr>c_subscriptions := map_vals (return_subscription opName w inc everything) (c_subscriptions c)\<rparr>"
  let ?c2 = "?c1\<lparr>c_cursor := AList.delete w (c_cursor c), c_epochDone := AList.delete w (c_epochDone c)\<rparr>"
  have 1: "wfc ?c1" using wf_return_subs [OF assms] .
  then have 2: "wfc ?c2" by (simp add: wf_cursor_del)
  have "wf_stable (fst st) (fst (fold (return_segment w everything) xs st))"
    if "\<forall>x \<in> set xs. snd x < length (c_heap (fst st))" for xs st
    using that
  proof (induction xs arbitrary: st)
    case (Cons x xs)
    obtain k r c d where x: "x = (k, r)" and st: "st = (c, d)" by (metis surj_pair)
    have "wf_stable c (fst (return_segment w everything (k, r) (c, d)))"
      using Cons.prems x st by (intro stable_return_segment) simp
    moreover from this have "wf_stable (fst (return_segment w everything x st))
        (fst (fold (return_segment w everything) xs (return_segment w everything x st)))"
      using Cons.prems x st by (intro Cons.IH) (simp add: wf_stable_def)
    ultimately show ?case using x st by (simp add: wf_stable_def)
  qed simp
  from this [of "c_inflight ?c2" "(?c2, deliveryKey w inc)"]
  have "wfc (fst (fold (return_segment w everything) (c_inflight ?c2) (?c2, deliveryKey w inc)))"
    using 2 wf_inflight_snd [OF 2] by (simp add: wf_stable_def)
  then show ?thesis using 1 by (simp add: return_channel_def Let_def)
qed

subsection \<open>Consuming, acknowledging, forgetting\<close>

lemma wf_forget_channel: "wfc c \<Longrightarrow> wfc (forget_channel w c)"
  by (simp add: forget_channel_def wf_all_filter)

lemma wf_enter_channel: "wfc c \<Longrightarrow> wfc (enter_channel w c)"
  by (simp add: enter_channel_def wf_cursor_upd)

lemma wf_consume_log:
  assumes "wfc c" and "set rs \<subseteq> {..<length (c_heap c)}"
    and "map_get 0 (c_cursor c) w + length rs \<le> length (c_log c)"
  shows "wfc (snd (consume_log now w dk ck limit rs segs c))"
  using assms
proof (induction rs arbitrary: segs c)
  case (Cons r rs)
  let ?c1 = "c\<lparr>c_cursor := AList.update w (Suc (map_get 0 (c_cursor c) w)) (c_cursor c)\<rparr>"
  have 1: "wfc ?c1" using Cons.prems by (intro wf_cursor_upd) auto
  then have 2: "wfc (deliver dk r ?c1)" using Cons.prems by (intro wf_deliver) auto
  have g: "map_get 0 (AList.update w n m) w = n" for n :: nat and m
    by (simp add: map_get_def map_simps)
  show ?case
    using Cons.prems Cons.IH [OF 1] Cons.IH [OF 2] by (simp add: Let_def g deliver_def)
qed simp

lemma wf_consume_queue:
  assumes "wfc c" and "p < length (c_queues c)" and "c_queues c ! p = q"
  shows "wfc (snd (consume_queue now dk limit n p q segs c))
    \<and> length (c_queues (snd (consume_queue now dk limit n p q segs c))) = length (c_queues c)"
  using assms
proof (induction q arbitrary: segs c)
  case (Cons r q)
  have p: "in_range (int p) (c_queues c)" using Cons.prems by (simp add: in_range_def)
  let ?c1 = "upd_queue (int p) (\<lambda>_. q) c"
  have q: "c_queues ?c1 = (c_queues c)[p := q]" by (simp add: upd_queue_in_range [OF p])
  have 1: "wfc ?c1" using Cons.prems p by (intro wf_queue_subset) auto
  have "r < length (c_heap c)"
    using wf_refs(6) [OF Cons.prems(1) nth_mem [OF Cons.prems(2)]] Cons.prems(3) by simp
  with 1 have "wfc (deliver dk r ?c1)" by (intro wf_deliver) auto
  from Cons.IH [OF this] show ?case
    using Cons.prems q by (simp add: Let_def deliver_def)
qed simp

lemma wf_consume_partitions:
  assumes "wfc c" and "\<And>p. p \<in> set ps \<Longrightarrow> p < length (c_queues c)"
  shows "wfc (fst (snd (consume_partitions now dk limit ps n work c o1)))"
  using assms
proof (induction ps arbitrary: n work c o1)
  case (Cons p ps)
  obtain segs c1 where c1: "consume_queue now dk limit n p (c_queues c ! p) [] c = (segs, c1)" by force
  have p: "in_range (int p) (c_queues c)" using Cons.prems(2) by (simp add: in_range_def)
  have "wfc c1 \<and> length (c_queues c1) = length (c_queues c)"
    using wf_consume_queue [OF Cons.prems(1), of p "c_queues c ! p" now dk limit n "[]"] Cons.prems(2) c1
    by simp
  with p show ?case using Cons.prems by (simp add: c1 Cons.IH)
qed simp

lemma assigned_less: "p \<in> set (fst (assigned c o1 w)) \<Longrightarrow> p < nat (partitions c)"
  by (auto simp: assigned_def Let_def split: if_splits)

lemma wf_consume_work:
  assumes "wfc c"
  shows "wfc (fst (snd (consume_work now w dk p limit c o1)))"
proof -
  let ?cur = "map_get 0 (c_cursor c) w"
  have "?cur \<le> length (c_log c)"
    using wf_cursor_le [OF assms] by (auto simp: map_get_def split: option.split dest: map_of_SomeD)
  moreover have "set (drop ?cur (c_log c)) \<subseteq> {..<length (c_heap c)}"
    using wf_refs(5) [OF assms] by (auto dest: in_set_dropD)
  ultimately have "wfc (snd (consume_log now w dk (cohortKey p) limit (drop ?cur (c_log c)) [] c))"
    by (intro wf_consume_log assms) auto
  moreover have "wfc (fst (snd (consume_partitions now dk limit (fst (assigned c o1 w)) 0 [] c o2)))" for o2
    using wfD(1) [OF assms] by (intro wf_consume_partitions assms) (auto simp: sized_def dest: assigned_less)
  ultimately show ?thesis using assms by (simp add: consume_work_def split_def Let_def)
qed

lemma wf_settle_ack: "wfc c \<Longrightarrow> wfc (settle_ack owned a r c)"
  by (simp add: settle_ack_def Let_def wf_release wf_inflight_del)

lemma wf_ack1: "wfc c \<Longrightarrow> wfc (ack1 p pods w inc a c)"
  by (simp add: ack1_def Let_def wf_settle_ack split: option.split bool.split prod.split)

lemma segmentForAck_less: "wfc c \<Longrightarrow> fst (segmentForAck c a) = Some r \<Longrightarrow> r < length (c_heap c)"
  by (auto simp: segmentForAck_def Let_def split: if_splits dest!: map_of_SomeD intro: wf_refs)

text \<open>Returning a delivery on request, before the segment is offered again.\<close>

definition nack_segment :: "int \<Rightarrow> string \<Rightarrow> SegmentAck \<Rightarrow> sref \<Rightarrow> channel \<Rightarrow> channel" where
  "nack_segment now owned a r c =
     (let s = seg c r;
          c1 = upd_seg r (\<lambda>x. x\<lparr>s_delivered := set_del owned (s_delivered x),
                 s_retryAfter := (if 0 < k_retryAfterMillis a
                   then AList.update owned (now + k_retryAfterMillis a * 1000000) (s_retryAfter x)
                   else s_retryAfter x)\<rparr>) c;
          c2 = (if k_failure a \<noteq> [] then c1\<lparr>c_latestDeliveryFailure := k_failure a\<rparr> else c1)
      in if set_del owned (s_delivered s) = []
         then c2\<lparr>c_inflight := AList.delete (key s) (c_inflight c2)\<rparr> else c2)"

lemma nack1_eq:
  "nack1 now w owned a c =
     (case fst (segmentForAck c a) of
        None \<Rightarrow> c
      | Some r \<Rightarrow>
          if owned \<notin> set (s_delivered (seg c r)) then c
          else (let s = seg c r; c3 = nack_segment now owned a r c in
                if broadcast c3 then c3\<lparr>c_cursor := AList.update w 0 (c_cursor c3)\<rparr>
                else if \<not> s_lost s \<and> \<not> s_released s then
                  (if \<not> in_range (s_part s) (c_queues c3) then c3\<lparr>c_panic := True\<rparr>
                   else if \<not> containsSegment (c_queues c3 ! nat (s_part s)) r
                   then upd_queue (s_part s) (\<lambda>q. r # q) c3 else c3)
                else c3))"
  unfolding nack1_def nack_segment_def Let_def by (rule refl)

lemma nack_segment_frame [simp]:
  "c_spec (nack_segment now owned a r c) = c_spec c" "c_queues (nack_segment now owned a r c) = c_queues c"
  "c_held (nack_segment now owned a r c) = c_held c" "c_all (nack_segment now owned a r c) = c_all c"
  "c_log (nack_segment now owned a r c) = c_log c"
  "length (c_heap (nack_segment now owned a r c)) = length (c_heap c)"
  by (simp_all add: nack_segment_def Let_def)

lemma spec_reads_nack [simp]: "broadcast (nack_segment now owned a r c) = broadcast c"
  by (rule spec_reads) simp

lemma wf_nack1:
  assumes "wfc c"
  shows "wfc (nack1 now w owned a c)"
proof (cases "fst (segmentForAck c a)")
  case (Some r)
  have r: "r < length (c_heap c)" using segmentForAck_less [OF assms Some] .
  let ?c3 = "nack_segment now owned a r c"
  have 3: "wfc ?c3" "s_part (seg ?c3 r) = s_part (seg c r)"
    using assms by (simp_all add: nack_segment_def Let_def wf_inflight_del)
  have "wfc (?c3\<lparr>c_cursor := AList.update w 0 (c_cursor ?c3)\<rparr>)" using 3 by (simp add: wf_cursor_upd)
  moreover have "wfc (upd_queue (s_part (seg c r)) (\<lambda>q. r # q) ?c3)" if "\<not> broadcast c"
    using wf_queue_grow [of ?c3 r "\<lambda>q. r # q"] 3 r that by auto
  ultimately show ?thesis
    using 3 assms wf_part [OF assms _ r] by (simp add: nack1_eq Some Let_def)
qed (simp add: nack1_def assms)

subsection \<open>Subscriptions and retention\<close>

lemma wf_upd_sub:
  assumes "wfc c" and "\<And>sub. map_of (c_subscriptions c) n = Some sub \<Longrightarrow> sub_ok c (f sub)"
  shows "wfc (upd_sub n f c)"
  unfolding upd_sub_def
proof (rule wf_subs [OF assms(1)])
  show "distinct (map fst (map (\<lambda>(k, sub). (k, if k = n then f sub else sub)) (c_subscriptions c)))"
    using wf_keys(8) [OF assms(1)] by simp
  show "sub_ok c sub"
    if "(k, sub) \<in> set (map (\<lambda>(k, sub). (k, if k = n then f sub else sub)) (c_subscriptions c))" for k sub
    using that assms wf_sub_ok [OF assms(1)] wf_keys(8) [OF assms(1)] by (auto simp: map_of_in_set)
qed

lemma wf_new_subscription:
  assumes "wfc c"
  shows "wfc (c\<lparr>c_subscriptions := AList.update n (new_subscription n opName c) (c_subscriptions c)\<rparr>)"
proof (rule wf_subs [OF assms])
  have "sub_ok c (new_subscription n opName c)"
    using wfD(1) [OF assms] by (simp add: sub_ok_def new_subscription_def sized_def)
  then show "sub_ok c sub"
    if "(k, sub) \<in> set (AList.update n (new_subscription n opName c) (c_subscriptions c))" for k sub
    using that wf_keys(8) [OF assms] wf_sub_ok [OF assms] by (auto simp: set_update_iff split: if_splits)
qed (simp add: wf_keys(8) [OF assms])

text \<open>A delivery is recorded at the current position of its partition.\<close>

lemma sub_ok_deliver:
  assumes "sub_ok c sub" and "p < length (sub_positions sub)" and "d_offset d = sub_positions sub ! p"
  shows "sub_ok c (sub\<lparr>sub_inflight := AList.update (int p) d (sub_inflight sub)\<rparr>)"
  using assms by (auto simp: sub_ok_def set_update_iff in_range_def split: if_splits)

lemma subscription_work_ok:
  assumes "wfc c" and "sub_ok c sub" and "\<And>p. p \<in> set ps \<Longrightarrow> p < nat (partitions c)"
    and "subscription_work owner limit c ps work sub = (res, sub', panic)"
  shows "sub_ok c sub' \<and> \<not> panic"
  using assms(2-)
proof (induction ps arbitrary: work sub)
  case (Cons p ps)
  have len: "length (c_historyBase c) = nat (partitions c)" "length (c_history c) = nat (partitions c)"
    "length (sub_positions sub) = nat (partitions c)" "p < nat (partitions c)"
    using wfD(1) [OF assms(1)] Cons.prems by (auto simp: sized_def sub_ok_def)
  note IH = Cons.IH [OF _ Cons.prems(2), simplified]
  let ?d = "\<lparr>d_offset = sub_positions sub ! p,
    d_appendID = s_appendID (seg c (c_history c ! p ! nat (sub_positions sub ! p - c_historyBase c ! p))),
    d_owner = owner\<rparr>"
  have "sub_ok c (sub\<lparr>sub_inflight := AList.update (int p) ?d (sub_inflight sub)\<rparr>)"
    using Cons.prems(1) len by (intro sub_ok_deliver) auto
  then show ?case
    using Cons.prems(1,3) len IH by (auto simp: Let_def split: if_splits option.splits)
qed auto

lemma sub_ok_ack1:
  assumes "sub_ok c (fst st)" and "\<not> snd st"
  shows "sub_ok c (fst (ack_subscription1 owner a st)) \<and> \<not> snd (ack_subscription1 owner a st)"
proof -
  obtain sub where st: "st = (sub, False)" using assms(2) by (metis prod.collapse)
  let ?p = "sa_partition a"
  have "in_range ?p (sub_positions sub)" if "map_of (sub_inflight sub) ?p = Some d" for d
    using that assms(1) st by (auto simp: sub_ok_def dest: map_of_SomeD)
  moreover have "sub_ok c (sub\<lparr>sub_inflight := AList.delete ?p (sub_inflight sub),
      sub_positions := (sub_positions sub)[nat ?p := x]\<rparr>)" if "in_range ?p (sub_positions sub)" for x
  proof -
    have "(sub_positions sub)[nat ?p := x] ! nat q = sub_positions sub ! nat q"
      if "q \<noteq> ?p" "in_range q (sub_positions sub)" for q
      using that \<open>in_range ?p (sub_positions sub)\<close> by (simp add: in_range_def eq_nat_nat_iff)
    then show ?thesis
      using assms(1) st by (fastforce simp: sub_ok_def set_delete_iff in_range_update)
  qed
  ultimately show ?thesis
    using assms st by (auto simp: ack_subscription1_def Let_def split: option.split)
qed

lemma sub_ok_acks:
  "sub_ok c (fst st) \<Longrightarrow> \<not> snd st \<Longrightarrow>
   sub_ok c (fst (fold (ack_subscription1 owner) acks st)) \<and> \<not> snd (fold (ack_subscription1 owner) acks st)"
  by (induction acks arbitrary: st) (simp_all add: sub_ok_ack1)

lemma sub_ok_move:
  "sub_ok c sub \<Longrightarrow> sub_inflight sub = [] \<Longrightarrow>
   sub_ok c (fold move_cursor qs sub) \<and> sub_inflight (fold move_cursor qs sub) = []"
  by (induction qs arbitrary: sub) (simp_all add: sub_ok_def move_cursor_def)

lemma wf_delete_entry: "wfc c \<Longrightarrow> wfc (delete_entry r c)"
  by (simp add: delete_entry_def Let_def wf_all_del wf_appendIDs_del)

lemma delete_entry_frame [simp]:
  "c_history (delete_entry r c) = c_history c" "c_historyBase (delete_entry r c) = c_historyBase c"
  "c_spec (delete_entry r c) = c_spec c" "length (c_heap (delete_entry r c)) = length (c_heap c)"
  by (simp_all add: delete_entry_def Let_def)

lemma fold_delete_entry_frame [simp]:
  "c_history (fold delete_entry rs c) = c_history c"
  "c_historyBase (fold delete_entry rs c) = c_historyBase c"
  "c_spec (fold delete_entry rs c) = c_spec c"
  by (induction rs arbitrary: c) simp_all

lemma Union_set_drop: "\<Union> (set ` set (xss[p := drop n (xss ! p)])) \<subseteq> \<Union> (set ` set xss)"
proof (cases "p < length xss")
  case True
  then show ?thesis
    using nth_mem [OF True] set_drop_subset [of n "xss ! p"]
    by (fastforce dest!: subsetD [OF set_update_subset_insert])
qed (auto simp: not_less list_update_beyond)

text \<open>Cutting the history of one partition moves its base by as much.\<close>

lemma wf_cut_history:
  assumes "wfc c" and "n \<le> length (c_history c ! p)"
  shows "wfc (c\<lparr>c_history := (c_history c)[p := drop n (c_history c ! p)],
    c_historyBase := (c_historyBase c)[p := c_historyBase c ! p + int n]\<rparr>)" (is "wfc ?c")
proof -
  have "all_refs ?c \<subseteq> all_refs c"
    using Union_set_drop [of "c_history c" p n] by (auto simp: all_refs_def)
  then have "refs_ok ?c" using wfD(2) [OF assms(1)] by (auto simp: refs_ok_def)
  moreover have "history_ok ?c"
    unfolding history_ok_def
  proof (intro allI impI)
    fix q i assume q: "q < length (c_history ?c)" and i: "i < length (c_history ?c ! q)"
    let ?j = "if q = p then n + i else i"
    have j: "?j < length (c_history c ! q)" and e: "c_history ?c ! q ! i = c_history c ! q ! ?j"
      using q i assms(2) by (auto simp: nth_list_update)
    have "s_offset (seg c (c_history c ! q ! ?j)) = c_historyBase c ! q + int ?j"
      using wfD(6) [OF assms(1)] q j by (auto simp: history_ok_def)
    then show "s_offset (seg ?c (c_history ?c ! q ! i)) = c_historyBase ?c ! q + int i"
      using e q wfD(1) [OF assms(1)] by (auto simp: sized_def)
  qed
  moreover have "sub_ok ?c = sub_ok c" by (simp add: sub_ok_def fun_eq_iff)
  ultimately show ?thesis
    using wfD [OF assms(1)]
    by (simp add: wfc_def sized_def maps_ok_def parts_ok_def cursors_ok_def subs_ok_def)
qed

text \<open>
  Retention on one partition, at a position between its base and its end, and on several
  partitions at once.
\<close>

definition position_ok :: "channel \<Rightarrow> PartitionPosition \<Rightarrow> bool" where
  "position_ok c q \<longleftrightarrow> in_range (pp_partition q) (c_history c)
     \<and> c_historyBase c ! nat (pp_partition q) \<le> pp_offset q
     \<and> pp_offset q \<le> c_historyBase c ! nat (pp_partition q) + int (length (c_history c ! nat (pp_partition q)))"

lemma wf_delete_before:
  assumes "wfc c" and "position_ok c q"
  shows "wfc (delete_before q c)"
proof -
  let ?p = "nat (pp_partition q)"
  let ?n = "nat (pp_offset q - c_historyBase c ! ?p)"
  let ?c1 = "fold delete_entry (take ?n (c_history c ! ?p)) c"
  have 1: "wfc ?c1"
    by (rule wf_stableD [OF fold_stable assms(1)]) (simp add: wf_stable_def wf_delete_entry)
  have "wfc (?c1\<lparr>c_history := (c_history ?c1)[?p := drop ?n (c_history ?c1 ! ?p)],
      c_historyBase := (c_historyBase ?c1)[?p := c_historyBase ?c1 ! ?p + int ?n]\<rparr>)"
    by (rule wf_cut_history [OF 1]) (use assms(2) in \<open>simp add: position_ok_def nat_le_iff\<close>)
  then show ?thesis
    using assms(2) by (simp add: delete_before_def Let_def position_ok_def)
qed

lemma check_positions_ok:
  "check_positions c n st msg qs = Inr () \<Longrightarrow> n = int (length (c_history c))
   \<Longrightarrow> q \<in> set qs \<Longrightarrow> position_ok c q"
  by (induction qs) (auto simp: position_ok_def in_range_def Let_def split: if_splits)

text \<open>A retention request names each partition at most once.\<close>

lemma position_ok_delete_before:
  assumes "position_ok c q" and "position_ok c q'" and "pp_partition q' \<noteq> pp_partition q"
  shows "position_ok (delete_before q c) q'"
  using assms
  by (auto simp: position_ok_def delete_before_def Let_def in_range_def nth_list_update eq_nat_nat_iff)

lemma wf_delete_all:
  "wfc c \<Longrightarrow> \<forall>q \<in> set qs. position_ok c q \<Longrightarrow> distinct (map pp_partition qs)
   \<Longrightarrow> wfc (fold delete_before qs c)"
proof (induction qs arbitrary: c)
  case (Cons q qs)
  have "\<forall>q' \<in> set qs. position_ok (delete_before q c) q'"
    using Cons.prems by (auto intro!: position_ok_delete_before simp: image_iff)
  with Cons show ?case by (simp add: wf_delete_before)
qed simp

subsection \<open>Declaring channels\<close>

lemma normalize_partitions: "0 < p_partitions (ch_partitioning (normalize s))"
  by (simp add: normalize_def Let_def split: option.split)

lemma wf_new_channel:
  assumes "0 < p_partitions (ch_partitioning s)" and "p_partitions (ch_partitioning s) < 2 ^ 31"
  shows "wfc (new_channel s)"
  using assms
  by (simp add: wfc_def new_channel_def Let_def sized_def refs_ok_def all_refs_def maps_ok_def
      parts_ok_def cursors_ok_def history_ok_def subs_ok_def partitions_def)

lemma wf_mark_channel: "wfc c \<Longrightarrow> wfc (mark_channel cs c)"
  by (simp add: mark_channel_def Let_def)

text \<open>A new specification that keeps the partitioning.\<close>

lemma wf_respec:
  assumes "wfc c" and "ch_partitioning s = ch_partitioning (c_spec c)"
  shows "wfc (c\<lparr>c_spec := s\<rparr>)"
proof -
  have "partitions (c\<lparr>c_spec := s\<rparr>) = partitions c" "broadcast (c\<lparr>c_spec := s\<rparr>) = broadcast c"
    using assms(2) by (simp_all add: partitions_def broadcast_def)
  moreover from this have "sub_ok (c\<lparr>c_spec := s\<rparr>) = sub_ok c" by (simp add: sub_ok_def fun_eq_iff)
  ultimately show ?thesis
    using wfD [OF assms(1)]
    by (simp add: wfc_def sized_def refs_ok_def all_refs_def maps_ok_def parts_ok_def cursors_ok_def
        history_ok_def subs_ok_def)
qed

end
