(* ===== verification/Placement.thy ===== *)
theory Placement
  imports Shape "HOL-Library.Multiset"
begin

text \<open>
  Where the segments of a channel are, for channels whose segments go to one consumer each.

  \<open>placed\<close>: the segments nobody has finished with are exactly the segments that are queued, held
  for a later epoch or in flight, each in exactly one of these places and once; a segment is in
  flight exactly when one process has it; and a segment that is not finished with can still be
  found under its key. Every operation on a channel keeps this.

  \<open>balanced\<close>: with feedback barriers aside, the counters of the channel add up. \<open>epochs_ok\<close>:
  nothing of a later epoch is within reach of a consumer.
\<close>

definition partitioned :: "channel \<Rightarrow> bool" where
  "partitioned c \<longleftrightarrow> \<not> broadcast c \<and> \<not> external c"

definition places :: "channel \<Rightarrow> sref list" where
  "places c = concat (c_queues c) @ c_held c @ map snd (c_inflight c)"

definition unfinished :: "channel \<Rightarrow> sref list" where
  "unfinished c = filter (\<lambda>r. \<not> s_released (seg c r)) [0..<length (c_heap c)]"

definition seg_ok :: "channel \<Rightarrow> sref \<Rightarrow> bool" where
  "seg_ok c r \<longleftrightarrow>
     (r \<in> snd ` set (c_inflight c) \<longleftrightarrow> s_delivered (seg c r) \<noteq> [])
     \<and> length (s_delivered (seg c r)) \<le> 1
     \<and> (s_lost (seg c r) \<longrightarrow> s_released (seg c r))
     \<and> (\<not> s_released (seg c r) \<longrightarrow>
          map_of (c_all c) (key (seg c r)) = Some r \<and> s_acked (seg c r) = [])"

definition placed :: "channel \<Rightarrow> bool" where
  "placed c \<longleftrightarrow> (partitioned c \<longrightarrow>
     mset (places c) = mset (unfinished c) \<and> (\<forall>r < length (c_heap c). seg_ok c r))"

lemma key_update [simp]:
  "key (s\<lparr>s_delivered := d\<rparr>) = key s" "key (s\<lparr>s_released := b\<rparr>) = key s" "key (s\<lparr>s_lost := b\<rparr>) = key s"
  "key (s\<lparr>s_acked := a\<rparr>) = key s" "key (s\<lparr>s_retryAfter := ra\<rparr>) = key s" "key (s\<lparr>s_data := dt\<rparr>) = key s"
  "key (s\<lparr>s_offset := i\<rparr>) = key s" "key (s\<lparr>s_retentionDeleted := b\<rparr>) = key s"
  by (simp_all add: key_def)

subsection \<open>Multisets of references\<close>

lemma mset_concat_update:
  "p < length qs \<Longrightarrow> mset (concat (qs[p := x])) + mset (qs ! p) = mset (concat qs) + mset x"
proof (induction qs arbitrary: p)
  case (Cons q qs)
  then show ?case by (cases p) (auto simp: ac_simps)
qed simp

lemma mset_snd_update:
  "k \<notin> fst ` set m \<Longrightarrow>
   image_mset snd (mset (AList.update k v m)) = add_mset v (image_mset snd (mset m))"
  by (induction m) auto

lemma mset_snd_delete:
  "distinct (map fst m) \<Longrightarrow> (k, v) \<in> set m
   \<Longrightarrow> add_mset v (mset (map snd (AList.delete k m))) = mset (map snd m)"
proof (induction m)
  case (Cons x m)
  show ?case
  proof (cases "fst x = k")
    case True
    then have "AList.delete k m = m" "x = (k, v)"
      using Cons.prems by (auto simp: AList.delete_eq filter_id_conv rev_image_eqI)
    then show ?thesis by (simp add: AList.delete_eq)
  next
    case False
    then have "AList.delete k (x # m) = x # AList.delete k m" "(k, v) \<in> set m"
      using Cons.prems by (auto simp: AList.delete_eq)
    with Cons show ?thesis by simp
  qed
qed simp

lemma snd_set_delete:
  assumes "distinct (map fst m)" and "distinct (map snd m)" and "(k, v) \<in> set m"
  shows "snd ` set (AList.delete k m) = snd ` set m - {v}"
proof -
  have "mset (map snd m) = mset (v # map snd (AList.delete k m))"
    using mset_snd_delete [OF assms(1,3)] by simp
  from mset_eq_imp_distinct_iff [OF this] mset_eq_setD [OF this] assms(2) show ?thesis by auto
qed

lemma unfinished_set [simp]: "set (unfinished c) = {r. r < length (c_heap c) \<and> \<not> s_released (seg c r)}"
  by (auto simp: unfinished_def)

lemma distinct_unfinished [simp]: "distinct (unfinished c)"
  by (simp add: unfinished_def)

lemma unfinished_cong:
  "length (c_heap c') = length (c_heap c) \<Longrightarrow>
   (\<And>r. r < length (c_heap c) \<Longrightarrow> s_released (seg c' r) = s_released (seg c r)) \<Longrightarrow>
   unfinished c' = unfinished c"
  by (auto simp: unfinished_def intro!: filter_cong)

lemma placedD:
  assumes "placed c" and "partitioned c"
  shows "mset (places c) = mset (unfinished c)" "distinct (places c)"
    "set (places c) = {r. r < length (c_heap c) \<and> \<not> s_released (seg c r)}"
    "r < length (c_heap c) \<Longrightarrow> seg_ok c r"
proof -
  show 1: "mset (places c) = mset (unfinished c)" using assms by (simp add: placed_def)
  then show "distinct (places c)" by (metis distinct_unfinished mset_eq_imp_distinct_iff)
  show "set (places c) = {r. r < length (c_heap c) \<and> \<not> s_released (seg c r)}"
    using mset_eq_setD [OF 1] by simp
  show "r < length (c_heap c) \<Longrightarrow> seg_ok c r" using assms by (simp add: placed_def)
qed

lemma placedI:
  "(partitioned c \<Longrightarrow> mset (places c) = mset (unfinished c)) \<Longrightarrow>
   (\<And>r. partitioned c \<Longrightarrow> r < length (c_heap c) \<Longrightarrow> seg_ok c r) \<Longrightarrow> placed c"
  by (simp add: placed_def)

lemma partitioned_upd [simp]:
  "partitioned (upd_seg r f c) = partitioned c" "partitioned (upd_queue p g c) = partitioned c"
  "partitioned (c\<lparr>c_inflight := m\<rparr>) = partitioned c" "partitioned (c\<lparr>c_held := l\<rparr>) = partitioned c"
  "partitioned (c\<lparr>c_all := m\<rparr>) = partitioned c" "partitioned (file_segment s n c) = partitioned c"
  by (simp_all add: partitioned_def)

lemma placed_trivial: "\<not> partitioned c \<Longrightarrow> c_spec c' = c_spec c \<Longrightarrow> placed c'"
  by (auto simp: placed_def partitioned_def broadcast_def external_def)

lemma fold_upd_seg_frame [simp]:
  "c_spec (fold (\<lambda>r. upd_seg r f) rs c) = c_spec c" "c_held (fold (\<lambda>r. upd_seg r f) rs c) = c_held c"
  "c_queues (fold (\<lambda>r. upd_seg r f) rs c) = c_queues c" "c_all (fold (\<lambda>r. upd_seg r f) rs c) = c_all c"
  "c_inflight (fold (\<lambda>r. upd_seg r f) rs c) = c_inflight c"
  "length (c_heap (fold (\<lambda>r. upd_seg r f) rs c)) = length (c_heap c)"
  by (induction rs arbitrary: c) simp_all

lemma spec_frame [simp]:
  "c_spec (markLost r c) = c_spec c" "c_spec (give_back d k r c) = c_spec c"
  "c_spec (release r c) = c_spec c" "c_spec (deliver dk r c) = c_spec c"
  "c_spec (seal_channel c) = c_spec c"
  by (simp_all add: markLost_def give_back_def Let_def release_def deliver_def seal_channel_def)

lemma spec_frame_ack [simp]:
  "c_spec (settle_ack owned a r c) = c_spec c" "c_spec (nack1 now w owned b c) = c_spec c"
  by (simp_all add: settle_ack_def nack1_eq Let_def split: option.split)

text \<open>An acknowledgement either does nothing or settles one delivery.\<close>

lemma ack1_cases:
  obtains "ack1 p pods w inc a c = c"
  | r owned b where "fst (segmentForAck c a) = Some r" "owned \<in> set (s_delivered (seg c r))"
      "\<not> s_lost (seg c r)" "ack1 p pods w inc a c = settle_ack owned b r c"
proof -
  obtain s ok where s: "segmentForAck c a = (s, ok)" by force
  show thesis
  proof (cases s)
    case None
    then show thesis using that(1) by (simp add: ack1_def Let_def s)
  next
    case (Some r)
    let ?owned = "deliveryKey (if w \<noteq> '''' then w else k_pod a) inc"
    show thesis
    proof (cases "ok \<and> ?owned \<in> set (s_delivered (seg c r)) \<and> \<not> s_lost (seg c r)")
      case True
      then show thesis using that(2) [of r ?owned] by (simp add: ack1_def Let_def s Some)
    next
      case False
      then show thesis using that(1) by (cases ok) (auto simp: ack1_def Let_def s Some)
    qed
  qed
qed

lemma spec_frame_ack1 [simp]: "c_spec (ack1 p pods w inc b c) = c_spec c"
  by (rule ack1_cases [of p pods w inc b c]) simp_all

text \<open>Two unfinished segments never share a key.\<close>

lemma placed_key_inj:
  assumes "placed c" "partitioned c" "r \<in> set (places c)" "r' \<in> set (places c)"
    and "key (seg c r) = key (seg c r')"
  shows "r = r'"
proof -
  have "r < length (c_heap c) \<and> \<not> s_released (seg c r)" "r' < length (c_heap c) \<and> \<not> s_released (seg c r')"
    using assms(3,4) placedD(3) [OF assms(1,2)] by auto
  then show ?thesis
    using placedD(4) [OF assms(1,2), of r] placedD(4) [OF assms(1,2), of r'] assms(5)
    by (simp add: seg_ok_def)
qed

text \<open>A segment is in one place only.\<close>

lemma placed_disjoint:
  assumes "placed c" and "partitioned c"
  shows "q \<in> set (c_queues c) \<Longrightarrow> r \<in> set q \<Longrightarrow> r \<notin> set (c_held c) \<and> r \<notin> snd ` set (c_inflight c)"
    "r \<in> set (c_held c) \<Longrightarrow> r \<notin> snd ` set (c_inflight c)"
  using placedD(2) [OF assms] by (auto simp: places_def disjoint_iff)

lemma inflight_place: "(k, r) \<in> set (c_inflight c) \<Longrightarrow> r \<in> set (places c)"
  by (auto simp: places_def rev_image_eqI)

lemma queue_place: "p < length (c_queues c) \<Longrightarrow> r \<in> set (c_queues c ! p) \<Longrightarrow> r \<in> set (places c)"
  by (auto simp: places_def)

lemma placed_inflight_iff:
  assumes "wfc c" "placed c" "partitioned c" "r \<in> set (places c)"
  shows "key (seg c r) \<in> fst ` set (c_inflight c) \<longleftrightarrow> r \<in> snd ` set (c_inflight c)"
proof
  assume "key (seg c r) \<in> fst ` set (c_inflight c)"
  then obtain r' where r': "(key (seg c r), r') \<in> set (c_inflight c)" by force
  then have "key (seg c r') = key (seg c r)" using wf_keys(1) [OF assms(1)] by blast
  then have "r' = r" using placed_key_inj [OF assms(2,3)] inflight_place [OF r'] assms(4) by metis
  with r' show "r \<in> snd ` set (c_inflight c)" by force
next
  assume "r \<in> snd ` set (c_inflight c)"
  then show "key (seg c r) \<in> fst ` set (c_inflight c)" using wf_keys(1) [OF assms(1)] by force
qed

subsection \<open>Handing out and taking back\<close>

lemma delivered_single:
  assumes "seg_ok c r" and "d \<in> set (s_delivered (seg c r))"
  shows "s_delivered (seg c r) = [d]" "set_del d (s_delivered (seg c r)) = []"
proof -
  show "s_delivered (seg c r) = [d]"
    using assms by (cases "s_delivered (seg c r)") (auto simp: seg_ok_def)
  then show "set_del d (s_delivered (seg c r)) = []" by (simp add: set_del_def)
qed

text \<open>The head of a queue becomes a delivery.\<close>

lemma placed_take:
  assumes wf: "wfc c" and pl: "placed c" and p: "p < length (c_queues c)" "c_queues c ! p = r # q"
  shows "placed (deliver dk r (upd_queue (int p) (\<lambda>_. q) c))" (is "placed ?c")
proof (rule placedI)
  assume "partitioned ?c"
  then have part: "partitioned c" by (simp add: deliver_def)
  note D = placedD [OF pl part]
  have range: "in_range (int p) (c_queues c)" using p by (simp add: in_range_def)
  have r: "r \<in> set (places c)" using p by (auto intro: queue_place)
  have rl: "r < length (c_heap c)" "\<not> s_released (seg c r)" using r D(3) by auto
  have ni: "r \<notin> snd ` set (c_inflight c)"
    using placed_disjoint(1) [OF pl part nth_mem [OF p(1)], of r] p(2) by simp
  then have k: "key (seg c r) \<notin> fst ` set (c_inflight c)"
    using placed_inflight_iff [OF wf pl part r] by simp
  have del: "s_delivered (seg c r) = []" using D(4) [OF rl(1)] ni by (simp add: seg_ok_def)
  have fields: "c_queues ?c = (c_queues c)[p := q]" "c_held ?c = c_held c" "c_all ?c = c_all c"
    "c_inflight ?c = AList.update (key (seg c r)) r (c_inflight c)" "length (c_heap ?c) = length (c_heap c)"
    "\<And>x. seg ?c x = (if x = r then (seg c r)\<lparr>s_delivered := [dk]\<rparr> else seg c x)"
    using rl(1) del by (simp_all add: deliver_def upd_queue_in_range [OF range] set_add_def)
  have "mset (concat (c_queues c)) = add_mset r (mset (concat ((c_queues c)[p := q])))"
    using mset_concat_update [OF p(1), of q] p(2) by simp
  then have "mset (places ?c) = mset (places c)"
    by (simp add: places_def fields mset_snd_update [OF k])
  moreover have "unfinished ?c = unfinished c" by (rule unfinished_cong) (simp_all add: fields)
  ultimately show "mset (places ?c) = mset (unfinished ?c)" using D(1) by simp
  have inf: "snd ` set (AList.update (key (seg c r)) r (c_inflight c)) = insert r (snd ` set (c_inflight c))"
    using arg_cong [OF mset_snd_update [OF k, of r], of set_mset] by simp
  show "seg_ok ?c x" if "x < length (c_heap ?c)" for x
    using that D(4) [of x] by (cases "x = r") (simp_all add: seg_ok_def inf fields)
qed

text \<open>A delivery goes back to the front of its queue.\<close>

definition returned :: "sref \<Rightarrow> channel \<Rightarrow> channel \<Rightarrow> bool" where
  "returned r c c' \<longleftrightarrow> c_spec c' = c_spec c \<and> length (c_heap c') = length (c_heap c)
     \<and> c_queues c' = (c_queues c)[nat (s_part (seg c r)) := r # c_queues c ! nat (s_part (seg c r))]
     \<and> c_held c' = c_held c \<and> c_all c' = c_all c
     \<and> c_inflight c' = AList.delete (key (seg c r)) (c_inflight c)
     \<and> (\<forall>x. x \<noteq> r \<longrightarrow> seg c' x = seg c x)
     \<and> key (seg c' r) = key (seg c r) \<and> s_released (seg c' r) = s_released (seg c r)
     \<and> s_lost (seg c' r) = s_lost (seg c r) \<and> s_acked (seg c' r) = s_acked (seg c r)
     \<and> s_delivered (seg c' r) = []"

lemma placed_returned:
  assumes wf: "wfc c" and pl: "placed c" and i: "r \<in> snd ` set (c_inflight c)" and re: "returned r c c'"
  shows "placed c'"
proof (rule placedI)
  assume "partitioned c'"
  then have part: "partitioned c"
    using re by (simp add: returned_def partitioned_def broadcast_def external_def)
  note D = placedD [OF pl part]
  have nb: "\<not> broadcast c" using part by (simp add: partitioned_def)
  have i': "(key (seg c r), r) \<in> set (c_inflight c)" using i wf_keys(1) [OF wf] by force
  have r: "r < length (c_heap c)" using inflight_place [OF i'] D(3) by auto
  let ?p = "s_part (seg c r)"
  have p: "nat ?p < length (c_queues c)" using wf_part [OF wf nb r] by (simp add: in_range_def nat_less_iff)
  have "mset (concat (c_queues c')) = add_mset r (mset (concat (c_queues c)))"
    using mset_concat_update [OF p, of "r # c_queues c ! nat ?p"] re by (simp add: returned_def)
  then have "mset (places c') = mset (places c)"
    using re mset_snd_delete [OF wf_keys(4) [OF wf] i', symmetric] by (simp add: places_def returned_def)
  moreover have "unfinished c' = unfinished c"
  proof (rule unfinished_cong)
    show "s_released (seg c' x) = s_released (seg c x)" for x
      using re by (cases "x = r") (simp_all add: returned_def)
  qed (use re in \<open>simp add: returned_def\<close>)
  ultimately show "mset (places c') = mset (unfinished c')" using D(1) by simp
  have "distinct (map snd (c_inflight c))" using D(2) by (simp add: places_def)
  then have inf: "snd ` set (c_inflight c') = snd ` set (c_inflight c) - {r}"
    using re by (simp add: returned_def snd_set_delete wf_keys(4) [OF wf] i')
  show "seg_ok c' x" if "x < length (c_heap c')" for x
    using that D(4) [of x] re inf by (cases "x = r") (auto simp: seg_ok_def returned_def)
qed

lemma placed_delivered:
  assumes "placed c" "partitioned c" "r < length (c_heap c)" "d \<in> set (s_delivered (seg c r))"
  shows "r \<in> snd ` set (c_inflight c)" "r \<in> set (places c)" "\<not> s_released (seg c r)" "\<not> s_lost (seg c r)"
    "set_del d (s_delivered (seg c r)) = []"
proof -
  note ok = placedD(4) [OF assms(1,2,3)]
  show i: "r \<in> snd ` set (c_inflight c)" using ok assms(4) by (auto simp: seg_ok_def)
  then show p: "r \<in> set (places c)" by (auto simp: places_def)
  then show nr: "\<not> s_released (seg c r)" using placedD(3) [OF assms(1,2)] by auto
  then show "\<not> s_lost (seg c r)" using ok by (auto simp: seg_ok_def)
  show "set_del d (s_delivered (seg c r)) = []" using delivered_single [OF ok assms(4)] by simp
qed

lemma placed_give_back:
  assumes "wfc c" and "placed c" and "(k, r) \<in> set (c_inflight c)" and "d \<in> set (s_delivered (seg c r))"
  shows "placed (give_back d k r c)"
proof (cases "partitioned c")
  case True
  have r: "r < length (c_heap c)" using wf_refs(1) [OF assms(1,3)] .
  note d = placed_delivered [OF assms(2) True r assms(4)]
  have nb: "\<not> broadcast c" using True by (simp add: partitioned_def)
  have "returned r c (give_back d k r c)"
    using d nb r wf_part [OF assms(1) nb r] wf_keys(1) [OF assms(1,3)]
    by (simp add: returned_def give_back_def Let_def upd_queue_def)
  with placed_returned [OF assms(1,2) d(1)] show ?thesis .
next
  case False
  then show ?thesis by (rule placed_trivial) simp
qed

subsection \<open>Finishing with a segment\<close>

text \<open>
  Marking a segment lost and acknowledging it both take it out of its place and release it:
  \<open>retire\<close> is what they have in common.
\<close>

definition retires :: "sref \<Rightarrow> channel \<Rightarrow> channel \<Rightarrow> bool" where
  "retires r c c' \<longleftrightarrow> c_spec c' = c_spec c \<and> length (c_heap c') = length (c_heap c)
     \<and> mset (places c') = filter_mset (\<lambda>x. x \<noteq> r) (mset (places c))
     \<and> snd ` set (c_inflight c') = snd ` set (c_inflight c) - {r}
     \<and> (\<forall>x. x \<noteq> r \<longrightarrow> seg c' x = seg c x)
     \<and> (\<forall>k. k \<noteq> key (seg c r) \<longrightarrow> map_of (c_all c') k = map_of (c_all c) k)
     \<and> s_released (seg c' r) \<and> s_delivered (seg c' r) = []"

lemma placed_retires:
  assumes pl: "placed c" and rl: "r < length (c_heap c)" "\<not> s_released (seg c r)" and rt: "retires r c c'"
  shows "placed c'"
proof (rule placedI)
  assume "partitioned c'"
  then have part: "partitioned c"
    using rt by (simp add: retires_def partitioned_def broadcast_def external_def)
  note D = placedD [OF pl part]
  have "unfinished c' = filter (\<lambda>x. x \<noteq> r) (unfinished c)"
    using rt by (auto simp: unfinished_def retires_def intro!: filter_cong)
  then have "mset (unfinished c') = filter_mset (\<lambda>x. x \<noteq> r) (mset (unfinished c))" by simp
  with D(1) rt show "mset (places c') = mset (unfinished c')" by (simp add: retires_def)
  show "seg_ok c' x" if x: "x < length (c_heap c')" for x
  proof (cases "x = r")
    case True
    then show ?thesis using rt by (simp add: seg_ok_def retires_def)
  next
    case False
    have xl: "x < length (c_heap c)" using x rt by (simp add: retires_def)
    have "key (seg c x) \<noteq> key (seg c r)" if "\<not> s_released (seg c x)"
      using placed_key_inj [OF pl part, of x r] that False xl rl D(3) by auto
    then show ?thesis
      using D(4) [OF xl] rt False by (auto simp: seg_ok_def retires_def)
  qed
qed

lemma filter_removeSegment: "removeSegment xs r = filter (\<lambda>x. x \<noteq> r) xs"
  by (simp add: removeSegment_def)

lemma filter_concat_one:
  assumes "p < length qs" and "\<And>i. i < length qs \<Longrightarrow> i \<noteq> p \<Longrightarrow> r \<notin> set (qs ! i)"
  shows "concat (qs[p := filter (\<lambda>x. x \<noteq> r) (qs ! p)]) = filter (\<lambda>x. x \<noteq> r) (concat qs)"
proof -
  have "qs[p := filter (\<lambda>x. x \<noteq> r) (qs ! p)] = map (filter (\<lambda>x. x \<noteq> r)) qs"
  proof (rule nth_equalityI)
    fix i assume i: "i < length (qs[p := filter (\<lambda>x. x \<noteq> r) (qs ! p)])"
    then have "filter (\<lambda>x. x \<noteq> r) (qs ! i) = qs ! i" if "i \<noteq> p"
      using assms(2) [of i] that by (auto simp: filter_id_conv)
    then show "qs[p := filter (\<lambda>x. x \<noteq> r) (qs ! p)] ! i = map (filter (\<lambda>x. x \<noteq> r)) qs ! i"
      using i by (cases "i = p") auto
  qed simp
  then show ?thesis by (simp add: filter_concat)
qed

text \<open>Deleting the key of an unfinished segment from the in-flight map.\<close>

lemma delete_inflight:
  assumes "wfc c" "placed c" "partitioned c" "r \<in> set (places c)"
  shows "map snd (AList.delete (key (seg c r)) (c_inflight c)) = filter (\<lambda>x. x \<noteq> r) (map snd (c_inflight c))"
proof -
  have "(fst x = key (seg c r)) = (snd x = r)" if "x \<in> set (c_inflight c)" for x
  proof
    assume "fst x = key (seg c r)"
    moreover have "key (seg c (snd x)) = fst x" "snd x \<in> set (places c)"
      using that wf_keys(1) [OF assms(1), of "fst x" "snd x"] inflight_place [of "fst x" "snd x"] by auto
    ultimately show "snd x = r" using placed_key_inj [OF assms(2,3) _ assms(4)] by simp
  next
    assume "snd x = r"
    then show "fst x = key (seg c r)" using that wf_keys(1) [OF assms(1), of "fst x" r] by auto
  qed
  then have "filter (\<lambda>(k', _). key (seg c r) \<noteq> k') (c_inflight c) = filter (\<lambda>x. snd x \<noteq> r) (c_inflight c)"
    by (intro filter_cong) (auto, metis+)
  then show ?thesis by (simp add: AList.delete_eq filter_map comp_def)
qed

lemma snd_image_filter:
  "map snd m' = filter (\<lambda>x. x \<noteq> r) (map snd m) \<Longrightarrow> snd ` set m' = snd ` set m - {r}"
  by (drule arg_cong [of _ _ set]) auto

lemma retires_markLost:
  assumes "wfc c" "placed c" "partitioned c" "r \<in> set (places c)"
  shows "retires r c (markLost r c)" (is "retires r c ?c")
proof -
  have nb: "\<not> broadcast c" using assms(3) by (simp add: partitioned_def)
  have rl: "r < length (c_heap c)" using assms(4) placedD(3) [OF assms(2,3)] by auto
  let ?p = "s_part (seg c r)"
  have range: "in_range ?p (c_queues c)" using wf_part [OF assms(1) nb rl] .
  then have p: "nat ?p < length (c_queues c)" by (simp add: in_range_def nat_less_iff)
  have fields: "c_queues ?c = (c_queues c)[nat ?p := filter (\<lambda>x. x \<noteq> r) (c_queues c ! nat ?p)]"
    "c_held ?c = filter (\<lambda>x. x \<noteq> r) (c_held c)"
    "c_inflight ?c = AList.delete (key (seg c r)) (c_inflight c)" "c_all ?c = c_all c"
    "c_spec ?c = c_spec c"
    "\<And>x. seg ?c x = (if x = r then (seg c r)\<lparr>s_lost := True, s_released := True, s_delivered := []\<rparr> else seg c x)"
    using rl nb range by (simp_all add: markLost_def Let_def upd_queue_def filter_removeSegment)
  have "concat (c_queues ?c) = filter (\<lambda>x. x \<noteq> r) (concat (c_queues c))"
    unfolding fields by (rule filter_concat_one [OF p]) (use wf_queue_part [OF assms(1) nb] range in
      \<open>auto simp: in_range_def\<close>)
  with delete_inflight [OF assms] show ?thesis
    by (simp add: retires_def places_def fields snd_image_filter [OF delete_inflight [OF assms]])
qed

lemma placed_markLost:
  assumes "wfc c" and "placed c" and "r < length (c_heap c)" and "\<not> s_released (seg c r)"
  shows "placed (markLost r c)"
proof (cases "partitioned c")
  case True
  then have "r \<in> set (places c)" using placedD(3) [OF assms(2)] assms(3,4) by blast
  with placed_retires [OF assms(2-4) retires_markLost] assms(1,2) True show ?thesis by blast
next
  case False
  then show ?thesis by (rule placed_trivial) simp
qed

lemma retires_settle_ack:
  assumes "wfc c" "placed c" "partitioned c" "r < length (c_heap c)" "owned \<in> set (s_delivered (seg c r))"
  shows "retires r c (settle_ack owned a r c)" (is "retires r c ?c")
proof -
  note d = placed_delivered [OF assms(2-5)]
  have nb: "\<not> broadcast c" using assms(3) by (simp add: partitioned_def)
  have fields: "c_queues ?c = c_queues c" "c_held ?c = c_held c" "c_spec ?c = c_spec c"
    "c_inflight ?c = AList.delete (key (seg c r)) (c_inflight c)" "length (c_heap ?c) = length (c_heap c)"
    "\<And>x. x \<noteq> r \<Longrightarrow> seg ?c x = seg c x" "s_released (seg ?c r)" "s_delivered (seg ?c r) = []"
    "\<And>k. k \<noteq> key (seg c r) \<Longrightarrow> map_of (c_all ?c) k = map_of (c_all c) k"
    using assms(4) nb d(5) by (simp_all add: settle_ack_def Let_def release_def map_simps)
  have "r \<notin> set (concat (c_queues c))" "r \<notin> set (c_held c)"
    using d(1) placed_disjoint [OF assms(2,3)] by auto
  then have "filter (\<lambda>x. x \<noteq> r) (concat (c_queues c)) = concat (c_queues c)"
    "filter (\<lambda>x. x \<noteq> r) (c_held c) = c_held c"
    by (auto simp: filter_id_conv)
  then have "mset (places ?c) = filter_mset (\<lambda>x. x \<noteq> r) (mset (places c))"
    using delete_inflight [OF assms(1-3) d(2)]
    by (simp only: places_def fields mset_filter [symmetric] filter_append)
  with fields snd_image_filter [OF delete_inflight [OF assms(1-3) d(2)]] show ?thesis
    by (simp add: retires_def)
qed

lemma placed_ack1:
  assumes "wfc c" and "placed c"
  shows "placed (ack1 p pods w inc a c)"
proof (cases "partitioned c")
  case True
  show ?thesis
  proof (rule ack1_cases [of p pods w inc a c])
    fix r owned b
    assume a: "fst (segmentForAck c a) = Some r" "owned \<in> set (s_delivered (seg c r))"
      "ack1 p pods w inc a c = settle_ack owned b r c"
    have r: "r < length (c_heap c)" using segmentForAck_less [OF assms(1) a(1)] .
    show ?thesis
      unfolding a(3)
      using placed_retires [OF assms(2) r] retires_settle_ack [OF assms True r a(2)]
        placed_delivered [OF assms(2) True r a(2)] by blast
  qed (simp add: assms(2))
next
  case False
  then show ?thesis by (rule placed_trivial) simp
qed

lemma placed_nack1:
  assumes "wfc c" and "placed c"
  shows "placed (nack1 now w owned a c)"
proof (cases "partitioned c")
  case True
  have nb: "\<not> broadcast c" using True by (simp add: partitioned_def)
  show ?thesis
  proof (cases "\<exists>r. fst (segmentForAck c a) = Some r \<and> owned \<in> set (s_delivered (seg c r))")
    case True
    then obtain r where r: "fst (segmentForAck c a) = Some r" "owned \<in> set (s_delivered (seg c r))" by blast
    have rl: "r < length (c_heap c)" using segmentForAck_less [OF assms(1) r(1)] .
    note d = placed_delivered [OF assms(2) \<open>partitioned c\<close> rl r(2)]
    have range: "in_range (s_part (seg c r)) (c_queues c)" using wf_part [OF assms(1) nb rl] .
    have "r \<notin> set (c_queues c ! nat (s_part (seg c r)))"
      using placed_disjoint(1) [OF assms(2) \<open>partitioned c\<close> nth_mem] d(1) range
      unfolding in_range_def by (metis nat_less_iff)
    then have "\<not> containsSegment (c_queues c ! nat (s_part (seg c r))) r"
      by (simp add: containsSegment_def list_ex_iff)
    then have "returned r c (nack1 now w owned a c)"
      using d nb rl range r by (simp add: returned_def nack1_eq nack_segment_def Let_def upd_queue_def)
    with placed_returned [OF assms d(1)] show ?thesis .
  next
    case False
    then have "nack1 now w owned a c = c" by (auto simp: nack1_def split: option.split)
    with assms(2) show ?thesis by simp
  qed
next
  case False
  then show ?thesis by (rule placed_trivial) simp
qed

subsection \<open>New segments\<close>

lemma unfinished_file:
  assumes "\<not> s_released s"
  shows "unfinished (file_segment s p c) = unfinished c @ [length (c_heap c)]"
proof -
  have "filter (\<lambda>r. \<not> s_released (seg (file_segment s p c) r)) [0..<length (c_heap c)] = unfinished c"
    unfolding unfinished_def by (rule filter_cong) simp_all
  then show ?thesis by (simp add: unfinished_def assms)
qed

definition fresh :: "segment \<Rightarrow> bool" where
  "fresh s \<longleftrightarrow> s_delivered s = [] \<and> s_acked s = [] \<and> \<not> s_lost s \<and> \<not> s_released s"

lemma seg_ok_file:
  assumes "wfc c" and "\<And>r. r < length (c_heap c) \<Longrightarrow> seg_ok c r" and "fresh s"
    and "map_of (c_all c) (key s) = None" and "r < length (c_heap (file_segment s p c))"
  shows "seg_ok (file_segment s p c) r"
proof (cases "r = length (c_heap c)")
  case True
  then have "r \<notin> snd ` set (c_inflight c)" using wf_refs(1) [OF assms(1)] by force
  then show ?thesis
    using assms(3) True by (simp add: seg_ok_def fresh_def file_segment_fields map_simps)
next
  case False
  then have r: "r < length (c_heap c)" using assms(5) by simp
  from assms(2) [OF r] show ?thesis
    using r assms(4) by (auto simp: seg_ok_def file_segment_fields map_simps)
qed

lemma mset_enqueue:
  assumes "wfc c" and "\<not> broadcast c" and "r < length (c_heap c)"
  shows "mset (concat (c_queues (enqueue r c))) = add_mset r (mset (concat (c_queues c)))"
proof -
  let ?p = "s_part (seg c r)"
  have range: "in_range ?p (c_queues c)" using wf_part [OF assms] .
  then have "nat ?p < length (c_queues c)" by (simp add: in_range_def nat_less_iff)
  from mset_concat_update [OF this, of "c_queues c ! nat ?p @ [r]"] show ?thesis
    using assms(2) range by (simp add: enqueue_def upd_queue_def)
qed

lemma placed_route:
  assumes wf: "wfc c" "wfc (file_segment s p c)" and pl: "placed c" and fr: "fresh s"
    and new: "map_of (c_all c) (key s) = None"
  shows "placed (route s c (length (c_heap c)) (file_segment s p c))" (is "placed (route s c ?r ?f)")
proof (rule placedI)
  have spec: "c_spec (route s c ?r ?f) = c_spec c" by (simp add: route_def)
  assume "partitioned (route s c ?r ?f)"
  then have part: "partitioned c" using spec by (simp add: partitioned_def broadcast_def external_def)
  then have nb: "\<not> broadcast ?f" by (simp add: partitioned_def)
  note D = placedD [OF pl part]
  have rl: "?r < length (c_heap ?f)" by simp
  have pf: "places ?f = places c" by (simp add: places_def)
  have ok: "seg_ok ?f x" if "x < length (c_heap ?f)" for x
    using seg_ok_file [OF wf(1) D(4) fr new that] .
  have uf: "unfinished ?f = unfinished c @ [?r]" using fr by (simp add: unfinished_file fresh_def)
  consider (beyond) "beyondBound c s" | (held) "\<not> beyondBound c s" "c_finiteEpochs c" "c_epoch c < s_epoch s"
    | (queue) "route s c ?r ?f = enqueue ?r ?f"
    unfolding route_def by (metis (full_types))
  then show "mset (places (route s c ?r ?f)) = mset (unfinished (route s c ?r ?f))"
  proof cases
    case beyond
    let ?g = "route s c ?r ?f"
    have "seg ?g x = (if x = ?r then (seg ?f ?r)\<lparr>s_released := True\<rparr> else seg ?f x)" for x
      using beyond by (simp add: route_def)
    then have "filter (\<lambda>x. \<not> s_released (seg ?g x)) [0..<?r] = unfinished c" "s_released (seg ?g ?r)"
      by (auto simp: unfinished_def intro!: filter_cong)
    then have "unfinished ?g = unfinished c" using beyond by (simp add: unfinished_def route_def)
    moreover have "places ?g = places c" using beyond by (simp add: route_def places_def)
    ultimately show ?thesis using D(1) by simp
  next
    case held
    then have "route s c ?r ?f = ?f\<lparr>c_held := c_held ?f @ [?r]\<rparr>" by (simp add: route_def)
    moreover have "unfinished (?f\<lparr>c_held := l\<rparr>) = unfinished ?f" for l by (rule unfinished_cong) simp_all
    ultimately show ?thesis using D(1) by (simp add: places_def uf)
  next
    case queue
    moreover have "unfinished (enqueue ?r ?f) = unfinished ?f" by (rule unfinished_cong) simp_all
    ultimately show ?thesis
      using D(1) mset_enqueue [OF wf(2) nb rl] by (simp add: places_def uf)
  qed
  show "seg_ok (route s c ?r ?f) x" if "x < length (c_heap (route s c ?r ?f))" for x
  proof -
    have "x < length (c_heap ?f)" using that by (auto simp: route_def split: if_splits)
    from ok [OF this] ok [OF rl] show ?thesis
      using fr by (auto simp: route_def seg_ok_def fresh_def)
  qed
qed

lemma placed_index:
  assumes "wfc c" and "placed c" and "fits c s" and "fresh s"
  shows "placed (fst (index s c))"
proof -
  note r = fits_range [OF wfD(1) [OF assms(1)] assms(3)]
  have n: "nat (index_partition c (index_name s)) < length (c_history c)"
    using r(1) by (simp add: in_range_def nat_less_iff)
  have "wfc (file_segment (index_name s) (nat (index_partition c (index_name s))) c)"
    by (rule wf_file [OF assms(1) n]) (use r(3) in \<open>simp add: index_name_def\<close>)
  moreover have "fresh (index_name s)" using assms(4) by (simp add: fresh_def index_name_def)
  ultimately show ?thesis
    using assms(1,2) by (simp add: index_eq [OF r(1,2)] Let_def placed_route)
qed

subsection \<open>Epochs and seals\<close>

text \<open>The fields \<open>placed\<close> reads.\<close>

lemma placed_cong:
  assumes "c_spec c' = c_spec c" "c_queues c' = c_queues c" "c_held c' = c_held c"
    "c_inflight c' = c_inflight c" "c_all c' = c_all c" "c_heap c' = c_heap c"
  shows "placed c' = placed c"
  using assms
  by (simp add: placed_def partitioned_def broadcast_def external_def places_def unfinished_def
      seg_ok_def seg_def)

lemma placed_other [simp]:
  "placed (c\<lparr>c_sealed := b\<rparr>) = placed c" "placed (c\<lparr>c_produced := i\<rparr>) = placed c"
  "placed (c\<lparr>c_overflowed := i\<rparr>) = placed c" "placed (c\<lparr>c_epoch := i\<rparr>) = placed c"
  "placed (c\<lparr>c_finiteEpochs := b\<rparr>) = placed c" "placed (c\<lparr>c_maxEpochs := i\<rparr>) = placed c"
  "placed (c\<lparr>c_productionClosed := s\<rparr>) = placed c" "placed (c\<lparr>c_rr := w\<rparr>) = placed c"
  "placed (c\<lparr>c_epochDone := ed\<rparr>) = placed c" "placed (c\<lparr>c_records := rs\<rparr>) = placed c"
  "placed (c\<lparr>c_cursor := cu\<rparr>) = placed c" "placed (c\<lparr>c_subscriptions := su\<rparr>) = placed c"
  "placed (c\<lparr>c_log := l\<rparr>) = placed c"
  by (rule placed_cong, simp_all)+

lemma placed_fold_enqueue:
  assumes "wfc c" and "\<not> broadcast c" and "set rs \<subseteq> {..<length (c_heap c)}"
  shows "mset (concat (c_queues (fold enqueue rs c))) = mset (concat (c_queues c)) + mset rs"
    "c_heap (fold enqueue rs c) = c_heap c" "c_spec (fold enqueue rs c) = c_spec c"
    "c_held (fold enqueue rs c) = c_held c" "c_inflight (fold enqueue rs c) = c_inflight c"
    "c_all (fold enqueue rs c) = c_all c"
proof -
  show "mset (concat (c_queues (fold enqueue rs c))) = mset (concat (c_queues c)) + mset rs"
    using assms
  proof (induction rs arbitrary: c)
    case (Cons r rs)
    then have "wfc (enqueue r c)" by (intro wf_enqueue) auto
    moreover have "\<not> broadcast (enqueue r c)" using Cons.prems(2) spec_reads [of "enqueue r c" c] by simp
    ultimately show ?case using Cons by (simp add: mset_enqueue)
  qed simp
qed (induction rs arbitrary: c, simp_all)+

lemma placed_advanceEpoch:
  assumes "wfc c" and "placed c"
  shows "placed (advanceEpoch c)"
proof -
  have *: "placed ((fold enqueue (filter P (c_held d)) d)\<lparr>c_held := filter (\<lambda>r. \<not> P r) (c_held d)\<rparr>)"
    (is "placed ?d") if "wfc d" "placed d" for d P
  proof (rule placedI)
    have sp: "c_spec ?d = c_spec d" by (simp add: fold_invariant [of _ "\<lambda>_. True" "\<lambda>x. c_spec x = c_spec d"])
    assume "partitioned ?d"
    then have part: "partitioned d" using sp by (simp add: partitioned_def broadcast_def external_def)
    then have nb: "\<not> broadcast d" by (simp add: partitioned_def)
    have "set (filter P (c_held d)) \<subseteq> {..<length (c_heap d)}" using wf_refs(4) [OF that(1)] by auto
    note F = placed_fold_enqueue [OF that(1) nb this]
    note D = placedD [OF that(2) part]
    have h: "c_heap ?d = c_heap d" using F(2) by simp
    have sg: "seg (fold enqueue (filter P (c_held d)) d) = seg d" using F(2) by (simp add: seg_def fun_eq_iff)
    have "mset (filter P (c_held d)) + mset (filter (\<lambda>r. \<not> P r) (c_held d)) = mset (c_held d)"
      by (metis mset_filter multiset_partition)
    then have "mset (places ?d) = mset (places d)"
      by (simp add: places_def F(1,5) flip: union_assoc)
    with D(1) show "mset (places ?d) = mset (unfinished ?d)" by (simp add: unfinished_def sg h del: mset_filter)
    show "seg_ok ?d x" if "x < length (c_heap ?d)" for x
      using D(4) [of x] that h by (simp add: seg_ok_def sg F(5,6))
  qed
  show ?thesis unfolding advanceEpoch_def Let_def by (rule *) (use assms in auto)
qed

text \<open>Sealing a synchronous feedback channel releases what it held for later epochs.\<close>

lemma seg_fold_release:
  "seg (fold (\<lambda>r. upd_seg r (\<lambda>s. s\<lparr>s_released := True\<rparr>)) rs c) x =
     (if x \<in> set rs \<and> x < length (c_heap c) then (seg c x)\<lparr>s_released := True\<rparr> else seg c x)"
  by (induction rs arbitrary: c) auto

lemma placed_seal_channel:
  assumes "wfc c" and "placed c"
  shows "placed (seal_channel c)"
proof (cases "synchronous c")
  case True
  let ?c = "seal_channel c"
  show ?thesis
  proof (rule placedI)
    assume "partitioned ?c"
    then have part: "partitioned c"
      using spec_frame(5) [of c] by (simp add: partitioned_def broadcast_def external_def)
    note D = placedD [OF assms(2) part]
    have sg: "seg ?c x = (if x \<in> set (c_held c) then (seg c x)\<lparr>s_released := True\<rparr> else seg c x)"
      if "x < length (c_heap c)" for x
      using True that by (simp add: seal_channel_def Let_def seg_fold_release)
    have f: "c_queues ?c = c_queues c" "c_held ?c = []" "c_inflight ?c = c_inflight c" "c_all ?c = c_all c"
      "length (c_heap ?c) = length (c_heap c)"
      using True by (simp_all add: seal_channel_def Let_def)
    have "unfinished ?c = filter (\<lambda>x. x \<notin> set (c_held c)) (unfinished c)"
      by (auto simp: unfinished_def f sg intro!: filter_cong split: if_splits)
    then have "mset (unfinished ?c) = filter_mset (\<lambda>x. x \<notin> set (c_held c)) (mset (places c))"
      using D(1) by simp
    also have "\<dots> = mset (filter (\<lambda>x. x \<notin> set (c_held c)) (places c))" by simp
    also have "filter (\<lambda>x. x \<notin> set (c_held c)) (places c) = places ?c"
    proof -
      have "filter (\<lambda>x. x \<notin> set (c_held c)) (concat (c_queues c)) = concat (c_queues c)"
        "filter (\<lambda>x. x \<notin> set (c_held c)) (c_held c) = []"
        "filter (\<lambda>x. x \<notin> set (c_held c)) (map snd (c_inflight c)) = map snd (c_inflight c)"
        using placed_disjoint [OF assms(2) part] by (auto simp: filter_id_conv rev_image_eqI)
      then show ?thesis by (simp only: places_def f filter_append append_Nil)
    qed
    finally show "mset (places ?c) = mset (unfinished ?c)" by simp
    show "seg_ok ?c x" if x: "x < length (c_heap ?c)" for x
      using D(4) [of x] x sg [of x] by (auto simp: seg_ok_def f)
  qed
next
  case False
  then show ?thesis using assms(2) by (simp add: seal_channel_def)
qed

subsection \<open>Loops over segments\<close>

lemma placed_lose_channel:
  assumes "wfc c" and "placed c"
  shows "placed (lose_channel w c)"
proof -
  let ?f = "\<lambda>(k :: string, r) c1. let s = seg c1 r in
    if s_producer s \<noteq> w \<or> s_durable s \<or> s_released s \<or> s_lost s then c1 else markLost r c1"
  have "wfc (fold ?f xs d) \<and> placed (fold ?f xs d)"
    if "\<forall>x \<in> set xs. snd x < length (c_heap d)" "wfc d" "placed d" for xs d
    using that
  proof (induction xs arbitrary: d)
    case (Cons x xs)
    obtain k r where x: "x = (k, r)" by force
    have "wfc (?f x d) \<and> placed (?f x d) \<and> length (c_heap (?f x d)) = length (c_heap d)"
      using Cons.prems x by (auto simp: Let_def wf_markLost placed_markLost)
    with Cons.IH [of "?f x d"] Cons.prems show ?case by simp
  qed simp
  moreover have "\<forall>x \<in> set (c_all c). snd x < length (c_heap c)" using wf_refs(2) [OF assms(1)] by auto
  ultimately show ?thesis using assms unfolding lose_channel_def by blast
qed

lemma placed_return_fold:
  assumes "wfc (fst st)" and "placed (fst st)" and "distinct (map fst xs)"
    and "\<And>k r. (k, r) \<in> set xs \<Longrightarrow> (k, r) \<in> set (c_inflight (fst st))"
  shows "placed (fst (fold (return_segment w everything) xs st))"
  using assms
proof (induction xs arbitrary: st)
  case (Cons x xs)
  obtain k r where x: "x = (k, r)" by force
  obtain c d where st: "st = (c, d)" by force
  have i: "(k, r) \<in> set (c_inflight c)" using Cons.prems(4) x st by auto
  show ?case
  proof (cases "find_delivery w everything d (seg c r)")
    case None
    then show ?thesis using Cons x st by (simp add: return_segment_eq)
  next
    case (Some d')
    let ?c = "give_back d' k r c"
    have "wfc ?c" using Cons.prems(1) wf_refs(1) [OF _ i] st by (intro wf_give_back) auto
    moreover have "placed ?c"
      using Cons.prems i st find_delivery_in [OF Some] by (intro placed_give_back) auto
    moreover have "(k', r') \<in> set (c_inflight ?c)" if "(k', r') \<in> set xs" for k' r'
    proof -
      have "k' \<noteq> k" using that Cons.prems(3) x by (auto simp: rev_image_eqI)
      moreover have "(k', r') \<in> set (c_inflight c)" using that Cons.prems(4) st by auto
      ultimately show ?thesis by (auto simp: give_back_def Let_def set_delete_iff)
    qed
    ultimately show ?thesis
      using Cons.IH [of "(?c, d')"] Cons.prems(3) x st Some by (simp add: return_segment_eq)
  qed
qed simp

lemma placed_return_channel:
  assumes "wfc c" and "placed c"
  shows "placed (return_channel opName w inc everything c)"
proof -
  let ?c1 = "c\<lparr>c_subscriptions := map_vals (return_subscription opName w inc everything) (c_subscriptions c)\<rparr>"
  let ?c2 = "?c1\<lparr>c_cursor := AList.delete w (c_cursor c), c_epochDone := AList.delete w (c_epochDone c)\<rparr>"
  have "wfc ?c1" using wf_return_subs [OF assms(1)] .
  then have "wfc ?c2" by (simp add: wf_cursor_del)
  then have "placed (fst (fold (return_segment w everything) (c_inflight ?c2) (?c2, deliveryKey w inc)))"
    using assms wf_keys(4) [OF assms(1)] by (intro placed_return_fold) auto
  then show ?thesis using assms(2) by (simp add: return_channel_def Let_def)
qed

lemma placed_consume_queue:
  assumes "wfc c" and "placed c" and "p < length (c_queues c)" and "c_queues c ! p = q"
  shows "placed (snd (consume_queue now dk limit n p q segs c))"
  using assms
proof (induction q arbitrary: segs c)
  case (Cons r q)
  let ?c1 = "upd_queue (int p) (\<lambda>_. q) c"
  let ?c2 = "deliver dk r ?c1"
  have p: "in_range (int p) (c_queues c)" using Cons.prems by (simp add: in_range_def)
  have "wfc ?c1" using Cons.prems p by (intro wf_queue_subset) auto
  moreover have "r < length (c_heap c)"
    using wf_refs(6) [OF Cons.prems(1) nth_mem [OF Cons.prems(3)]] Cons.prems(4) by simp
  ultimately have "wfc ?c2" by (intro wf_deliver) auto
  moreover have "placed ?c2" using placed_take [OF Cons.prems] .
  moreover have "c_queues ?c2 = (c_queues c)[p := q]"
    by (simp add: deliver_def upd_queue_in_range [OF p])
  ultimately show ?case
    using Cons.IH [of ?c2] Cons.prems by (simp add: Let_def)
qed simp

lemma placed_consume_partitions:
  assumes "wfc c" and "placed c" and "\<And>p. p \<in> set ps \<Longrightarrow> p < length (c_queues c)"
  shows "placed (fst (snd (consume_partitions now dk limit ps n work c o1)))"
  using assms
proof (induction ps arbitrary: n work c o1)
  case (Cons p ps)
  obtain segs c1 where c1: "consume_queue now dk limit n p (c_queues c ! p) [] c = (segs, c1)" by force
  have p: "in_range (int p) (c_queues c)" using Cons.prems(3) by (simp add: in_range_def)
  have "wfc c1 \<and> length (c_queues c1) = length (c_queues c)" "placed c1"
    using wf_consume_queue [OF Cons.prems(1), of p "c_queues c ! p" now dk limit n "[]"]
      placed_consume_queue [OF Cons.prems(1,2), of p "c_queues c ! p" now dk limit n "[]"] Cons.prems(3) c1
    by simp_all
  with p show ?case using Cons.prems by (simp add: c1 Cons.IH)
qed simp

lemma spec_consume_log [simp]: "c_spec (snd (consume_log now w dk ck limit rs segs c)) = c_spec c"
  by (induction now w dk ck limit rs segs c rule: consume_log.induct) (simp_all add: Let_def)

lemma placed_consume_work:
  assumes "wfc c" and "placed c"
  shows "placed (fst (snd (consume_work now w dk p limit c o1)))"
proof -
  have "placed (snd (consume_log now w dk (cohortKey p) limit rs [] c))" if "broadcast c" for rs
    using that by (intro placed_trivial [of c]) (simp_all add: partitioned_def)
  moreover have "placed (fst (snd (consume_partitions now dk limit (fst (assigned c o1 w)) 0 [] c o2)))" for o2
    using wfD(1) [OF assms(1)] assms
    by (intro placed_consume_partitions) (auto simp: sized_def dest: assigned_less)
  ultimately show ?thesis using assms by (simp add: consume_work_def split_def Let_def)
qed

subsection \<open>The remaining operations\<close>

lemma placed_forget_channel:
  assumes "wfc c" and "placed c"
  shows "placed (forget_channel w c)"
proof (rule placedI)
  let ?c = "forget_channel w c"
  assume "partitioned ?c"
  then have part: "partitioned c" by (simp add: forget_channel_def)
  note D = placedD [OF assms(2) part]
  have f: "places ?c = places c" "length (c_heap ?c) = length (c_heap c)" "seg ?c = seg c"
    "c_inflight ?c = c_inflight c"
    by (simp_all add: forget_channel_def places_def)
  have "unfinished ?c = unfinished c" by (rule unfinished_cong) (simp_all add: f)
  with D(1) f show "mset (places ?c) = mset (unfinished ?c)" by simp
  have all: "map_of (c_all ?c) k = Some r" if "map_of (c_all c) k = Some r" "\<not> s_released (seg c r)" for k r
  proof -
    have "(k, r) \<in> set (c_all ?c)"
      using that map_of_SomeD [OF that(1)] by (simp add: forget_channel_def deletable_def Let_def)
    then show ?thesis
      using distinct_map_filter [OF wf_keys(5) [OF assms(1)]] by (simp add: forget_channel_def)
  qed
  show "seg_ok ?c x" if "x < length (c_heap ?c)" for x
    using D(4) [of x] that all by (auto simp: seg_ok_def f)
qed

lemma spec_releaseBroadcast [simp]: "c_spec (releaseBroadcast o1 c) = c_spec c"
proof -
  have "c_spec (fold (\<lambda>(_, r) c1. if P c1 r then release r c1 else c1) xs c') = c_spec c'"
    for P c' and xs :: "(string \<times> sref) list"
    by (induction xs arbitrary: c') auto
  then show ?thesis by (simp add: releaseBroadcast_def)
qed

lemma placed_releaseBroadcast: "placed c \<Longrightarrow> placed (releaseBroadcast o1 c)"
proof (cases "broadcast c")
  case True
  then show ?thesis by (intro placed_trivial [of c]) (simp_all add: partitioned_def)
qed (simp add: releaseBroadcast_def)

lemma spec_delete_before [simp]: "c_spec (delete_before q c) = c_spec c"
  by (simp add: delete_before_def Let_def)

lemma placed_delete_all: "external c \<Longrightarrow> placed (fold delete_before qs c)"
proof -
  assume "external c"
  moreover have "c_spec (fold delete_before qs c) = c_spec c" by (induction qs arbitrary: c) simp_all
  ultimately show ?thesis by (intro placed_trivial [of c]) (simp_all add: partitioned_def)
qed

lemma placed_new_channel: "placed (new_channel s)"
  by (simp add: placed_def places_def unfinished_def new_channel_def Let_def)

lemma placed_mark_channel [simp]: "placed (mark_channel cs c) = placed c"
  by (simp add: mark_channel_def Let_def)

lemma placed_respec:
  assumes "placed c" and "ch_partitioning s = ch_partitioning (c_spec c)" and "ch_to s = ch_to (c_spec c)"
  shows "placed (c\<lparr>c_spec := s\<rparr>)"
proof -
  have "partitioned (c\<lparr>c_spec := s\<rparr>) = partitioned c"
    using assms by (simp add: partitioned_def broadcast_def external_def)
  moreover have "unfinished (c\<lparr>c_spec := s\<rparr>) = unfinished c" by (rule unfinished_cong) simp_all
  ultimately show ?thesis using assms(1) by (simp add: placed_def places_def seg_ok_def)
qed

lemma announced_fits:
  "announce_check name c anns b = Inr b' \<Longrightarrow> a \<in> set anns \<Longrightarrow> a_id a \<noteq> ''''
   \<Longrightarrow> map_of (c_appendIDs c) (ann_appendID a) = None \<Longrightarrow> fits c (announced name opName from a)"
  by (induction name c anns b rule: announce_check.induct)
    (auto simp: fits_def announced_def split: if_splits option.splits)

lemma fresh_new [simp]:
  "fresh (announced name opName from a)" "fresh (produced_segment name sid h k rs)"
  "fresh (batch_segment name sid h batch)"
  by (simp_all add: fresh_def announced_def produced_segment_def batch_segment_def)

end
