(* ===== verification/Accounting.thy ===== *)
theory Accounting
  imports Placement
begin

text \<open>
  The counters of a channel add up: what was produced is what is not finished with, plus what
  was acknowledged, plus what was lost. The equation is for channels with one consumer per
  segment that are not synchronous feedback channels, whose seal drops records without counting
  them. By \<open>placed\<close> the unfinished records are the pending, held and in-flight records the
  coordinator reports.
\<close>

definition tally :: "channel \<Rightarrow> int" where
  "tally c = (\<Sum>r \<leftarrow> unfinished c. s_records (seg c r))"

definition balanced :: "channel \<Rightarrow> bool" where
  "balanced c \<longleftrightarrow> (partitioned c \<and> \<not> synchronous c \<longrightarrow>
     c_produced c = tally c + c_acknowledged c + c_lost c)"

lemma tally_cong:
  assumes "length (c_heap c') = length (c_heap c)"
    and "\<And>r. r < length (c_heap c) \<Longrightarrow>
      s_released (seg c' r) = s_released (seg c r) \<and> s_records (seg c' r) = s_records (seg c r)"
  shows "tally c' = tally c"
proof -
  have u: "unfinished c' = unfinished c" by (rule unfinished_cong) (use assms in auto)
  show ?thesis unfolding tally_def u
    by (rule arg_cong [of _ _ sum_list], rule map_cong) (use assms(2) in auto)
qed

lemma balanced_cong:
  assumes "c_spec c' = c_spec c" "c_produced c' = c_produced c" "c_acknowledged c' = c_acknowledged c"
    "c_lost c' = c_lost c" "tally c' = tally c"
  shows "balanced c' = balanced c"
  using assms spec_reads [OF assms(1)] by (simp add: balanced_def partitioned_def)

lemma balanced_trivial: "\<not> partitioned c \<or> synchronous c \<Longrightarrow> c_spec c' = c_spec c \<Longrightarrow> balanced c'"
  using spec_reads [of c' c] by (auto simp: balanced_def partitioned_def)

text \<open>Most operations leave the counters and the finished segments alone.\<close>

definition steady :: "channel \<Rightarrow> channel \<Rightarrow> bool" where
  "steady c c' \<longleftrightarrow> c_spec c' = c_spec c \<and> c_produced c' = c_produced c
     \<and> c_acknowledged c' = c_acknowledged c \<and> c_lost c' = c_lost c
     \<and> length (c_heap c') = length (c_heap c)
     \<and> (\<forall>r. s_released (seg c' r) = s_released (seg c r) \<and> s_records (seg c' r) = s_records (seg c r))"

lemma steady_refl [simp]: "steady c c"
  by (simp add: steady_def)

lemma steady_trans: "steady a b \<Longrightarrow> steady b c \<Longrightarrow> steady a c"
  by (simp add: steady_def)

lemma steady_balanced: "steady c c' \<Longrightarrow> balanced c \<Longrightarrow> balanced c'"
  unfolding steady_def by (metis balanced_cong tally_cong)

lemma fold_steady: "(\<And>x c'. steady c' (f x c')) \<Longrightarrow> steady c (fold f xs c)"
  by (induction xs arbitrary: c) (auto intro: steady_trans)

lemma steady_simps [simp]:
  "steady c (c\<lparr>c_overflowed := i\<rparr>)" "steady c (c\<lparr>c_cursor := cu\<rparr>)" "steady c (c\<lparr>c_epochDone := ed\<rparr>)"
  "steady c (c\<lparr>c_subscriptions := su\<rparr>)" "steady c (c\<lparr>c_rr := rw\<rparr>)" "steady c (c\<lparr>c_all := m\<rparr>)"
  "steady c (c\<lparr>c_productionClosed := s\<rparr>)" "steady c (c\<lparr>c_panic := b\<rparr>)"
  "steady c (upd_queue p f c)" "steady c (enqueue r c)" "steady c (deliver dk r c)"
  "steady c (give_back d k r c)" "steady c (forget_channel w c)" "steady c (enter_channel w c)"
  by (simp_all add: steady_def enqueue_def deliver_def give_back_def Let_def forget_channel_def
      enter_channel_def)

lemma steady_nack1: "steady c (nack1 now w owned a c)"
proof -
  have n: "steady c (nack_segment now owned a r c)" for r
    by (simp add: steady_def nack_segment_def Let_def)
  have "steady c ((nack_segment now owned a r c)\<lparr>c_cursor := cu\<rparr>)"
    "steady c ((nack_segment now owned a r c)\<lparr>c_panic := b\<rparr>)"
    "steady c (upd_queue p f (nack_segment now owned a r c))" for r cu b p f
    using steady_trans [OF n [of r]] by auto
  with n show ?thesis by (simp add: nack1_eq Let_def split: option.split)
qed

lemma steady_return_segment: "steady (fst st) (fst (return_segment w everything kr st))"
  by (cases st; cases kr) (simp add: return_segment_eq split: option.split)

lemma steady_return_channel: "steady c (return_channel opName w inc everything c)"
proof -
  have *: "steady (fst st) (fst (fold (return_segment w everything) xs st))" for xs st
  proof (induction xs arbitrary: st)
    case (Cons x xs)
    show ?case using steady_trans [OF steady_return_segment Cons] by simp
  qed simp
  let ?c1 = "c\<lparr>c_subscriptions := map_vals (return_subscription opName w inc everything) (c_subscriptions c)\<rparr>"
  let ?c2 = "?c1\<lparr>c_cursor := AList.delete w (c_cursor c), c_epochDone := AList.delete w (c_epochDone c)\<rparr>"
  have "steady c ?c2" by (simp add: steady_def)
  moreover have "steady ?c2 (fst (fold (return_segment w everything) (c_inflight ?c2) (?c2, deliveryKey w inc)))"
    using * [of "(?c2, deliveryKey w inc)"] by simp
  ultimately show ?thesis by (auto simp: return_channel_def Let_def intro: steady_trans)
qed

lemma steady_consume_log: "steady c (snd (consume_log now w dk ck limit rs segs c))"
proof (induction rs arbitrary: segs c)
  case (Cons r rs)
  let ?c1 = "c\<lparr>c_cursor := AList.update w (Suc (map_get 0 (c_cursor c) w)) (c_cursor c)\<rparr>"
  have s: "steady c ?c1" "steady c (deliver dk r ?c1)"
    using steady_trans [of c ?c1 "deliver dk r ?c1"] by simp_all
  show ?case using steady_trans [OF s(1) Cons.IH] steady_trans [OF s(2) Cons.IH] by (simp add: Let_def)
qed simp

lemma steady_consume_queue: "steady c (snd (consume_queue now dk limit n p q segs c))"
proof (induction q arbitrary: segs c)
  case (Cons r q)
  let ?c1 = "upd_queue (int p) (\<lambda>_. q) c"
  have "steady c (deliver dk r ?c1)" using steady_trans [of c ?c1 "deliver dk r ?c1"] by simp
  from steady_trans [OF this Cons.IH] show ?case by (simp add: Let_def)
qed simp

lemma steady_consume_partitions: "steady c (fst (snd (consume_partitions now dk limit ps n work c o1)))"
proof (induction ps arbitrary: n work c o1)
  case (Cons p ps)
  have "steady c (c\<lparr>c_panic := True\<rparr>)" by (simp add: steady_def)
  then show ?case
    using steady_trans [OF steady_consume_queue Cons.IH] by (simp add: split_def Let_def)
qed simp

lemma steady_consume_work: "steady c (fst (snd (consume_work now w dk p limit c o1)))"
  by (simp add: consume_work_def split_def Let_def steady_consume_log steady_consume_partitions)

subsection \<open>Operations that move records between the counters\<close>

lemma tally_release:
  assumes "length (c_heap c') = length (c_heap c)" and "r < length (c_heap c)" and "\<not> s_released (seg c r)"
    and "\<And>x. x \<noteq> r \<Longrightarrow> s_released (seg c' x) = s_released (seg c x) \<and> s_records (seg c' x) = s_records (seg c x)"
    and "s_released (seg c' r)"
  shows "tally c' = tally c - s_records (seg c r)"
proof -
  have u: "unfinished c' = filter (\<lambda>x. x \<noteq> r) (unfinished c)"
  proof -
    have "(\<not> s_released (seg c' x)) = (\<not> s_released (seg c x) \<and> x \<noteq> r)" for x
      using assms(4) [of x] assms(5) by (cases "x = r") auto
    then show ?thesis by (simp add: unfinished_def assms(1) conj_commute)
  qed
  have r: "r \<in> set (unfinished c)" using assms by simp
  have "(\<Sum>x \<leftarrow> unfinished c'. s_records (seg c' x)) = (\<Sum>x \<leftarrow> unfinished c'. s_records (seg c x))"
    by (rule arg_cong [of _ _ sum_list], rule map_cong) (use assms(4) u in auto)
  also have "\<dots> = tally c - s_records (seg c r)"
  proof -
    have "(\<Sum>x \<leftarrow> xs. g x) = (\<Sum>x \<leftarrow> filter (\<lambda>x. x \<noteq> r) xs. g x) + g r"
      if "distinct xs" "r \<in> set xs" for xs and g :: "nat \<Rightarrow> int"
      using that
    proof (induction xs)
      case (Cons x xs)
      have "filter (\<lambda>y. y \<noteq> x) xs = xs" using Cons.prems by (auto simp: filter_id_conv)
      with Cons show ?case by auto
    qed simp
    from this [OF distinct_unfinished r, of "\<lambda>x. s_records (seg c x)"] show ?thesis
      by (simp add: tally_def u)
  qed
  finally show ?thesis by (simp add: tally_def)
qed

lemma balanced_markLost:
  assumes "balanced c" and "r < length (c_heap c)" and "\<not> s_released (seg c r)"
  shows "balanced (markLost r c)"
proof -
  have "tally (markLost r c) = tally c - s_records (seg c r)"
    by (rule tally_release) (use assms in \<open>simp_all add: markLost_def Let_def\<close>)
  moreover have "c_produced (markLost r c) = c_produced c" "c_acknowledged (markLost r c) = c_acknowledged c"
    "c_lost (markLost r c) = c_lost c + s_records (seg c r)"
    by (simp_all add: markLost_def Let_def)
  ultimately show ?thesis
    using assms(1) spec_reads [of "markLost r c" c] by (simp add: balanced_def partitioned_def)
qed

lemma balanced_lose_channel:
  assumes "wfc c" and "balanced c"
  shows "balanced (lose_channel w c)"
proof -
  let ?f = "\<lambda>(k :: string, r) c1. let s = seg c1 r in
    if s_producer s \<noteq> w \<or> s_durable s \<or> s_released s \<or> s_lost s then c1 else markLost r c1"
  have "balanced (fold ?f xs d)"
    if "\<forall>x \<in> set xs. snd x < length (c_heap d)" "balanced d" for xs d
    using that
  proof (induction xs arbitrary: d)
    case (Cons x xs)
    obtain k r where x: "x = (k, r)" by force
    have "balanced (?f x d) \<and> length (c_heap (?f x d)) = length (c_heap d)"
      using Cons.prems x by (auto simp: Let_def balanced_markLost)
    with Cons.IH [of "?f x d"] Cons.prems show ?case by simp
  qed simp
  moreover have "\<forall>x \<in> set (c_all c). snd x < length (c_heap c)" using wf_refs(2) [OF assms(1)] by auto
  ultimately show ?thesis using assms(2) unfolding lose_channel_def by blast
qed

lemma balanced_ack1:
  assumes "wfc c" and "placed c" and "balanced c"
  shows "balanced (ack1 p pods w inc a c)"
proof (cases "partitioned c")
  case True
  show ?thesis
  proof (rule ack1_cases [of p pods w inc a c])
    fix r owned b
    assume a: "fst (segmentForAck c a) = Some r" "owned \<in> set (s_delivered (seg c r))"
      "ack1 p pods w inc a c = settle_ack owned b r c"
    have r: "r < length (c_heap c)" using segmentForAck_less [OF assms(1) a(1)] .
    note d = placed_delivered [OF assms(2) True r a(2)]
    have nb: "\<not> broadcast c" using True by (simp add: partitioned_def)
    have na: "s_acked (seg c r) = []" using placedD(4) [OF assms(2) True r] d(3) by (simp add: seg_ok_def)
    have t: "tally (settle_ack owned b r c) = tally c - s_records (seg c r)"
      by (rule tally_release) (use r d nb in \<open>simp_all add: settle_ack_def Let_def release_def\<close>)
    have "c_acknowledged (settle_ack owned b r c) = c_acknowledged c + s_records (seg c r)"
      "c_produced (settle_ack owned b r c) = c_produced c" "c_lost (settle_ack owned b r c) = c_lost c"
      using na nb by (simp_all add: settle_ack_def Let_def release_def)
    with t assms(3) show ?thesis
      unfolding a(3) using spec_reads [of "settle_ack owned b r c" c] by (simp add: balanced_def partitioned_def)
  qed (simp add: assms(3))
next
  case False
  then show ?thesis by (intro balanced_trivial [of c]) simp_all
qed

lemma tally_file:
  assumes "\<not> s_released s"
  shows "tally (file_segment s p c) = tally c + s_records s"
proof -
  have "(\<Sum>r \<leftarrow> unfinished c. s_records (seg (file_segment s p c) r)) = tally c"
    unfolding tally_def by (rule arg_cong [of _ _ sum_list], rule map_cong) auto
  then show ?thesis using assms by (simp add: tally_def unfinished_file)
qed

lemma balanced_route:
  assumes "balanced c" and "\<not> s_released s"
  shows "balanced (route s c (length (c_heap c)) (file_segment s p c))" (is "balanced (route s c ?r ?f)")
proof -
  have f: "balanced ?f"
    using assms by (simp add: balanced_def tally_file)
  show ?thesis
  proof (cases "beyondBound c s")
    case True
    let ?g = "route s c ?r ?f"
    have "tally ?g = tally ?f - s_records (seg ?f ?r)"
      by (rule tally_release) (use True assms in \<open>simp_all add: route_def\<close>)
    moreover have "c_produced ?g = c_produced ?f - s_records s" "c_spec ?g = c_spec ?f"
      "c_acknowledged ?g = c_acknowledged ?f" "c_lost ?g = c_lost ?f"
      using True by (simp_all add: route_def)
    ultimately show ?thesis
      using f spec_reads [of ?g ?f] by (auto simp: balanced_def partitioned_def)
  next
    case False
    then have "steady ?f (route s c ?r ?f)" by (simp add: route_def steady_def)
    with f show ?thesis by (rule steady_balanced [rotated])
  qed
qed

lemma balanced_index:
  assumes "wfc c" and "balanced c" and "fits c s" and "fresh s"
  shows "balanced (fst (index s c))"
proof -
  note r = fits_range [OF wfD(1) [OF assms(1)] assms(3)]
  have "\<not> s_released (index_name s)" using assms(4) by (simp add: fresh_def index_name_def)
  then show ?thesis using assms(2) by (simp add: index_eq [OF r(1,2)] Let_def balanced_route)
qed

lemma balanced_seal_channel: "balanced c \<Longrightarrow> balanced (seal_channel c)"
proof (cases "synchronous c")
  case True
  then show ?thesis by (intro balanced_trivial [of c]) simp_all
next
  case False
  assume "balanced c"
  moreover have "steady c (seal_channel c)" using False by (simp add: seal_channel_def steady_def)
  ultimately show ?thesis by (rule steady_balanced [rotated])
qed

lemma steady_advanceEpoch: "steady c (advanceEpoch c)"
proof -
  have "steady c ((fold enqueue rs d)\<lparr>c_held := l\<rparr>)" if "steady c d" for rs d l
  proof -
    have "steady d (fold enqueue rs d)" by (rule fold_steady) simp
    then have "steady c (fold enqueue rs d)" using that steady_trans by blast
    then show ?thesis by (simp add: steady_def)
  qed
  then show ?thesis by (simp add: advanceEpoch_def Let_def steady_def)
qed

lemma balanced_releaseBroadcast: "balanced c \<Longrightarrow> balanced (releaseBroadcast o1 c)"
proof (cases "broadcast c")
  case True
  then show ?thesis by (intro balanced_trivial [of c]) (simp_all add: partitioned_def)
qed (simp add: releaseBroadcast_def)

lemma balanced_delete_all: "external c \<Longrightarrow> balanced (fold delete_before qs c)"
proof -
  assume "external c"
  moreover have "c_spec (fold delete_before qs c) = c_spec c" by (induction qs arbitrary: c) simp_all
  ultimately show ?thesis by (intro balanced_trivial [of c]) (simp_all add: partitioned_def)
qed

lemma balanced_new_channel: "balanced (new_channel s)"
  by (simp add: balanced_def tally_def unfinished_def new_channel_def Let_def)

lemma steady_mark_channel: "steady c (mark_channel cs c)"
  by (simp add: steady_def mark_channel_def Let_def)

lemma balanced_respec:
  assumes "balanced c" and "ch_partitioning s = ch_partitioning (c_spec c)"
    and "ch_to s = ch_to (c_spec c)" and "ch_feedback s = ch_feedback (c_spec c)"
  shows "balanced (c\<lparr>c_spec := s\<rparr>)"
proof -
  have "partitioned (c\<lparr>c_spec := s\<rparr>) = partitioned c" "synchronous (c\<lparr>c_spec := s\<rparr>) = synchronous c"
    using assms by (simp_all add: partitioned_def broadcast_def external_def synchronous_def feedbackMode_def)
  moreover have "tally (c\<lparr>c_spec := s\<rparr>) = tally c" by (rule tally_cong) simp_all
  ultimately show ?thesis using assms(1) by (simp add: balanced_def)
qed

subsection \<open>What the coordinator reports\<close>

lemma tally_reported:
  assumes "placed c" and "partitioned c"
  shows "tally c = pending c + heldRecords c + inflightRecords c"
proof -
  let ?g = "\<lambda>r. s_records (seg c r)"
  have nb: "\<not> broadcast c" using assms(2) by (simp add: partitioned_def)
  have "tally c = (\<Sum>r \<leftarrow> places c. ?g r)"
  proof -
    have "sum_mset (mset (map ?g (unfinished c))) = sum_mset (mset (map ?g (places c)))"
      by (simp only: mset_map placedD(1) [OF assms])
    then show ?thesis by (simp only: tally_def sum_mset_sum_list)
  qed
  also have "\<dots> = (\<Sum>r \<leftarrow> concat (c_queues c). ?g r) + (\<Sum>r \<leftarrow> c_held c. ?g r) + (\<Sum>r \<leftarrow> map snd (c_inflight c). ?g r)"
    by (simp add: places_def)
  also have "(\<Sum>r \<leftarrow> concat (c_queues c). ?g r) = pending c"
  proof -
    have "(\<Sum>r \<leftarrow> concat qs. ?g r) = (\<Sum>q \<leftarrow> qs. \<Sum>r \<leftarrow> q. ?g r)" for qs by (induction qs) simp_all
    then show ?thesis using nb by (simp add: pending_def pendingByPartition_def)
  qed
  also have "(\<Sum>r \<leftarrow> map snd (c_inflight c). ?g r) = inflightRecords c"
    using nb by (simp add: inflightRecords_def comp_def split_def)
  finally show ?thesis by (simp add: heldRecords_def)
qed

end
