(* ===== verification/Barrier.thy ===== *)
theory Barrier
  imports Accounting
begin

text \<open>
  The barrier between epochs. On a channel of a finite-epoch component the segments of later
  epochs are held back: everything within reach of a consumer (queued, in the broadcast log, or
  in flight) belongs to the current epoch or an earlier one, and everything held belongs to a
  later one. An epoch advances only through \<^verbatim>\<open>advanceEpoch\<close>, which releases the next epoch.
\<close>

definition reach :: "channel \<Rightarrow> sref set" where
  "reach c = \<Union> (set ` set (c_queues c)) \<union> snd ` set (c_inflight c) \<union> set (c_log c)"

definition epochs_ok :: "channel \<Rightarrow> bool" where
  "epochs_ok c \<longleftrightarrow> (\<not> external c \<and> c_finiteEpochs c \<longrightarrow>
     0 \<le> c_epoch c \<and> (\<forall>r \<in> reach c. s_epoch (seg c r) \<le> c_epoch c)
     \<and> (\<forall>r \<in> set (c_held c). c_epoch c < s_epoch (seg c r)))"

text \<open>
  Most operations move segments around without bringing any new one within reach. The base
  channel \<open>b\<close> is the one a loop started from.
\<close>

definition within :: "channel \<Rightarrow> channel \<Rightarrow> bool" where
  "within b c \<longleftrightarrow> c_spec c = c_spec b \<and> c_epoch c = c_epoch b \<and> c_finiteEpochs c = c_finiteEpochs b
     \<and> (\<forall>r. s_epoch (seg c r) = s_epoch (seg b r)) \<and> reach c \<subseteq> reach b
     \<and> set (c_held c) \<subseteq> set (c_held b)"

lemma within_refl [simp]: "within c c"
  by (simp add: within_def)

lemma within_trans: "within a b \<Longrightarrow> within b c \<Longrightarrow> within a c"
  unfolding within_def by auto

lemma within_epochs: "within c c' \<Longrightarrow> epochs_ok c \<Longrightarrow> epochs_ok c'"
  unfolding within_def epochs_ok_def external_def by auto

lemma fold_within:
  "(\<And>x c. x \<in> set xs \<Longrightarrow> within b c \<Longrightarrow> within b (f x c)) \<Longrightarrow> within b c \<Longrightarrow> within b (fold f xs c)"
  by (induction xs arbitrary: c) auto

lemma withinD:
  assumes "within b c"
  shows "snd ` set (c_inflight c) \<subseteq> reach b" "q \<in> set (c_queues c) \<Longrightarrow> set q \<subseteq> reach b"
    "set (c_log c) \<subseteq> reach b" "set (c_held c) \<subseteq> set (c_held b)"
  using assms unfolding within_def reach_def [of c] by blast+

lemma within_upd_seg: "keeps f \<Longrightarrow> within b c \<Longrightarrow> within b (upd_seg r f c)"
  by (simp add: within_def reach_def keeps_def)

lemma within_inflight:
  "within b c \<Longrightarrow> snd ` set m \<subseteq> reach b \<Longrightarrow> within b (c\<lparr>c_inflight := m\<rparr>)"
  by (auto simp: within_def reach_def)

lemma snd_delete_subset: "snd ` set (AList.delete k m) \<subseteq> snd ` set m"
  by (auto simp: set_delete_iff)

lemma within_inflight_del:
  "within b c \<Longrightarrow> c_inflight c = m \<Longrightarrow> within b (c\<lparr>c_inflight := AList.delete k m\<rparr>)"
  using snd_delete_subset [of k m] withinD(1) [of b c] by (intro within_inflight) blast+

lemma within_upd_queue:
  assumes "within b c" and "\<And>q. set (f q) \<subseteq> set q \<union> reach b"
  shows "within b (upd_queue p f c)"
proof (cases "in_range p (c_queues c)")
  case True
  have "set x \<subseteq> reach b" if "x \<in> set ((c_queues c)[nat p := f (c_queues c ! nat p)])" for x
  proof -
    have "c_queues c ! nat p \<in> set (c_queues c)" using True by (simp add: in_range_def nat_less_iff)
    then have "set (c_queues c ! nat p) \<subseteq> reach b" "\<And>y. y \<in> set (c_queues c) \<Longrightarrow> set y \<subseteq> reach b"
      using withinD(2) [OF assms(1)] by blast+
    with assms(2) [of "c_queues c ! nat p"] show ?thesis
      using that by (auto dest!: subsetD [OF set_update_subset_insert])
  qed
  then show ?thesis
    using assms(1) True unfolding upd_queue_in_range [OF True] by (auto simp: within_def reach_def)
next
  case False
  then show ?thesis using assms(1) by (simp add: upd_queue_def within_def reach_def)
qed

lemma within_simps [simp]:
  "within b (c\<lparr>c_overflowed := i\<rparr>) = within b c" "within b (c\<lparr>c_cursor := cu\<rparr>) = within b c"
  "within b (c\<lparr>c_epochDone := ed\<rparr>) = within b c" "within b (c\<lparr>c_subscriptions := su\<rparr>) = within b c"
  "within b (c\<lparr>c_rr := rw\<rparr>) = within b c" "within b (c\<lparr>c_all := m\<rparr>) = within b c"
  "within b (c\<lparr>c_productionClosed := s\<rparr>) = within b c" "within b (c\<lparr>c_lost := i\<rparr>) = within b c"
  "within b (c\<lparr>c_acknowledged := i\<rparr>) = within b c" "within b (c\<lparr>c_panic := pa\<rparr>) = within b c"
  "within b (c\<lparr>c_latestDeliveryFailure := t\<rparr>) = within b c" "within b (c\<lparr>c_sealed := pa\<rparr>) = within b c"
  "within b (c\<lparr>c_records := rs\<rparr>) = within b c" "within b (c\<lparr>c_produced := i\<rparr>) = within b c"
  "within b (c\<lparr>c_appendIDs := ai\<rparr>) = within b c" "within b (c\<lparr>c_history := hi\<rparr>) = within b c"
  "within b (c\<lparr>c_historyBase := hb\<rparr>) = within b c"
  by (simp_all add: within_def reach_def)

lemma within_held: "within b c \<Longrightarrow> set l \<subseteq> set (c_held b) \<Longrightarrow> within b (c\<lparr>c_held := l\<rparr>)"
  by (auto simp: within_def reach_def)

lemma within_markLost: "within b c \<Longrightarrow> within b (markLost r c)"
proof -
  assume w: "within b c"
  define c1 where "c1 = upd_seg r (\<lambda>x. x\<lparr>s_lost := True, s_released := True, s_delivered := []\<rparr>)
    (c\<lparr>c_lost := c_lost c + s_records (seg c r),
       c_inflight := AList.delete (key (seg c r)) (c_inflight c)\<rparr>)"
  define c2 where "c2 = (if broadcast c1 then c1 else upd_queue (s_part (seg c r)) (\<lambda>q. removeSegment q r) c1)"
  have 1: "within b c1" unfolding c1_def using w by (intro within_upd_seg within_inflight_del) simp_all
  then have 2: "within b c2" by (auto simp: c2_def intro!: within_upd_queue)
  then have "within b (c2\<lparr>c_held := removeSegment (c_held c2) r\<rparr>)"
    by (intro within_held) (auto simp: within_def)
  then show ?thesis by (simp only: markLost_def Let_def c1_def c2_def)
qed

lemma within_lose_channel: "within c (lose_channel w c)"
  unfolding lose_channel_def by (rule fold_within) (auto simp: Let_def within_markLost)

lemma within_release: "within b c \<Longrightarrow> within b (release r c)"
  by (simp add: release_def Let_def within_upd_seg)

lemma within_releaseBroadcast: "within c (releaseBroadcast o1 c)"
  unfolding releaseBroadcast_def by (auto intro!: fold_within simp: within_release)

lemma within_seal_channel: "within c (seal_channel c)"
proof -
  let ?c1 = "c\<lparr>c_sealed := True, c_productionClosed := set_add (c_epoch c) (c_productionClosed c)\<rparr>"
  have "within c (fold (\<lambda>r. upd_seg r (\<lambda>s. s\<lparr>s_released := True\<rparr>)) (c_held ?c1) ?c1)"
    by (rule fold_within) (simp_all add: within_upd_seg)
  then show ?thesis by (auto simp: seal_channel_def Let_def intro: within_held)
qed

lemma within_give_back:
  assumes "within b c" and "r \<in> reach b"
  shows "within b (give_back d k r c)"
proof -
  define c1 where "c1 = upd_seg r (\<lambda>x. x\<lparr>s_delivered := set_del d (s_delivered x)\<rparr>) c"
  have 1: "within b c1" using assms(1) by (simp add: c1_def within_upd_seg)
  then have 2: "within b (c1\<lparr>c_inflight := AList.delete k (c_inflight c1)\<rparr>)" by (simp add: within_inflight_del)
  then have "within b (upd_queue p (\<lambda>q. r # q) (c1\<lparr>c_inflight := AList.delete k (c_inflight c1)\<rparr>))" for p
    using assms(2) by (intro within_upd_queue) auto
  with 1 2 show ?thesis by (simp add: give_back_def Let_def c1_def)
qed

lemma within_return_channel: "within c (return_channel opName w inc everything c)"
proof -
  let ?c2 = "c\<lparr>c_subscriptions := map_vals (return_subscription opName w inc everything) (c_subscriptions c),
    c_cursor := AList.delete w (c_cursor c), c_epochDone := AList.delete w (c_epochDone c)\<rparr>"
  have "within c (fst (fold (return_segment w everything) xs st))"
    if "within c (fst st)" "snd ` set xs \<subseteq> reach c" for xs st
    using that
  proof (induction xs arbitrary: st)
    case (Cons x xs)
    have "within c (fst (return_segment w everything x st))"
      using Cons.prems by (cases st; cases x) (auto simp: return_segment_eq within_give_back split: option.split)
    with Cons show ?case by simp
  qed simp
  from this [of "(?c2, deliveryKey w inc)" "c_inflight c"]
  have "within c (fst (fold (return_segment w everything) (c_inflight c) (?c2, deliveryKey w inc)))"
    by (simp add: reach_def le_supI1)
  then show ?thesis by (simp add: return_channel_def Let_def)
qed

lemma within_deliver:
  assumes "within b c" and "r \<in> reach b"
  shows "within b (deliver dk r c)"
proof -
  have "snd ` set (AList.update (key (seg c r)) r (c_inflight c)) \<subseteq> reach b"
    using order_trans [OF snd_set_update insert_subsetI [OF assms(2) withinD(1) [OF assms(1)]]] .
  then show ?thesis using assms(1) by (simp add: deliver_def within_inflight within_upd_seg)
qed

lemma within_consume_log:
  "within b c \<Longrightarrow> set rs \<subseteq> reach b \<Longrightarrow> within b (snd (consume_log now w dk ck limit rs segs c))"
  by (induction rs arbitrary: segs c) (simp_all add: Let_def within_deliver)

lemma within_consume_queue:
  "within b c \<Longrightarrow> set q \<subseteq> reach b \<Longrightarrow> within b (snd (consume_queue now dk limit n p q segs c))"
proof (induction q arbitrary: segs c)
  case (Cons r q)
  then have "within b (deliver dk r (upd_queue (int p) (\<lambda>_. q) c))"
    by (intro within_deliver within_upd_queue) auto
  with Cons show ?case by (simp add: Let_def)
qed simp

lemma within_consume_partitions:
  "within b c \<Longrightarrow> within b (fst (snd (consume_partitions now dk limit ps n work c o1)))"
proof (induction ps arbitrary: n work c o1)
  case (Cons p ps)
  have "within b (snd (consume_queue now dk limit n p (c_queues c ! p) [] c))" if "in_range (int p) (c_queues c)"
  proof (rule within_consume_queue [OF Cons.prems])
    have "c_queues c ! p \<in> set (c_queues c)" using that by (simp add: in_range_def)
    then show "set (c_queues c ! p) \<subseteq> reach b" using withinD(2) [OF Cons.prems] by blast
  qed
  with Cons show ?case by (simp add: split_def Let_def)
qed simp

lemma within_consume_work: "within c (fst (snd (consume_work now w dk p limit c o1)))"
proof -
  have "set (drop n (c_log c)) \<subseteq> reach c" for n
    using order_trans [OF set_drop_subset withinD(3) [OF within_refl]] .
  then show ?thesis
    by (simp add: consume_work_def split_def Let_def within_consume_log within_consume_partitions)
qed

lemma within_settle_ack: "within b c \<Longrightarrow> within b (settle_ack owned a r c)"
proof -
  assume w: "within b c"
  define c2 where "c2 = upd_seg r (\<lambda>x. x\<lparr>s_delivered := set_del owned (s_delivered x),
      s_retryAfter := AList.delete owned (s_retryAfter x), s_acked := set_add a (s_acked x)\<rparr>)
    (if a \<in> set (s_acked (seg c r)) then c else c\<lparr>c_acknowledged := c_acknowledged c + s_records (seg c r)\<rparr>)"
  have "within b c2" using w by (simp add: c2_def within_upd_seg)
  then show ?thesis
    unfolding settle_ack_def Let_def c2_def [symmetric] by (simp add: within_release within_inflight_del)
qed

lemma within_ack1: "within c (ack1 p pods w inc a c)"
  by (rule ack1_cases [of p pods w inc a c]) (simp_all add: within_settle_ack)

lemma within_nack1:
  assumes "wfc c" and "placed c" and "\<not> external c"
  shows "within c (nack1 now w owned a c)"
proof -
  have 3: "within c (nack_segment now owned a r c)" for r
    by (simp add: nack_segment_def Let_def within_inflight_del within_upd_seg)
  have "within c (upd_queue (s_part (seg c r)) (\<lambda>q. r # q) (nack_segment now owned a r c))"
    if "fst (segmentForAck c a) = Some r" "owned \<in> set (s_delivered (seg c r))" "\<not> broadcast c" for r
  proof -
    have "partitioned c" using assms(3) that(3) by (simp add: partitioned_def)
    then have "r \<in> reach c"
      using placed_delivered(1) [OF assms(2) _ segmentForAck_less [OF assms(1) that(1)] that(2)]
      by (auto simp: reach_def)
    with 3 show ?thesis by (intro within_upd_queue) auto
  qed
  with 3 show ?thesis by (simp add: nack1_eq Let_def split: option.split)
qed

subsection \<open>Bringing segments within reach\<close>

lemma reach_enqueue:
  "reach (enqueue r c) \<subseteq> insert r (reach c)" "c_held (enqueue r c) = c_held c"
proof -
  have *: "within (c\<lparr>c_log := r # c_log c\<rparr>) (enqueue r c)"
  proof (cases "broadcast c")
    case True
    then show ?thesis by (auto simp: enqueue_def within_def reach_def)
  next
    case False
    have "within (c\<lparr>c_log := r # c_log c\<rparr>) c" by (auto simp: within_def reach_def)
    then show ?thesis
      using False by (auto simp: enqueue_def reach_def intro!: within_upd_queue)
  qed
  then show "reach (enqueue r c) \<subseteq> insert r (reach c)" by (auto simp: within_def reach_def)
qed simp

lemma epochs_add:
  assumes "epochs_ok c" and "c_spec c' = c_spec c" "c_epoch c' = c_epoch c"
    "c_finiteEpochs c' = c_finiteEpochs c" "seg c' = seg c" "c_held c' = c_held c"
    and "reach c' \<subseteq> insert r (reach c)" and "c_finiteEpochs c \<Longrightarrow> s_epoch (seg c r) \<le> c_epoch c"
  shows "epochs_ok c'"
  using assms unfolding epochs_ok_def external_def by auto

lemma epochs_route:
  assumes "wfc c" and "epochs_ok c"
  shows "epochs_ok (route s c (length (c_heap c)) (file_segment s p c))" (is "epochs_ok (route s c ?r ?f)")
proof -
  have new: "s_epoch (seg ?f ?r) = s_epoch s" by simp
  have reach: "reach ?f = reach c" by (simp add: reach_def)
  have old: "r < length (c_heap c)" if "r \<in> reach c \<or> r \<in> set (c_held c)" for r
    using that by (intro wf_ref [OF assms(1)]) (auto simp: reach_def all_refs_def)
  have f: "epochs_ok ?f"
    using assms(2) old by (auto simp: epochs_ok_def reach)
  show ?thesis
  proof (cases "beyondBound c s")
    case True
    then have "within ?f (route s c ?r ?f)" by (simp add: route_def within_upd_seg)
    then show ?thesis using f by (rule within_epochs)
  next
    case False
    show ?thesis
    proof (cases "c_finiteEpochs c \<and> c_epoch c < s_epoch s")
      case True
      then show ?thesis
        using f False new by (simp add: route_def epochs_ok_def reach_def external_def ball_Un)
    next
      case q: False
      then have "epochs_ok (enqueue ?r ?f)"
        by (intro epochs_add [OF f, where r = ?r] reach_enqueue(1)) auto
      with q False show ?thesis by (auto simp: route_def)
    qed
  qed
qed

lemma epochs_index:
  assumes "wfc c" and "epochs_ok c" and "fits c s"
  shows "epochs_ok (fst (index s c))"
  using assms fits_range [OF wfD(1) [OF assms(1)] assms(3)]
  by (simp add: index_eq Let_def epochs_route)

lemma epochs_advanceEpoch:
  assumes "wfc c" and "epochs_ok c" and "c_epoch c < 2 ^ 31 - 1"
  shows "epochs_ok (advanceEpoch c)"
proof -
  have fe: "reach (fold enqueue rs d) \<subseteq> set rs \<union> reach d \<and> c_epoch (fold enqueue rs d) = c_epoch d
      \<and> c_finiteEpochs (fold enqueue rs d) = c_finiteEpochs d \<and> c_spec (fold enqueue rs d) = c_spec d
      \<and> seg (fold enqueue rs d) = seg d" for rs d
  proof (induction rs arbitrary: d)
    case (Cons r rs)
    show ?case using Cons.IH [of "enqueue r d"] reach_enqueue(1) [of r d] by auto
  qed simp
  define d where "d = (let c1 = c\<lparr>c_epoch := wrap32 (c_epoch c + 1)\<rparr> in
    if c_sealed c1 then c1\<lparr>c_productionClosed := set_add (c_epoch c1) (c_productionClosed c1)\<rparr> else c1)"
  have d: "reach d = reach c" "c_held d = c_held c" "seg d = seg c" "c_spec d = c_spec c"
    "c_finiteEpochs d = c_finiteEpochs c" "c_epoch d = wrap32 (c_epoch c + 1)"
    by (simp_all add: d_def Let_def reach_def)
  have e: "wrap32 (c_epoch c + 1) = c_epoch c + 1" if "0 \<le> c_epoch c"
    using that assms(3) by (simp add: wrap32_id)
  let ?rs = "filter (\<lambda>r. s_epoch (seg d r) = c_epoch d) (c_held d)"
  let ?c = "(fold enqueue ?rs d)\<lparr>c_held := filter (\<lambda>r. s_epoch (seg d r) \<noteq> c_epoch d) (c_held d)\<rparr>"
  have r: "reach ?c \<subseteq> set ?rs \<union> reach c" using fe [of ?rs d] d(1) by (auto simp: reach_def)
  have "epochs_ok ?c"
    unfolding epochs_ok_def
  proof (intro impI conjI ballI)
    assume "\<not> external ?c \<and> c_finiteEpochs ?c"
    then have pre: "\<not> external c \<and> c_finiteEpochs c" using fe [of ?rs d] d by (simp add: external_def)
    then have c: "0 \<le> c_epoch c" using assms(2) by (simp add: epochs_ok_def)
    have ep: "c_epoch ?c = c_epoch c + 1" "c_epoch d = c_epoch c + 1" using fe [of ?rs d] d e [OF c] by simp_all
    show "0 \<le> c_epoch ?c" using c ep by simp
    show "s_epoch (seg ?c x) \<le> c_epoch ?c" if "x \<in> reach ?c" for x
      using that r assms(2) pre ep fe [of ?rs d] d by (force simp: epochs_ok_def)
    show "c_epoch ?c < s_epoch (seg ?c x)" if "x \<in> set (c_held ?c)" for x
      using that assms(2) pre ep fe [of ?rs d] d by (force simp: epochs_ok_def)
  qed
  then show ?thesis unfolding advanceEpoch_def Let_def d_def by simp
qed

lemma epochs_new_channel: "epochs_ok (new_channel s)"
  by (simp add: epochs_ok_def reach_def new_channel_def Let_def)

lemma epochs_mark_channel:
  "epochs_ok c \<Longrightarrow> c_finiteEpochs (mark_channel cs c) = c_finiteEpochs c \<Longrightarrow> epochs_ok (mark_channel cs c)"
  by (simp add: epochs_ok_def mark_channel_def Let_def reach_def)

lemma epochs_respec: "epochs_ok c \<Longrightarrow> ch_to s = ch_to (c_spec c) \<Longrightarrow> epochs_ok (c\<lparr>c_spec := s\<rparr>)"
  by (simp add: epochs_ok_def reach_def external_def)

end
