(* ===== verification/Processes.thy ===== *)
theory Processes
  imports Reporting "HOL-Library.Multiset"
begin

text \<open>
  The invariant of one operation's registry, and that every handler's update of it keeps it.

  Cohort slots: every slot number handed out so far belongs to exactly one live pod or is free.
  Incarnations: the process that is active for a pod has never been replaced. Ownership: a pinned
  partition has an owner.
\<close>

definition slots_ok :: "operation \<Rightarrow> bool" where
  "slots_ok o1 \<longleftrightarrow>
     mset (map (\<lambda>(_, p). p_cohortSlot p) (o_pods o1) @ o_freeCohortSlots o1) = mset [0..<o_nextCohortSlot o1]"

definition fenced :: "operation \<Rightarrow> bool" where
  "fenced o1 \<longleftrightarrow> (\<forall>(w, p) \<in> set (o_pods o1).
     p_incarnation p \<noteq> '''' \<longrightarrow> p_incarnation p \<notin> set (map_get [] (o_retired o1) w))"

definition op_ok :: "operation \<Rightarrow> bool" where
  "op_ok o1 \<longleftrightarrow> distinct (map fst (o_pods o1)) \<and> distinct (map fst (o_owner o1))
     \<and> (\<forall>(w, p) \<in> set (o_pods o1). p_name p = w)
     \<and> slots_ok o1 \<and> fenced o1 \<and> pinned_owned o1"

lemma op_ok_new: "op_ok new_operation"
  by (simp add: op_ok_def new_operation_def slots_ok_def fenced_def pinned_owned_def)

text \<open>Updates of fields the invariant does not mention.\<close>

lemma op_ok_other [simp]:
  "op_ok (o1\<lparr>o_epochDone := m\<rparr>) = op_ok o1" "op_ok (o1\<lparr>o_replicas := i\<rparr>) = op_ok o1"
  "op_ok (o1\<lparr>o_completed := b\<rparr>) = op_ok o1"
  by (simp_all add: op_ok_def slots_ok_def fenced_def pinned_owned_def)

lemma op_ok_mark_epoch: "op_ok o1 \<Longrightarrow> op_ok (mark_epoch_op w ep o1)"
  by (simp add: mark_epoch_op_def)

subsection \<open>One pod\<close>

lemma map_fst_set_pod [simp]: "map fst (o_pods (set_pod w f o1)) = map fst (o_pods o1)"
  by (simp add: set_pod_def)

lemma map_of_set_pod:
  "map_of (o_pods (set_pod w f o1)) k = (if k = w then map_option f (map_of (o_pods o1) w) else map_of (o_pods o1) k)"
proof -
  have "map_of (map (\<lambda>(k', p). (k', if k' = w then f p else p)) ps) k =
      (if k = w then map_option f (map_of ps w) else map_of ps k)" for ps
    by (induction ps) auto
  then show ?thesis by (simp add: set_pod_def)
qed

lemma slots_set_pod:
  assumes "\<And>p. p_cohortSlot (f p) = p_cohortSlot p"
  shows "map (\<lambda>(_, p). p_cohortSlot p) (o_pods (set_pod w f o1)) = map (\<lambda>(_, p). p_cohortSlot p) (o_pods o1)"
  using assms by (auto simp: set_pod_def)

lemma set_pod_frame [simp]:
  "o_owner (set_pod w f o1) = o_owner o1" "o_pinned (set_pod w f o1) = o_pinned o1"
  "o_retired (set_pod w f o1) = o_retired o1" "o_freeCohortSlots (set_pod w f o1) = o_freeCohortSlots o1"
  "o_nextCohortSlot (set_pod w f o1) = o_nextCohortSlot o1"
  by (simp_all add: set_pod_def)

lemma set_pod_mem:
  "(k, q) \<in> set (o_pods (set_pod w f o1)) \<longleftrightarrow> (\<exists>p. (k, p) \<in> set (o_pods o1) \<and> q = (if k = w then f p else p))"
  by (force simp: set_pod_def image_iff)

text \<open>
  \<open>unfenced_ok\<close> is the invariant without its clause on incarnations, which a registration breaks
  and restores.
\<close>

definition unfenced_ok :: "operation \<Rightarrow> bool" where
  "unfenced_ok o1 \<longleftrightarrow> distinct (map fst (o_pods o1)) \<and> distinct (map fst (o_owner o1))
     \<and> (\<forall>(w, p) \<in> set (o_pods o1). p_name p = w) \<and> slots_ok o1 \<and> pinned_owned o1"

lemma op_ok_unfenced: "op_ok o1 \<longleftrightarrow> unfenced_ok o1 \<and> fenced o1"
  by (auto simp: op_ok_def unfenced_ok_def)

lemma unfenced_set_pod:
  assumes "unfenced_ok o1" and "\<And>p. p_cohortSlot (f p) = p_cohortSlot p" "\<And>p. p_name (f p) = p_name p"
  shows "unfenced_ok (set_pod w f o1)"
proof -
  have "slots_ok (set_pod w f o1) = slots_ok o1" using slots_set_pod [OF assms(2)] by (simp add: slots_ok_def)
  moreover have "p_name q = k" if "(k, q) \<in> set (o_pods (set_pod w f o1))" for k q
    using that assms(1,3) by (auto simp: set_pod_mem unfenced_ok_def)
  ultimately show ?thesis using assms(1) by (auto simp: unfenced_ok_def pinned_owned_def)
qed

lemma fenced_set_pod:
  assumes "\<And>p. (w, p) \<in> set (o_pods o1) \<Longrightarrow> p_incarnation (f p) \<noteq> [] \<Longrightarrow>
      p_incarnation (f p) \<notin> set (map_get [] (o_retired o1) w)"
    and "\<And>k p. (k, p) \<in> set (o_pods o1) \<Longrightarrow> k \<noteq> w \<Longrightarrow> p_incarnation p \<noteq> [] \<Longrightarrow>
      p_incarnation p \<notin> set (map_get [] (o_retired o1) k)"
  shows "fenced (set_pod w f o1)"
  unfolding fenced_def
proof (clarify)
  fix k q assume "(k, q) \<in> set (o_pods (set_pod w f o1))"
  then obtain p where p: "(k, p) \<in> set (o_pods o1)" "q = (if k = w then f p else p)" by (auto simp: set_pod_mem)
  assume "p_incarnation q \<noteq> []" "p_incarnation q \<in> set (map_get [] (o_retired (set_pod w f o1)) k)"
  with p assms show False by (cases "k = w") auto
qed

lemma fencedD:
  "fenced o1 \<Longrightarrow> (k, p) \<in> set (o_pods o1) \<Longrightarrow> p_incarnation p \<noteq> []
   \<Longrightarrow> p_incarnation p \<notin> set (map_get [] (o_retired o1) k)"
  by (auto simp: fenced_def)

lemma op_ok_set_pod:
  assumes "op_ok o1"
    and "\<And>p. p_cohortSlot (f p) = p_cohortSlot p \<and> p_name (f p) = p_name p \<and> p_incarnation (f p) = p_incarnation p"
  shows "op_ok (set_pod w f o1)"
  using assms fencedD [of o1] unfolding op_ok_unfenced
  by (auto intro!: unfenced_set_pod fenced_set_pod)

text \<open>A pod replaced by one of the same name and slot, and a pod on a slot of its own.\<close>

lemma mset_map_update:
  "map_of m k = Some p \<Longrightarrow> distinct (map fst m) \<Longrightarrow> g v = g p
   \<Longrightarrow> image_mset (\<lambda>(_, p). g p) (mset (AList.update k v m)) = image_mset (\<lambda>(_, p). g p) (mset m)"
  by (induction m) (auto split: if_splits)

lemma mset_map_update_new:
  "k \<notin> fst ` set m \<Longrightarrow> image_mset (\<lambda>(_, p). g p) (mset (AList.update k v m)) = add_mset (g v) (image_mset (\<lambda>(_, p). g p) (mset m))"
  by (induction m) auto

lemma mset_map_delete:
  "map_of m k = Some p \<Longrightarrow> distinct (map fst m)
   \<Longrightarrow> add_mset (g p) (image_mset (\<lambda>(_, p). g p) (mset (AList.delete k m))) = image_mset (\<lambda>(_, p). g p) (mset m)"
proof (induction m)
  case (Cons x m)
  show ?case
  proof (cases "fst x = k")
    case True
    then have "AList.delete k m = m" using Cons.prems by (auto simp: AList.delete_eq filter_id_conv rev_image_eqI)
    then show ?thesis using True Cons.prems by (simp add: AList.delete_eq split_def)
  next
    case False
    then have "AList.delete k (x # m) = x # AList.delete k m" by (simp add: AList.delete_eq split_def)
    moreover have "map_of m k = Some p" using Cons.prems False by (cases x) auto
    ultimately show ?thesis using Cons by (simp add: split_def)
  qed
qed simp

lemma op_ok_put_pod:
  assumes "op_ok o1" and "slots_ok (o1\<lparr>o_pods := AList.update w p (o_pods o1)\<rparr>)" and "p_name p = w"
    and "p_incarnation p \<noteq> '''' \<Longrightarrow> p_incarnation p \<notin> set (map_get [] (o_retired o1) w)"
  shows "op_ok (o1\<lparr>o_pods := AList.update w p (o_pods o1)\<rparr>)"
  using assms
  by (auto simp: op_ok_def fenced_def pinned_owned_def set_update_iff split: if_splits)

lemma map_of_op_ok:
  assumes "op_ok o1" and "map_of (o_pods o1) w = Some p"
  shows "p_name p = w" "p_incarnation p \<noteq> '''' \<Longrightarrow> p_incarnation p \<notin> set (map_get [] (o_retired o1) w)"
  using assms map_of_SomeD [OF assms(2)] by (auto simp: op_ok_def fenced_def)

lemma op_ok_touch:
  assumes "op_ok o1"
  shows "op_ok (touch_op now opName w addr slots o1)"
proof (cases "map_of (o_pods o1) w")
  case (Some p)
  define p2 where "p2 = (let p1 = (if addr \<noteq> [] then p\<lparr>p_addr := addr\<rparr> else p) in
    (if 0 < slots then p1\<lparr>p_slots := slots\<rparr> else p1)\<lparr>p_lastSeen := now\<rparr>)"
  have p2: "p_name p2 = p_name p" "p_incarnation p2 = p_incarnation p" "p_cohortSlot p2 = p_cohortSlot p"
    by (simp_all add: p2_def Let_def)
  have d: "distinct (map fst (o_pods o1))" using assms by (simp add: op_ok_def)
  have "op_ok (o1\<lparr>o_pods := AList.update w p2 (o_pods o1)\<rparr>)"
  proof (rule op_ok_put_pod [OF assms])
    show "slots_ok (o1\<lparr>o_pods := AList.update w p2 (o_pods o1)\<rparr>)"
      using assms mset_map_update [OF Some d, of p_cohortSlot p2] p2 by (simp add: op_ok_def slots_ok_def)
  qed (use map_of_op_ok [OF assms Some] p2 in simp_all)
  then show ?thesis by (simp add: touch_op_def Some Let_def p2_def)
next
  case None
  have new: "w \<notin> fst ` set (o_pods o1)" using None by (simp add: map_of_eq_None_iff)
  have put: "op_ok (o2\<lparr>o_pods := AList.update w p (o_pods o2)\<rparr>)"
    if "op_ok (o2\<lparr>o_nextCohortSlot := n, o_freeCohortSlots := fr\<rparr>)"
      "mset (p_cohortSlot p # map (\<lambda>(_, p). p_cohortSlot p) (o_pods o2) @ o_freeCohortSlots o2) = mset [0..<o_nextCohortSlot o2]"
      "p_name p = w" "p_incarnation p = ''''" "o_pods o2 = o_pods o1" for o2 p n fr
    using that new
    by (auto simp: op_ok_def slots_ok_def fenced_def pinned_owned_def set_update_iff mset_map_update_new
        split: if_splits)
  show ?thesis
  proof (cases "o_freeCohortSlots o1")
    case Nil
    let ?p = "\<lparr>p_name = w, p_op = opName, p_addr = addr, p_slots = if 0 < slots then slots else 0,
      p_lastSeen = now, p_done = False, p_incarnation = '''', p_cohortSlot = o_nextCohortSlot o1\<rparr>"
    let ?o2 = "o1\<lparr>o_nextCohortSlot := Suc (o_nextCohortSlot o1)\<rparr>"
    have "op_ok (?o2\<lparr>o_pods := AList.update w ?p (o_pods ?o2)\<rparr>)"
      by (rule put [where n = "o_nextCohortSlot o1" and fr = "[]"])
        (use assms Nil in \<open>auto simp: op_ok_def slots_ok_def fenced_def pinned_owned_def\<close>)
    then show ?thesis by (auto simp: touch_op_def None Nil Let_def split: if_splits)
  next
    case (Cons s rest)
    let ?p = "\<lparr>p_name = w, p_op = opName, p_addr = addr, p_slots = if 0 < slots then slots else 0,
      p_lastSeen = now, p_done = False, p_incarnation = '''', p_cohortSlot = s\<rparr>"
    let ?o2 = "o1\<lparr>o_freeCohortSlots := rest\<rparr>"
    have "op_ok (?o2\<lparr>o_pods := AList.update w ?p (o_pods ?o2)\<rparr>)"
      by (rule put [where n = "o_nextCohortSlot o1" and fr = "s # rest"])
        (use assms Cons in \<open>auto simp: op_ok_def slots_ok_def fenced_def pinned_owned_def\<close>)
    then show ?thesis by (auto simp: touch_op_def None Cons Let_def split: if_splits)
  qed
qed

lemma op_ok_drop_pod:
  assumes "op_ok o1"
  shows "op_ok (drop_pod w o1)"
proof (cases "map_of (o_pods o1) w")
  case (Some p)
  have d: "distinct (map fst (o_pods o1))" using assms by (simp add: op_ok_def)
  have "slots_ok (drop_pod w o1)"
    using assms mset_map_delete [OF Some d, of p_cohortSlot]
    by (simp add: slots_ok_def op_ok_def drop_pod_def Some flip: add_mset_add_single)
      (metis add_mset_add_single union_assoc union_commute)
  then show ?thesis
    using assms by (auto simp: op_ok_def drop_pod_def Some fenced_def pinned_owned_def set_delete_iff)
qed (simp add: drop_pod_def assms)

subsection \<open>Ownership\<close>

lemma map_of_filter_val:
  "distinct (map fst m) \<Longrightarrow> map_of (filter (\<lambda>(_, v). P v) m) k =
     (case map_of m k of None \<Rightarrow> None | Some v \<Rightarrow> if P v then Some v else None)"
proof (induction m)
  case (Cons x m)
  have "map_of m (fst x) = None" using Cons.prems by (simp add: map_of_eq_None_iff)
  with Cons show ?case by (cases x) (auto split: option.split)
qed simp

lemma distinct_filter_fst: "distinct (map fst m) \<Longrightarrow> distinct (map fst (filter Q m))"
  by (induction m) auto

lemma op_ok_return:
  assumes "op_ok o1"
  shows "op_ok (return_op w o1)"
proof -
  have d: "distinct (map fst (o_owner o1))" and p: "pinned_owned o1" using assms by (auto simp: op_ok_def)
  have "map_of (o_owner (return_op w o1)) k \<noteq> None" if "k \<in> set (o_pinned (return_op w o1))" for k
    using that p by (auto simp: return_op_def map_of_filter_val [OF d] pinned_owned_def split: option.splits)
  then have "pinned_owned (return_op w o1)" by (auto simp: pinned_owned_def)
  then show ?thesis
    using assms by (simp add: op_ok_def return_op_def slots_ok_def fenced_def distinct_filter_fst)
qed

lemma distinct_owner_balanceHash:
  assumes "distinct (map fst (o_owner o1))"
  shows "distinct (map fst (o_owner (balanceHash o1 n)))"
proof (cases "liveIDs o1 = []")
  case True
  then show ?thesis using assms by (simp add: balanceHash_def)
next
  case False
  have "distinct (map fst (fold (put_owner n) cs own))" if "distinct (map fst own)" for cs own
    using that by (induction cs arbitrary: own) (auto simp: put_owner_def split: prod.split)
  moreover have "distinct (map fst (o_owner (drop_dead (liveIDs o1) n [0..<n] o1)))"
    using assms by (simp add: drop_dead_def Let_def distinct_filter_fst)
  ultimately show ?thesis using False by (simp add: balanceHash_choices)
qed

lemma op_ok_balanceHash: "op_ok o1 \<Longrightarrow> op_ok (balanceHash o1 n)"
  by (simp add: op_ok_def slots_ok_def fenced_def distinct_owner_balanceHash pinned_owned_balanceHash)

lemma op_ok_assigned: "op_ok o1 \<Longrightarrow> op_ok (snd (assigned c o1 w))"
  by (simp add: assigned_def Let_def op_ok_balanceHash)

lemma assigned_owner:
  assumes "p_mode (ch_partitioning (c_spec c)) = PartitionHash" and "w \<noteq> ''''"
    and "p \<in> set (fst (assigned c o1 w))"
  shows "map_of (o_owner (snd (assigned c o1 w))) (ownerKey (nat (partitions c)) p) = Some w"
  using assms by (auto simp: assigned_def Let_def map_get_def split: option.splits)

lemma op_ok_pin:
  "op_ok o1 \<Longrightarrow> map_of (o_owner o1) k \<noteq> None \<Longrightarrow> op_ok (o1\<lparr>o_pinned := set_add k (o_pinned o1)\<rparr>)"
  by (auto simp: op_ok_def slots_ok_def fenced_def pinned_owned_def)

lemma spec_consume_queue [simp]: "c_spec (snd (consume_queue now dk limit n p q segs c)) = c_spec c"
proof (induction q arbitrary: segs c)
  case (Cons r q)
  have "c_spec (deliver dk r (upd_queue (int p) (\<lambda>_. q) c)) = c_spec c"
    by (simp add: deliver_def upd_queue_def upd_seg_def)
  with Cons show ?case by (simp add: Let_def)
qed simp

lemma op_ok_consume_partitions:
  assumes "op_ok o1"
    and "p_mode (ch_partitioning (c_spec c)) = PartitionHash \<Longrightarrow>
      \<forall>p \<in> set ps. map_of (o_owner o1) (ownerKey (nat (partitions c)) p) \<noteq> None"
  shows "op_ok (snd (snd (consume_partitions now dk limit ps n work c o1)))"
  using assms
proof (induction ps arbitrary: n work c o1)
  case (Cons p ps)
  obtain segs c1 where c1: "consume_queue now dk limit n p (c_queues c ! p) [] c = (segs, c1)" by force
  have "c_spec c1 = c_spec c" using spec_consume_queue [of now dk limit n p "c_queues c ! p" "[]" c] c1 by simp
  then have same: "partitions c1 = partitions c" by (simp add: partitions_def)
  let ?o = "o1\<lparr>o_pinned := set_add (ownerKey (nat (partitions c)) p) (o_pinned o1)\<rparr>"
  have "op_ok ?o" if "p_mode (ch_partitioning (c_spec c)) = PartitionHash"
    using Cons.prems that by (intro op_ok_pin) auto
  then show ?case
    using Cons.prems Cons.IH [of o1 c1] Cons.IH [of ?o c1] \<open>c_spec c1 = c_spec c\<close> same by (simp add: c1)
qed simp

lemma op_ok_consume_work:
  assumes "op_ok o1" and "w \<noteq> ''''"
  shows "op_ok (snd (snd (consume_work now w dk p limit c o1)))"
proof -
  have "op_ok (snd (snd (consume_partitions now dk limit (fst (assigned c o1 w)) 0 [] c (snd (assigned c o1 w)))))"
    using assms assigned_owner [OF _ assms(2)] by (intro op_ok_consume_partitions op_ok_assigned) auto
  then show ?thesis using assms(1) by (simp add: consume_work_def split_def Let_def)
qed

subsection \<open>Registration\<close>

text \<open>A process that takes over a pod: its predecessor is retired in the same step.\<close>

lemma op_ok_replace:
  assumes "op_ok o1" and "map_of (o_pods o1) w = Some p" and "p_incarnation p \<noteq> inc"
    and "inc \<noteq> [] \<Longrightarrow> inc \<notin> set (map_get [] (o_retired o1) w)"
  shows "op_ok (restart_op w inc (return_op w (retire_op w p o1)))"
proof -
  let ?o = "return_op w (retire_op w p o1)"
  let ?f = "\<lambda>p. p\<lparr>p_done := False, p_incarnation := inc\<rparr>"
  have pods: "o_pods ?o = o_pods o1" and retd: "o_retired ?o = o_retired (retire_op w p o1)"
    by (simp_all add: return_op_def retire_op_def)
  have "unfenced_ok (return_op w o1)" using op_ok_return [OF assms(1)] by (simp add: op_ok_unfenced)
  moreover have "?o = (return_op w o1)\<lparr>o_retired := o_retired (retire_op w p o1)\<rparr>"
    by (simp add: return_op_def retire_op_def)
  moreover have "unfenced_ok (o2\<lparr>o_retired := m\<rparr>) = unfenced_ok o2" for o2 m
    by (simp add: unfenced_ok_def slots_ok_def pinned_owned_def)
  ultimately have "unfenced_ok ?o" by simp
  then have u: "unfenced_ok (set_pod w ?f ?o)" by (rule unfenced_set_pod) simp_all
  have ret: "set (map_get [] (o_retired (retire_op w p o1)) k) \<subseteq>
      (if k = w then insert (p_incarnation p) (set (map_get [] (o_retired o1) k)) else set (map_get [] (o_retired o1) k))" for k
    by (auto simp: retire_op_def map_get_def map_simps split: option.splits if_splits)
  have "fenced (set_pod w ?f ?o)"
  proof (rule fenced_set_pod)
    show "p_incarnation (?f q) \<notin> set (map_get [] (o_retired ?o) w)" if "p_incarnation (?f q) \<noteq> []" for q
      using that ret [of w] assms(3,4) retd by auto
    show "p_incarnation q \<notin> set (map_get [] (o_retired ?o) k)"
      if "(k, q) \<in> set (o_pods ?o)" "k \<noteq> w" "p_incarnation q \<noteq> []" for k q
      using that ret [of k] assms(1) pods retd fencedD [of o1 k q] by (auto simp: op_ok_unfenced)
  qed
  with u have "op_ok (set_pod w ?f ?o)" by (simp add: op_ok_unfenced)
  then show ?thesis by (simp add: restart_op_def)
qed

lemma op_ok_enrol:
  assumes "op_ok o1"
    and "reg_incarnation reg \<noteq> '''' \<Longrightarrow> reg_incarnation reg \<notin> set (map_get [] (o_retired o1) (reg_pod reg))"
  shows "op_ok (enrol_op now reg o1)"
proof -
  let ?o2 = "touch_op now (reg_operation reg) (reg_pod reg) (reg_addr reg) (reg_slots reg) o1"
  let ?f = "\<lambda>p. p\<lparr>p_incarnation := reg_incarnation reg\<rparr>"
  have ok: "op_ok ?o2" by (rule op_ok_touch [OF assms(1)])
  have ret: "o_retired ?o2 = o_retired o1"
    by (simp add: touch_op_def Let_def split: option.split list.split)
  have "unfenced_ok (set_pod (reg_pod reg) ?f ?o2)"
    using ok by (intro unfenced_set_pod) (simp_all add: op_ok_unfenced)
  moreover have "fenced (set_pod (reg_pod reg) ?f ?o2)"
    using ok assms(2) ret fencedD [of ?o2] by (intro fenced_set_pod) (auto simp: op_ok_unfenced)
  ultimately have "op_ok (set_pod (reg_pod reg) ?f ?o2)" by (simp add: op_ok_unfenced)
  then show ?thesis by (simp add: enrol_op_def Let_def)
qed

end
