(* ===== verification/Contract.thy ===== *)
theory Contract
  imports Barrier Processes
begin

text \<open>
  What the handlers of the coordinator rely on, as two contracts, and that every handler keeps
  an invariant that honours them.

  \<open>channel_contract\<close> lists what a predicate on channels must survive: every operation the
  handlers apply to a channel. \<open>operation_contract\<close> does the same for the registry of one
  operation. \<open>coordinator_contract\<close> joins the two; its lemmas show, once for all, that every
  handler of the coordinator keeps "all channels satisfy the one, all operations the other".

  A failed durable commit leaves a coordinator that refuses every later commit until it is
  restarted, and \<open>inv_co\<close> says nothing about such a state.
\<close>

subsection \<open>Channels\<close>

text \<open>A channel nothing was ever filed on, in its first epoch.\<close>

definition pristine :: "channel \<Rightarrow> bool" where
  "pristine c \<longleftrightarrow> c_heap c = [] \<and> c_epoch c = 0"

locale channel_contract =
  fixes Q :: "channel \<Rightarrow> bool"
  assumes sizes: "Q c \<Longrightarrow> 0 < partitions c \<and> partitions c < 2 ^ 31"
    and new: "0 < p_partitions (ch_partitioning s) \<Longrightarrow> p_partitions (ch_partitioning s) < 2 ^ 31
      \<Longrightarrow> Q (new_channel s)"
    and respec: "Q c \<Longrightarrow> ch_partitioning s = ch_partitioning (c_spec c) \<Longrightarrow> ch_to s = ch_to (c_spec c)
      \<Longrightarrow> ch_feedback s = ch_feedback (c_spec c) \<Longrightarrow> Q (c\<lparr>c_spec := s\<rparr>)"
    and mark: "Q c \<Longrightarrow> (c_finiteEpochs (mark_channel cs c) \<Longrightarrow> c_finiteEpochs c \<or> pristine c)
      \<Longrightarrow> Q (mark_channel cs c)"
    and index: "Q c \<Longrightarrow> fits c sg \<Longrightarrow> fresh sg \<Longrightarrow> Q (fst (index sg c))"
    and overflow: "Q c \<Longrightarrow> Q (c\<lparr>c_overflowed := i\<rparr>)"
    and round_robin: "Q c \<Longrightarrow> Q (c\<lparr>c_rr := n\<rparr>)"
    and record_log: "Q c \<Longrightarrow> external c \<Longrightarrow> Q (c\<lparr>c_records := rs, c_produced := i\<rparr>)"
    and lose: "Q c \<Longrightarrow> Q (lose_channel w c)"
    and "return": "Q c \<Longrightarrow> Q (return_channel opName w inc everything c)"
    and forget: "Q c \<Longrightarrow> Q (forget_channel w c)"
    and enter: "Q c \<Longrightarrow> Q (enter_channel w c)"
    and consume: "Q c \<Longrightarrow> Q (fst (snd (consume_work now w dk p limit c o1)))"
    and ack: "Q c \<Longrightarrow> Q (ack1 po pods w inc a c)"
    and nack: "Q c \<Longrightarrow> Q (nack1 now w owned a c)"
    and broadcast: "Q c \<Longrightarrow> Q (releaseBroadcast o1 c)"
    and seal: "Q c \<Longrightarrow> Q (seal_channel c)"
    and close: "Q c \<Longrightarrow> Q (c\<lparr>c_productionClosed := s'\<rparr>)"
    and advance: "Q c \<Longrightarrow> c_epoch c < 2 ^ 31 - 1 \<Longrightarrow> Q (advanceEpoch c)"
    and epoch_done: "Q c \<Longrightarrow> Q (c\<lparr>c_epochDone := m\<rparr>)"
    and subscribe: "Q c \<Longrightarrow> Q (c\<lparr>c_subscriptions :=
      AList.update n' (new_subscription n' opName c) (c_subscriptions c)\<rparr>)"
    and consume_subscription: "Q c \<Longrightarrow> map_of (c_subscriptions c) n' = Some sub
      \<Longrightarrow> (\<And>p. p \<in> set ps \<Longrightarrow> p < nat (partitions c))
      \<Longrightarrow> subscription_work owner limit c ps [] sub = (r, sub', panic)
      \<Longrightarrow> Q (upd_sub n' (\<lambda>_. sub') (if panic then c\<lparr>c_panic := True\<rparr> else c))"
    and ack_subscription: "Q c \<Longrightarrow> map_of (c_subscriptions c) n' = Some sub
      \<Longrightarrow> fold (ack_subscription1 owner) acks (sub, False) = (sub', panic)
      \<Longrightarrow> Q (upd_sub n' (\<lambda>_. sub') (if panic then c\<lparr>c_panic := True\<rparr> else c))"
    and replay: "Q c \<Longrightarrow> map_of (c_subscriptions c) n' = Some sub \<Longrightarrow> sub_inflight sub = []
      \<Longrightarrow> Q (upd_sub n' (fold move_cursor qs) c)"
    and retention: "Q c \<Longrightarrow> external c \<Longrightarrow> distinct (map pp_partition qs)
      \<Longrightarrow> check_positions c (int (length (c_history c))) st msg qs = Inr () \<Longrightarrow> Q (fold delete_before qs c)"

subsection \<open>Operations\<close>

locale operation_contract =
  fixes P :: "operation \<Rightarrow> bool"
  assumes new: "P new_operation"
    and replicas: "P o1 \<Longrightarrow> P (o1\<lparr>o_replicas := i\<rparr>)"
    and completed: "P o1 \<Longrightarrow> P (o1\<lparr>o_completed := b\<rparr>)"
    and touch: "P o1 \<Longrightarrow> P (touch_op now opName w addr slots o1)"
    and drop: "P o1 \<Longrightarrow> P (drop_pod w o1)"
    and "return": "P o1 \<Longrightarrow> P (return_op w o1)"
    and assigned: "P o1 \<Longrightarrow> P (snd (assigned c o1 w))"
    and consume: "P o1 \<Longrightarrow> w \<noteq> '''' \<Longrightarrow> P (snd (snd (consume_work now w dk p limit c o1)))"
    and mark_epoch: "P o1 \<Longrightarrow> P (mark_epoch_op w ep o1)"
    and seen: "P o1 \<Longrightarrow> P (set_pod w (\<lambda>p. p\<lparr>p_lastSeen := now\<rparr>) o1)"
    and finished: "P o1 \<Longrightarrow> P (set_pod w (\<lambda>p. p\<lparr>p_done := b\<rparr>) o1)"
    and replace: "P o1 \<Longrightarrow> map_of (o_pods o1) w = Some p \<Longrightarrow> p_incarnation p \<noteq> inc
      \<Longrightarrow> (inc \<noteq> [] \<Longrightarrow> inc \<notin> set (map_get [] (o_retired o1) w))
      \<Longrightarrow> P (restart_op w inc (return_op w (retire_op w p o1)))"
    and enrol: "P o1 \<Longrightarrow> (reg_incarnation reg \<noteq> [] \<Longrightarrow>
        reg_incarnation reg \<notin> set (map_get [] (o_retired o1) (reg_pod reg)))
      \<Longrightarrow> P (enrol_op now reg o1)"

subsection \<open>The coordinator\<close>

definition good :: "(channel \<Rightarrow> bool) \<Rightarrow> (operation \<Rightarrow> bool) \<Rightarrow> coordinator \<Rightarrow> bool" where
  "good Q P co \<longleftrightarrow> distinct (map fst (co_channels co)) \<and> distinct (map fst (co_ops co))
     \<and> list_all (\<lambda>(_, c). Q c) (co_channels co) \<and> list_all (\<lambda>(_, o1). P o1) (co_ops co)"

definition inv_co :: "(channel \<Rightarrow> bool) \<Rightarrow> (operation \<Rightarrow> bool) \<Rightarrow> coordinator \<Rightarrow> bool" where
  "inv_co Q P co \<longleftrightarrow> (co_failed co = None \<longrightarrow> good Q P co)"

text \<open>Which requests keep within the documented use of the coordinator.\<close>

definition configurable :: "Channel list \<Rightarrow> coordinator \<Rightarrow> bool" where
  "configurable specs co \<longleftrightarrow>
     distinct (map ch_name specs)
     \<and> list_all (\<lambda>s. p_partitions (ch_partitioning s) < 2 ^ 31 \<and>
          (case map_of (co_channels co) (ch_name s) of
             None \<Rightarrow> True
           | Some c \<Rightarrow> ch_partitioning (normalize s) = ch_partitioning (c_spec c)
                       \<and> ch_to (normalize s) = ch_to (c_spec c)
                       \<and> ch_feedback (normalize s) = ch_feedback (c_spec c))) specs
     \<and> (let co1 = fold configure1 specs co in
        list_all (\<lambda>(_, c). c_finiteEpochs (mark_channel (specs_of co1) c) \<longrightarrow> c_finiteEpochs c \<or> pristine c)
          (co_channels co1))"

lemma frame_upd_op [simp]:
  "co_channels (upd_op n f co) = co_channels co" "co_failed (upd_op n f co) = co_failed co"
  "co_durable (upd_op n f co) = co_durable co" "co_selfAddr (upd_op n f co) = co_selfAddr co"
  "co_nextID (upd_op n f co) = co_nextID co"
  by (simp_all add: upd_op_def)

lemma frame_ensure_op [simp]:
  "co_channels (ensure_op n co) = co_channels co" "co_failed (ensure_op n co) = co_failed co"
  "co_nextID (ensure_op n co) = co_nextID co" "co_selfAddr (ensure_op n co) = co_selfAddr co"
  by (simp_all add: ensure_op_def)

lemma frame_upd_channel [simp]:
  "co_ops (upd_channel n g co) = co_ops co" "co_failed (upd_channel n g co) = co_failed co"
  "co_nextID (upd_channel n g co) = co_nextID co" "co_durable (upd_channel n g co) = co_durable co"
  "co_selfAddr (upd_channel n g co) = co_selfAddr co"
  "map fst (co_channels (upd_channel n g co)) = map fst (co_channels co)"
  by (simp_all add: upd_channel_def)

lemma frame_map_channels [simp]:
  "co_ops (map_channels g co) = co_ops co" "co_failed (map_channels g co) = co_failed co"
  "map fst (co_channels (map_channels g co)) = map fst (co_channels co)"
  by (simp_all add: map_channels_def)

lemma map_of_upd_channel:
  "map_of (co_channels (upd_channel n g co)) k =
     (if k = n then map_option g (map_of (co_channels co) n) else map_of (co_channels co) k)"
proof -
  have "map_of (map (\<lambda>(m, c). (m, if m = n then g c else c)) cs) k =
      (if k = n then map_option g (map_of cs n) else map_of cs k)" for cs :: "(string, channel) gomap"
    by (induction cs) auto
  then show ?thesis by (simp add: upd_channel_def)
qed

lemma get_op_upd_op: "get_op (upd_op n f co) k = (if k = n then f (get_op co n) else get_op co k)"
  by (simp add: get_op_def upd_op_def map_get_def map_simps)

lemma get_op_ensure_op [simp]: "get_op (ensure_op n co) k = get_op co k"
  by (simp add: ensure_op_def get_op_upd_op)

locale coordinator_contract = channel: channel_contract Q + operation: operation_contract P for Q P
begin

lemma good_get:
  assumes "good Q P co"
  shows "map_of (co_channels co) n = Some c \<Longrightarrow> Q c" and "P (get_op co k)"
  using assms operation.new
  by (auto simp: good_def list_all_iff get_op_def map_get_def split: option.splits dest: map_of_SomeD)

lemma inv_upd_op:
  assumes "inv_co Q P co" and "P (get_op co n) \<Longrightarrow> P (f (get_op co n))"
  shows "inv_co Q P (upd_op n f co)"
proof -
  have "good Q P (upd_op n f co)" if "good Q P co"
    using that assms(2) good_get(2) [OF that, of n]
    by (auto simp: good_def upd_op_def list_all_iff set_update_iff split: if_splits)
  with assms(1) show ?thesis by (simp add: inv_co_def)
qed

lemma inv_ensure_op: "inv_co Q P co \<Longrightarrow> inv_co Q P (ensure_op n co)"
  by (simp add: ensure_op_def inv_upd_op)

lemma inv_upd_channel:
  assumes "inv_co Q P co" and "\<And>c. co_failed co = None \<Longrightarrow> map_of (co_channels co) n = Some c \<Longrightarrow> Q c \<Longrightarrow> Q (g c)"
  shows "inv_co Q P (upd_channel n g co)"
proof -
  have "good Q P (upd_channel n g co)" if "good Q P co" "co_failed co = None"
    using that assms(2) by (fastforce simp: good_def upd_channel_def list_all_iff)
  with assms(1) show ?thesis by (simp add: inv_co_def)
qed

lemma inv_map_channels:
  assumes "inv_co Q P co" and "\<And>c. Q c \<Longrightarrow> Q (g c)"
  shows "inv_co Q P (map_channels g co)"
proof -
  have "good Q P (map_channels g co)" if "good Q P co"
    using that assms(2) by (auto simp: good_def map_channels_def list_all_iff set_map_vals)
  with assms(1) show ?thesis by (simp add: inv_co_def)
qed

lemma inv_other [simp]:
  "inv_co Q P (co\<lparr>co_wake := k\<rparr>) = inv_co Q P co" "inv_co Q P (co\<lparr>co_nextID := i\<rparr>) = inv_co Q P co"
  "inv_co Q P (co\<lparr>co_tombstoneKeys := t\<rparr>) = inv_co Q P co"
  by (simp_all add: inv_co_def good_def)

lemma inv_commit: "inv_co Q P co \<Longrightarrow> inv_co Q P (snd (commitLocked e co))"
  by (simp add: commitLocked_def inv_co_def Let_def split: option.split)

end

lemma commit_failed: "commitLocked e co = (Inl err, co') \<Longrightarrow> co_failed co' \<noteq> None"
  by (auto simp: commitLocked_def Let_def split: option.splits if_splits)

end
