(* ===== verification/Handlers.thy ===== *)
theory Handlers
  imports Contract
begin

text \<open>
  Every handler of the coordinator keeps the invariant of \<open>coordinator_contract\<close>, in the order
  of the components: registry, progress, producing, consuming, subscriptions, topology, metrics.
\<close>

lemma andThen_cases:
  "(\<And>err s. m = (Inl err, s) \<Longrightarrow> I s) \<Longrightarrow> (\<And>x s. m = (Inr x, s) \<Longrightarrow> I (snd (f x s))) \<Longrightarrow> I (snd (andThen m f))"
  by (cases m; cases "fst m") auto

lemma fold_inv: "I s \<Longrightarrow> (\<And>x s. x \<in> set xs \<Longrightarrow> I s \<Longrightarrow> I (f x s)) \<Longrightarrow> I (fold f xs s)"
  by (induction xs arbitrary: s) auto

lemma frame_requireIncarnation [simp]:
  "co_channels (snd (requireIncarnation opName w inc co)) = co_channels co"
  "co_failed (snd (requireIncarnation opName w inc co)) = co_failed co"
  "co_nextID (snd (requireIncarnation opName w inc co)) = co_nextID co"
  by (simp_all add: requireIncarnation_def Let_def split: option.split)

lemma frame_verify [simp]:
  "co_channels (snd (verify b opName w inc co)) = co_channels co"
  "co_failed (snd (verify b opName w inc co)) = co_failed co"
  by (simp_all add: verify_def requireIncarnation_def Let_def split: option.split)

lemma frame_wake [simp]: "co_channels (wake co) = co_channels co" "co_failed (wake co) = co_failed co"
  by (simp_all add: wake_def)

lemma get_op_map_channels [simp]: "get_op (map_channels g co) n = get_op co n"
  by (simp add: get_op_def)

lemma get_op_upd_channel [simp]: "get_op (upd_channel k g co) n = get_op co n"
  by (simp add: get_op_def)

context coordinator_contract
begin

subsection \<open>Registry\<close>

lemma inv_requireIncarnation:
  "inv_co Q P co \<Longrightarrow> inv_co Q P (snd (requireIncarnation opName w inc co))"
  by (simp add: requireIncarnation_def Let_def inv_ensure_op split: option.split)

lemma inv_verify: "inv_co Q P co \<Longrightarrow> inv_co Q P (snd (verify b opName w inc co))"
  unfolding verify_def by (auto intro!: andThen_inv [of "inv_co Q P"] inv_requireIncarnation)

lemma inv_andThen_require:
  assumes "inv_co Q P co"
    and "\<And>p co1. requireIncarnation opName w inc co = (Inr p, co1) \<Longrightarrow> inv_co Q P co1
      \<Longrightarrow> co_channels co1 = co_channels co \<Longrightarrow> co_failed co1 = co_failed co \<Longrightarrow> inv_co Q P (snd (f p co1))"
  shows "inv_co Q P (snd (andThen (requireIncarnation opName w inc co) f))"
  using assms inv_requireIncarnation [OF assms(1), of opName w inc]
    frame_requireIncarnation [of opName w inc co]
  by (cases "requireIncarnation opName w inc co"; cases "fst (requireIncarnation opName w inc co)") auto

lemma inv_andThen_verify:
  assumes "inv_co Q P co"
    and "\<And>co1. inv_co Q P co1 \<Longrightarrow> co_channels co1 = co_channels co \<Longrightarrow> co_failed co1 = co_failed co
      \<Longrightarrow> inv_co Q P (snd (f () co1))"
  shows "inv_co Q P (snd (andThen (verify b opName w inc co) f))"
  using assms inv_verify [OF assms(1), of b opName w inc] frame_verify [of b opName w inc co]
  by (cases "verify b opName w inc co"; cases "fst (verify b opName w inc co)") auto

lemma inv_touch: "inv_co Q P co \<Longrightarrow> inv_co Q P (touch e opName w addr slots co)"
  by (simp add: touch_def inv_upd_op operation.touch)

lemma inv_returnConsumerDeliveries:
  "inv_co Q P co \<Longrightarrow> inv_co Q P (returnConsumerDeliveries opName w inc everything co)"
  by (simp add: returnConsumerDeliveries_def inv_map_channels inv_upd_op operation.return channel.return)

lemma inv_expireHolder: "inv_co Q P co \<Longrightarrow> inv_co Q P (expireHolder w co)"
  by (simp add: expireHolder_def inv_map_channels channel.lose)

lemma inv_expireAllExcept: "inv_co Q P co \<Longrightarrow> inv_co Q P (expireAllExcept e opName w co)"
  unfolding expireAllExcept_def
  by (rule fold_inv) (auto simp: expireConsumer_def
      intro!: inv_expireHolder inv_returnConsumerDeliveries inv_upd_op operation.drop)

lemma inv_expireAll: "inv_co Q P co \<Longrightarrow> inv_co Q P (expireAll e co)"
  by (simp add: expireAll_def inv_expireAllExcept)

text \<open>Registration is one update of the operation with the deliveries returned in between.\<close>

lemma inv_enrol:
  assumes "inv_co Q P co"
    and "reg_incarnation reg \<noteq> [] \<Longrightarrow>
      reg_incarnation reg \<notin> set (map_get [] (o_retired (get_op co (reg_operation reg))) (reg_pod reg))"
  shows "inv_co Q P (snd (commitLocked e (upd_op (reg_operation reg) (enrol_op now reg) co)))"
  using assms by (intro inv_commit inv_upd_op operation.enrol) auto

lemma replaceProcess_eq:
  "replaceProcess reg p co =
     map_channels (return_channel (reg_operation reg) (reg_pod reg) (p_incarnation p) False)
       (upd_op (reg_operation reg)
          (\<lambda>o1. restart_op (reg_pod reg) (reg_incarnation reg) (return_op (reg_pod reg) (retire_op (reg_pod reg) p o1))) co)"
proof -
  have "upd_op n f (upd_op n g c) = upd_op n (\<lambda>o1. f (g o1)) c" for n f g c
    by (simp add: upd_op_def get_op_def map_get_def map_simps)
  moreover have "upd_op n f (map_channels g c) = map_channels g (upd_op n f c)" for n f g c
    by (simp add: upd_op_def map_channels_def get_op_def)
  ultimately show ?thesis by (simp add: replaceProcess_def returnConsumerDeliveries_def)
qed

lemma inv_replaceProcess:
  assumes "inv_co Q P co" and "map_of (o_pods (get_op co (reg_operation reg))) (reg_pod reg) = Some p"
    and "p_incarnation p \<noteq> reg_incarnation reg"
    and "reg_incarnation reg \<noteq> [] \<Longrightarrow>
      reg_incarnation reg \<notin> set (map_get [] (o_retired (get_op co (reg_operation reg))) (reg_pod reg))"
  shows "inv_co Q P (replaceProcess reg p co)"
  unfolding replaceProcess_eq
  using assms by (intro inv_map_channels inv_upd_op operation.replace channel.return) auto

lemma retired_replaceProcess:
  assumes "p_incarnation p \<noteq> inc" and "inc \<notin> set (map_get [] (o_retired o1) w)"
  shows "inc \<notin> set (map_get [] (o_retired (restart_op w' inc' (return_op w' (retire_op w' p o1)))) w)"
  using assms
  by (auto simp: restart_op_def set_pod_def return_op_def retire_op_def map_get_def map_simps
      split: option.splits if_splits)

lemma inv_Register:
  assumes "inv_co Q P co"
  shows "inv_co Q P (snd (Register e reg co))"
proof -
  define co1 where "co1 = ensure_op (reg_operation reg) (expireAllExcept e (reg_operation reg) (reg_pod reg) co)"
  let ?o = "get_op co1 (reg_operation reg)"
  have 1: "inv_co Q P co1" unfolding co1_def by (intro inv_ensure_op inv_expireAllExcept assms)
  have 2: "inv_co Q P (snd (commitLocked e (upd_op (reg_operation reg) (enrol_op (env_now e) reg) (replaceProcess reg p co1))))"
    if "map_of (o_pods ?o) (reg_pod reg) = Some p" "p_incarnation p \<noteq> reg_incarnation reg"
      "reg_incarnation reg \<noteq> [] \<Longrightarrow> reg_incarnation reg \<notin> set (map_get [] (o_retired ?o) (reg_pod reg))" for p
  proof (rule inv_enrol)
    show "inv_co Q P (replaceProcess reg p co1)" by (rule inv_replaceProcess [OF 1 that]) auto
    have "get_op (replaceProcess reg p co1) (reg_operation reg) = restart_op (reg_pod reg) (reg_incarnation reg)
        (return_op (reg_pod reg) (retire_op (reg_pod reg) p ?o))"
      by (simp add: replaceProcess_eq get_op_upd_op)
    then show "reg_incarnation reg \<notin> set (map_get [] (o_retired
        (get_op (replaceProcess reg p co1) (reg_operation reg))) (reg_pod reg))" if "reg_incarnation reg \<noteq> []"
      using retired_replaceProcess that \<open>p_incarnation p \<noteq> reg_incarnation reg\<close>
        \<open>reg_incarnation reg \<noteq> [] \<Longrightarrow> reg_incarnation reg \<notin> set (map_get [] (o_retired ?o) (reg_pod reg))\<close>
      by metis
  qed
  show ?thesis
    unfolding Register_def Let_def co1_def [symmetric]
    using assms 1 2 inv_enrol [OF 1] by (auto split: option.split)
qed

subsection \<open>Progress\<close>

lemma inv_seal: "inv_co Q P co \<Longrightarrow> inv_co Q P (Progress.seal n co)"
  unfolding Progress.seal_def wake_def
  by (auto intro!: inv_upd_channel channel.seal)

lemma inv_settle1: "inv_co Q P co \<Longrightarrow> inv_co Q P (settle1 n co)"
  unfolding settle1_def Let_def
  by (auto split: option.split intro!: inv_seal inv_upd_channel inv_ensure_op channel.broadcast)

lemma inv_settle: "inv_co Q P co \<Longrightarrow> inv_co Q P (settle co)"
  unfolding settle_def by (rule fold_inv) (simp_all add: inv_settle1)

lemma inv_close_epoch:
  assumes "inv_co Q P co" and "epoch < 2 ^ 31 - 1"
  shows "inv_co Q P (close_epoch opName epoch co)"
proof -
  have "Q (close_output opName epoch c)" if "Q c" for c
    using that by (auto simp: close_output_def channel.seal channel.close)
  moreover have "Q (advance_input opName epoch c)" if "Q c" for c
    using that assms(2) by (auto simp: advance_input_def channel.advance)
  ultimately show ?thesis
    unfolding close_epoch_def Let_def by (auto intro!: inv_map_channels assms(1))
qed

lemma inv_recordOperationEpochDone:
  assumes "inv_co Q P co" and "epoch < 2 ^ 31 - 1"
  shows "inv_co Q P (snd (recordOperationEpochDone e opName w epoch co))"
  unfolding recordOperationEpochDone_def Let_def
  using assms
  by (auto split: option.split intro!: inv_close_epoch inv_upd_op inv_ensure_op operation.mark_epoch)

lemma inv_Seal: "inv_co Q P co \<Longrightarrow> inv_co Q P (snd (Seal e n co))"
  unfolding Seal_def by (auto split: sum.split intro!: inv_commit inv_settle inv_seal)

lemma inv_SourceDone:
  assumes "inv_co Q P co"
  shows "inv_co Q P (snd (SourceDone e reg co))"
  unfolding SourceDone_def Let_def
  using assms
  by (auto intro!: andThen_inv [of "inv_co Q P"] inv_requireIncarnation inv_commit inv_upd_op
      operation.finished inv_recordOperationEpochDone)

lemma inv_EpochDoneSession:
  assumes "inv_co Q P co" and "epoch < 2 ^ 31 - 1"
  shows "inv_co Q P (snd (EpochDoneSession e n opName w inc epoch co))"
  unfolding EpochDoneSession_def Let_def
  using assms
  by (auto split: sum.split option.split simp: mark_epoch_channel_def
      intro!: andThen_inv [of "inv_co Q P"] inv_verify inv_commit inv_touch inv_upd_channel
        channel.epoch_done inv_recordOperationEpochDone)

lemma inv_OperationEpochDoneSession:
  assumes "inv_co Q P co" and "epoch < 2 ^ 31 - 1"
  shows "inv_co Q P (snd (OperationEpochDoneSession e opName w inc epoch co))"
  unfolding OperationEpochDoneSession_def Let_def
  using assms
  by (auto intro!: andThen_inv [of "inv_co Q P"] inv_requireIncarnation inv_commit inv_expireAllExcept
      inv_upd_op operation.seen inv_recordOperationEpochDone)

subsection \<open>Producing\<close>

lemma index_announced:
  assumes "Q c" and "a_id a \<noteq> [] \<Longrightarrow> map_of (c_appendIDs c) (ann_appendID a) = None
      \<Longrightarrow> fits c (announced name opName (ch_from (c_spec c)) a)"
  shows "Q (announce1 name opName a c)"
proof -
  have "Q (c\<lparr>c_overflowed := i\<rparr>)" "fits (c\<lparr>c_overflowed := i\<rparr>) = fits c" for i
    using assms by (simp_all add: channel.overflow fits_def fun_eq_iff)
  then show ?thesis
    using assms by (auto simp: announce1_def intro!: channel.index)
qed

end

text \<open>Indexing keeps the specification, so a segment that fits keeps fitting.\<close>

lemma spec_index [simp]: "c_spec (fst (index s c)) = c_spec c"
  by (simp add: index_def Let_def)

lemma spec_announce1 [simp]: "c_spec (announce1 name opName a c) = c_spec c"
  by (simp add: announce1_def)

lemma fits_spec: "c_spec c' = c_spec c \<Longrightarrow> fits c' s = fits c s"
  by (simp add: fits_def spec_reads [of c' c])

lemma appendIDs_index: "map_of (c_appendIDs (fst (index s c))) k = None \<Longrightarrow> map_of (c_appendIDs c) k = None"
  by (auto simp: index_def Let_def map_simps split: if_splits)

lemma appendIDs_announce1:
  "map_of (c_appendIDs (announce1 name opName a c)) k = None \<Longrightarrow> map_of (c_appendIDs c) k = None"
  by (auto simp: announce1_def dest: appendIDs_index split: if_splits)

context coordinator_contract
begin

lemma fold_announced:
  assumes "Q c" and "\<And>a. a \<in> set anns \<Longrightarrow> a_id a \<noteq> [] \<Longrightarrow> map_of (c_appendIDs c) (ann_appendID a) = None
      \<Longrightarrow> fits c (announced name opName (ch_from (c_spec c)) a)"
  shows "Q (fold (announce1 name opName) anns c)"
  using assms
proof (induction anns arbitrary: c)
  case (Cons a anns)
  then show ?case
    by (auto intro!: Cons.IH index_announced simp: fits_spec [OF spec_announce1] dest: appendIDs_announce1)
qed simp

lemma inv_AnnounceSession:
  assumes "inv_co Q P co"
  shows "inv_co Q P (snd (AnnounceSession e n opName w inc anns co))"
proof (cases "get co n")
  case (Inr c)
  have c: "map_of (co_channels co) n = Some c" using Inr by (simp add: get_def split: option.splits)
  have "inv_co Q P (upd_channel n (fold (announce1 n opName) anns) co1)"
    if "announce_check n c anns b = Inr b'" "inv_co Q P co1" "co_channels co1 = co_channels co" for b b' co1
    using that c
    by (intro inv_upd_channel fold_announced) (auto dest: announced_fits)
  then show ?thesis
    using assms unfolding AnnounceSession_def Inr
    by (auto split: sum.split intro!: inv_andThen_verify inv_commit inv_settle)
qed (use assms in \<open>auto simp: AnnounceSession_def split: sum.split\<close>)

end

subsection \<open>The partitions of produced records\<close>

lemma spec_partitionOf [simp]: "c_spec (snd (partitionOf c r)) = c_spec c"
  by (simp add: partitionOf_def split: PartitioningMode.split)

lemma partitionOf_range:
  assumes "0 < partitions c" and "partitions c < 2 ^ 31"
  shows "0 \<le> fst (partitionOf c r) \<and> fst (partitionOf c r) < partitions c"
proof -
  have "uint (word_of_int (partitions c) :: 64 word) = partitions c"
    using assms by (simp add: uint_word_of_int)
  then have "uint (c_rr c mod word_of_int (partitions c)) < partitions c"
    using assms(1) by (simp add: uint_mod)
  moreover have "HashPartition (r_key r) (partitions c) < partitions c"
    using assms by (intro HashPartition_less) auto
  ultimately show ?thesis
    using assms(1) HashPartition_nonneg by (simp add: partitionOf_def split: PartitioningMode.split)
qed

lemma set_add_group: "fst ` set (add_group k r gs) = insert k (fst ` set gs)"
  by (induction k r gs rule: add_group.induct) (simp_all add: insert_commute)

lemma group_records_range:
  assumes "0 < partitions c" and "partitions c < 2 ^ 31"
    and "\<forall>k \<in> fst ` set gs. 0 \<le> fst k \<and> fst k < partitions c"
  shows "(\<forall>k \<in> fst ` set (fst (group_records rs c gs)). 0 \<le> fst k \<and> fst k < partitions c)
    \<and> c_spec (snd (group_records rs c gs)) = c_spec c"
  using assms
proof (induction rs arbitrary: c gs)
  case (Cons r rs)
  let ?c = "snd (partitionOf c r)"
  have c: "partitions ?c = partitions c" by (rule spec_reads(3)) simp
  have "\<forall>k \<in> fst ` set (add_group (fst (partitionOf c r), r_epoch r) r gs). 0 \<le> fst k \<and> fst k < partitions ?c"
    using Cons.prems partitionOf_range [OF Cons.prems(1,2), of r] by (simp add: set_add_group c)
  then have "(\<forall>k \<in> fst ` set (fst (group_records rs ?c (add_group (fst (partitionOf c r), r_epoch r) r gs))).
      0 \<le> fst k \<and> fst k < partitions ?c)
    \<and> c_spec (snd (group_records rs ?c (add_group (fst (partitionOf c r), r_epoch r) r gs))) = c_spec ?c"
    using Cons.prems c by (intro Cons.IH) simp_all
  then show ?case by (simp only: group_records.simps Let_def split_def c spec_partitionOf) blast
qed simp

context coordinator_contract
begin

lemma inv_produce_groups:
  assumes "inv_co Q P co"
    and "\<And>c k. co_failed co = None \<Longrightarrow> map_of (co_channels co) n = Some c \<Longrightarrow> k \<in> fst ` set gs
      \<Longrightarrow> 0 \<le> fst k \<and> fst k < partitions c"
  shows "inv_co Q P (snd (produce_groups e n gs co))"
  using assms
proof (induction gs arbitrary: co)
  case (Cons g gs)
  obtain k rs where g: "g = (k, rs)" by (cases g)
  define nx where "nx = co_nextID co + 1"
  define sg where "sg = produced_segment n (''ext-'' @ itoa (unat nx)) (co_selfAddr co) k rs"
  define co2 where "co2 = upd_channel n (\<lambda>c. fst (index sg c)) (co\<lparr>co_nextID := nx\<rparr>)"
  have fits: "fits c sg" if "co_failed co = None" "map_of (co_channels co) n = Some c" for c
    using Cons.prems(2) [OF that] g by (simp add: fits_def sg_def produced_segment_def)
  have "inv_co Q P co2"
    unfolding co2_def using Cons.prems(1) fits
    by (intro inv_upd_channel) (auto simp: sg_def intro!: channel.index)
  moreover have "0 \<le> fst k' \<and> fst k' < partitions c"
    if "co_failed co2 = None" "map_of (co_channels co2) n = Some c" "k' \<in> fst ` set gs" for c k'
  proof -
    note t = that
    obtain c0 where "map_of (co_channels co) n = Some c0" "c = fst (index sg c0)"
      using t(2) by (auto simp: co2_def map_of_upd_channel)
    then show ?thesis using Cons.prems(2) [of c0 k'] t spec_reads(3) [OF spec_index] by (simp add: co2_def)
  qed
  ultimately have "inv_co Q P (snd (produce_groups e n gs co2))" by (rule Cons.IH)
  then show ?case
    using Cons.prems(1) by (simp add: g Let_def nx_def sg_def co2_def split: option.split)
qed simp

lemma inv_Produce:
  assumes "inv_co Q P co"
  shows "inv_co Q P (snd (Produce e n opName recs co))"
proof (cases "get co n")
  case (Inr c)
  have c: "map_of (co_channels co) n = Some c" using Inr by (simp add: get_def split: option.splits)
  let ?gs = "fst (group_records recs c [])"
  let ?co1 = "upd_channel n (\<lambda>d. d\<lparr>c_rr := c_rr (snd (group_records recs c []))\<rparr>) co"
  have co1: "inv_co Q P ?co1" using assms by (intro inv_upd_channel channel.round_robin)
  have "0 \<le> fst k \<and> fst k < partitions d"
    if "co_failed ?co1 = None" "map_of (co_channels ?co1) n = Some d" "k \<in> fst ` set ?gs" for d k
  proof -
    have "Q c" using that(1) assms good_get(1) c by (auto simp: inv_co_def)
    moreover have "partitions d = partitions c" using that(2) c by (auto simp: map_of_upd_channel)
    ultimately show ?thesis
      using that(3) group_records_range [of c "[]" recs] channel.sizes by auto
  qed
  then have "inv_co Q P (snd (produce_groups e n ?gs ?co1))" by (rule inv_produce_groups [OF co1])
  moreover have "inv_co Q P (wake (upd_channel n (\<lambda>d. d\<lparr>c_records := c_records d @ recs,
      c_produced := c_produced d + int (length recs)\<rparr>) co))" if "external c"
    using assms c that unfolding wake_def by (auto intro!: inv_upd_channel channel.record_log)
  ultimately show ?thesis
    using assms co1 Inr unfolding Produce_def
    by (auto simp: split_def Let_def intro!: inv_commit inv_settle andThen_inv [of "inv_co Q P"])
qed (use assms in \<open>simp add: Produce_def\<close>)

lemma inv_failed: "co_failed co \<noteq> None \<Longrightarrow> inv_co Q P co"
  by (auto simp: inv_co_def)

lemma inv_ReleasedSession:
  assumes "inv_co Q P co"
  shows "inv_co Q P (snd (ReleasedSession e opName w inc co))"
  unfolding ReleasedSession_def
proof (rule inv_andThen_verify [OF assms])
  fix co1 assume "inv_co Q P co1"
  let ?co2 = "expireAll e co1"
  let ?out = "concat (map (\<lambda>(_, c). released_ids w c) (co_channels ?co2))"
  let ?co3 = "(map_channels (forget_channel w) ?co2)\<lparr>co_tombstoneKeys := fold set_add ?out (co_tombstoneKeys ?co2)\<rparr>"
  have "inv_co Q P ?co3" using \<open>inv_co Q P co1\<close> by (simp add: inv_map_channels channel.forget inv_expireAll)
  then have "inv_co Q P (snd (commitLocked e ?co3))" by (rule inv_commit)
  then show "inv_co Q P (snd (let co2 = expireAll e co1;
           out = concat (map (\<lambda>(_, c). released_ids w c) (co_channels co2));
           co3 = (map_channels (forget_channel w) co2)
                   \<lparr>co_tombstoneKeys := fold set_add out (co_tombstoneKeys co2)\<rparr>
       in case commitLocked e co3 of
            (Inr _, co4) \<Rightarrow> (Inr (sort out), co4)
          | (Inl err, co4) \<Rightarrow>
              (Inl err, co4\<lparr>co_channels := co_channels co2,
                            co_tombstoneKeys := fold set_del out (co_tombstoneKeys co4)\<rparr>)))"
    by (cases "commitLocked e ?co3"; cases "fst (commitLocked e ?co3)")
      (auto simp: Let_def inv_failed dest!: commit_failed)
qed

subsection \<open>Consuming\<close>

lemma inv_admit: "inv_co Q P co \<Longrightarrow> inv_co Q P (snd (admit e opName w inc co))"
  using inv_requireIncarnation [of co opName w inc]
  by (auto simp: admit_def split: prod.split sum.split intro!: inv_touch)

lemma inv_hand_out:
  assumes "inv_co Q P co" and "w \<noteq> []"
  shows "inv_co Q P (snd (hand_out e n to w inc limit co))"
  unfolding hand_out_def Let_def split_def snd_conv
  using assms(1)
  by (intro inv_upd_op inv_upd_channel) (auto intro: channel.consume operation.consume [OF _ assms(2)])

lemma inv_ConsumeSession:
  assumes "inv_co Q P co"
  shows "inv_co Q P (snd (ConsumeSession e n opName w inc limit co))"
proof (cases "get co n")
  case (Inr c)
  let ?to = "ch_to (c_spec c)"
  have "inv_co Q P (snd (case commitLocked e (snd (hand_out e n ?to w inc limit co4)) of
      (Inl err, co6) \<Rightarrow> (Inl err, restore (snapshot co) co6)
    | (Inr u, co6) \<Rightarrow> (Inr (fst (hand_out e n ?to w inc limit co4)), co6)))"
    if "inv_co Q P co4" "w \<noteq> []" for co4
    using inv_commit [OF inv_hand_out [OF that], of e e n ?to inc limit]
    by (cases "commitLocked e (snd (hand_out e n ?to w inc limit co4))";
        cases "fst (commitLocked e (snd (hand_out e n ?to w inc limit co4)))")
      (auto simp: restore_def inv_failed dest!: commit_failed)
  moreover have "inv_co Q P (settle (expireAll e (upd_channel n (enter_channel w)
      (upd_op ?to (set_pod w (\<lambda>p. p\<lparr>p_lastSeen := env_now e\<rparr>)) co1))))" if "inv_co Q P co1" for co1
    using that by (intro inv_settle inv_expireAll inv_upd_channel inv_upd_op operation.seen channel.enter)
  ultimately show ?thesis
    using assms Inr inv_admit [OF assms]
    by (auto simp: ConsumeSession_def Let_def split_def intro!: andThen_inv [of "inv_co Q P"])
qed (use assms in \<open>simp add: ConsumeSession_def\<close>)

lemma inv_AckSession:
  assumes "inv_co Q P co"
  shows "inv_co Q P (snd (AckSession e n opName w inc acks co))"
proof -
  have "Q (fold (ack1 p pods w inc) acks c)" if "Q c" for p pods c
    using that by (rule fold_inv) (rule channel.ack)
  then show ?thesis
    unfolding AckSession_def Let_def using assms
    by (auto split: sum.split intro!: andThen_inv [of "inv_co Q P"] inv_commit inv_settle inv_upd_channel
        inv_ensure_op inv_requireIncarnation)
qed

lemma inv_NackSession:
  assumes "inv_co Q P co"
  shows "inv_co Q P (snd (NackSession e n opName w inc acks co))"
proof -
  have "Q (fold (nack1 (env_now e) w (deliveryKey w inc)) acks c)" if "Q c" for c
    using that by (rule fold_inv) (rule channel.nack)
  then show ?thesis
    unfolding NackSession_def Let_def using assms
    by (auto split: sum.split intro!: andThen_inv [of "inv_co Q P"] inv_commit inv_settle inv_upd_channel
        inv_requireIncarnation)
qed

subsection \<open>Subscriptions\<close>

lemma inv_andThen_commit:
  "inv_co Q P co \<Longrightarrow> inv_co Q P (snd (andThen (commitLocked e co) (\<lambda>_ co1. (Inr x, co1))))"
  by (rule andThen_inv [of "inv_co Q P"]) (simp_all add: inv_commit)

lemma inv_AppendSession:
  assumes "inv_co Q P co"
  shows "inv_co Q P (snd (AppendSession e n opName w inc batch co))"
proof (cases "get co n")
  case (Inr c)
  have c: "map_of (co_channels co) n = Some c" using Inr by (simp add: get_def split: option.splits)
  have "inv_co Q P (upd_channel n (\<lambda>_. fst (append_channel n sid h batch c)) (co1\<lparr>co_nextID := i\<rparr>))"
    if "inv_co Q P co1" "co_channels co1 = co_channels co" "\<not> (ab_partition batch < 0 \<or> partitions c \<le> ab_partition batch)"
    for co1 sid h i
  proof -
    have "fits c (batch_segment n sid h batch)" using that(3) by (simp add: fits_def batch_segment_def)
    then show ?thesis
      using that c unfolding append_channel_def by (intro inv_upd_channel) (auto intro!: channel.index)
  qed
  then show ?thesis
    using assms unfolding AppendSession_def Inr
    by (auto simp: Let_def split_def split: sum.split option.split
        intro!: inv_andThen_verify inv_andThen_commit)
qed (use assms in \<open>auto simp: AppendSession_def split: sum.split\<close>)

lemma inv_SetSubscription:
  assumes "inv_co Q P co"
  shows "inv_co Q P (snd (SetSubscription e n sn opName co))"
  unfolding SetSubscription_def using assms
  by (auto split: sum.split option.split intro!: inv_commit inv_upd_channel channel.subscribe)

lemma inv_upd_sub:
  assumes "inv_co Q P co1" and "co_channels co1 = co_channels co" and "map_of (co_channels co) n = Some c"
    and "Q c \<Longrightarrow> Q (upd_sub sn (\<lambda>_. sub') (if panic then c\<lparr>c_panic := True\<rparr> else c))"
  shows "inv_co Q P (upd_channel n (\<lambda>d. upd_sub sn (\<lambda>_. sub') (if panic then d\<lparr>c_panic := True\<rparr> else d)) co1)"
  using assms by (intro inv_upd_channel) auto

lemma inv_ConsumeSubscription:
  assumes "inv_co Q P co"
  shows "inv_co Q P (snd (ConsumeSubscription e n sn w inc limit co))"
proof (cases "get co n")
  case (Inr c)
  have c: "map_of (co_channels co) n = Some c" using Inr by (simp add: get_def split: option.splits)
  show ?thesis
  proof (cases "map_of (c_subscriptions c) sn")
    case (Some sub)
    let ?l = "if limit \<le> 0 then 100 else limit"
    have work: "inv_co Q P (snd (let lim = ?l;
          (r, sub', panic) = subscription_work (deliveryKey w inc) lim c ps [] sub;
          co2 = upd_channel n (\<lambda>d. upd_sub sn (\<lambda>_. sub') (if panic then d\<lparr>c_panic := True\<rparr> else d)) co1
        in case r of Inl err \<Rightarrow> (Inl err, co2)
           | Inr work \<Rightarrow> andThen (if work \<noteq> [] then commitLocked e co2 else (Inr (), co2))
               (\<lambda>_ co3. (Inr (subscription_response c work sub'), co3))))"
      if "inv_co Q P co1" "co_channels co1 = co_channels co" "\<And>p. p \<in> set ps \<Longrightarrow> p < nat (partitions c)" for ps co1
    proof -
      obtain r sub' panic where s: "subscription_work (deliveryKey w inc) ?l c ps [] sub = (r, sub', panic)"
        by (metis prod_cases3)
      have "inv_co Q P (upd_channel n (\<lambda>d. upd_sub sn (\<lambda>_. sub') (if panic then d\<lparr>c_panic := True\<rparr> else d)) co1)"
        using channel.consume_subscription [OF _ Some that(3) s] by (rule inv_upd_sub [OF that(1,2) c])
      then show ?thesis
        unfolding Let_def s by (auto split: sum.split intro!: andThen_inv [of "inv_co Q P"] inv_commit)
    qed
    define m where "m = (if sub_operation sub \<noteq> [] then
        andThen (requireIncarnation (sub_operation sub) w inc co) (\<lambda>_ co1.
          let (ps, o2) = assigned c (get_op co1 (sub_operation sub)) w
          in (Inr ps, upd_op (sub_operation sub) (\<lambda>_. o2) co1))
      else if w = [] then (Inl (Error 400 ''reader is required''), co) else (Inr [0..<nat (partitions c)], co))"
    have m: "inv_co Q P co1 \<and> co_channels co1 = co_channels co
        \<and> (\<forall>ps. r = Inr ps \<longrightarrow> (\<forall>p \<in> set ps. p < nat (partitions c)))" if "m = (r, co1)" for r co1
    proof (cases "requireIncarnation (sub_operation sub) w inc co")
      case (Pair r0 co0)
      have "inv_co Q P co0" "co_channels co0 = co_channels co"
        using inv_requireIncarnation [OF assms, of "sub_operation sub" w inc]
          frame_requireIncarnation(1) [of "sub_operation sub" w inc co] Pair by auto
      then show ?thesis
        using that assms unfolding m_def Pair
        by (cases r0) (auto simp: split_def Let_def dest: assigned_less intro!: inv_upd_op operation.assigned split: if_splits)
    qed
    show ?thesis
      unfolding ConsumeSubscription_def Inr sum.case Some option.case m_def [symmetric]
      by (rule andThen_cases) (use m work in auto)
  qed (use assms Inr in \<open>simp add: ConsumeSubscription_def\<close>)
qed (use assms in \<open>simp add: ConsumeSubscription_def\<close>)

lemma inv_AckSubscription:
  assumes "inv_co Q P co"
  shows "inv_co Q P (snd (AckSubscription e n sn w inc acks co))"
proof (cases "get co n")
  case (Inr c)
  have c: "map_of (co_channels co) n = Some c" using Inr by (simp add: get_def split: option.splits)
  show ?thesis
  proof (cases "map_of (c_subscriptions c) sn")
    case (Some sub)
    obtain sub' panic where f: "fold (ack_subscription1 (deliveryKey w inc)) acks (sub, False) = (sub', panic)"
      by (metis prod.collapse)
    show ?thesis
      unfolding AckSubscription_def Inr sum.case Some option.case f Let_def prod.case
      using channel.ack_subscription [OF _ Some f]
      by (intro inv_andThen_verify [OF assms] inv_commit inv_upd_sub [OF _ _ c])
  qed (use assms Inr in \<open>simp add: AckSubscription_def\<close>)
qed (use assms in \<open>simp add: AckSubscription_def\<close>)

lemma inv_ReplaySubscription:
  assumes "inv_co Q P co"
  shows "inv_co Q P (snd (ReplaySubscription e n sn qs co))"
proof (cases "get co n")
  case (Inr c)
  have "map_of (co_channels co) n = Some c" using Inr by (simp add: get_def split: option.splits)
  then show ?thesis
    using assms unfolding ReplaySubscription_def Inr
    by (auto split: sum.split option.split intro!: inv_commit inv_upd_channel channel.replay)
qed (use assms in \<open>simp add: ReplaySubscription_def\<close>)

lemma inv_DeleteRetainedBefore:
  assumes "inv_co Q P co" and "distinct (map pp_partition qs)"
    and "\<And>c. map_of (co_channels co) n = Some c \<Longrightarrow> external c"
  shows "inv_co Q P (snd (DeleteRetainedBefore e n qs co))"
proof (cases "get co n")
  case (Inr c)
  have "map_of (co_channels co) n = Some c" using Inr by (simp add: get_def split: option.splits)
  then show ?thesis
    using assms unfolding DeleteRetainedBefore_def Inr
    by (auto split: sum.split intro!: inv_commit inv_upd_channel channel.retention)
qed (use assms in \<open>simp add: DeleteRetainedBefore_def\<close>)

subsection \<open>Topology and metrics\<close>

lemma inv_SetOperations: "inv_co Q P co \<Longrightarrow> inv_co Q P (SetOperations specs co)"
  unfolding SetOperations_def by (rule fold_inv) (auto intro!: inv_upd_op operation.replicas)

lemma inv_operationMetrics: "inv_co Q P co \<Longrightarrow> inv_co Q P (snd (operationMetrics n co))"
  unfolding operationMetrics_def Let_def snd_conv
  by (intro inv_upd_op inv_ensure_op operation.completed)

lemma inv_operations_metrics: "inv_co Q P co \<Longrightarrow> inv_co Q P (snd (operations_metrics ns co))"
  by (induction ns arbitrary: co) (auto simp: split_def Let_def intro: inv_operationMetrics)

lemma inv_Metrics: "inv_co Q P co \<Longrightarrow> inv_co Q P (snd (Metrics e co))"
  by (simp add: Metrics_def Let_def split_def inv_operations_metrics inv_settle inv_expireAll)

end

lemma ch_name_normalize [simp]: "ch_name (normalize s) = ch_name s"
  by (simp add: normalize_def Let_def split: option.split)

lemma normalize_partitions_less:
  "p_partitions (ch_partitioning s) < 2 ^ 31 \<Longrightarrow> p_partitions (ch_partitioning (normalize s)) < 2 ^ 31"
  by (simp add: normalize_def Let_def split: option.split)

lemma map_of_configure1:
  "n \<noteq> ch_name s \<Longrightarrow> map_of (co_channels (configure1 s co)) n = map_of (co_channels co) n"
  by (simp add: configure1_def Let_def map_of_upd_channel map_simps split: option.split)

context coordinator_contract
begin

text \<open>A declaration that agrees with what the channel already is.\<close>

definition agrees :: "coordinator \<Rightarrow> Channel \<Rightarrow> bool" where
  "agrees co s \<longleftrightarrow> p_partitions (ch_partitioning s) < 2 ^ 31 \<and>
     (\<forall>c. map_of (co_channels co) (ch_name s) = Some c \<longrightarrow>
        ch_partitioning (normalize s) = ch_partitioning (c_spec c)
        \<and> ch_to (normalize s) = ch_to (c_spec c) \<and> ch_feedback (normalize s) = ch_feedback (c_spec c))"

lemma inv_new_channel:
  assumes "inv_co Q P co" and "Q c" and "map_of (co_channels co) n = None"
  shows "inv_co Q P (co\<lparr>co_channels := AList.update n c (co_channels co)\<rparr>)"
  using assms set_update_iff [of "co_channels co"]
  by (auto simp: inv_co_def good_def list_all_iff split: if_splits)

lemma inv_configure1:
  assumes "inv_co Q P co" and "agrees co s"
  shows "inv_co Q P (configure1 s co)"
proof (cases "map_of (co_channels co) (ch_name s)")
  case None
  have "Q (new_channel (normalize s))"
    by (intro channel.new normalize_partitions normalize_partitions_less) (use assms(2) in \<open>simp add: agrees_def\<close>)
  then show ?thesis
    using None by (auto simp: configure1_def Let_def intro!: inv_ensure_op inv_new_channel assms)
next
  case (Some c)
  then show ?thesis
    using assms by (auto simp: configure1_def Let_def agrees_def intro!: inv_upd_channel channel.respec)
qed

lemma inv_configure:
  assumes "inv_co Q P co" and "distinct (map ch_name specs)" and "\<And>s. s \<in> set specs \<Longrightarrow> agrees co s"
  shows "inv_co Q P (fold configure1 specs co)"
  using assms
proof (induction specs arbitrary: co)
  case (Cons s specs)
  have "agrees (configure1 s co) s'" if "s' \<in> set specs" for s'
  proof -
    have "ch_name s' \<noteq> ch_name s" using Cons.prems(2) that by (metis distinct.simps(2) image_eqI list.simps(9) set_map)
    then show ?thesis using Cons.prems(3) [of s'] that by (simp add: agrees_def map_of_configure1)
  qed
  then show ?case using Cons.prems by (auto intro!: Cons.IH inv_configure1)
qed simp

lemma inv_Configure:
  assumes "inv_co Q P co" and "configurable specs co"
  shows "inv_co Q P (snd (Configure e specs co))"
proof -
  let ?co = "fold configure1 specs co"
  have "agrees co s" if "s \<in> set specs" for s
    using assms(2) that by (auto simp: configurable_def agrees_def list_all_iff Let_def)
  then have 1: "inv_co Q P ?co"
    using assms by (intro inv_configure) (auto simp: configurable_def)
  have fin: "c_finiteEpochs (mark_channel (specs_of ?co) c) \<longrightarrow> c_finiteEpochs c \<or> pristine c"
    if "(n, c) \<in> set (co_channels ?co)" for n c
    using assms(2) that by (auto simp: configurable_def list_all_iff Let_def)
  have "good Q P (map_channels (mark_channel (specs_of ?co)) ?co)" if "good Q P ?co"
    using that fin by (fastforce simp: good_def map_channels_def list_all_iff set_map_vals intro!: channel.mark)
  with 1 have "inv_co Q P (markFiniteEpochChannels ?co)"
    by (simp add: inv_co_def markFiniteEpochChannels_def)
  then show ?thesis by (simp add: Configure_def inv_commit)
qed

end

end
