(* ===== verification/Server.thy ===== *)
theory Server
  imports Reporting
begin

text \<open>
  The HTTP interface of the coordinator, after \<^verbatim>\<open>pkg/coordinator/server.go\<close>.

  A \<open>request\<close> is one call of a registered route after path, headers and query have been read:
  the calling operation and incarnation are the two request headers, \<open>Undecodable\<close> is a body
  the JSON decoder rejects, and an integer query parameter is the value \<^verbatim>\<open>strconv.Atoi\<close> gives
  (0 when it is missing or malformed). A \<open>response\<close> is the status and the value that is
  encoded into the body. The metrics page is kept as the list of its metric families; the
  quoting of label values is not modelled.

  The routes change the coordinator one at a time, under its mutex; \<open>later\<close> are the states a
  waiting reader of records sees at its wake-ups.
\<close>

datatype request =
    PutTopology "Channel list" | GetTopology | PutOperations "OperationSpec list" | GetMetrics
  | GetPrometheus | GetHealth | GetEditor
  | PostRegister PodRegistration | PostSourceDone PodRegistration
  | PostOperationEpochDone string string string int
  | GetReleased string string string
  | PostAppends string string string string AppendBatch
  | PutSubscription string string string
  | GetSubscriptionConsume string string string string int
  | PostSubscriptionAck string string string string "SubscriptionAck list"
  | PostReplay string string "PartitionPosition list"
  | PostRetention string "PartitionPosition list"
  | PostSegments string string string string "SegmentAnnouncement list"
  | GetConsume string string string string int
  | PostAck string string string string "SegmentAck list"
  | PostNack string string string string "SegmentAck list"
  | PostSeal string
  | PostEpochDone string string string string int
  | PostRecords string string "Record list"
  | GetRecords string string int int
  | Undecodable

record family =
  fam_name :: string
  fam_help :: string
  fam_kind :: string
  fam_rows :: "(string \<times> string \<times> int) list"

datatype body =
    NoBody | Message error | Text string | Channels "Channel list" | MetricsBody Metrics
  | Families "family list" | EditorPage | IDs "string list" | Position PartitionPosition
  | Work ConsumeResponse | RecordsBody "Record list" | RecordsFrom nat "Record list"

record response =
  status :: int
  body :: body

definition writeJSON :: "body \<Rightarrow> response" where
  "writeJSON b = \<lparr>status = 200, body = b\<rparr>"

definition fail :: "unit result \<Rightarrow> response" where
  "fail r =
     (case r of
        Inr _ \<Rightarrow> \<lparr>status = 204, body = NoBody\<rparr>
      | Inl (Error st msg) \<Rightarrow> \<lparr>status = st, body = Message (Error st msg)\<rparr>
      | Inl (Fault msg) \<Rightarrow> \<lparr>status = 500, body = Message (Fault msg)\<rparr>)"

definition reply :: "('a \<Rightarrow> body) \<Rightarrow> 'a result \<times> coordinator \<Rightarrow> response \<times> coordinator" where
  "reply f r = (case r of (Inl err, co) \<Rightarrow> (fail (Inl err), co) | (Inr x, co) \<Rightarrow> (writeJSON (f x), co))"

definition finish :: "unit result \<times> coordinator \<Rightarrow> response \<times> coordinator" where
  "finish r = (fail (fst r), snd r)"

subsection \<open>The metrics page\<close>

definition channel_families :: "string \<Rightarrow> ChannelMetrics list \<Rightarrow> family list" where
  "channel_families graph ms =
     map (\<lambda>(n, h, k, value). \<lparr>fam_name = n, fam_help = h, fam_kind = k,
            fam_rows = map (\<lambda>m. (graph, cm_name m, value m)) ms\<rparr>)
       [(''stark8s_channel_produced_records_total'', ''Records produced on a channel.'', ''counter'', cm_produced),
        (''stark8s_channel_acknowledged_records_total'', ''Consumer record acknowledgements accepted for a channel.'', ''counter'', cm_acknowledged),
        (''stark8s_channel_pending_records'', ''Records waiting for delivery on a channel.'', ''gauge'', cm_pending),
        (''stark8s_channel_in_flight_records'', ''Delivered records awaiting acknowledgement on a channel.'', ''gauge'', cm_inFlight),
        (''stark8s_channel_lost_records_total'', ''Records lost with an unavailable segment holder.'', ''counter'', cm_lost),
        (''stark8s_channel_overflowed_records_total'', ''Records diverted or dropped at a feedback bound.'', ''counter'', cm_overflowed),
        (''stark8s_channel_committed_epoch'', ''Current committed synchronous feedback epoch.'', ''gauge'', cm_epoch)]"

definition operation_families :: "string \<Rightarrow> OperationMetrics list \<Rightarrow> family list" where
  "operation_families graph ms =
     map (\<lambda>(n, h, value). \<lparr>fam_name = n, fam_help = h, fam_kind = ''gauge'',
            fam_rows = map (\<lambda>m. (graph, om_name m, value m)) ms\<rparr>)
       [(''stark8s_operation_runnable_tasks'', ''Runnable partition tasks for an operation.'', om_runnableTasks),
        (''stark8s_operation_live_pods'', ''Registered live pods for an operation.'', om_livePods)]"

definition writePrometheus :: "string \<Rightarrow> Metrics \<Rightarrow> family list" where
  "writePrometheus graph m =
     channel_families graph (sort_key cm_name (m_channels m))
     @ operation_families graph (sort_key om_name (m_operations m))"

subsection \<open>Routes\<close>

fun serve :: "env \<Rightarrow> coordinator list \<Rightarrow> string \<Rightarrow> request \<Rightarrow> coordinator \<Rightarrow> response \<times> coordinator" where
  "serve e later g (PutTopology specs) co = finish (Configure e specs co)"
| "serve e later g GetTopology co = (writeJSON (Channels (Topology co)), co)"
| "serve e later g (PutOperations specs) co = (fail (Inr ()), SetOperations specs co)"
| "serve e later g GetMetrics co = (let (m, co1) = Metrics e co in (writeJSON (MetricsBody m), co1))"
| "serve e later g GetPrometheus co =
     (let (m, co1) = Metrics e co in (writeJSON (Families (writePrometheus g m)), co1))"
| "serve e later g GetHealth co = (fail (Inr ()), co)"
| "serve e later g GetEditor co = (writeJSON EditorPage, co)"
| "serve e later g (PostRegister reg) co = finish (Register e reg co)"
| "serve e later g (PostSourceDone reg) co = finish (SourceDone e reg co)"
| "serve e later g (PostOperationEpochDone opName pod inc epoch) co =
     finish (OperationEpochDoneSession e opName pod inc (wrap32 epoch) co)"
| "serve e later g (GetReleased opName pod inc) co = reply IDs (ReleasedSession e opName pod inc co)"
| "serve e later g (PostAppends c opName pod inc batch) co =
     (if opName \<noteq> '''' \<and> pod = ''''
      then (\<lparr>status = 400, body = Text ''pod is required for an operation writer''\<rparr>, co)
      else reply (\<lambda>off. Position \<lparr>pp_partition = ab_partition batch, pp_offset = off\<rparr>)
             (AppendSession e c opName pod inc batch co))"
| "serve e later g (PutSubscription c s opName) co = finish (SetSubscription e c s opName co)"
| "serve e later g (GetSubscriptionConsume c s pod inc limit) co =
     reply Work (ConsumeSubscription e c s pod inc limit co)"
| "serve e later g (PostSubscriptionAck c s pod inc acks) co = finish (AckSubscription e c s pod inc acks co)"
| "serve e later g (PostReplay c s qs) co = finish (ReplaySubscription e c s qs co)"
| "serve e later g (PostRetention c qs) co = finish (DeleteRetainedBefore e c qs co)"
| "serve e later g (PostSegments c opName pod inc anns) co =
     finish (AnnounceSession e c opName pod inc anns co)"
| "serve e later g (GetConsume c opName pod inc limit) co =
     reply Work (ConsumeSession e c opName pod inc (if limit \<le> 0 then 100 else limit) co)"
| "serve e later g (PostAck c opName pod inc acks) co = finish (AckSession e c opName pod inc acks co)"
| "serve e later g (PostNack c opName pod inc acks) co = finish (NackSession e c opName pod inc acks co)"
| "serve e later g (PostSeal c) co = finish (Seal e c co)"
| "serve e later g (PostEpochDone c opName pod inc epoch) co =
     finish (EpochDoneSession e c opName pod inc (wrap32 epoch) co)"
| "serve e later g (PostRecords c opName recs) co = finish (Produce e c opName recs co)"
| "serve e later g (GetRecords c k after wait) co =
     (case Records c k after (0 < wait) co later of
        Inl err \<Rightarrow> (fail (Inl err), co)
      | Inr (recs, nxt) \<Rightarrow> (writeJSON (RecordsFrom nxt recs), co))"
| "serve e later g Undecodable co = (\<lparr>status = 400, body = NoBody\<rparr>, co)"

text \<open>A coordinator whose durable writer has failed answers 503 to everything.\<close>

definition HandlerForGraph ::
  "env \<Rightarrow> coordinator list \<Rightarrow> string \<Rightarrow> request \<Rightarrow> coordinator \<Rightarrow> response \<times> coordinator" where
  "HandlerForGraph e later g req co =
     (case failure co of
        Some err \<Rightarrow> (\<lparr>status = 503, body = Message err\<rparr>, co)
      | None \<Rightarrow> serve e later g req co)"

definition Handler :: "env \<Rightarrow> coordinator list \<Rightarrow> request \<Rightarrow> coordinator \<Rightarrow> response \<times> coordinator" where
  "Handler e later req co = HandlerForGraph e later '''' req co"

definition SegmentHandler :: "string \<Rightarrow> coordinator \<Rightarrow> response" where
  "SegmentHandler sid co =
     (case failure co of
        Some err \<Rightarrow> \<lparr>status = 503, body = Message err\<rparr>
      | None \<Rightarrow>
          (case Segment sid co of
             None \<Rightarrow> \<lparr>status = 404, body = Text ''segment not found''\<rparr>
           | Some recs \<Rightarrow> writeJSON (RecordsBody recs)))"

end
