(* ===== verification/Runs.thy ===== *)
theory Runs
  imports Handlers Server
begin

text \<open>
  The coordinator as a state machine: which requests are within its documented use, the states
  it can reach by serving them in any order, and the invariant those states have.

  \<open>chan_ok\<close> joins the four invariants of a channel (shape, placement, accounting, epochs), and
  the two contracts are interpreted on the model: \<open>chan_ok\<close> for the channels, \<open>op_ok\<close> for the
  operations.
\<close>

definition chan_ok :: "channel \<Rightarrow> bool" where
  "chan_ok c \<longleftrightarrow> wfc c \<and> placed c \<and> balanced c \<and> epochs_ok c"

lemma chan_okD: "chan_ok c \<Longrightarrow> wfc c" "chan_ok c \<Longrightarrow> placed c" "chan_ok c \<Longrightarrow> balanced c" "chan_ok c \<Longrightarrow> epochs_ok c"
  by (simp_all add: chan_ok_def)

text \<open>A step that neither brings a segment within reach nor moves records between counters.\<close>

lemma chan_ok_steady:
  "chan_ok c \<Longrightarrow> wfc c' \<Longrightarrow> placed c' \<Longrightarrow> steady c c' \<Longrightarrow> within c c' \<Longrightarrow> chan_ok c'"
  by (auto simp: chan_ok_def intro: steady_balanced within_epochs)

text \<open>The last three invariants say nothing about a channel without a consumer.\<close>

lemma chan_ok_external: "wfc c \<Longrightarrow> external c \<Longrightarrow> chan_ok c"
  by (simp add: chan_ok_def placed_def balanced_def epochs_ok_def partitioned_def)

lemma spec_nack1 [simp]: "c_spec (nack1 now w owned a c) = c_spec c"
  using steady_nack1 [of c now w owned a] by (simp add: steady_def)

lemma external_spec: "c_spec c' = c_spec c \<Longrightarrow> external c' = external c"
  by (simp add: external_def)

lemma chan_ok_subs:
  "chan_ok c \<Longrightarrow> wfc (c\<lparr>c_subscriptions := m\<rparr>) \<Longrightarrow> chan_ok (c\<lparr>c_subscriptions := m\<rparr>)"
  by (rule chan_ok_steady [of c]) (simp_all add: chan_ok_def)

lemma chan_ok_upd_sub:
  "chan_ok c \<Longrightarrow> wfc (upd_sub n f c) \<Longrightarrow> chan_ok (upd_sub n f c)"
  unfolding upd_sub_def by (rule chan_ok_subs)

lemma pristine_epochs: "wfc c \<Longrightarrow> pristine c \<Longrightarrow> epochs_ok c"
  by (auto simp: epochs_ok_def pristine_def reach_def wfc_def refs_ok_def all_refs_def)

lemma chan_ok_mark:
  assumes "chan_ok c" and "c_finiteEpochs (mark_channel cs c) \<Longrightarrow> c_finiteEpochs c \<or> pristine c"
  shows "chan_ok (mark_channel cs c)"
proof -
  have wf: "wfc (mark_channel cs c)" using assms(1) by (simp add: chan_ok_def wf_mark_channel)
  have "epochs_ok (mark_channel cs c)"
  proof (cases "pristine c")
    case True
    then have "pristine (mark_channel cs c)" by (simp add: pristine_def mark_channel_def Let_def)
    then show ?thesis by (rule pristine_epochs [OF wf])
  next
    case False
    show ?thesis
    proof (cases "c_finiteEpochs (mark_channel cs c)")
      case True
      with assms(2) False show ?thesis
        using assms(1) by (intro epochs_mark_channel) (auto simp: chan_ok_def)
    qed (simp add: epochs_ok_def)
  qed
  then show ?thesis
    using assms(1) wf steady_balanced [OF steady_mark_channel] by (simp add: chan_ok_def)
qed

interpretation channels: channel_contract chan_ok
proof (unfold_locales, goal_cases)
  case (1 c) then show ?case by (auto simp: chan_ok_def wfc_def sized_def)
next
  case (2 s) then show ?case
    by (simp add: chan_ok_def wf_new_channel placed_new_channel balanced_new_channel epochs_new_channel)
next
  case (3 c s) then show ?case by (simp add: chan_ok_def wf_respec placed_respec balanced_respec epochs_respec)
next
  case (4 c cs) then show ?case by (rule chan_ok_mark)
next
  case (5 c sg) then show ?case
    by (simp add: chan_ok_def wf_index placed_index balanced_index epochs_index)
next
  case (6 c i) show ?case by (rule chan_ok_steady [OF 6]) (use 6 in \<open>simp_all add: chan_ok_def\<close>)
next
  case (7 c n) show ?case by (rule chan_ok_steady [OF 7]) (use 7 in \<open>simp_all add: chan_ok_def\<close>)
next
  case (8 c rs i) then show ?case by (intro chan_ok_external) (simp_all add: chan_ok_def)
next
  case (9 c w) then show ?case
    using within_epochs [OF within_lose_channel] by (simp add: chan_ok_def wf_lose_channel placed_lose_channel balanced_lose_channel)
next
  case (10 c opName w inc everything) show ?case
    by (rule chan_ok_steady [OF 10]) (use 10 in \<open>auto simp: chan_ok_def intro: wf_return_channel placed_return_channel
        steady_return_channel within_return_channel\<close>)
next
  case (11 c w) show ?case
    by (rule chan_ok_steady [OF 11]) (use 11 in \<open>auto simp: chan_ok_def forget_channel_def intro: wf_forget_channel [unfolded forget_channel_def]
        placed_forget_channel [unfolded forget_channel_def]\<close>)
next
  case (12 c w) show ?case
    by (rule chan_ok_steady [OF 12]) (use 12 in \<open>auto simp: chan_ok_def enter_channel_def wf_cursor_upd steady_def within_def reach_def\<close>)
next
  case (13 c now w dk p limit o1) show ?case
    by (rule chan_ok_steady [OF 13]) (use 13 in \<open>auto simp: chan_ok_def intro: wf_consume_work placed_consume_work
        steady_consume_work within_consume_work\<close>)
next
  case (14 c po pods w inc a) then show ?case
    using within_epochs [OF within_ack1] by (simp add: chan_ok_def wf_ack1 placed_ack1 balanced_ack1)
next
  case (15 c now w owned a)
  show ?case
  proof (cases "external c")
    case True
    with 15 show ?thesis by (intro chan_ok_external) (auto simp: chan_ok_def wf_nack1 external_def)
  next
    case False
    then show ?thesis
      using 15 steady_balanced [OF steady_nack1] within_epochs [OF within_nack1]
      by (simp add: chan_ok_def wf_nack1 placed_nack1)
  qed
next
  case (16 c o1) then show ?case
    using within_epochs [OF within_releaseBroadcast]
    by (simp add: chan_ok_def wf_releaseBroadcast placed_releaseBroadcast balanced_releaseBroadcast)
next
  case (17 c) then show ?case
    using within_epochs [OF within_seal_channel]
    by (simp add: chan_ok_def wf_seal_channel placed_seal_channel balanced_seal_channel)
next
  case (18 c s') show ?case by (rule chan_ok_steady [OF 18]) (use 18 in \<open>simp_all add: chan_ok_def\<close>)
next
  case (19 c) then show ?case
    using steady_balanced [OF steady_advanceEpoch]
    by (simp add: chan_ok_def wf_advanceEpoch placed_advanceEpoch epochs_advanceEpoch)
next
  case (20 c m) show ?case by (rule chan_ok_steady [OF 20]) (use 20 in \<open>simp_all add: chan_ok_def\<close>)
next
  case (21 c n' opName) then show ?case by (intro chan_ok_subs) (auto dest: chan_okD(1) intro: wf_new_subscription)
next
  case (22 c n' sub ps owner limit r sub' panic)
  then have "sub_ok c sub' \<and> \<not> panic"
    by (intro subscription_work_ok) (auto dest!: chan_okD(1) map_of_SomeD intro: wf_sub_ok)
  with 22 show ?case by (auto intro!: chan_ok_upd_sub wf_upd_sub dest: chan_okD(1))
next
  case (23 c n' sub owner acks sub' panic)
  then have "sub_ok c sub' \<and> \<not> panic"
    using sub_ok_acks [of c "(sub, False)" owner acks] by (auto dest!: chan_okD(1) map_of_SomeD intro: wf_sub_ok)
  with 23 show ?case by (auto intro!: chan_ok_upd_sub wf_upd_sub dest: chan_okD(1))
next
  case (24 c n' sub qs)
  then have "sub_ok c (fold move_cursor qs sub)"
    using sub_ok_move [of c sub qs] by (auto dest!: chan_okD(1) map_of_SomeD intro: wf_sub_ok)
  with 24 show ?case by (auto intro!: chan_ok_upd_sub wf_upd_sub dest: chan_okD(1))
next
  case (25 c qs st msg)
  have "c_spec (fold delete_before qs c) = c_spec c" for c by (induction qs arbitrary: c) simp_all
  then have "external (fold delete_before qs c)" using 25(2) by (simp add: external_def)
  then show ?case
    using 25 by (intro chan_ok_external wf_delete_all) (auto dest: chan_okD(1) intro: check_positions_ok)
qed

interpretation operations: operation_contract op_ok
  by unfold_locales
    (auto simp: op_ok_new op_ok_mark_epoch intro: op_ok_touch op_ok_drop_pod op_ok_return op_ok_assigned
      op_ok_consume_work op_ok_replace op_ok_enrol op_ok_set_pod)

interpretation machine: coordinator_contract chan_ok op_ok
  by unfold_locales

subsection \<open>Requests within the documented use\<close>

text \<open>
  A topology declaration keeps what it declared before (\<open>configurable\<close>), an epoch number is not
  the largest \<^verbatim>\<open>int32\<close>, and retention is asked for once per partition and on a channel that no
  operation consumes. The three restrictions are needed: each excluded request can make the
  coordinator panic or lose track of records.
\<close>

fun admissible :: "request \<Rightarrow> coordinator \<Rightarrow> bool" where
  "admissible (PutTopology specs) co = configurable specs co"
| "admissible (PostOperationEpochDone opName pod inc epoch) co = (wrap32 epoch < 2 ^ 31 - 1)"
| "admissible (PostEpochDone c opName pod inc epoch) co = (wrap32 epoch < 2 ^ 31 - 1)"
| "admissible (PostRetention c qs) co =
     (distinct (map pp_partition qs)
      \<and> (case map_of (co_channels co) c of None \<Rightarrow> True | Some ch \<Rightarrow> external ch))"
| "admissible _ co = True"

inductive reachable :: "coordinator \<Rightarrow> bool" where
  start: "reachable ((New addr)\<lparr>co_durable := b\<rparr>)"
| step: "reachable co \<Longrightarrow> admissible req co \<Longrightarrow> reachable (snd (HandlerForGraph e later g req co))"

lemma snd_finish [simp]: "snd (finish r) = snd r"
  by (simp add: finish_def)

lemma snd_reply [simp]: "snd (reply f r) = snd r"
  by (simp add: reply_def split: prod.split sum.split)

lemmas machine_inv = machine.inv_Configure machine.inv_SetOperations machine.inv_Metrics
  machine.inv_Register machine.inv_SourceDone machine.inv_OperationEpochDoneSession
  machine.inv_ReleasedSession machine.inv_AppendSession machine.inv_SetSubscription
  machine.inv_ConsumeSubscription machine.inv_AckSubscription machine.inv_ReplaySubscription
  machine.inv_AnnounceSession machine.inv_ConsumeSession machine.inv_AckSession machine.inv_NackSession
  machine.inv_Seal machine.inv_EpochDoneSession machine.inv_Produce

lemma inv_serve:
  assumes "inv_co chan_ok op_ok co" and "admissible req co"
  shows "inv_co chan_ok op_ok (snd (serve e later g req co))"
proof (cases req)
  case (PostRetention c qs)
  then show ?thesis
    using assms machine.inv_DeleteRetainedBefore [OF assms(1), of qs c e] by (auto split: option.splits)
qed (use assms in \<open>auto simp: machine_inv split_def Let_def split: sum.split\<close>)

lemma inv_HandlerForGraph:
  "inv_co chan_ok op_ok co \<Longrightarrow> admissible req co \<Longrightarrow> inv_co chan_ok op_ok (snd (HandlerForGraph e later g req co))"
  by (auto simp: HandlerForGraph_def inv_serve split: option.split)

lemma reachable_inv: "reachable co \<Longrightarrow> inv_co chan_ok op_ok co"
proof (induction rule: reachable.induct)
  case (start addr b)
  then show ?case by (simp add: inv_co_def good_def New_def)
qed (rule inv_HandlerForGraph)

lemma reachable_chan_ok:
  "reachable co \<Longrightarrow> failure co = None \<Longrightarrow> (n, c) \<in> set (co_channels co) \<Longrightarrow> chan_ok c"
  by (auto dest!: reachable_inv simp: inv_co_def failure_def good_def list_all_iff)

lemma reachable_op_ok:
  "reachable co \<Longrightarrow> failure co = None \<Longrightarrow> (n, o1) \<in> set (co_ops co) \<Longrightarrow> op_ok o1"
  by (auto dest!: reachable_inv simp: inv_co_def failure_def good_def list_all_iff)

end
