(* ===== verification/Samples.thy ===== *)
theory Samples
  imports Runs
begin

text \<open>
  A small workload served by the model, used as the concrete input of the witnesses: \<open>split\<close>
  produces on the hash channel \<open>words\<close>, which \<open>count\<close> consumes, and \<open>count\<close> writes to the
  channel \<open>totals\<close>, which has no consumer.
\<close>

definition sample_env :: env where
  "sample_env = \<lparr>env_now = 0, env_commit = None, env_put = (\<lambda>_. None)\<rparr>"

definition words_spec :: Channel where
  "words_spec = \<lparr>ch_name = ''words'', ch_from = ''split'', ch_to = ''count'',
     ch_partitioning = \<lparr>p_mode = PartitionHash, p_partitions = 2\<rparr>, ch_delivery = DeliveryPipelined,
     ch_durability = DurabilityEphemeral, ch_combine = CombineNone, ch_feedback = None\<rparr>"

definition totals_spec :: Channel where
  "totals_spec = \<lparr>ch_name = ''totals'', ch_from = ''count'', ch_to = '''',
     ch_partitioning = \<lparr>p_mode = PartitionRoundRobin, p_partitions = 1\<rparr>, ch_delivery = DeliveryPipelined,
     ch_durability = DurabilityRetained, ch_combine = CombineNone, ch_feedback = None\<rparr>"

definition sample_registration :: "string \<Rightarrow> string \<Rightarrow> PodRegistration" where
  "sample_registration opName w =
     \<lparr>reg_operation = opName, reg_pod = w, reg_incarnation = ''i1'', reg_addr = ''h:1'', reg_slots = 1\<rparr>"

definition sample_ann :: "string \<Rightarrow> int \<Rightarrow> int \<Rightarrow> SegmentAnnouncement" where
  "sample_ann sid part n =
     \<lparr>a_id = sid, a_appendID = '''', a_channel = ''words'', a_partition = part, a_epoch = 0, a_records = n,
      a_bytes = 10, a_holder = ''h:1'', a_producer = ''s0'', a_durable = False,
      a_task = \<lparr>t_channel = '''', t_partition = 0, t_epoch = 0, t_attempt = 0\<rparr>, a_overflowed = 0\<rparr>"

definition sample_ack :: "string \<Rightarrow> SegmentAck" where
  "sample_ack sid = \<lparr>k_id = sid, k_appendID = '''', k_holder = ''h:1'', k_pod = '''', k_failure = '''',
     k_retryAfterMillis = 0\<rparr>"

definition serve_all :: "request list \<Rightarrow> coordinator \<Rightarrow> coordinator" where
  "serve_all reqs co = fold (\<lambda>req co1. snd (HandlerForGraph sample_env [] ''g'' req co1)) reqs co"

definition sample_setup :: "request list" where
  "sample_setup =
     [PutTopology [words_spec, totals_spec], PostRegister (sample_registration ''split'' ''s0''),
      PostRegister (sample_registration ''count'' ''c0''),
      PostSegments ''words'' ''split'' ''s0'' ''i1'' [sample_ann ''a'' 0 3, sample_ann ''b'' 1 4]]"

definition sample_state :: coordinator where
  "sample_state = serve_all (sample_setup @
     [GetConsume ''words'' ''count'' ''c0'' ''i1'' 1,
      PostAck ''words'' ''count'' ''c0'' ''i1'' [sample_ack ''a'']]) (New ''h:0'')"

text \<open>Serving admissible requests from the start leads to a reachable state.\<close>

primrec admissible_all :: "request list \<Rightarrow> coordinator \<Rightarrow> bool" where
  "admissible_all [] co = True"
| "admissible_all (req # reqs) co =
     (admissible req co \<and> admissible_all reqs (snd (HandlerForGraph sample_env [] ''g'' req co)))"

lemma serve_all_simps [simp]:
  "serve_all [] co = co"
  "serve_all (req # reqs) co = serve_all reqs (snd (HandlerForGraph sample_env [] ''g'' req co))"
  by (simp_all add: serve_all_def)

lemma reachable_serve_all: "reachable co \<Longrightarrow> admissible_all reqs co \<Longrightarrow> reachable (serve_all reqs co)"
  by (induction reqs arbitrary: co) (auto intro: reachable.step)

lemma reachable_New: "reachable (New addr)"
proof -
  have "(New addr)\<lparr>co_durable := False\<rparr> = New addr" by (simp add: New_def)
  then show ?thesis using reachable.start [where addr = addr and b = False] by simp
qed

lemma sample_reachable: "reachable sample_state"
proof -
  have "admissible_all (sample_setup @ [GetConsume ''words'' ''count'' ''c0'' ''i1'' 1,
      PostAck ''words'' ''count'' ''c0'' ''i1'' [sample_ack ''a'']]) (New ''h:0'')"
    by code_simp
  then show ?thesis unfolding sample_state_def by (rule reachable_serve_all [OF reachable_New])
qed

text \<open>What the sample state holds: segment \<open>a\<close> is acknowledged, segment \<open>b\<close> is queued.\<close>

definition sample_words :: channel where
  "sample_words = the (map_of (co_channels sample_state) ''words'')"

definition sample_check :: "coordinator \<Rightarrow> bool" where
  "sample_check co \<longleftrightarrow> failure co = None \<and>
     (case map_of (co_channels co) ''words'' of
        None \<Rightarrow> False
      | Some c \<Rightarrow> c_queues c = [[], [1]] \<and> c_produced c = 7 \<and> c_acknowledged c = 3
                  \<and> partitioned c \<and> \<not> synchronous c \<and> \<not> external c \<and> ch_to (c_spec c) = ''count'')
     \<and> (case map_of (co_channels co) ''totals'' of None \<Rightarrow> False | Some d \<Rightarrow> ch_from (c_spec d) = ''count'')
     \<and> (case map_of (co_ops co) ''count'' of
          None \<Rightarrow> False
        | Some o1 \<Rightarrow> (case map_of (o_pods o1) ''c0'' of None \<Rightarrow> False | Some p \<Rightarrow> p_incarnation p = ''i1''))"

lemma sample_checked: "sample_check sample_state"
  by code_simp

lemma sample_words: "map_of (co_channels sample_state) ''words'' = Some sample_words"
  using sample_checked by (auto simp: sample_check_def sample_words_def split: option.splits)

lemma sample_words_in: "(''words'', sample_words) \<in> set (co_channels sample_state)"
  using sample_words by (rule map_of_SomeD)

lemma sample_running: "failure sample_state = None"
  using sample_checked by (simp add: sample_check_def)

lemma sample_counts:
  "c_queues sample_words = [[], [1]]" "c_produced sample_words = 7" "c_acknowledged sample_words = 3"
  "partitioned sample_words" "\<not> synchronous sample_words"
  using sample_checked by (simp_all add: sample_check_def sample_words)

definition sample_count :: operation where
  "sample_count = the (map_of (co_ops sample_state) ''count'')"

definition sample_worker :: pod where
  "sample_worker = the (map_of (o_pods sample_count) ''c0'')"

lemma sample_ops:
  "map_of (co_ops sample_state) ''count'' = Some sample_count"
  "map_of (o_pods sample_count) ''c0'' = Some sample_worker" "p_incarnation sample_worker = ''i1''"
  using sample_checked
  by (auto simp: sample_check_def sample_count_def sample_worker_def split: option.splits)

lemma sample_words_spec: "\<not> external sample_words" "ch_to (c_spec sample_words) = ''count''"
  using sample_checked by (simp_all add: sample_check_def sample_words)

text \<open>The report on the sample state.\<close>

definition metrics_check :: "Metrics \<times> coordinator \<Rightarrow> bool" where
  "metrics_check r \<longleftrightarrow>
     (case m_channels (fst r) of
        [t, w] \<Rightarrow> cm_name w = ''words'' \<and> cm_produced w = 7 \<and> cm_pending w = 4 \<and> cm_acknowledged w = 3
      | _ \<Rightarrow> False)
     \<and> (case map_of (co_channels (snd r)) ''words'' of
          None \<Rightarrow> False | Some c \<Rightarrow> partitioned c \<and> \<not> synchronous c)"

lemma sample_metrics: "metrics_check (Metrics sample_env sample_state)"
  by code_simp

text \<open>
  A loop: \<open>step\<close> consumes \<open>feed\<close> from \<open>src\<close> and its own synchronous feedback channel \<open>loop\<close>.
  Segments of epochs 0 and 1 were announced on \<open>feed\<close>.
\<close>

definition feed_spec :: Channel where
  "feed_spec = words_spec\<lparr>ch_name := ''feed'', ch_from := ''src'', ch_to := ''step''\<rparr>"

definition loop_spec :: Channel where
  "loop_spec = words_spec\<lparr>ch_name := ''loop'', ch_from := ''step'', ch_to := ''step'',
     ch_feedback := Some \<lparr>f_mode = FeedbackSynchronous, f_maxEpochs = 3, f_overflow = ''''\<rparr>\<rparr>"

definition loop_setup :: "request list" where
  "loop_setup =
     [PutTopology [feed_spec, loop_spec], PostRegister (sample_registration ''src'' ''s0''),
      PostRegister (sample_registration ''step'' ''c0''),
      PostSegments ''feed'' ''src'' ''s0'' ''i1''
        [(sample_ann ''a'' 0 3)\<lparr>a_channel := ''feed''\<rparr>,
         (sample_ann ''b'' 0 4)\<lparr>a_channel := ''feed'', a_epoch := 1\<rparr>]]"

definition loop_state :: coordinator where
  "loop_state = serve_all loop_setup (New ''h:0'')"

lemma loop_reachable: "reachable loop_state"
proof -
  have "admissible_all loop_setup (New ''h:0'')" by code_simp
  then show ?thesis unfolding loop_state_def by (rule reachable_serve_all [OF reachable_New])
qed

definition loop_check :: "ConsumeResponse result \<Rightarrow> bool" where
  "loop_check r \<longleftrightarrow>
     (case r of
        Inl _ \<Rightarrow> False
      | Inr resp \<Rightarrow> resp_finiteEpochs resp \<and> resp_epoch resp = 0
          \<and> map (\<lambda>w. map ref_id (w_segments w)) (resp_work resp) = [[''a'']])"

lemma loop_consumes: "loop_check (fst (ConsumeSession sample_env ''feed'' ''step'' ''c0'' ''i1'' 100 loop_state))"
  by code_simp

end
