(* ===== verification/Guarantees.thy ===== *)
theory Guarantees
  imports Samples
begin

text \<open>
  What every client of the coordinator can rely on, whatever requests were served before: the
  properties of reachable states, and what a request does that the caller is not entitled to.
\<close>

subsection \<open>Reachable states\<close>





lemma channels_operations_metrics [simp]: "co_channels (snd (operations_metrics ns co)) = co_channels co"
  by (induction ns arbitrary: co) (simp_all add: operationMetrics_def split_def Let_def)

lemma failed_operations_metrics [simp]: "co_failed (snd (operations_metrics ns co)) = co_failed co"
  by (induction ns arbitrary: co) (simp_all add: operationMetrics_def split_def Let_def)

lemma frame_settle [simp]: "co_failed (settle co) = co_failed co"
  unfolding settle_def
  by (rule fold_inv [of "\<lambda>s. co_failed s = co_failed co"])
    (auto simp: settle1_def Let_def Progress.seal_def split: option.split)

lemma frame_expireAllExcept [simp]: "co_failed (expireAllExcept e opName w co) = co_failed co"
  unfolding expireAllExcept_def
  by (rule fold_inv [of "\<lambda>s. co_failed s = co_failed co"])
    (auto simp: expireHolder_def expireConsumer_def returnConsumerDeliveries_def)

lemma frame_expireAll [simp]: "co_failed (expireAll e co) = co_failed co"
  by (simp add: expireAll_def)

lemma channelMetrics_sum:
  assumes "chan_ok c" and "partitioned c" and "\<not> synchronous c"
  shows "cm_produced (channelMetrics n c) = cm_pending (channelMetrics n c) + cm_inFlight (channelMetrics n c)
    + cm_acknowledged (channelMetrics n c) + cm_lost (channelMetrics n c)"
  using assms tally_reported [OF _ assms(2)] by (simp add: chan_ok_def balanced_def channelMetrics_def)



text \<open>
  Slot numbers are never shared: the live pods of an operation and its free list together
  hold every cohort slot handed out so far exactly once, so two live replicas never count as one
  in the acknowledgements of a Broadcast segment.
\<close>

theorem cohort_slots_unique:
  assumes "reachable co" and "failure co = None" and "(opName, o1) \<in> set (co_ops co)"
  shows "distinct (map (\<lambda>(_, p). p_cohortSlot p) (o_pods o1) @ o_freeCohortSlots o1)
    \<and> set (map (\<lambda>(_, p). p_cohortSlot p) (o_pods o1) @ o_freeCohortSlots o1) = {0..<o_nextCohortSlot o1}"
proof -
  let ?l = "map (\<lambda>(_, p). p_cohortSlot p) (o_pods o1) @ o_freeCohortSlots o1"
  have "mset ?l = mset [0..<o_nextCohortSlot o1]"
    using reachable_op_ok [OF assms] unfolding op_ok_def slots_ok_def by blast
  then have "distinct ?l \<and> set ?l = set [0..<o_nextCohortSlot o1]"
    using mset_eq_setD mset_eq_imp_distinct_iff distinct_upt by metis
  then show ?thesis by simp
qed

theorem cohort_slots_unique_witness:
  "distinct (map (\<lambda>(_, p). p_cohortSlot p) (o_pods sample_count) @ o_freeCohortSlots sample_count)
   \<and> set (map (\<lambda>(_, p). p_cohortSlot p) (o_pods sample_count) @ o_freeCohortSlots sample_count)
     = {0..<o_nextCohortSlot sample_count}"
  by (rule cohort_slots_unique [OF sample_reachable sample_running map_of_SomeD [OF sample_ops(1)]])

text \<open>
  The process that is active for a pod has never been replaced: its incarnation is not
  among the retired ones.
\<close>

theorem active_not_retired:
  assumes "reachable co" and "failure co = None" and "(opName, o1) \<in> set (co_ops co)"
    and "(w, p) \<in> set (o_pods o1)" and "p_incarnation p \<noteq> ''''"
  shows "p_incarnation p \<notin> set (map_get [] (o_retired o1) w)"
  using reachable_op_ok [OF assms(1-3)] assms(4,5) by (auto simp: op_ok_def fenced_def)

theorem active_not_retired_witness: "''i1'' \<notin> set (map_get [] (o_retired sample_count) ''c0'')"
  using active_not_retired [OF sample_reachable sample_running map_of_SomeD [OF sample_ops(1)]
      map_of_SomeD [OF sample_ops(2)]] sample_ops(3) by simp

subsection \<open>Declarations are kept\<close>

text \<open>Serving work changes neither the set of channels nor what was declared about them.\<close>

definition decls :: "coordinator \<Rightarrow> (string \<times> Channel) list" where
  "decls co = map (\<lambda>(n, c). (n, c_spec c)) (co_channels co)"

lemma decls_upd_op [simp]: "decls (upd_op n f co) = decls co"
  by (simp add: decls_def)

lemma decls_ensure_op [simp]: "decls (ensure_op n co) = decls co"
  by (simp add: decls_def)

lemma decls_upd_channel [simp]: "(\<And>c. c_spec (g c) = c_spec c) \<Longrightarrow> decls (upd_channel n g co) = decls co"
  by (auto simp: decls_def upd_channel_def)

lemma decls_map_channels [simp]: "(\<And>c. c_spec (g c) = c_spec c) \<Longrightarrow> decls (map_channels g co) = decls co"
  by (auto simp: decls_def map_channels_def map_vals_def)

lemma decls_wake [simp]: "decls (wake co) = decls co"
  by (simp add: decls_def)

lemma spec_channel_steps [simp]:
  "c_spec (return_channel opName w inc everything c) = c_spec c" "c_spec (lose_channel w c) = c_spec c"
  "c_spec (releaseBroadcast o1 c) = c_spec c" "c_spec (seal_channel c) = c_spec c"
  "c_spec (enter_channel w c) = c_spec c"
  using within_return_channel within_lose_channel within_releaseBroadcast within_seal_channel
  by (auto simp: within_def enter_channel_def)

lemma decls_settle [simp]: "decls (settle co) = decls co"
  unfolding settle_def
  by (rule fold_inv [of "\<lambda>s. decls s = decls co"])
    (auto simp: settle1_def Let_def Progress.seal_def split: option.split)

lemma decls_expireAllExcept [simp]: "decls (expireAllExcept e opName w co) = decls co"
  unfolding expireAllExcept_def
  by (rule fold_inv [of "\<lambda>s. decls s = decls co"])
    (auto simp: expireHolder_def expireConsumer_def returnConsumerDeliveries_def)

lemma decls_expireAll [simp]: "decls (expireAll e co) = decls co"
  by (simp add: expireAll_def)

lemma decls_requireIncarnation [simp]: "decls (snd (requireIncarnation opName w inc co)) = decls co"
  by (simp add: decls_def)

lemma decls_admit [simp]: "decls (snd (admit e opName w inc co)) = decls co"
proof (cases "requireIncarnation opName w inc co")
  case (Pair r co0)
  then have "decls co0 = decls co" using decls_requireIncarnation [of opName w inc co] by (simp only: snd_conv)
  then show ?thesis by (simp add: admit_def touch_def Pair split: sum.split)
qed

lemma map_of_decls: "map_of (decls co) n = map_option c_spec (map_of (co_channels co) n)"
proof -
  have "map_of (map (\<lambda>(n, c). (n, c_spec c)) cs) n = map_option c_spec (map_of cs n)"
    for cs :: "(string, channel) gomap"
    by (induction cs) auto
  then show ?thesis by (simp add: decls_def)
qed

subsection \<open>Epochs\<close>

text \<open>The references a request hands out denote segments within reach of a consumer.\<close>

definition from_reach :: "channel \<Rightarrow> SegmentRef list \<Rightarrow> bool" where
  "from_reach b segs \<longleftrightarrow> (\<forall>x \<in> set segs. \<exists>r \<in> reach b. ref_epoch x = s_epoch (seg b r))"

lemma from_reach_Nil [simp]: "from_reach b []"
  by (simp add: from_reach_def)

lemma from_reach_snoc:
  "from_reach b segs \<Longrightarrow> within b c \<Longrightarrow> r \<in> reach b \<Longrightarrow> from_reach b (segs @ [ref (seg c r)])"
  by (auto simp: from_reach_def ref_def within_def)

lemma from_reach_log:
  "within b c \<Longrightarrow> set rs \<subseteq> reach b \<Longrightarrow> from_reach b segs
   \<Longrightarrow> from_reach b (fst (consume_log now w dk ck limit rs segs c))"
proof (induction rs arbitrary: segs c)
  case (Cons r rs)
  have w: "within b (c\<lparr>c_cursor := m\<rparr>)" "within b (deliver dk r (c\<lparr>c_cursor := m\<rparr>))" for m
    using Cons.prems(1,2) by (auto intro!: within_deliver)
  have "from_reach b (segs @ [ref (seg c r)])" using Cons.prems by (auto intro!: from_reach_snoc)
  then show ?case using Cons.prems w by (simp add: Let_def Cons.IH)
qed simp

lemma from_reach_queue:
  "within b c \<Longrightarrow> set q \<subseteq> reach b \<Longrightarrow> from_reach b segs
   \<Longrightarrow> from_reach b (fst (consume_queue now dk limit n p q segs c))"
proof (induction q arbitrary: segs c)
  case (Cons r q)
  have "within b (deliver dk r (upd_queue (int p) (\<lambda>_. q) c))"
    using Cons.prems by (auto intro!: within_deliver within_upd_queue)
  moreover have "from_reach b (segs @ [ref (seg c r)])" using Cons.prems by (auto intro!: from_reach_snoc)
  ultimately show ?case using Cons.prems by (simp add: Let_def Cons.IH)
qed simp

lemma from_reach_partitions:
  "within b c \<Longrightarrow> \<forall>x \<in> set work. from_reach b (w_segments x)
   \<Longrightarrow> \<forall>x \<in> set (fst (consume_partitions now dk limit ps n work c o1)). from_reach b (w_segments x)"
proof (induction ps arbitrary: n work c o1)
  case (Cons p ps)
  let ?r = "consume_queue now dk limit n p (c_queues c ! p) [] c"
  have q: "set (c_queues c ! p) \<subseteq> reach b" if "in_range (int p) (c_queues c)"
    using that withinD(2) [OF Cons.prems(1), of "c_queues c ! p"] by (simp add: in_range_def)
  have r: "within b (snd ?r)" "from_reach b (fst ?r)" if "in_range (int p) (c_queues c)"
    using q [OF that] Cons.prems(1) by (simp_all add: within_consume_queue from_reach_queue)
  show ?case
  proof (cases "in_range (int p) (c_queues c)")
    case True
    let ?o = "if p_mode (ch_partitioning (c_spec c)) = PartitionHash
      then o1\<lparr>o_pinned := set_add (ownerKey (nat (partitions c)) p) (o_pinned o1)\<rparr> else o1"
    have "consume_partitions now dk limit (p # ps) n work c o1 =
      (if fst ?r = [] then consume_partitions now dk limit ps n work (snd ?r) o1
       else consume_partitions now dk limit ps (n + int (length (fst ?r)))
              (work @ [\<lparr>w_partition = int p, w_segments = fst ?r\<rparr>]) (snd ?r) ?o)"
      using True by (simp add: split_def Let_def)
    moreover have "\<forall>x \<in> set (work @ [\<lparr>w_partition = int p, w_segments = fst ?r\<rparr>]). from_reach b (w_segments x)"
      using Cons.prems(2) r(2) [OF True] by simp
    ultimately show ?thesis
      using Cons.IH [OF r(1) [OF True]] Cons.prems(2) by presburger
  qed (use Cons.prems(2) in simp)
qed simp

lemma from_reach_work:
  "\<forall>x \<in> set (fst (consume_work now w dk p limit c o1)). from_reach c (w_segments x)"
proof -
  have "set (drop n (c_log c)) \<subseteq> reach c" for n using set_drop_subset [of n "c_log c"] by (auto simp: reach_def)
  then have "from_reach c (fst (consume_log now w dk ck limit (drop n (c_log c)) [] c))" for ck n
    by (intro from_reach_log) simp_all
  moreover have "\<forall>x \<in> set (fst (consume_partitions now dk limit ps 0 [] c o2)). from_reach c (w_segments x)" for ps o2
    by (rule from_reach_partitions) simp_all
  ultimately show ?thesis by (simp add: consume_work_def split_def Let_def)
qed

text \<open>
  C3: the epoch barrier holds at the wire: whatever a consumer is handed on a channel of a
  finite-epoch component belongs to the epoch the response reports or to an earlier one.
\<close>

theorem epoch_barrier:
  assumes "reachable co" and "fst (ConsumeSession e n opName w inc limit co) = Inr resp"
    and "resp_finiteEpochs resp" and "x \<in> set (resp_work resp)" and "s \<in> set (w_segments x)"
  shows "ref_epoch s \<le> resp_epoch resp"
proof -
  obtain c0 where c0: "get co n = Inr c0" using assms(2) by (cases "get co n") (auto simp: ConsumeSession_def)
  let ?to = "ch_to (c_spec c0)"
  obtain co1 where ad: "admit e ?to w inc co = (Inr (), co1)" and ne: "w \<noteq> []" "\<not> external c0"
    using assms(2) c0
    by (cases "admit e ?to w inc co"; cases "fst (admit e ?to w inc co)")
      (auto simp: ConsumeSession_def Let_def split: if_splits)
  define co4 where "co4 = settle (expireAll e (upd_channel n (enter_channel w)
      (upd_op ?to (set_pod w (\<lambda>p. p\<lparr>p_lastSeen := env_now e\<rparr>)) co1)))"
  let ?h = "hand_out e n ?to w inc limit co4"
  obtain co6 where cm: "commitLocked e (snd ?h) = (Inr (), co6)" and resp: "resp = fst ?h"
    using assms(2) c0 ad ne
    by (cases "commitLocked e (snd ?h)"; cases "fst (commitLocked e (snd ?h))")
      (auto simp: ConsumeSession_def Let_def split_def co4_def split: if_splits)
  have "co_failed (snd ?h) = None" using cm by (auto simp: commitLocked_def Let_def split: option.splits if_splits)
  then have nf: "co_failed co4 = None" by (simp add: hand_out_def Let_def split_def)
  have "inv_co chan_ok op_ok co1"
    using machine.inv_admit [OF reachable_inv [OF assms(1)], of e ?to w inc] ad by simp
  then have "inv_co chan_ok op_ok co4" unfolding co4_def
    by (intro machine.inv_settle machine.inv_expireAll machine.inv_upd_channel machine.inv_upd_op
        operations.seen channels.enter)
  with nf have good: "good chan_ok op_ok co4" by (simp add: inv_co_def)
  have "decls co4 = decls co" using decls_admit [of e ?to w inc co] ad by (simp add: co4_def)
  then have "map_of (decls co4) n = Some (c_spec c0)"
    using c0 by (simp add: map_of_decls get_def split: option.splits)
  then obtain c where c: "map_of (co_channels co4) n = Some c" "c_spec c = c_spec c0" by (auto simp: map_of_decls)
  then have ok: "chan_ok c" using machine.good_get(1) [OF good] by blast
  have "\<not> external c" using ne(2) c(2) by (simp add: external_def)
  have "from_reach c (w_segments x)" "c_finiteEpochs c" "resp_epoch resp = c_epoch c"
    using assms(3,4) resp from_reach_work c(1)
    by (auto simp: hand_out_def Let_def split_def consume_response_def)
  then show ?thesis
    using assms(5) ok \<open>\<not> external c\<close> by (auto simp: chan_ok_def epochs_ok_def from_reach_def)
qed

theorem epoch_barrier_witness:
  "\<exists>resp. fst (ConsumeSession sample_env ''feed'' ''step'' ''c0'' ''i1'' 100 loop_state) = Inr resp
     \<and> (\<exists>x \<in> set (resp_work resp). \<exists>s \<in> set (w_segments x). ref_id s = ''a'' \<and> ref_epoch s \<le> resp_epoch resp)"
proof -
  obtain resp where r: "fst (ConsumeSession sample_env ''feed'' ''step'' ''c0'' ''i1'' 100 loop_state) = Inr resp"
      "resp_finiteEpochs resp" "map (\<lambda>w. map ref_id (w_segments w)) (resp_work resp) = [[''a'']]"
    using loop_consumes by (auto simp: loop_check_def split: sum.splits)
  then obtain x s where x: "resp_work resp = [x]" "w_segments x = [s]" "ref_id s = ''a''"
    by (auto simp: map_eq_Cons_conv)
  have "ref_epoch s \<le> resp_epoch resp"
    by (rule epoch_barrier [where x = x, OF loop_reachable r(1,2)]) (simp_all add: x)
  then show ?thesis using r(1) x by auto
qed

subsection \<open>Requests that are refused\<close>



text \<open>A caller that is not the process the coordinator knows for the pod.\<close>

definition stale :: "coordinator \<Rightarrow> string \<Rightarrow> string \<Rightarrow> string \<Rightarrow> bool" where
  "stale co opName w inc \<longleftrightarrow>
     (case map_of (o_pods (get_op co opName)) w of None \<Rightarrow> False | Some p \<Rightarrow> p_incarnation p \<noteq> inc)"

lemma stale_require:
  assumes "stale co opName w inc"
  shows "requireIncarnation opName w inc co =
    (Inl (Error 409 ''incarnation for pod %q is no longer active''), ensure_op opName co)"
  using assms by (auto simp: stale_def requireIncarnation_def Let_def split: option.splits)


text \<open>
  A delayed heartbeat of a replaced process cannot take its pod back: registering a retired
  incarnation is refused with 409.
\<close>

theorem retired_cannot_register:
  assumes "reg_operation reg \<noteq> ''''" and "reg_pod reg \<noteq> ''''" and "reg_incarnation reg \<noteq> ''''"
    and "reg_incarnation reg \<in> set (map_get [] (o_retired (get_op co (reg_operation reg))) (reg_pod reg))"
  shows "fst (Register e reg co) = Inl (Error 409 ''incarnation %q for pod %q has been replaced'')"
proof -
  have "o_retired (get_op (expireAllExcept e sk sp co) k) = o_retired (get_op co k)" for sk sp k
    unfolding expireAllExcept_def
    by (rule fold_inv [of "\<lambda>s. o_retired (get_op s k) = o_retired (get_op co k)"])
      (auto simp: expireHolder_def expireConsumer_def returnConsumerDeliveries_def get_op_upd_op return_op_def
        drop_pod_def split: option.split)
  then show ?thesis using assms by (simp add: Register_def Let_def)
qed

theorem retired_cannot_register_witness:
  "fst (Register sample_env (sample_registration ''count'' ''c0'')
     (upd_op ''count'' (\<lambda>o1. o1\<lparr>o_retired := [(''c0'', [''i1''])]\<rparr>) (New ''h:0'')))
   = Inl (Error 409 ''incarnation %q for pod %q has been replaced'')"
  by (rule retired_cannot_register)
    (simp_all add: sample_registration_def get_op_upd_op map_get_def)


end
