(* ===== verification/Delivery.thy ===== *)
theory Delivery
  imports Samples
begin

text \<open>
  How work is divided among replicas and what happens to it: assignment, acknowledgement and
  return, release of Broadcast segments, the end of an epoch.
\<close>

subsection \<open>Assignment\<close>

lemma filter_less_nth:
  "sorted xs \<Longrightarrow> distinct xs \<Longrightarrow> i < length xs \<Longrightarrow> filter (\<lambda>x. x < xs ! i) xs = take i xs"
  for xs :: "'a :: linorder list"
proof (induction xs arbitrary: i)
  case (Cons x xs)
  show ?case
  proof (cases i)
    case 0
    then show ?thesis using Cons.prems by (auto simp: filter_empty_conv)
  next
    case (Suc j)
    then have "x < xs ! j" using Cons.prems nth_mem [of j xs] by (fastforce simp: less_le)
    then show ?thesis using Suc Cons by simp
  qed
qed simp

lemma liveIDs_sorted: "sorted (liveIDs o1)" "distinct (map fst (o_pods o1)) \<Longrightarrow> distinct (liveIDs o1)"
  by (simp_all add: liveIDs_def)

lemma liveIDs_nonempty: "o_pods o1 \<noteq> [] \<Longrightarrow> liveIDs o1 \<noteq> []"
  by (auto simp: liveIDs_def simp flip: set_empty)

text \<open>
  C24: at any moment every partition of a channel is assigned to exactly one live pod of the
  consuming operation, for Hash channels and for freely balanced ones.
\<close>

theorem assigned_exactly_one:
  assumes "distinct (map fst (o_pods o1))" and "o_pods o1 \<noteq> []" and "p < nat (partitions c)"
  shows "\<exists>!w. w \<in> set (liveIDs o1) \<and> p \<in> set (fst (assigned c o1 w))"
proof (cases "p_mode (ch_partitioning (c_spec c)) = PartitionHash")
  case True
  have live: "liveIDs o1 \<noteq> []" by (rule liveIDs_nonempty [OF assms(2)])
  obtain w where w: "w \<in> set (liveIDs o1)"
      "map_of (o_owner (balanceHash o1 (nat (partitions c)))) (ownerKey (nat (partitions c)) p) = Some w"
    using balanceHash_live_owner [OF live assms(3)] by blast
  have own: "map_get [] (o_owner (balanceHash o1 (nat (partitions c)))) (ownerKey (nat (partitions c)) p) = w"
    by (simp add: map_get_def w(2))
  have eq: "set (fst (assigned c o1 v)) = {q. q < nat (partitions c) \<and> map_get [] (o_owner (balanceHash o1
      (nat (partitions c)))) (ownerKey (nat (partitions c)) q) = v}" for v
    using True by (auto simp: assigned_def Let_def)
  have "p \<in> set (fst (assigned c o1 v)) \<longleftrightarrow> v = w" for v
    unfolding eq using assms(3) own by blast
  then show ?thesis using w(1) by (intro ex1I [of _ w]) simp_all
next
  case False
  let ?ids = "liveIDs o1"
  have ids: "sorted ?ids" "distinct ?ids" "?ids \<noteq> []"
    using liveIDs_sorted liveIDs_nonempty assms(1,2) by blast+
  have iff: "p \<in> set (fst (assigned c o1 (?ids ! i))) \<longleftrightarrow> p mod length ?ids = i" if "i < length ?ids" for i
    using False assms(3) ids that filter_less_nth [OF ids(1,2) that] by (simp add: assigned_def Let_def)
  let ?i = "p mod length ?ids"
  have "?i < length ?ids" using ids(3) by simp
  show ?thesis
  proof (rule ex1I [of _ "?ids ! ?i"])
    show "?ids ! ?i \<in> set ?ids \<and> p \<in> set (fst (assigned c o1 (?ids ! ?i)))"
      using iff \<open>?i < length ?ids\<close> by simp
    fix w assume w: "w \<in> set ?ids \<and> p \<in> set (fst (assigned c o1 w))"
    then obtain i where "i < length ?ids" "w = ?ids ! i" by (metis in_set_conv_nth)
    then show "w = ?ids ! ?i" using iff w by simp
  qed
qed

theorem assigned_exactly_one_witness:
  "\<exists>!w. w \<in> set (liveIDs sample_operation) \<and> 1 \<in> set (fst (assigned (new_channel words_spec) sample_operation w))"
  by (rule assigned_exactly_one)
    (simp_all add: sample_operation_def new_operation_def partitions_def new_channel_def words_spec_def Let_def)

text \<open>
  Producers and the coordinator agree on a partition that exists: the hash partition of any key
  lies below the number of partitions.
\<close>

theorem HashPartition_in_range:
  "0 < n \<Longrightarrow> n < 2 ^ 32 \<Longrightarrow> 0 \<le> HashPartition k n \<and> HashPartition k n < n"
  by (simp add: HashPartition_nonneg HashPartition_less)

theorem HashPartition_in_range_witness: "0 \<le> HashPartition ''word'' 7 \<and> HashPartition ''word'' 7 < 7"
  by (rule HashPartition_in_range) simp_all

subsection \<open>Acknowledging and returning\<close>

text \<open>
  A request of one process is spent on a channel when the segment it names is not delivered to
  that process. Acknowledging and returning spend what they name and never deliver anything.
\<close>

definition spent :: "string \<Rightarrow> SegmentAck \<Rightarrow> channel \<Rightarrow> bool" where
  "spent owned a c \<longleftrightarrow>
     (case fst (segmentForAck c a) of None \<Rightarrow> True | Some r \<Rightarrow> owned \<notin> set (s_delivered (seg c r)))"

definition settled :: "string \<Rightarrow> SegmentAck \<Rightarrow> channel \<Rightarrow> bool" where
  "settled owned a c \<longleftrightarrow>
     (case segmentForAck c a of
        (Some r, True) \<Rightarrow> s_lost (seg c r) \<or> owned \<notin> set (s_delivered (seg c r))
      | _ \<Rightarrow> True)"

definition shrinks :: "channel \<Rightarrow> channel \<Rightarrow> bool" where
  "shrinks c c' \<longleftrightarrow> c_appendIDs c' = c_appendIDs c
     \<and> (\<forall>k r. map_of (c_all c') k = Some r \<longrightarrow> map_of (c_all c) k = Some r)
     \<and> (\<forall>r. s_id (seg c' r) = s_id (seg c r) \<and> s_lost (seg c' r) = s_lost (seg c r) \<and> set (s_delivered (seg c' r)) \<subseteq> set (s_delivered (seg c r)))"

lemma shrinks_lookup: "shrinks c c' \<Longrightarrow> fst (segmentForAck c' a) = Some r \<Longrightarrow>
    segmentForAck c a = (Some r, snd (segmentForAck c' a))"
  by (auto simp: shrinks_def segmentForAck_def Let_def split: option.splits if_splits)

lemma spentI:
  "shrinks c c' \<Longrightarrow> (\<And>r. fst (segmentForAck c a) = Some r \<Longrightarrow> owned \<notin> set (s_delivered (seg c' r))) \<Longrightarrow> spent owned a c'"
  using shrinks_lookup [of c c' a] by (fastforce simp: spent_def split: option.split)

lemma settledI:
  assumes "shrinks c c'" and "\<And>r. segmentForAck c a = (Some r, True) \<Longrightarrow>
      s_lost (seg c r) \<or> owned \<notin> set (s_delivered (seg c' r))"
  shows "settled owned a c'"
proof (cases "segmentForAck c' a")
  case (Pair s ok)
  then show ?thesis
    using shrinks_lookup [OF assms(1), of a] assms
    by (auto simp: settled_def shrinks_def split: option.split bool.split)
qed

lemma spent_shrinks: "shrinks c c' \<Longrightarrow> spent owned a c \<Longrightarrow> spent owned a c'"
  by (rule spentI) (auto simp: spent_def shrinks_def, blast)

lemma settled_shrinks: "shrinks c c' \<Longrightarrow> settled owned a c \<Longrightarrow> settled owned a c'"
  by (rule settledI) (auto simp: settled_def shrinks_def, blast)

lemma nack_spent: "spent owned a c \<Longrightarrow> nack1 now w owned a c = c"
  by (auto simp: spent_def nack1_def split: option.splits)

lemma ack_settled: "w \<noteq> [] \<Longrightarrow> settled (deliveryKey w inc) a c \<Longrightarrow> ack1 p pods w inc a c = c"
  by (auto simp: settled_def ack1_def Let_def split: prod.splits option.splits bool.splits)

lemma shrinks_refl [simp]: "shrinks c c"
  by (simp add: shrinks_def)

lemma shrinks_simps [simp]:
  "shrinks b (c\<lparr>c_inflight := m\<rparr>) = shrinks b c" "shrinks b (c\<lparr>c_acknowledged := i\<rparr>) = shrinks b c"
  "shrinks b (c\<lparr>c_cursor := cu\<rparr>) = shrinks b c" "shrinks b (c\<lparr>c_latestDeliveryFailure := t\<rparr>) = shrinks b c"
  "shrinks b (c\<lparr>c_panic := p\<rparr>) = shrinks b c" "shrinks b (upd_queue q g c) = shrinks b c"
  by (simp_all add: shrinks_def)

lemma shrinks_upd_seg:
  "shrinks b c \<Longrightarrow> (\<And>s. s_id (f s) = s_id s \<and> s_lost (f s) = s_lost s \<and> set (s_delivered (f s)) \<subseteq> set (s_delivered s))
   \<Longrightarrow> shrinks b (upd_seg r f c)"
  by (force simp: shrinks_def)

lemma shrinks_all_del: "shrinks b c \<Longrightarrow> c_all c = m \<Longrightarrow> shrinks b (c\<lparr>c_all := AList.delete k m\<rparr>)"
  by (auto simp: shrinks_def map_simps split: if_splits)

lemma shrinks_release: "shrinks b c \<Longrightarrow> shrinks b (release r c)"
  by (auto simp: release_def Let_def intro!: shrinks_upd_seg shrinks_all_del)

lemma nack_shrinks: "shrinks c (nack1 now w owned a c)"
proof -
  have "shrinks c (nack_segment now owned a r c)" for r
    by (auto simp: nack_segment_def Let_def intro!: shrinks_upd_seg)
  then show ?thesis by (simp add: nack1_eq Let_def split: option.split)
qed

lemma ack_shrinks: "shrinks c (ack1 p pods w inc a c)"
proof -
  have "shrinks c (settle_ack owned b r c)" for owned b r
    by (auto simp: settle_ack_def Let_def intro!: shrinks_release shrinks_upd_seg)
  then show ?thesis by (auto simp: ack1_def Let_def split: prod.split option.split bool.split)
qed

lemma nack_spends: "wfc c \<Longrightarrow> spent owned a (nack1 now w owned a c)"
  by (rule spentI [OF nack_shrinks])
    (auto simp: nack1_eq Let_def nack_segment_def dest: segmentForAck_less)

lemma delivered_settle_ack:
  "r < length (c_heap c) \<Longrightarrow> owned \<notin> set (s_delivered (seg (settle_ack owned b r c) r))"
  by (simp add: settle_ack_def release_def Let_def)

lemma ack_settles: "wfc c \<Longrightarrow> w \<noteq> [] \<Longrightarrow> settled (deliveryKey w inc) a (ack1 p pods w inc a c)"
proof (rule settledI [OF ack_shrinks])
  fix r assume a: "wfc c" "w \<noteq> []" "segmentForAck c a = (Some r, True)"
  then have "r < length (c_heap c)" using segmentForAck_less [of c a r] by simp
  then show "s_lost (seg c r) \<or> deliveryKey w inc \<notin> set (s_delivered (seg (ack1 p pods w inc a c) r))"
    using a delivered_settle_ack by (simp add: ack1_def Let_def)
qed

lemma fold_again:
  assumes "\<And>x c. I c \<Longrightarrow> I (f x c)" and "\<And>x c. I c \<Longrightarrow> N x (f x c)"
    and "\<And>x y c. I c \<Longrightarrow> N x c \<Longrightarrow> N x (f y c)" and "\<And>x c. N x c \<Longrightarrow> f x c = c" and "I c"
  shows "fold f xs (fold f xs c) = fold f xs c"
proof -
  have keep: "I c \<Longrightarrow> N x c \<Longrightarrow> N x (fold f ys c)" for x ys c
    by (induction ys arbitrary: c) (simp_all add: assms(1,3))
  have "\<forall>x \<in> set xs. N x (fold f xs c)" if "I c" for xs c
    using that by (induction xs arbitrary: c) (auto simp: assms(1) intro!: keep assms(2))
  moreover have "fold f xs d = d" if "\<forall>x \<in> set xs. N x d" for xs d
    using that by (induction xs) (simp_all add: assms(4))
  ultimately show ?thesis using assms(5) by blast
qed

text \<open>
  C25: repeating the acknowledgements of a process, or the deliveries it returns, has no effect:
  the second time nothing changes, so a retried request neither counts records twice nor queues
  a segment twice.
\<close>

theorem repeat_no_effect:
  assumes "wfc c" and "w \<noteq> ''''"
  shows "fold (ack1 p pods w inc) acks (fold (ack1 p pods w inc) acks c) = fold (ack1 p pods w inc) acks c
    \<and> fold (nack1 now w (deliveryKey w inc)) acks (fold (nack1 now w (deliveryKey w inc)) acks c)
      = fold (nack1 now w (deliveryKey w inc)) acks c"
proof
  show "fold (ack1 p pods w inc) acks (fold (ack1 p pods w inc) acks c) = fold (ack1 p pods w inc) acks c"
    by (rule fold_again [where I = wfc and N = "settled (deliveryKey w inc)"])
      (use assms in \<open>auto intro: wf_ack1 ack_settles ack_settled settled_shrinks [OF ack_shrinks]\<close>)
  show "fold (nack1 now w (deliveryKey w inc)) acks (fold (nack1 now w (deliveryKey w inc)) acks c)
      = fold (nack1 now w (deliveryKey w inc)) acks c"
    by (rule fold_again [where I = wfc and N = "spent (deliveryKey w inc)"])
      (use assms in \<open>auto intro: wf_nack1 nack_spends nack_spent spent_shrinks [OF nack_shrinks]\<close>)
qed

theorem repeat_no_effect_witness:
  "fold (ack1 None [] ''c0'' ''i1'') [sample_ack ''b''] (fold (ack1 None [] ''c0'' ''i1'') [sample_ack ''b''] sample_words)
   = fold (ack1 None [] ''c0'' ''i1'') [sample_ack ''b''] sample_words"
  using repeat_no_effect [of sample_words "''c0''" None "[]" "''i1''" "[sample_ack ''b'']"]
    reachable_chan_ok [OF sample_reachable sample_running sample_words_in] by (simp add: chan_ok_def)

subsection \<open>Broadcast\<close>

lemma release_fields:
  "length (c_heap (release r c)) = length (c_heap c)"
  "s_released (seg (release r c) x) = (s_released (seg c x) \<or> x = r \<and> r < length (c_heap c))"
  "s_lost (seg (release r c) x) = s_lost (seg c x)" "s_acked (seg (release r c) x) = s_acked (seg c x)"
  by (auto simp: release_def Let_def)

lemma fold_release:
  fixes P :: "segment \<Rightarrow> bool"
  assumes "\<And>x. x \<in> set xs \<Longrightarrow> snd x < length (c_heap c)"
    and P: "\<And>s t. s_acked s = s_acked t \<Longrightarrow> P s = P t"
  defines "c' \<equiv> fold (\<lambda>(_, r) c1. if \<not> s_lost (seg c1 r) \<and> \<not> s_released (seg c1 r) \<and> P (seg c1 r)
      then release r c1 else c1) xs c"
  shows "s_released (seg c' r) \<longleftrightarrow>
    s_released (seg c r) \<or> (r \<in> snd ` set xs \<and> \<not> s_lost (seg c r) \<and> P (seg c r))"
  using assms(1) unfolding c'_def
proof (induction xs arbitrary: c)
  case (Cons x xs)
  obtain k q where x: "x = (k, q)" by (cases x)
  have q: "q < length (c_heap c)" using Cons.prems [of x] x by simp
  let ?d = "if \<not> s_lost (seg c q) \<and> \<not> s_released (seg c q) \<and> P (seg c q) then release q c else c"
  have d: "s_released (seg ?d r) \<longleftrightarrow> s_released (seg c r) \<or> (r = q \<and> \<not> s_lost (seg c r) \<and> P (seg c r))"
    using q by (auto simp: release_fields)
  have "s_lost (seg ?d r) = s_lost (seg c r)" "P (seg ?d r) = P (seg c r)"
    using P [OF release_fields(4), of q c r] by (auto simp: release_fields)
  moreover have "\<And>y. y \<in> set xs \<Longrightarrow> snd y < length (c_heap ?d)" using Cons.prems by (auto simp: release_fields)
  ultimately show ?case using Cons.IH [of ?d] d x by auto
qed simp

text \<open>
  C26: the release of a Broadcast segment is decided by the replicas. After the sweep over a
  Broadcast channel, an indexed segment is released exactly when it already was, or it is not
  lost, the consumer has a published count or a live pod, and at least as many replicas have
  acknowledged it as are published and as are live.
\<close>

theorem broadcast_released_iff:
  assumes "wfc c" and "broadcast c" and "\<not> external c" and "(k, r) \<in> set (c_all c)"
  shows "s_released (seg (releaseBroadcast o1 c) r) \<longleftrightarrow> s_released (seg c r)
    \<or> (\<not> s_lost (seg c r) \<and> max (o_replicas o1) (int (length (o_pods o1))) \<noteq> 0
       \<and> o_replicas o1 \<le> int (length (s_acked (seg c r)))
       \<and> length (o_pods o1) \<le> length (s_acked (seg c r)))"
proof -
  have "s_released (seg (releaseBroadcast o1 c) r) \<longleftrightarrow> s_released (seg c r)
      \<or> (r \<in> snd ` set (c_all c) \<and> \<not> s_lost (seg c r) \<and> consumedByEveryReplica o1 (seg c r))"
  proof -
    have "releaseBroadcast o1 c = fold (\<lambda>(_, r) c1. if \<not> s_lost (seg c1 r) \<and> \<not> s_released (seg c1 r)
        \<and> consumedByEveryReplica o1 (seg c1 r) then release r c1 else c1) (c_all c) c"
      using assms(2,3) by (simp add: releaseBroadcast_def)
    then show ?thesis
      using wf_refs(2) [OF assms(1)] by (simp only:) (rule fold_release, auto simp: consumedByEveryReplica_def)
  qed
  moreover have "r \<in> snd ` set (c_all c)" using assms(4) by force
  ultimately show ?thesis by (auto simp: consumedByEveryReplica_def Let_def)
qed

text \<open>A Broadcast channel with one segment that both published replicas have acknowledged.\<close>

definition news_spec :: Channel where
  "news_spec = words_spec\<lparr>ch_partitioning := \<lparr>p_mode = PartitionBroadcast, p_partitions = 1\<rparr>\<rparr>"

definition news :: channel where
  "news = upd_seg 0 (\<lambda>s. s\<lparr>s_acked := [''slot:0'', ''slot:1'']\<rparr>)
     (fst (index (announced ''words'' ''split'' ''split'' (sample_ann ''a'' 0 3)) (new_channel news_spec)))"

lemma news_ok: "wfc news" "broadcast news" "\<not> external news" "c_all news = [(''h:1/a'', 0)]"
proof -
  let ?s = "announced ''words'' ''split'' ''split'' (sample_ann ''a'' 0 3)"
  have "wfc (new_channel news_spec)" by (rule wf_new_channel) (simp_all add: news_spec_def)
  moreover have "fits (new_channel news_spec) ?s"
    by (simp add: fits_def broadcast_def new_channel_def news_spec_def Let_def)
  ultimately show "wfc news" by (simp add: news_def wf_index keeps_def key_def)
  show "broadcast news" "\<not> external news" "c_all news = [(''h:1/a'', 0)]" by code_simp+
qed

theorem broadcast_released_iff_witness:
  "s_released (seg (releaseBroadcast (sample_operation\<lparr>o_replicas := 2\<rparr>) news) 0)
   \<and> \<not> s_released (seg (releaseBroadcast (sample_operation\<lparr>o_replicas := 3\<rparr>) news) 0)"
proof -
  have "s_acked (seg news 0) = [''slot:0'', ''slot:1''] \<and> \<not> s_lost (seg news 0) \<and> \<not> s_released (seg news 0)"
    by code_simp
  then show ?thesis
    using broadcast_released_iff [OF news_ok(1-3), of "''h:1/a''" 0] news_ok(4)
    by (simp add: sample_operation_def)
qed

subsection \<open>The end of an epoch\<close>


text \<open>The loop of the samples after its source has finished without producing anything.\<close>

definition dry_state :: coordinator where
  "dry_state = serve_all
     [PutTopology [feed_spec, loop_spec], PostRegister (sample_registration ''src'' ''s0''),
      PostRegister (sample_registration ''step'' ''c0''), PostSourceDone (sample_registration ''src'' ''s0'')]
     (New ''h:0'')"

definition dry_check :: "coordinator \<Rightarrow> bool" where
  "dry_check co \<longleftrightarrow> distinct (map fst (co_channels co))
     \<and> (case (map_of (co_channels co) ''feed'', recordOperationEpochDone sample_env ''step'' ''c0'' 0 co) of
          (Some c, Inr _, co') \<Rightarrow> c_epoch c = 0 \<and>
            (case map_of (co_channels co') ''feed'' of None \<Rightarrow> False | Some c' \<Rightarrow> c_epoch c' = 1)
        | _ \<Rightarrow> False)"

lemma dry_checked: "dry_check dry_state"
  by code_simp


end
