(* ===== verification/Declarations.thy ===== *)
theory Declarations
  imports Samples
begin

text \<open>
  Declaring a topology, and what an announcement or an append leaves behind when it is retried.
\<close>

subsection \<open>Declaring twice\<close>

lemma distinct_configure1:
  "distinct (map fst (co_channels co)) \<Longrightarrow> distinct (map fst (co_channels (configure1 s co)))"
  by (simp add: configure1_def Let_def split: option.split)

lemma configure1_declares:
  "\<exists>c. map_of (co_channels (configure1 s co)) (ch_name s) = Some c \<and> c_spec c = normalize s"
  by (auto simp: configure1_def Let_def map_of_upd_channel map_simps new_channel_def split: option.split)

lemma configure_declares:
  assumes "distinct (map ch_name specs)" and "s \<in> set specs"
  shows "\<exists>c. map_of (co_channels (fold configure1 specs co)) (ch_name s) = Some c \<and> c_spec c = normalize s"
proof -
  have other: "map_of (co_channels (fold configure1 ss co)) n = map_of (co_channels co) n"
    if "n \<notin> set (map ch_name ss)" for ss co n
    using that by (induction ss arbitrary: co) (simp_all add: map_of_configure1)
  show ?thesis using assms
  proof (induction specs arbitrary: co)
    case (Cons x specs)
    then show ?case
      using other [of "ch_name x" specs "configure1 x co"] configure1_declares [of x co]
      by (cases "s = x") auto
  qed simp
qed

lemma configure1_again:
  assumes "distinct (map fst (co_channels co))" and "map_of (co_channels co) (ch_name s) = Some c"
    and "c_spec c = normalize s"
  shows "configure1 s co = co"
proof -
  have "(\<lambda>(n, c). (n, if n = ch_name s then c\<lparr>c_spec := normalize s\<rparr> else c)) x = x"
    if x: "x \<in> set (co_channels co)" for x
  proof (cases x)
    case (Pair n d)
    have "d = c" if "n = ch_name s" using assms(2) map_of_is_SomeI [OF assms(1), of n d] x Pair that by simp
    then show ?thesis using assms(3) Pair by (cases "n = ch_name s") auto
  qed
  then have "map (\<lambda>(n, c). (n, if n = ch_name s then c\<lparr>c_spec := normalize s\<rparr> else c)) (co_channels co) = co_channels co"
    by (simp add: map_idI)
  then show ?thesis using assms(2) by (simp add: configure1_def Let_def upd_channel_def)
qed

lemma mark_again: "mark_channel cs (mark_channel cs c) = mark_channel cs c"
  by (auto simp: mark_channel_def Let_def set_add_def synchronous_def feedbackMode_def)

lemma specs_of_mark [simp]: "specs_of (markFiniteEpochChannels co) = specs_of co"
  by (auto simp: markFiniteEpochChannels_def specs_of_def map_channels_def map_vals_def mark_channel_def Let_def)

text \<open>
  The controller may publish the same topology on every pass: publishing it again succeeds and
  leaves the coordinator as it is, with every counter, queue and epoch.
\<close>

theorem configure_idempotent:
  assumes "Configure e specs co = (Inr (), co')" and "distinct (map fst (co_channels co))"
    and "distinct (map ch_name specs)"
  shows "Configure e specs co' = (Inr (), co')"
proof -
  let ?co1 = "fold configure1 specs co"
  have cm: "commitLocked e (markFiniteEpochChannels ?co1) = (Inr (), co')"
    using assms(1) by (simp add: Configure_def)
  then have co': "co' = markFiniteEpochChannels ?co1"
    by (auto simp: commitLocked_def Let_def split: option.splits if_splits)
  have names: "map fst (co_channels co') = map fst (co_channels ?co1)"
    by (simp add: co' markFiniteEpochChannels_def)
  have "distinct (map fst (co_channels ?co1))"
    using assms(2) by (rule fold_inv) (rule distinct_configure1)
  then have d: "distinct (map fst (co_channels co'))" by (simp add: names)
  have same: "configure1 s co' = co'" if s: "s \<in> set specs" for s
  proof -
    obtain c where "map_of (co_channels ?co1) (ch_name s) = Some c" "c_spec c = normalize s"
      using configure_declares [OF assms(3) s] by blast
    then have "map_of (co_channels co') (ch_name s) = Some (mark_channel (specs_of ?co1) c)"
      "c_spec (mark_channel (specs_of ?co1) c) = normalize s"
      by (simp_all add: co' markFiniteEpochChannels_def map_channels_def mark_channel_def Let_def)
    then show ?thesis by (rule configure1_again [OF d])
  qed
  have "fold configure1 specs co' = co'"
    using same by (induction specs) simp_all
  moreover have "markFiniteEpochChannels co' = co'"
    by (simp add: co' markFiniteEpochChannels_def [of "markFiniteEpochChannels ?co1"])
      (simp add: markFiniteEpochChannels_def map_channels_def map_vals_comp comp_def mark_again)
  ultimately show ?thesis using cm co' by (simp add: Configure_def)
qed

theorem configure_idempotent_witness:
  "Configure sample_env [words_spec, totals_spec] (snd (Configure sample_env [words_spec, totals_spec] (New ''h'')))
   = (Inr (), snd (Configure sample_env [words_spec, totals_spec] (New ''h'')))"
proof (rule configure_idempotent)
  show "Configure sample_env [words_spec, totals_spec] (New ''h'')
      = (Inr (), snd (Configure sample_env [words_spec, totals_spec] (New ''h'')))"
    by (simp add: Configure_def commitLocked_def sample_env_def markFiniteEpochChannels_def New_def configure1_def Let_def
        ensure_op_def upd_op_def words_spec_def totals_spec_def normalize_def map_channels_def)
qed (simp_all add: New_def words_spec_def totals_spec_def)

subsection \<open>Retried announcements\<close>

text \<open>What a client may announce again: the append ID is filed with the same metadata.\<close>

definition filed :: "string \<Rightarrow> SegmentAnnouncement \<Rightarrow> channel \<Rightarrow> bool" where
  "filed name a c \<longleftrightarrow>
     (\<exists>r. map_of (c_appendIDs c) (ann_appendID a) = Some r \<and> sameAppend (seg c r) a name)"

lemma check_filed:
  "\<forall>a \<in> set anns. a_id a \<noteq> [] \<and> (a_channel a = [] \<or> a_channel a = name) \<and> filed name a c
   \<Longrightarrow> announce_check name c anns b = Inr b"
  by (induction anns) (auto simp: filed_def)

lemma sameAppend_announced: "opName \<noteq> [] \<Longrightarrow> sameAppend (announced name opName from a) a name"
  by (simp add: sameAppend_def announced_def Let_def)

lemma sameAppend_offset [simp]: "sameAppend (s\<lparr>s_offset := i\<rparr>) a name = sameAppend s a name"
  "sameAppend (s\<lparr>s_released := b\<rparr>) a name = sameAppend s a name"
  by (simp_all add: sameAppend_def)

lemma announce1_files:
  assumes "wfc c" and "a_id a \<noteq> []" and "opName \<noteq> []" and "fits c (announced name opName (ch_from (c_spec c)) a)"
    and "ann_appendID a \<noteq> []" and "map_of (c_appendIDs c) (ann_appendID a) = None"
    and "map_of (c_all c) (a_holder a @ ''/'' @ a_id a) = None"
  shows "filed name a (announce1 name opName a c)"
proof -
  let ?c = "c\<lparr>c_overflowed := c_overflowed c + a_overflowed a\<rparr>"
  let ?s = "announced name opName (ch_from (c_spec c)) a"
  have n: "index_name ?s = ?s" using assms(5) by (simp add: index_name_def announced_def)
  have k: "key ?s = a_holder a @ ''/'' @ a_id a" by (simp add: key_def announced_def)
  have f: "fits ?c ?s" using assms(4) by (simp add: fits_def)
  have w: "wfc ?c" using assms(1) by simp
  note r = fits_range [OF wfD(1) [OF w] f]
  let ?p = "nat (index_partition ?c ?s)"
  have eq: "announce1 name opName a c = route ?s ?c (length (c_heap c)) (file_segment ?s ?p ?c)"
    using assms(2,6,7) k n by (simp add: announce1_def index_eq [OF r(1,2)] Let_def)
  have id: "s_appendID ?s = ann_appendID a" by (simp add: announced_def)
  have "c_appendIDs (route ?s ?c (length (c_heap c)) (file_segment ?s ?p ?c))
      = AList.update (ann_appendID a) (length (c_heap c)) (c_appendIDs c)"
    using id by (simp add: route_def file_segment_def enqueue_def)
  moreover have "seg (route ?s ?c (length (c_heap c)) (file_segment ?s ?p ?c)) (length (c_heap c)) =
      (if beyondBound ?c ?s then ?s\<lparr>s_offset := s_offset (seg (file_segment ?s ?p ?c) (length (c_heap c))), s_released := True\<rparr>
       else ?s\<lparr>s_offset := s_offset (seg (file_segment ?s ?p ?c) (length (c_heap c)))\<rparr>)"
    by (simp add: route_def file_segment_def enqueue_def seg_def upd_seg_def upd_queue_def)
  ultimately show ?thesis
    unfolding eq filed_def using sameAppend_announced [OF assms(3)] by (simp add: map_simps)
qed

text \<open>
  Announcing is idempotent. Once segments are filed under their append IDs, announcing them
  again with the same metadata succeeds and changes no channel, even after the channel was sealed
  or its epoch moved on.
\<close>

theorem announce_again:
  assumes "\<forall>a \<in> set anns. a_id a \<noteq> '''' \<and> (a_channel a = '''' \<or> a_channel a = n) \<and> filed n a c"
    and "map_of (co_channels co) n = Some c" and "failure co = None" and "mayProduce co c opName"
    and "fst (verify (w \<noteq> '''') opName w inc co) = Inr ()"
  shows "fst (AnnounceSession e n opName w inc anns co) = Inr ()
    \<and> co_channels (snd (AnnounceSession e n opName w inc anns co)) = co_channels co"
proof -
  obtain co1 where v: "verify (w \<noteq> []) opName w inc co = (Inr (), co1)" using assms(5) by (metis prod.collapse)
  then have "co_channels co1 = co_channels co" using frame_verify(1) [of "w \<noteq> []" opName w inc co] by simp
  then show ?thesis
    using assms(2-4) v check_filed [OF assms(1), of False]
    by (simp add: AnnounceSession_def requireDurableWriterLocked_def failure_def get_def)
qed

theorem announce_again_witness:
  "fst (AnnounceSession sample_env ''words'' ''split'' ''s0'' ''i1'' [sample_ann ''a'' 0 3] sample_state) = Inr ()
   \<and> co_channels (snd (AnnounceSession sample_env ''words'' ''split'' ''s0'' ''i1'' [sample_ann ''a'' 0 3] sample_state))
      = co_channels sample_state"
proof (rule announce_again [where c = sample_words])
  have "(case map_of (c_appendIDs sample_words) ''h:1/a'' of None \<Rightarrow> False
      | Some r \<Rightarrow> sameAppend (seg sample_words r) (sample_ann ''a'' 0 3) ''words'')"
    by code_simp
  then show "\<forall>a \<in> set [sample_ann ''a'' 0 3]. a_id a \<noteq> '''' \<and> (a_channel a = '''' \<or> a_channel a = ''words'')
      \<and> filed ''words'' a sample_words"
    by (simp add: filed_def ann_appendID_def sample_ann_def split: option.splits)
  show "mayProduce sample_state sample_words ''split''" by code_simp
  have "case fst (verify True ''split'' ''s0'' ''i1'' sample_state) of Inl _ \<Rightarrow> False | Inr _ \<Rightarrow> True" by code_simp
  then show "fst (verify (''s0'' \<noteq> '''') ''split'' ''s0'' ''i1'' sample_state) = Inr ()"
    by (simp split: sum.splits)
qed (rule sample_words sample_running)+

definition objection :: "string \<Rightarrow> channel \<Rightarrow> SegmentAnnouncement \<Rightarrow> bool" where
  "objection n c a \<longleftrightarrow> a_id a \<noteq> '''' \<and>
     (a_channel a \<noteq> '''' \<and> a_channel a \<noteq> n
      \<or> (case map_of (c_appendIDs c) (ann_appendID a) of
           Some r \<Rightarrow> \<not> sameAppend (seg c r) a n
         | None \<Rightarrow> c_sealed c \<or> c_finiteEpochs c \<and> a_epoch a < c_epoch c
             \<or> \<not> broadcast c \<and> (a_partition a < 0 \<or> partitions c \<le> a_partition a)))"

lemma check_objection: "(\<exists>err. announce_check n c anns b = Inl err) \<longleftrightarrow> list_ex (objection n c) anns"
proof (induction anns arbitrary: b)
  case (Cons a anns)
  then show ?case
    by (cases "map_of (c_appendIDs c) (ann_appendID a)") (auto simp: objection_def)
qed simp

text \<open>
  An announcement that brings anything new is refused as a whole when the channel is sealed, when a
  new segment lies behind the channel's epoch or outside its partitions, or when an append ID
  comes back with different metadata; the channel is then unchanged.
\<close>

theorem announce_refused:
  assumes "map_of (co_channels co) n = Some c" and "list_ex (objection n c) anns"
  shows "(\<exists>err. fst (AnnounceSession e n opName w inc anns co) = Inl err)
    \<and> co_channels (snd (AnnounceSession e n opName w inc anns co)) = co_channels co"
proof -
  obtain err where err: "announce_check n c anns False = Inl err" using check_objection assms(2) by blast
  obtain r co1 where v: "verify (w \<noteq> []) opName w inc co = (r, co1)" by (metis prod.collapse)
  then have "co_channels co1 = co_channels co" using frame_verify(1) [of "w \<noteq> []" opName w inc co] by simp
  then show ?thesis
    using assms(1) v err
    by (cases r) (auto simp: AnnounceSession_def get_def split: sum.split)
qed

theorem announce_refused_witness:
  "\<exists>err. fst (AnnounceSession sample_env ''words'' ''split'' ''s0'' ''i1'' [sample_ann ''c'' 9 1] sample_state) = Inl err"
proof -
  have "partitions sample_words = 2 \<and> \<not> broadcast sample_words \<and> map_of (c_appendIDs sample_words) ''h:1/c'' = None"
    unfolding sample_words_def by code_simp
  then have "list_ex (objection ''words'' sample_words) [sample_ann ''c'' 9 1]"
    by (simp add: objection_def sample_ann_def ann_appendID_def)
  then show ?thesis using announce_refused [OF sample_words] by blast
qed

end
