(* ===== verification/Paths.thy ===== *)
theory Paths
  imports Prelude
begin

text \<open>
  Slash-separated paths as Go's \<^verbatim>\<open>path\<close> and \<^verbatim>\<open>path/filepath\<close> packages treat them on a Unix
  system: \<open>Clean\<close> works on the elements of a path from left to right, dropping empty elements and
  dots and letting a double dot cancel the element before it.
\<close>

fun splitSlash :: "string \<Rightarrow> string list" where
  "splitSlash [] = [[]]"
| "splitSlash (x # xs) =
     (if x = CHR ''/'' then [] # splitSlash xs
      else (case splitSlash xs of [] \<Rightarrow> [[x]] | y # ys \<Rightarrow> (x # y) # ys))"

fun joinSlash :: "string list \<Rightarrow> string" where
  "joinSlash [] = []"
| "joinSlash [x] = x"
| "joinSlash (x # y # ys) = x @ ''/'' @ joinSlash (y # ys)"

definition clean_step :: "bool \<Rightarrow> string \<Rightarrow> string list \<Rightarrow> string list" where
  "clean_step rooted x out =
     (if x = '''' \<or> x = ''.'' then out
      else if x \<noteq> ''..'' then out @ [x]
      else if out \<noteq> [] \<and> last out \<noteq> ''..'' then butlast out
      else if rooted then out else out @ [x])"

definition elements :: "string \<Rightarrow> string list" where
  "elements p = fold (clean_step (HasPrefix p ''/'')) (splitSlash p) []"

definition Clean :: "string \<Rightarrow> string" where
  "Clean p =
     (if HasPrefix p ''/'' then ''/'' @ joinSlash (elements p)
      else if elements p = [] then ''.'' else joinSlash (elements p))"

definition Dir :: "string \<Rightarrow> string" where
  "Dir p = Clean (rev (dropWhile (\<lambda>x. x \<noteq> CHR ''/'') (rev p)))"

definition Join2 :: "string \<Rightarrow> string \<Rightarrow> string" where
  "Join2 a b = (if a = '''' then (if b = '''' then '''' else Clean b)
     else if b = '''' then Clean a else Clean (a @ ''/'' @ b))"

subsection \<open>Elements of a cleaned path\<close>

lemma splitSlash_nonempty [simp]: "splitSlash p \<noteq> []"
  by (induction p) (auto split: list.splits)

lemma splitSlash_append: "splitSlash (a @ CHR ''/'' # b) = splitSlash a @ splitSlash b"
  by (induction a) (auto split: list.splits simp: Cons_eq_append_conv)

lemma splitSlash_plain: "CHR ''/'' \<notin> set x \<Longrightarrow> splitSlash x = [x]"
  by (induction x) auto

lemma splitSlash_no_slash: "x \<in> set (splitSlash p) \<Longrightarrow> CHR ''/'' \<notin> set x"
  by (induction p arbitrary: x) (auto split: if_splits list.splits)

lemma split_join: "xs \<noteq> [] \<Longrightarrow> (\<And>x. x \<in> set xs \<Longrightarrow> CHR ''/'' \<notin> set x) \<Longrightarrow> splitSlash (joinSlash xs) = xs"
  by (induction xs rule: joinSlash.induct) (auto simp: splitSlash_plain splitSlash_append)

text \<open>Proper elements: no slash, not empty, not a dot.\<close>

definition proper :: "string \<Rightarrow> bool" where
  "proper x \<longleftrightarrow> CHR ''/'' \<notin> set x \<and> x \<noteq> '''' \<and> x \<noteq> ''.''"

definition ups_first :: "bool \<Rightarrow> string list \<Rightarrow> bool" where
  "ups_first rooted xs \<longleftrightarrow> (\<exists>n ys. xs = replicate n ''..'' @ ys \<and> ''..'' \<notin> set ys \<and> (rooted \<longrightarrow> n = 0))
     \<and> list_all proper xs"

lemma ups_firstE:
  assumes "ups_first rooted xs"
  obtains n ys where "xs = replicate n ''..'' @ ys" "''..'' \<notin> set ys" "rooted \<longrightarrow> n = 0" "list_all proper xs"
    "list_all proper ys"
proof -
  obtain n ys where "xs = replicate n ''..'' @ ys" "''..'' \<notin> set ys" "rooted \<longrightarrow> n = 0" "list_all proper xs"
    using assms unfolding ups_first_def by blast
  moreover from this have "list_all proper ys" by simp
  ultimately show ?thesis by (rule that)
qed

lemma ups_first_step:
  assumes "ups_first rooted out" and "CHR ''/'' \<notin> set x"
  shows "ups_first rooted (clean_step rooted x out)"
proof -
  obtain n ys where o: "out = replicate n ''..'' @ ys" "''..'' \<notin> set ys" "rooted \<longrightarrow> n = 0" and p: "list_all proper out"
    using assms(1) by (rule ups_firstE)
  have up: "ups_first rooted zs" if "zs = replicate m ''..'' @ us" "''..'' \<notin> set us" "rooted \<longrightarrow> m = 0"
      "list_all proper zs" for zs m us
    using that unfolding ups_first_def by blast
  consider "x = [] \<or> x = ''.''" | "proper x" "x \<noteq> ''..''" | "x = ''..''"
    using assms(2) by (auto simp: proper_def)
  then show ?thesis
  proof cases
    case 1
    then show ?thesis using assms(1) by (auto simp: clean_step_def)
  next
    case 2
    then have "clean_step rooted x out = replicate n ''..'' @ (ys @ [x])" using o(1) by (simp add: clean_step_def proper_def)
    then show ?thesis using 2 o p by (intro up [of _ n "ys @ [x]"]) auto
  next
    case 3
    show ?thesis
    proof (cases ys rule: rev_cases)
      case Nil
      show ?thesis
      proof (cases rooted)
        case True
        then show ?thesis using 3 Nil o assms(1) by (simp add: clean_step_def)
      next
        case False
        then have "clean_step rooted x out = replicate (Suc n) ''..'' @ []"
          using 3 Nil o(1) by (auto simp: clean_step_def replicate_append_same)
        moreover have "proper ''..''" by (simp add: proper_def)
        ultimately show ?thesis using False by (intro up [of _ "Suc n" "[]"]) (auto simp: list_all_iff)
      qed
    next
      case (snoc us u)
      then have "clean_step rooted x out = replicate n ''..'' @ us" using 3 o(1,2) by (auto simp: clean_step_def butlast_append)
      then show ?thesis using snoc o p by (intro up [of _ n us]) auto
    qed
  qed
qed

lemma ups_first_fold:
  assumes "ups_first rooted out" and "\<And>x. x \<in> set xs \<Longrightarrow> CHR ''/'' \<notin> set x"
  shows "ups_first rooted (fold (clean_step rooted) xs out)"
  using assms by (induction xs arbitrary: out) (auto intro: ups_first_step)

lemma ups_first_elements: "ups_first (HasPrefix p ''/'') (elements p)"
  unfolding elements_def
  by (rule ups_first_fold) (auto simp: ups_first_def dest: splitSlash_no_slash)

lemma elements_proper: "x \<in> set (elements p) \<Longrightarrow> proper x"
  using ups_first_elements [of p] by (auto simp: ups_first_def list_all_iff)

lemma fold_proper:
  "list_all proper xs \<Longrightarrow> ''..'' \<notin> set xs \<Longrightarrow> fold (clean_step rooted) xs out = out @ xs"
  by (induction xs arbitrary: out) (auto simp: clean_step_def proper_def)

lemma fold_ups: "fold (clean_step False) (replicate n ''..'') (replicate m ''..'') = replicate (m + n) ''..''"
  by (induction n arbitrary: m) (auto simp: clean_step_def replicate_append_same simp flip: replicate_Suc)

lemma clean_again:
  assumes "ups_first rooted xs"
  shows "fold (clean_step rooted) xs [] = xs"
proof -
  obtain n ys where o: "xs = replicate n ''..'' @ ys" "''..'' \<notin> set ys" "rooted \<longrightarrow> n = 0" and p: "list_all proper ys"
    using assms by (rule ups_firstE)
  show ?thesis
  proof (cases rooted)
    case False
    then show ?thesis using o p fold_ups [of n 0] by (simp add: fold_proper)
  qed (use o p in \<open>simp add: fold_proper\<close>)
qed

text \<open>Cleaning keeps the elements.\<close>

lemma HasPrefix_slash [simp]: "HasPrefix [] ''/'' = False" "HasPrefix (x # xs) ''/'' = (x = CHR ''/'')"
  by (auto simp: HasPrefix_def)

lemma elements_Clean: "elements (Clean p) = elements p"
proof -
  let ?e = "elements p" and ?r = "HasPrefix p ''/''"
  have ok: "\<And>x. x \<in> set ?e \<Longrightarrow> CHR ''/'' \<notin> set x" using elements_proper by (auto simp: proper_def)
  have again: "fold (clean_step ?r) ?e [] = ?e" by (rule clean_again [OF ups_first_elements])
  show ?thesis
  proof (cases "?e = []")
    case True
    then show ?thesis by (simp add: Clean_def) (simp add: elements_def clean_step_def)
  next
    case False
    note sj = split_join [OF False ok]
    show ?thesis
    proof (cases ?r)
      case True
      then show ?thesis using again sj False
        by (simp add: Clean_def) (simp add: elements_def [of "CHR ''/'' # joinSlash ?e"] clean_step_def [of _ "[]"])
    next
      case r: False
      have "\<not> HasPrefix (joinSlash ?e) ''/''"
        using ok [of "hd ?e"] elements_proper [of "hd ?e" p] False hd_in_set
        by (cases ?e rule: joinSlash.cases; cases "hd ?e") (auto simp: proper_def)
      then show ?thesis using again sj False r by (simp add: Clean_def elements_def [of "joinSlash ?e"])
    qed
  qed
qed

end
