(* ===== verification/Store.thy ===== *)
theory Store
  imports Paths
begin

text \<open>
  Durable objects and the fenced checkpoint, after \<^verbatim>\<open>pkg/storage/store.go\<close> and
  \<^verbatim>\<open>pkg/storage/checkpoint.go\<close>.

  The Go interface \<^verbatim>\<open>Store\<close> is the record \<open>Store\<close> of its four methods over the state of
  the backend; a method that only reads returns no state. A cancelled context is one of the errors a
  method may return. The locale \<open>lawful_store\<close> is the contract the checkpoint code relies on:
  what each method does to the objects when it succeeds and what an error leaves open.

  \<open>codec\<close> is the JSON encoding of a checkpoint. Its law \<open>codec_ok\<close> is about checkpoints whose
  text JSON carries unchanged (\<open>plain\<close>: valid UTF-8 and a compact state). A checkpoint that was
  claimed but never committed has no state, which is written as \<^verbatim>\<open>null\<close> and read back as that text.
\<close>

subsection \<open>Objects\<close>

type_synonym bytes = string

datatype serror = ErrNotFound | ErrConflict | ErrFenced | ErrObjectTooLarge | OtherError string

type_synonym 'a sresult = "serror + 'a"

record Object =
  obj_bytes :: bytes
  obj_version :: string

record 's Store =
  st_PutImmutable :: "string \<Rightarrow> bytes \<Rightarrow> 's \<Rightarrow> unit sresult \<times> 's"
  st_Get :: "string \<Rightarrow> 's \<Rightarrow> Object sresult"
  st_CompareAndSwap :: "string \<Rightarrow> string \<Rightarrow> bytes \<Rightarrow> 's \<Rightarrow> string sresult \<times> 's"
  st_Delete :: "string \<Rightarrow> 's \<Rightarrow> unit sresult \<times> 's"

definition PutImmutable :: "'s Store \<Rightarrow> string \<Rightarrow> bytes \<Rightarrow> 's \<Rightarrow> unit sresult \<times> 's" where
  "PutImmutable S k body s =
     (case st_PutImmutable S k body s of
        (Inl ErrConflict, s1) \<Rightarrow>
          (case st_Get S k s1 of
             Inr got \<Rightarrow> if obj_bytes got = body then (Inr (), s1) else (Inl ErrConflict, s1)
           | Inl _ \<Rightarrow> (Inl ErrConflict, s1))
      | r \<Rightarrow> r)"

subsection \<open>Checkpoints and their writer\<close>

record Checkpoint =
  cp_generation :: "64 word"
  cp_writer :: string
  cp_state :: bytes
  cp_tombstones :: "string list"

record codec =
  marshal :: "Checkpoint \<Rightarrow> bytes sresult"
  unmarshal :: "bytes \<Rightarrow> Checkpoint sresult"
  plain :: "Checkpoint \<Rightarrow> bool"

definition stored_form :: "Checkpoint \<Rightarrow> Checkpoint" where
  "stored_form cp = cp\<lparr>cp_state := (if cp_state cp = '''' then ''null'' else cp_state cp)\<rparr>"

definition codec_ok :: "codec \<Rightarrow> bool" where
  "codec_ok J \<longleftrightarrow> (\<forall>cp b. plain J cp \<longrightarrow> marshal J cp = Inr b \<longrightarrow> unmarshal J b = Inr (stored_form cp))"

record Writer =
  wr_key :: string
  wr_id :: string
  wr_version :: string
  wr_value :: Checkpoint

definition emptyCheckpoint :: Checkpoint where
  "emptyCheckpoint = \<lparr>cp_generation = 0, cp_writer = '''', cp_state = '''', cp_tombstones = []\<rparr>"

definition scopedKey :: "Writer \<Rightarrow> string \<Rightarrow> string" where
  "scopedKey w k = (let directory = Dir (wr_key w) in if directory = ''.'' then k else directory @ ''/'' @ k)"

definition Writer_PutImmutable :: "'s Store \<Rightarrow> Writer \<Rightarrow> string \<Rightarrow> bytes \<Rightarrow> 's \<Rightarrow> unit sresult \<times> 's" where
  "Writer_PutImmutable S w k body s = PutImmutable S (scopedKey w k) body s"

definition Writer_Delete :: "'s Store \<Rightarrow> Writer \<Rightarrow> string \<Rightarrow> 's \<Rightarrow> unit sresult \<times> 's" where
  "Writer_Delete S w k s = st_Delete S (scopedKey w k) s"

text \<open>The checkpoint a claim and a commit write over the one they read.\<close>

definition claimed :: "string \<Rightarrow> Checkpoint \<Rightarrow> Checkpoint" where
  "claimed ident cp = cp\<lparr>cp_generation := cp_generation cp + 1, cp_writer := ident\<rparr>"

definition committed :: "bytes \<Rightarrow> string list \<Rightarrow> Checkpoint \<Rightarrow> Checkpoint" where
  "committed state tombstones cp =
     cp\<lparr>cp_generation := cp_generation cp + 1, cp_state := state, cp_tombstones := tombstones\<rparr>"

lemma next_simps [simp]:
  "cp_generation (claimed ident cp) = cp_generation cp + 1" "cp_writer (claimed ident cp) = ident"
  "cp_state (claimed ident cp) = cp_state cp" "cp_tombstones (claimed ident cp) = cp_tombstones cp"
  "cp_generation (committed state ts cp) = cp_generation cp + 1"
  "cp_writer (committed state ts cp) = cp_writer cp"
  "cp_state (committed state ts cp) = state" "cp_tombstones (committed state ts cp) = ts"
  by (simp_all add: claimed_def committed_def)

text \<open>
  \<^verbatim>\<open>Claim\<close> and \<^verbatim>\<open>Commit\<close> read the checkpoint and then replace it conditionally. \<open>others\<close> is what
  other processes do to the backend between the two.
\<close>

definition claim_cas ::
  "codec \<Rightarrow> 's Store \<Rightarrow> string \<Rightarrow> string \<Rightarrow> Checkpoint \<Rightarrow> string \<Rightarrow> 's \<Rightarrow> (Writer \<times> Checkpoint) sresult \<times> 's"
where
  "claim_cas J S k ident previous oldVersion s =
     (let cp = claimed ident previous in
      case marshal J cp of
        Inl err \<Rightarrow> (Inl err, s)
      | Inr body \<Rightarrow>
          (case st_CompareAndSwap S k oldVersion body s of
             (Inl err, s1) \<Rightarrow> (Inl err, s1)
           | (Inr newVersion, s1) \<Rightarrow>
               (Inr (\<lparr>wr_key = k, wr_id = ident, wr_version = newVersion, wr_value = cp\<rparr>, previous), s1)))"

definition Claim ::
  "codec \<Rightarrow> 's Store \<Rightarrow> ('s \<Rightarrow> 's) \<Rightarrow> string \<Rightarrow> string \<Rightarrow> 's \<Rightarrow> (Writer \<times> Checkpoint) sresult \<times> 's"
where
  "Claim J S others k ident s =
     (if ident = '''' then (Inl (OtherError ''writer identity is required''), s)
      else
        (case st_Get S k s of
           Inr obj \<Rightarrow>
             (case unmarshal J (obj_bytes obj) of
                Inl _ \<Rightarrow> (Inl (OtherError ''decode checkpoint: %w''), s)
              | Inr cp \<Rightarrow> claim_cas J S k ident cp (obj_version obj) (others s))
         | Inl ErrNotFound \<Rightarrow> claim_cas J S k ident emptyCheckpoint '''' (others s)
         | Inl err \<Rightarrow> (Inl err, s)))"

definition Commit ::
  "codec \<Rightarrow> 's Store \<Rightarrow> ('s \<Rightarrow> 's) \<Rightarrow> Writer \<Rightarrow> bytes \<Rightarrow> string list \<Rightarrow> 's \<Rightarrow> unit sresult \<times> Writer \<times> 's"
where
  "Commit J S others w state tombstones s =
     (case st_Get S (wr_key w) s of
        Inl err \<Rightarrow> (Inl err, w, s)
      | Inr current \<Rightarrow>
          (case unmarshal J (obj_bytes current) of
             Inl _ \<Rightarrow> (Inl (OtherError ''decode checkpoint: %w''), w, s)
           | Inr stored \<Rightarrow>
               if cp_writer stored \<noteq> wr_id w \<or> cp_generation stored \<noteq> cp_generation (wr_value w)
                  \<or> obj_version current \<noteq> wr_version w
               then (Inl ErrFenced, w, s)
               else
                 (let nxt = committed state tombstones stored in
                  case marshal J nxt of
                    Inl err \<Rightarrow> (Inl err, w, s)
                  | Inr body \<Rightarrow>
                      (case st_CompareAndSwap S (wr_key w) (wr_version w) body (others s) of
                         (Inl ErrConflict, s1) \<Rightarrow> (Inl ErrFenced, w, s1)
                       | (Inl err, s1) \<Rightarrow> (Inl err, w, s1)
                       | (Inr newVersion, s1) \<Rightarrow>
                           (Inr (), w\<lparr>wr_version := newVersion, wr_value := nxt\<rparr>, s1)))))"

text \<open>The checkpoint an object decodes to.\<close>

definition checkpoint_of :: "codec \<Rightarrow> bytes option \<Rightarrow> Checkpoint option" where
  "checkpoint_of J x =
     (case x of
        None \<Rightarrow> None
      | Some b \<Rightarrow> (case unmarshal J b of Inl _ \<Rightarrow> None | Inr cp \<Rightarrow> Some cp))"

lemma checkpoint_of_simps [simp]:
  "checkpoint_of J None = None" "unmarshal J b = Inr cp \<Longrightarrow> checkpoint_of J (Some b) = Some cp"
  by (simp_all add: checkpoint_of_def)

definition last_checkpoint :: "codec \<Rightarrow> bytes option \<Rightarrow> Checkpoint" where
  "last_checkpoint J x = (case checkpoint_of J x of None \<Rightarrow> emptyCheckpoint | Some cp \<Rightarrow> cp)"

lemma codec_okD: "codec_ok J \<Longrightarrow> plain J cp \<Longrightarrow> marshal J cp = Inr b \<Longrightarrow> unmarshal J b = Inr (stored_form cp)"
  by (simp add: codec_ok_def)

lemma stored_form_simps [simp]:
  "cp_generation (stored_form cp) = cp_generation cp" "cp_writer (stored_form cp) = cp_writer cp"
  "cp_tombstones (stored_form cp) = cp_tombstones cp"
  "cp_state cp \<noteq> '''' \<Longrightarrow> stored_form cp = cp"
  by (simp_all add: stored_form_def)

subsection \<open>The contract of a backend\<close>

text \<open>
  \<open>objects s k\<close> is the object under key \<open>k\<close>, \<open>loc\<close> tells which keys name the same object,
  and \<open>ver\<close> is the version of a body. \<open>fits_version\<close> is the condition of a conditional write.
\<close>

definition fits_version :: "(bytes \<Rightarrow> string) \<Rightarrow> string \<Rightarrow> bytes option \<Rightarrow> bool" where
  "fits_version ver v x \<longleftrightarrow> (case x of None \<Rightarrow> v = '''' | Some b \<Rightarrow> v = ver b)"

locale lawful_store =
  fixes S :: "'s Store" and objects :: "'s \<Rightarrow> string \<Rightarrow> bytes option"
    and loc :: "string \<Rightarrow> 'l" and ver :: "bytes \<Rightarrow> string"
  assumes ver_nonempty: "ver b \<noteq> ''''"
    and get_found: "st_Get S k s = Inr obj \<Longrightarrow>
          objects s k = Some (obj_bytes obj) \<and> obj_version obj = ver (obj_bytes obj)"
    and get_missing: "st_Get S k s = Inl ErrNotFound \<Longrightarrow> objects s k = None"
    and cas_done: "st_CompareAndSwap S k v b s = (Inr v', s') \<Longrightarrow>
          v' = ver b \<and> fits_version ver v (objects s k)
          \<and> objects s' = (\<lambda>x. if loc x = loc k then Some b else objects s x)"
    and cas_failed: "st_CompareAndSwap S k v b s = (Inl err, s') \<Longrightarrow>
          objects s' = objects s
          \<or> err \<noteq> ErrConflict \<and> fits_version ver v (objects s k)
            \<and> objects s' = (\<lambda>x. if loc x = loc k then Some b else objects s x)"
    and put_old: "st_PutImmutable S k b s = (r, s') \<Longrightarrow> objects s x = Some b0 \<Longrightarrow> objects s' x = Some b0"
    and put_done: "st_PutImmutable S k b s = (Inr (), s') \<Longrightarrow> \<exists>b1. objects s' k = Some b1 \<and> ver b1 = ver b"
    and delete_done: "st_Delete S k s = (Inr (), s') \<Longrightarrow> objects s' k = None"
    and delete_other: "st_Delete S k s = (r, s') \<Longrightarrow> loc x \<noteq> loc k \<Longrightarrow> objects s' x = objects s x"
begin

lemma fits_some [simp]: "fits_version ver (ver b) x \<longleftrightarrow> map_option ver x = Some (ver b)"
  by (auto simp: fits_version_def ver_nonempty ver_nonempty [symmetric] split: option.splits)

lemma fits_none [simp]: "fits_version ver [] x \<longleftrightarrow> x = None"
  by (auto simp: fits_version_def ver_nonempty ver_nonempty [symmetric] split: option.splits)

text \<open>
  Storing an immutable object succeeds only when the key then holds a body of the same version;
  whatever the outcome, objects that are there stay as they are.
\<close>

lemma PutImmutable_done:
  assumes "PutImmutable S k b s = (Inr (), s')"
  shows "\<exists>b1. objects s' k = Some b1 \<and> ver b1 = ver b"
  using assms
  by (auto simp: PutImmutable_def split: prod.splits sum.splits serror.splits if_splits
      dest: put_done get_found)

lemma PutImmutable_old:
  assumes "PutImmutable S k b s = (r, s')" and "objects s x = Some b0"
  shows "objects s' x = Some b0"
  using assms
  by (auto simp: PutImmutable_def split: prod.splits sum.splits serror.splits if_splits dest: put_old)

subsection \<open>Claiming and committing\<close>

text \<open>A claim that wins stores its own generation, one above the one it read.\<close>

lemma claim_cas_done:
  assumes "claim_cas J S k ident p v s = (Inr (w, previous), s')"
  obtains b where "p = previous" "marshal J (wr_value w) = Inr b"
    "w = \<lparr>wr_key = k, wr_id = ident, wr_version = ver b,
         wr_value = claimed ident p\<rparr>"
    "fits_version ver v (objects s k)" "objects s' k = Some b"
  using assms by (auto simp: claim_cas_def Let_def split: sum.splits prod.splits dest!: cas_done)

lemma claim_done:
  assumes "Claim J S others k ident s = (Inr (w, previous), s')"
  obtains b where "marshal J (wr_value w) = Inr b"
    "w = \<lparr>wr_key = k, wr_id = ident, wr_version = ver b,
         wr_value = claimed ident previous\<rparr>"
    "objects s k = None \<and> previous = emptyCheckpoint \<or> checkpoint_of J (objects s k) = Some previous"
    "map_option ver (objects (others s) k) = map_option ver (objects s k)" "objects s' k = Some b"
proof (cases "st_Get S k s")
  case (Inr obj)
  then obtain cp where cp: "unmarshal J (obj_bytes obj) = Inr cp"
      "claim_cas J S k ident cp (obj_version obj) (others s) = (Inr (w, previous), s')"
    using assms by (auto simp: Claim_def split: if_splits sum.splits)
  have o1: "objects s k = Some (obj_bytes obj)" "obj_version obj = ver (obj_bytes obj)"
    using get_found [OF Inr] by simp_all
  show ?thesis
    by (rule claim_cas_done [OF cp(2)], rule that) (use cp(1) o1 in auto)
next
  case (Inl err)
  then have e: "st_Get S k s = Inl ErrNotFound"
    and c: "claim_cas J S k ident emptyCheckpoint [] (others s) = (Inr (w, previous), s')"
    using assms by (auto simp: Claim_def split: if_splits serror.splits)
  have o1: "objects s k = None" using get_missing [OF e] .
  show ?thesis
    by (rule claim_cas_done [OF c], rule that) (use o1 in auto)
qed

text \<open>
  A commit that wins found the checkpoint at the version and generation the writer knows, and so did
  its conditional write.
\<close>

lemma commit_done:
  assumes "Commit J S others w state ts s = (Inr (), w', s')"
  obtains b0 b cp where "objects s (wr_key w) = Some b0" "unmarshal J b0 = Inr cp"
    "cp_writer cp = wr_id w" "cp_generation cp = cp_generation (wr_value w)" "ver b0 = wr_version w"
    "map_option ver (objects (others s) (wr_key w)) = Some (wr_version w)"
    "w' = w\<lparr>wr_version := ver b,
        wr_value := committed state ts cp\<rparr>"
    "marshal J (wr_value w') = Inr b"
    "objects s' = (\<lambda>x. if loc x = loc (wr_key w) then Some b else objects (others s) x)"
proof -
  obtain cur where cur: "st_Get S (wr_key w) s = Inr cur"
    using assms by (auto simp: Commit_def split: sum.splits)
  note got = get_found [OF this]
  obtain cp b v1 where c: "unmarshal J (obj_bytes cur) = Inr cp" "cp_writer cp = wr_id w"
      "cp_generation cp = cp_generation (wr_value w)" "obj_version cur = wr_version w"
      "marshal J (committed state ts cp) = Inr b"
      "st_CompareAndSwap S (wr_key w) (wr_version w) b (others s) = (Inr v1, s')"
      "w' = w\<lparr>wr_version := v1,
        wr_value := committed state ts cp\<rparr>"
    using assms cur
    by (auto simp: Commit_def Let_def split: sum.splits prod.splits if_splits serror.splits)
  have v: "wr_version w = ver (obj_bytes cur)" using got c(4) by simp
  show ?thesis
    by (rule that [where cp = cp]) (use got c v cas_done [OF c(6)] in auto)
qed

text \<open>A writer whose generation is not the stored one is refused, and the store stays as it is.\<close>

lemma commit_overtaken:
  assumes "checkpoint_of J (objects s (wr_key w)) = Some cp" and "cp_generation cp \<noteq> cp_generation (wr_value w)"
  shows "\<exists>err. Commit J S others w state ts s = (Inl err, w, s)
    \<and> (\<forall>obj. st_Get S (wr_key w) s = Inr obj \<longrightarrow> err = ErrFenced)"
proof (cases "st_Get S (wr_key w) s")
  case (Inr cur)
  then have "unmarshal J (obj_bytes cur) = Inr cp"
    using get_found [OF Inr] assms(1) by (auto simp: checkpoint_of_def split: sum.splits)
  then show ?thesis using Inr assms(2) by (auto simp: Commit_def)
qed (simp add: Commit_def)

lemma commit_refused:
  assumes "Commit J S (\<lambda>x. x) w state ts s = (Inl err, w', s')"
  shows "w' = w \<and> (objects s' = objects s
    \<or> (\<exists>cp b. checkpoint_of J (objects s (wr_key w)) = Some cp \<and> cp_generation cp = cp_generation (wr_value w)
        \<and> marshal J (committed state ts cp) = Inr b
        \<and> objects s' = (\<lambda>x. if loc x = loc (wr_key w) then Some b else objects s x)))"
proof (cases "st_Get S (wr_key w) s")
  case (Inr cur)
  then show ?thesis using assms get_found [OF Inr]
    by (auto simp: Commit_def Let_def split: sum.splits prod.splits if_splits serror.splits
        dest!: cas_failed)
qed (use assms in \<open>simp add: Commit_def\<close>)

lemma claim_failed:
  assumes "Claim J S (\<lambda>x. x) k ident s = (Inl err, s')"
  shows "objects s' = objects s
    \<or> (\<exists>b. marshal J (claimed ident (last_checkpoint J (objects s k))) = Inr b
        \<and> objects s' = (\<lambda>x. if loc x = loc k then Some b else objects s x))"
proof (cases "st_Get S k s")
  case (Inr cur)
  then show ?thesis using assms get_found [OF Inr]
    by (auto simp: Claim_def claim_cas_def last_checkpoint_def Let_def split: sum.splits prod.splits if_splits serror.splits
        dest!: cas_failed)
next
  case (Inl e)
  then show ?thesis using assms
    by (auto simp: Claim_def claim_cas_def last_checkpoint_def Let_def split: sum.splits prod.splits if_splits serror.splits
        dest!: cas_failed get_missing)
qed

end

subsection \<open>Several coordinators over one checkpoint\<close>

text \<open>
  Processes claim the checkpoint under key \<open>k\<close> and commit to it, one call at a time; the calls may
  fail, also after their write took effect. \<open>F a\<close> is the backend as one call meets it. The
  writers that were handed out are kept, whether they still own the checkpoint or not, and \<open>n\<close>
  counts the writes.
\<close>

inductive cp_run :: "codec \<Rightarrow> ('a \<Rightarrow> 's Store) \<Rightarrow> ('s \<Rightarrow> string \<Rightarrow> bytes option) \<Rightarrow> string \<Rightarrow> nat \<Rightarrow> 's \<Rightarrow> Writer list \<Rightarrow> bool"
  for J :: codec and F :: "'a \<Rightarrow> 's Store" and objects :: "'s \<Rightarrow> string \<Rightarrow> bytes option" and k :: string
where
  start: "objects s k = None \<Longrightarrow> cp_run J F objects k 0 s []"
| claim: "cp_run J F objects k n s ws \<Longrightarrow> plain J (claimed ident (last_checkpoint J (objects s k)))
    \<Longrightarrow> Claim J (F a) (\<lambda>x. x) k ident s = (r, s')
    \<Longrightarrow> cp_run J F objects k (if objects s' k = objects s k then n else Suc n) s'
          (case r of Inl _ \<Rightarrow> ws | Inr (w, _) \<Rightarrow> ws @ [w])"
| commit: "cp_run J F objects k n s ws \<Longrightarrow> i < length ws
    \<Longrightarrow> plain J (committed state ts (last_checkpoint J (objects s k)))
    \<Longrightarrow> Commit J (F a) (\<lambda>x. x) (ws ! i) state ts s = (r, w', s')
    \<Longrightarrow> cp_run J F objects k (if objects s' k = objects s k then n else Suc n) s' (ws[i := w'])"

text \<open>
  The stored generation counts the writes, and every writer carries the number of the write that
  produced it; no two writers carry the same one.
\<close>

definition numbered :: "codec \<Rightarrow> string \<Rightarrow> nat \<Rightarrow> bytes option \<Rightarrow> Writer list \<Rightarrow> bool" where
  "numbered J k n x ws \<longleftrightarrow>
     (if n = 0 then x = None else checkpoint_of J x \<noteq> None)
     \<and> cp_generation (last_checkpoint J x) = of_nat n
     \<and> (\<exists>ms. length ms = length ws \<and> distinct ms
          \<and> (\<forall>i < length ws. wr_key (ws ! i) = k \<and> ms ! i \<le> n \<and> cp_generation (wr_value (ws ! i)) = of_nat (ms ! i)))"

lemma numbered_written:
  assumes "numbered J k n x ws" and "unmarshal J b = Inr cp" and "cp_generation cp = of_nat (Suc n)"
  shows "numbered J k (Suc n) (Some b) ws \<and> Some b \<noteq> x"
proof -
  have "Some b \<noteq> x" using assms by (auto simp: numbered_def last_checkpoint_def split: if_splits)
  then show ?thesis using assms by (auto simp: numbered_def last_checkpoint_def) (metis le_SucI)
qed

lemma numbered_append:
  assumes "numbered J k n x ws" and "wr_key w = k" and "cp_generation (wr_value w) = of_nat (Suc n)"
    and "unmarshal J b = Inr cp" and "cp_generation cp = of_nat (Suc n)"
  shows "numbered J k (Suc n) (Some b) (ws @ [w])"
proof -
  obtain ms where ms: "length ms = length ws" "distinct ms"
      "\<forall>i < length ws. wr_key (ws ! i) = k \<and> ms ! i \<le> n \<and> cp_generation (wr_value (ws ! i)) = of_nat (ms ! i)"
    using assms(1) by (auto simp: numbered_def)
  have "Suc n \<notin> set ms" using ms(1,3) by (auto simp: in_set_conv_nth)
  then have "distinct (ms @ [Suc n])" using ms(2) by simp
  moreover have "\<forall>i < length (ws @ [w]). wr_key ((ws @ [w]) ! i) = k \<and> (ms @ [Suc n]) ! i \<le> Suc n
      \<and> cp_generation (wr_value ((ws @ [w]) ! i)) = of_nat ((ms @ [Suc n]) ! i)"
    using ms(1,3) assms(2,3) by (auto simp: nth_append less_Suc_eq le_SucI)
  ultimately show ?thesis using assms(4,5) ms(1)
    unfolding numbered_def by (auto simp: last_checkpoint_def intro!: exI [of _ "ms @ [Suc n]"])
qed

lemma numbered_update:
  assumes "numbered J k n x ws" and "i < length ws" and "wr_key w = k"
    and "cp_generation (wr_value w) = of_nat (Suc n)"
    and "unmarshal J b = Inr cp" and "cp_generation cp = of_nat (Suc n)"
  shows "numbered J k (Suc n) (Some b) (ws[i := w])"
proof -
  obtain ms where ms: "length ms = length ws" "distinct ms"
      "\<forall>i < length ws. wr_key (ws ! i) = k \<and> ms ! i \<le> n \<and> cp_generation (wr_value (ws ! i)) = of_nat (ms ! i)"
    using assms(1) by (auto simp: numbered_def)
  have "Suc n \<notin> set ms" using ms(1,3) by (auto simp: in_set_conv_nth)
  then have "distinct (ms[i := Suc n])" using ms(2) by (simp add: distinct_list_update)
  moreover have "\<forall>j < length (ws[i := w]). wr_key (ws[i := w] ! j) = k \<and> ms[i := Suc n] ! j \<le> Suc n
      \<and> cp_generation (wr_value (ws[i := w] ! j)) = of_nat (ms[i := Suc n] ! j)"
    using ms(1,3) assms(2-4) by (auto simp: nth_list_update le_SucI)
  ultimately show ?thesis using assms(5,6) ms(1)
    unfolding numbered_def by (auto simp: last_checkpoint_def intro!: exI [of _ "ms[i := Suc n]"])
qed

locale store_family =
  fixes F :: "'a \<Rightarrow> 's Store" and objects :: "'s \<Rightarrow> string \<Rightarrow> bytes option"
    and loc :: "string \<Rightarrow> 'l" and ver :: "bytes \<Rightarrow> string"
  assumes lawful: "lawful_store (F a) objects loc ver"
begin

lemmas claim_done = lawful_store.claim_done [OF lawful]
lemmas claim_failed = lawful_store.claim_failed [OF lawful]
lemmas commit_done = lawful_store.commit_done [OF lawful]
lemmas commit_refused = lawful_store.commit_refused [OF lawful]

lemma run_numbered:
  assumes "cp_run J F objects k n s ws" and J: "codec_ok J"
  shows "numbered J k n (objects s k) ws"
  using assms(1)
proof induction
  case (start s)
  then show ?case by (simp add: numbered_def last_checkpoint_def emptyCheckpoint_def)
next
  case (claim n s ws ident a r s')
  have g: "cp_generation (last_checkpoint J (objects s k)) = of_nat n" using claim.IH by (simp add: numbered_def)
  show ?case
  proof (cases r)
    case (Inr x)
    obtain w previous where x: "x = (w, previous)" by fastforce
    obtain b where b: "marshal J (wr_value w) = Inr b" "wr_key w = k" "wr_value w = claimed ident previous"
        "objects s k = None \<and> previous = emptyCheckpoint \<or> checkpoint_of J (objects s k) = Some previous"
        "objects s' k = Some b"
      using claim.hyps(3) Inr x by (auto elim!: claim_done)
    have p: "previous = last_checkpoint J (objects s k)" using b(4) by (auto simp: last_checkpoint_def)
    then have "unmarshal J b = Inr (stored_form (claimed ident previous))"
      using codec_okD [OF J] claim.hyps(2) b(1,3) by simp
    then show ?thesis
      using numbered_append [OF claim.IH b(2)] numbered_written [OF claim.IH] b(3,5) p g Inr x by simp
  next
    case (Inl err)
    then consider "objects s' = objects s" | b where
        "marshal J (claimed ident (last_checkpoint J (objects s k))) = Inr b" "objects s' k = Some b"
      using claim_failed [OF claim.hyps(3) [unfolded Inl]] by auto
    then show ?thesis
    proof cases
      case 2
      have "unmarshal J b = Inr (stored_form (claimed ident (last_checkpoint J (objects s k))))"
        using codec_okD [OF J] claim.hyps(2) 2(1) by simp
      then show ?thesis using numbered_written [OF claim.IH] g 2(2) Inl by simp
    qed (use claim.IH Inl in simp)
  qed
next
  case (commit n s ws i state ts a r w' s')
  have g: "cp_generation (last_checkpoint J (objects s k)) = of_nat n" using commit.IH by (simp add: numbered_def)
  have key: "wr_key (ws ! i) = k" using commit.IH commit.hyps(2) by (auto simp: numbered_def)
  show ?case
  proof (cases r)
    case (Inr u)
    obtain b0 b cp where b: "objects s k = Some b0" "unmarshal J b0 = Inr cp" "wr_value w' = committed state ts cp"
        "wr_key w' = k" "marshal J (wr_value w') = Inr b" "objects s' k = Some b"
      using commit.hyps(4) Inr key by (auto elim!: commit_done)
    have p: "cp = last_checkpoint J (objects s k)" using b(1,2) by (simp add: last_checkpoint_def)
    then have "unmarshal J b = Inr (stored_form (committed state ts cp))"
      using codec_okD [OF J] commit.hyps(3) b(3,5) by simp
    then show ?thesis
      using numbered_update [OF commit.IH commit.hyps(2) b(4)] numbered_written [OF commit.IH] b(3,6) p g by simp
  next
    case (Inl err)
    have f: "w' = ws ! i" using commit_refused commit.hyps(4) Inl by blast
    consider "objects s' = objects s" | cp b where
        "checkpoint_of J (objects s k) = Some cp" "marshal J (committed state ts cp) = Inr b" "objects s' k = Some b"
      using commit_refused [OF commit.hyps(4) [unfolded Inl]] key by auto
    then show ?thesis
    proof cases
      case 2
      have p: "cp = last_checkpoint J (objects s k)" using 2(1) by (simp add: last_checkpoint_def)
      then have "unmarshal J b = Inr (stored_form (committed state ts cp))"
        using codec_okD [OF J] commit.hyps(3) 2(2) by simp
      then show ?thesis using numbered_written [OF commit.IH] p g 2(3) f by simp
    qed (use commit.IH f in simp)
  qed
qed

text \<open>At any moment at most one of the writers can commit.\<close>

lemma single_writer:
  assumes "cp_run J F objects k n s ws" and "codec_ok J" and "n < 2 ^ 64" and "i < length ws" and "j < length ws"
    and "Commit J (F a) others (ws ! i) st ts s = (Inr (), wi, si)"
    and "Commit J (F a') others' (ws ! j) st' ts' s = (Inr (), wj, sj)"
  shows "i = j"
proof -
  obtain ms where ms: "length ms = length ws" "distinct ms" "cp_generation (last_checkpoint J (objects s k)) = of_nat n"
      "\<forall>i < length ws. wr_key (ws ! i) = k \<and> ms ! i \<le> n \<and> cp_generation (wr_value (ws ! i)) = of_nat (ms ! i)"
    using run_numbered [OF assms(1,2)] by (auto simp: numbered_def)
  have cur: "cp_generation (wr_value (ws ! x)) = of_nat n"
    if "x < length ws" "Commit J (F b) oth (ws ! x) st ts s = (Inr (), w, s')" for x b oth st ts w s'
  proof -
    have "wr_key (ws ! x) = k" using that(1) ms(4) by blast
    then show ?thesis
      by (rule_tac commit_done [OF that(2)]) (use ms(3) in \<open>simp add: last_checkpoint_def\<close>)
  qed
  have num: "ms ! x = n" if "x < length ws" "cp_generation (wr_value (ws ! x)) = of_nat n" for x
  proof -
    have "(of_nat (ms ! x) :: 64 word) = of_nat n" "ms ! x \<le> n" using that ms(4) by auto
    moreover have "ms ! x < 2 ^ LENGTH(64)" "n < 2 ^ LENGTH(64)" using calculation(2) assms(3) by simp_all
    ultimately show ?thesis by (simp only: word_of_nat_eq_iff take_bit_nat_eq_self)
  qed
  have "ms ! i = ms ! j" using num cur assms(4-7) by simp
  then show ?thesis using ms(1,2) assms(4,5) by (simp add: nth_eq_iff_index_eq)
qed

end

end
