(* ===== verification/LocalStore.thy ===== *)
theory LocalStore
  imports Store
begin

text \<open>
  The backend on a local directory, after \<^verbatim>\<open>pkg/storage/local.go\<close>.

  The file system is the map from paths to file contents. One call of a method runs under an
  \<open>os\<close>: \<open>os_err\<close> says which system calls fail and how, \<open>os_ctx\<close> is the error of the context,
  and \<open>os_others\<close> lists files that other processes create while an immutable object is being
  written. A temporary file exists only during one call, which removes it on every path, and is
  left out. Waiting for the lock of a key ends with the lock or with an error, which is a failing
  \<open>Flock\<close>. The SHA-256 digest is the argument \<open>sha\<close>; \<open>version\<close> prints it in hexadecimal.
\<close>

datatype syscall =
    MkdirAll | CreateTemp | WriteTemp | SyncTemp | CloseTemp | Rename | Link | OpenFile | StatFile
  | ReadAll | ReadFile | Remove | OpenDir | SyncDir | OpenLock | Flock
  | Funlock | CloseFile

type_synonym files = "(string, bytes) gomap"

record os =
  os_err :: "syscall \<Rightarrow> string \<Rightarrow> string option"
  os_ctx :: "string option"
  os_others :: "(string \<times> bytes) list"

fun first_fault :: "os \<Rightarrow> (syscall \<times> string) list \<Rightarrow> serror option" where
  "first_fault o1 [] = None"
| "first_fault o1 ((sc, p) # rest) =
     (case os_err o1 sc p of Some e \<Rightarrow> Some (OtherError e) | None \<Rightarrow> first_fault o1 rest)"

definition ctx_err :: "os \<Rightarrow> serror option" where
  "ctx_err o1 = map_option OtherError (os_ctx o1)"

definition created :: "(string \<times> bytes) list \<Rightarrow> files \<Rightarrow> files" where
  "created news fs = fold (\<lambda>(p, b) fs1. if map_of fs1 p = None then AList.update p b fs1 else fs1) news fs"

subsection \<open>Keys and versions\<close>

definition path :: "string \<Rightarrow> string \<Rightarrow> string sresult" where
  "path dir k =
     (let clean = Clean k in
      if k = '''' \<or> HasPrefix clean ''/'' \<or> clean = ''..'' \<or> HasPrefix clean ''../''
      then Inl (OtherError ''invalid storage key %q'') else Inr (Join2 dir clean))"

definition hexDigit :: "nat \<Rightarrow> char" where
  "hexDigit d = ''0123456789abcdef'' ! d"

fun hexInt :: "nat \<Rightarrow> int \<Rightarrow> string" where
  "hexInt 0 n = []"
| "hexInt (Suc w) n = hexInt w (n div 16) @ [hexDigit (nat (n mod 16))]"

definition version :: "(bytes \<Rightarrow> 256 word) \<Rightarrow> bytes \<Rightarrow> string" where
  "version sha body = hexInt 64 (uint (sha body))"

subsection \<open>Files\<close>

definition syncDir :: "os \<Rightarrow> string \<Rightarrow> unit sresult" where
  "syncDir o1 p =
     (case first_fault o1 [(OpenDir, p), (SyncDir, p)] of Some e \<Rightarrow> Inl e | None \<Rightarrow> Inr ())"

definition writeFile :: "os \<Rightarrow> string \<Rightarrow> bytes \<Rightarrow> files \<Rightarrow> unit sresult \<times> files" where
  "writeFile o1 p body fs =
     (let d = Dir p in
      case first_fault o1 [(MkdirAll, d), (CreateTemp, d), (WriteTemp, d), (SyncTemp, d), (CloseTemp, d), (Rename, p)] of
        Some e \<Rightarrow> (Inl e, fs)
      | None \<Rightarrow> (syncDir o1 d, AList.update p body fs))"

definition writeImmutable ::
  "(bytes \<Rightarrow> 256 word) \<Rightarrow> os \<Rightarrow> string \<Rightarrow> bytes \<Rightarrow> files \<Rightarrow> unit sresult \<times> files"
where
  "writeImmutable sha o1 p body fs0 =
     (let d = Dir p in
      case first_fault o1 [(MkdirAll, d), (CreateTemp, d), (WriteTemp, d), (SyncTemp, d), (CloseTemp, d)] of
        Some e \<Rightarrow> (Inl e, fs0)
      | None \<Rightarrow>
          (let fs = created (os_others o1) fs0 in
           case map_of fs p of
             Some old \<Rightarrow>
               (if first_fault o1 [(ReadFile, p)] = None \<and> version sha old = version sha body
                then (Inr (), fs) else (Inl ErrConflict, fs))
           | None \<Rightarrow>
               (case first_fault o1 [(Link, p)] of
                  Some e \<Rightarrow> (Inl e, fs)
                | None \<Rightarrow> (syncDir o1 d, AList.update p body fs))))"

subsection \<open>The methods\<close>

definition NewLocal :: "os \<Rightarrow> string \<Rightarrow> string sresult" where
  "NewLocal o1 dir = (case first_fault o1 [(MkdirAll, dir)] of Some e \<Rightarrow> Inl e | None \<Rightarrow> Inr dir)"

definition Local_PutImmutable ::
  "(bytes \<Rightarrow> 256 word) \<Rightarrow> os \<Rightarrow> string \<Rightarrow> string \<Rightarrow> bytes \<Rightarrow> files \<Rightarrow> unit sresult \<times> files"
where
  "Local_PutImmutable sha o1 dir k body fs =
     (case ctx_err o1 of
        Some e \<Rightarrow> (Inl e, fs)
      | None \<Rightarrow>
          (case path dir k of
             Inl e \<Rightarrow> (Inl e, fs)
           | Inr p \<Rightarrow>
               (case first_fault o1 [(ReadFile, p)] of
                  Some e \<Rightarrow> (Inl e, fs)
                | None \<Rightarrow>
                    (case map_of fs p of
                       Some old \<Rightarrow>
                         (if version sha old = version sha body then (Inr (), fs) else (Inl ErrConflict, fs))
                     | None \<Rightarrow> writeImmutable sha o1 p body fs))))"

definition GetBounded ::
  "(bytes \<Rightarrow> 256 word) \<Rightarrow> os \<Rightarrow> string \<Rightarrow> string \<Rightarrow> int \<Rightarrow> files \<Rightarrow> Object sresult"
where
  "GetBounded sha o1 dir k maxBytes fs =
     (case ctx_err o1 of
        Some e \<Rightarrow> Inl e
      | None \<Rightarrow>
          (case path dir k of
             Inl e \<Rightarrow> Inl e
           | Inr p \<Rightarrow>
               (case map_of fs p of
                  None \<Rightarrow> Inl ErrNotFound
                | Some content \<Rightarrow>
                    (case first_fault o1 ((OpenFile, p) # (if 0 \<le> maxBytes then [(StatFile, p)] else [])) of
                       Some e \<Rightarrow> Inl e
                     | None \<Rightarrow>
                         if 0 \<le> maxBytes \<and> maxBytes < int (length content) then Inl ErrObjectTooLarge
                         else
                           (let body = (if 0 \<le> maxBytes then take (nat (maxBytes + 1)) content else content) in
                            case first_fault o1 [(ReadAll, p)] of
                              Some e \<Rightarrow> Inl e
                            | None \<Rightarrow>
                                if 0 \<le> maxBytes \<and> maxBytes < int (length body) then Inl ErrObjectTooLarge
                                else Inr \<lparr>obj_bytes = body, obj_version = version sha body\<rparr>)))))"

definition Local_Get :: "(bytes \<Rightarrow> 256 word) \<Rightarrow> os \<Rightarrow> string \<Rightarrow> string \<Rightarrow> files \<Rightarrow> Object sresult" where
  "Local_Get sha o1 dir k fs = GetBounded sha o1 dir k (- 1) fs"

definition lockKey :: "os \<Rightarrow> string \<Rightarrow> string \<Rightarrow> unit sresult" where
  "lockKey o1 dir k =
     (let d = Join2 dir ''.locks'' in
      case first_fault o1 [(MkdirAll, d), (OpenLock, k), (Flock, k)] of Some e \<Rightarrow> Inl e | None \<Rightarrow> Inr ())"

definition Local_CompareAndSwap ::
  "(bytes \<Rightarrow> 256 word) \<Rightarrow> os \<Rightarrow> string \<Rightarrow> string \<Rightarrow> string \<Rightarrow> bytes \<Rightarrow> files \<Rightarrow> string sresult \<times> files"
where
  "Local_CompareAndSwap sha o1 dir k oldVersion body fs =
     (case ctx_err o1 of
        Some e \<Rightarrow> (Inl e, fs)
      | None \<Rightarrow>
          (case path dir k of
             Inl e \<Rightarrow> (Inl e, fs)
           | Inr p \<Rightarrow>
               (case lockKey o1 dir k of
                  Inl e \<Rightarrow> (Inl e, fs)
                | Inr _ \<Rightarrow>
                    (case first_fault o1 [(ReadFile, p)] of
                       Some e \<Rightarrow> (Inl e, fs)
                     | None \<Rightarrow>
                         if (case map_of fs p of None \<Rightarrow> oldVersion \<noteq> ''''
                               | Some old \<Rightarrow> version sha old \<noteq> oldVersion)
                         then (Inl ErrConflict, fs)
                         else
                           (case writeFile o1 p body fs of
                              (Inl e, fs1) \<Rightarrow> (Inl e, fs1)
                            | (Inr _, fs1) \<Rightarrow> (Inr (version sha body), fs1))))))"

definition Local_Delete :: "os \<Rightarrow> string \<Rightarrow> string \<Rightarrow> files \<Rightarrow> unit sresult \<times> files" where
  "Local_Delete o1 dir k fs =
     (case ctx_err o1 of
        Some e \<Rightarrow> (Inl e, fs)
      | None \<Rightarrow>
          (case path dir k of
             Inl e \<Rightarrow> (Inl e, fs)
           | Inr p \<Rightarrow>
               (case first_fault o1 [(Remove, p)] of
                  Some e \<Rightarrow> (Inl e, fs)
                | None \<Rightarrow> (syncDir o1 (Dir p), AList.delete p fs))))"

definition local_store :: "(bytes \<Rightarrow> 256 word) \<Rightarrow> string \<Rightarrow> os \<Rightarrow> files Store" where
  "local_store sha dir o1 =
     \<lparr>st_PutImmutable = Local_PutImmutable sha o1 dir, st_Get = Local_Get sha o1 dir,
      st_CompareAndSwap = Local_CompareAndSwap sha o1 dir, st_Delete = Local_Delete o1 dir\<rparr>"

text \<open>
  The advisory lock of the coordinator process: \<open>held\<close> says whether a process owns it.
\<close>

definition LockWriter :: "os \<Rightarrow> string \<Rightarrow> bool \<Rightarrow> unit sresult \<times> bool" where
  "LockWriter o1 dir held =
     (case first_fault o1 [(OpenLock, Join2 dir ''.writer.lock'')] of
        Some e \<Rightarrow> (Inl e, held)
      | None \<Rightarrow>
          if held \<or> first_fault o1 [(Flock, Join2 dir ''.writer.lock'')] \<noteq> None
          then (Inl (OtherError ''coordinator writer already active: %w''), held)
          else (Inr (), True))"

text \<open>Releasing it: a second release is a no-op, and closing the file drops the lock in any case.\<close>

definition WriterLock_Close :: "os \<Rightarrow> string \<Rightarrow> bool \<Rightarrow> bool \<Rightarrow> unit sresult \<times> bool \<times> bool" where
  "WriterLock_Close o1 dir opened held =
     (if \<not> opened then (Inr (), False, held)
      else (case first_fault o1 [(Funlock, Join2 dir ''.writer.lock''), (CloseFile, Join2 dir ''.writer.lock'')] of
              Some e \<Rightarrow> (Inl e, False, False)
            | None \<Rightarrow> (Inr (), False, False)))"

definition stored :: "string \<Rightarrow> files \<Rightarrow> string \<Rightarrow> bytes option" where
  "stored dir fs k = (case path dir k of Inl _ \<Rightarrow> None | Inr p \<Rightarrow> map_of fs p)"

subsection \<open>The backend keeps the contract\<close>

lemma hexInt_length [simp]: "length (hexInt w n) = w"
  by (induction w arbitrary: n) auto

lemma version_nonempty: "version sha b \<noteq> []"
  using hexInt_length [of 64 "uint (sha b)"] by (auto simp: version_def simp del: hexInt_length)

lemma created_keeps: "map_of fs p = Some b \<Longrightarrow> map_of (created news fs) p = Some b"
proof (induction news arbitrary: fs)
  case (Cons x news)
  let ?fs = "case x of (q, c) \<Rightarrow> if map_of fs q = None then AList.update q c fs else fs"
  have "map_of ?fs p = Some b" using Cons.prems by (auto simp: map_simps split: prod.splits)
  then show ?case using Cons.IH [of ?fs] by (cases x) (auto simp: created_def)
qed (simp add: created_def)

lemma first_fault_other: "first_fault o1 xs = Some e \<Longrightarrow> \<exists>m. e = OtherError m"
  by (induction xs) (auto split: option.splits)

lemma path_error: "path dir k = Inl e \<Longrightarrow> \<exists>m. e = OtherError m"
  by (auto simp: path_def Let_def split: if_splits)

text \<open>A write replaces the file, or leaves every file as it is; either may end in an error of the system.\<close>

lemma writeFile_cases:
  assumes "writeFile o1 p b fs = (r, fs')"
  shows "fs' = AList.update p b fs \<or> fs' = fs \<and> (\<exists>m. r = Inl (OtherError m))"
    and "r = Inl e \<Longrightarrow> \<exists>m. e = OtherError m"
  using assms
  by (auto simp: writeFile_def syncDir_def Let_def simp del: first_fault.simps split: option.splits
      dest: first_fault_other)

lemma cas_cases:
  assumes "Local_CompareAndSwap sha o1 dir k v b fs = (r, fs')"
  shows "fs' = fs \<and> (\<exists>e. r = Inl e)
    \<or> (\<exists>p. path dir k = Inr p \<and> fits_version (version sha) v (map_of fs p) \<and> fs' = AList.update p b fs
         \<and> (r = Inr (version sha b) \<or> (\<exists>m. r = Inl (OtherError m))))"
proof (cases "fs' = fs \<and> (\<exists>e. r = Inl e)")
  case False
  then obtain p r0 where p: "path dir k = Inr p" "fits_version (version sha) v (map_of fs p)"
      "writeFile o1 p b fs = (r0, fs')" "r = (case r0 of Inl e \<Rightarrow> Inl e | Inr _ \<Rightarrow> Inr (version sha b))"
    using assms
    by (cases "path dir k", auto simp: Local_CompareAndSwap_def fits_version_def simp del: first_fault.simps
        split: option.splits sum.splits if_splits prod.splits) metis
  have "fs' = AList.update p b fs" using writeFile_cases(1) [OF p(3)] False p(4) by auto
  then show ?thesis using p writeFile_cases(2) [OF p(3)] by (cases r0) auto
qed simp

lemma put_cases:
  assumes "Local_PutImmutable sha o1 dir k b fs = (r, fs')"
  shows "(\<exists>news. fs' = created news fs \<and> (r = Inr () \<longrightarrow>
           (\<exists>p b1. path dir k = Inr p \<and> map_of fs' p = Some b1 \<and> version sha b1 = version sha b)))
    \<or> (\<exists>news p. path dir k = Inr p \<and> map_of (created news fs) p = None \<and> fs' = AList.update p b (created news fs))"
proof -
  have "fs = created [] fs" by (simp add: created_def)
  then show ?thesis using assms
    by (auto simp: Local_PutImmutable_def writeImmutable_def Let_def simp del: first_fault.simps
        split: option.splits sum.splits if_splits prod.splits)
qed

lemma delete_cases:
  assumes "Local_Delete o1 dir k fs = (r, fs')"
  shows "fs' = fs \<and> (\<exists>e. r = Inl e) \<or> (\<exists>p. path dir k = Inr p \<and> fs' = AList.delete p fs)"
  using assms by (auto simp: Local_Delete_def simp del: first_fault.simps split: option.splits sum.splits)

lemma stored_update:
  "path dir k = Inr p \<Longrightarrow>
   stored dir (AList.update p b fs) = (\<lambda>x. if path dir x = path dir k then Some b else stored dir fs x)"
  by (auto simp: stored_def map_simps fun_eq_iff split: sum.splits)

interpretation object: lawful_store "local_store sha dir o1" "stored dir" "path dir" "version sha"
  for sha dir o1
proof (unfold_locales, goal_cases)
  case 1
  show ?case by (rule version_nonempty)
next
  case (2 k fs obj)
  then show ?case
    by (auto simp: local_store_def Local_Get_def GetBounded_def stored_def split: option.splits sum.splits)
next
  case (3 k fs)
  then show ?case
    by (auto simp: local_store_def Local_Get_def GetBounded_def stored_def ctx_err_def simp del: first_fault.simps
        split: option.splits sum.splits dest: first_fault_other path_error)
next
  case (4 k v b fs v' fs')
  then have "Local_CompareAndSwap sha o1 dir k v b fs = (Inr v', fs')" by (simp add: local_store_def)
  then show ?case using stored_update by (auto dest!: cas_cases simp: stored_def)
next
  case (5 k v b fs e fs')
  then have "Local_CompareAndSwap sha o1 dir k v b fs = (Inl e, fs')" by (simp add: local_store_def)
  then show ?case using stored_update by (auto dest!: cas_cases simp: stored_def)
next
  case (6 k b fs r fs' x b0)
  then have "Local_PutImmutable sha o1 dir k b fs = (r, fs')" by (simp add: local_store_def)
  from put_cases [OF this] show ?case using 6(2) created_keeps
    by (auto simp: stored_def map_simps split: sum.splits)
next
  case (7 k b fs fs')
  then have "Local_PutImmutable sha o1 dir k b fs = (Inr (), fs')" by (simp add: local_store_def)
  from put_cases [OF this] show ?case by (auto simp: stored_def map_simps)
next
  case (8 k fs fs')
  then have "Local_Delete o1 dir k fs = (Inr (), fs')" by (simp add: local_store_def)
  then show ?case by (auto dest!: delete_cases simp: stored_def map_simps)
next
  case (9 k fs r fs' x)
  then have "Local_Delete o1 dir k fs = (r, fs')" by (simp add: local_store_def)
  then show ?case using 9(2) by (auto dest!: delete_cases simp: stored_def map_simps split: sum.splits)
qed

interpretation local: store_family "local_store sha dir" "stored dir" "path dir" "version sha"
  for sha dir
  by (rule store_family.intro) (rule object.lawful_store_axioms)

end
