(* ===== verification/Checkpoints.thy ===== *)
theory Checkpoints
  imports LocalStore
begin

text \<open>
  What the durable checkpoint promises on the local backend: keys stay inside the directory, stored
  objects are never overwritten by \<^verbatim>\<open>PutImmutable\<close>, one writer at a time can commit, and a claim
  returns what was committed last.
\<close>

subsection \<open>Keys stay inside the directory\<close>

lemma elements_append:
  assumes "a \<noteq> []" and "''..'' \<notin> set xs" and "list_all proper xs" and "xs \<noteq> []"
  shows "elements (a @ CHR ''/'' # joinSlash xs) = elements a @ xs"
proof -
  have h: "HasPrefix (a @ CHR ''/'' # joinSlash xs) ''/'' = HasPrefix a ''/''" using assms(1) by (cases a) auto
  have "splitSlash (joinSlash xs) = xs"
    using assms(3,4) by (intro split_join) (auto simp: list_all_iff proper_def)
  then show ?thesis
    unfolding elements_def h by (simp add: splitSlash_append fold_proper [OF assms(3,2)])
qed

lemma no_ups:
  assumes "\<not> HasPrefix p ''/''" and "elements p \<noteq> []" and "joinSlash (elements p) \<noteq> ''..''"
    and "\<not> HasPrefix (joinSlash (elements p)) ''../''"
  shows "''..'' \<notin> set (elements p)"
proof -
  obtain n ys where e: "elements p = replicate n ''..'' @ ys" "''..'' \<notin> set ys"
    using ups_first_elements [of p] by (rule ups_firstE)
  have "n = 0"
  proof (rule ccontr)
    assume "n \<noteq> 0"
    then obtain zs where z: "elements p = ''..'' # zs" using e(1) by (cases n) auto
    then show False using assms(3,4) by (cases zs) (auto simp: HasPrefix_def)
  qed
  then show ?thesis using e by simp
qed

text \<open>
  C40: a key never leads outside the store's directory: the path of an accepted key has the elements
  of the directory, followed by elements none of which is a double dot.
\<close>

theorem path_contained:
  assumes "path dir k = Inr p" and "dir \<noteq> ''''"
  shows "\<exists>xs. elements p = elements dir @ xs \<and> ''..'' \<notin> set xs"
proof -
  let ?e = "elements k"
  have k: "k \<noteq> []" "\<not> HasPrefix (Clean k) ''/''" "Clean k \<noteq> ''..''" "\<not> HasPrefix (Clean k) ''../''"
    and p: "p = Join2 dir (Clean k)"
    using assms(1) by (auto simp: path_def Let_def split: if_splits)
  have r: "\<not> HasPrefix k ''/''" using k(2) by (auto simp: Clean_def)
  show ?thesis
  proof (cases "?e = []")
    case True
    have "elements (dir @ CHR ''/'' # ''.'') = elements dir"
    proof -
      have "HasPrefix (dir @ CHR ''/'' # ''.'') ''/'' = HasPrefix dir ''/''" using assms(2) by (cases dir) auto
      then show ?thesis by (simp add: elements_def splitSlash_append clean_step_def [of _ "''.''"])
    qed
    then have "elements p = elements dir" using True r assms(2) by (simp add: p Join2_def elements_Clean Clean_def [of k])
    then show ?thesis by simp
  next
    case False
    then have c: "Clean k = joinSlash ?e" using r by (simp add: Clean_def)
    have n: "''..'' \<notin> set ?e" by (rule no_ups) (use k r c False in auto)
    have "elements p = elements (dir @ CHR ''/'' # joinSlash ?e)"
    proof -
      have "elements [] = []" by (simp add: elements_def clean_step_def)
      then have "Clean k \<noteq> []" using elements_Clean [of k] False by force
      then show ?thesis using c assms(2) by (simp add: p Join2_def elements_Clean)
    qed
    also have "\<dots> = elements dir @ ?e"
      by (rule elements_append) (use assms(2) n False elements_proper in \<open>auto simp: list_all_iff\<close>)
    finally show ?thesis using n by blast
  qed
qed

theorem path_contained_witness:
  "\<exists>xs. elements ''/data/segments/b'' = elements ''/data'' @ xs \<and> ''..'' \<notin> set xs"
proof (rule path_contained)
  show "path ''/data'' ''segments/a/../b'' = Inr ''/data/segments/b''" by code_simp
qed simp

subsection \<open>Objects\<close>

lemma hexDigit_inj: "a < 16 \<Longrightarrow> b < 16 \<Longrightarrow> hexDigit a = hexDigit b \<Longrightarrow> a = b"
  unfolding hexDigit_def by (subst (asm) nth_eq_iff_index_eq) simp_all

lemma hexInt_inj:
  "0 \<le> m \<Longrightarrow> m < 16 ^ w \<Longrightarrow> 0 \<le> n \<Longrightarrow> n < 16 ^ w \<Longrightarrow> hexInt w m = hexInt w n \<Longrightarrow> m = n"
proof (induction w arbitrary: m n)
  case (Suc w)
  have lt: "x div 16 < 16 ^ w" if "x < 16 ^ Suc w" for x :: int
  proof -
    have "16 * (x div 16) \<le> x" by simp
    then show ?thesis using that by simp
  qed
  have "m div 16 = n div 16"
    by (rule Suc.IH) (use Suc.prems lt in \<open>simp_all add: pos_imp_zdiv_nonneg_iff\<close>)
  moreover have "nat (m mod 16) = nat (n mod 16)"
    by (rule hexDigit_inj) (use Suc.prems(5) in \<open>auto simp: nat_less_iff\<close>)
  then have "m mod 16 = n mod 16" by simp
  ultimately show ?case by (metis div_mult_mod_eq)
qed simp

text \<open>Versions agree exactly when the digests do.\<close>

lemma version_eq_iff: "version sha a = version sha b \<longleftrightarrow> sha a = sha b"
proof
  assume v: "version sha a = version sha b"
  have "0 \<le> uint (sha x)" "uint (sha x) < 16 ^ 64" for x using unsigned_less [of "sha x"] by simp_all
  then have "uint (sha a) = uint (sha b)" using v by (intro hexInt_inj [of _ 64]) (simp_all add: version_def)
  then show "sha a = sha b" by (rule word_uint_eqI)
qed (simp add: version_def)

text \<open>
  Stored objects are immutable. Whatever \<^verbatim>\<open>PutImmutable\<close> answers, and whatever other processes
  create meanwhile, every object that was there stays; when it answers success, the key holds a
  body with the digest of the given one.
\<close>

theorem PutImmutable_keeps:
  assumes "PutImmutable (local_store sha dir o1) k body fs = (r, fs')"
  shows "(\<forall>x b. stored dir fs x = Some b \<longrightarrow> stored dir fs' x = Some b)
    \<and> (r = Inr () \<longrightarrow> (\<exists>b. stored dir fs' k = Some b \<and> sha b = sha body))"
  using object.PutImmutable_old [OF assms] object.PutImmutable_done assms
  by (auto simp: version_eq_iff)

text \<open>A system without errors and other processes, and a digest, for the concrete inputs.\<close>

definition calm :: os where
  "calm = \<lparr>os_err = (\<lambda>_ _. None), os_ctx = None, os_others = []\<rparr>"

definition sum_digest :: "bytes \<Rightarrow> 256 word" where
  "sum_digest b = word_of_int (fold (\<lambda>x n. 257 * n + of_char x) b 1)"

theorem PutImmutable_keeps_witness:
  "stored ''/data'' [(''/data/seg/a'', ''one'')] ''seg/a'' = Some ''one''
   \<and> fst (PutImmutable (local_store sum_digest ''/data'' calm) ''seg/a'' ''two'' [(''/data/seg/a'', ''one'')])
      = Inl ErrConflict
   \<and> stored ''/data'' (snd (PutImmutable (local_store sum_digest ''/data'' calm) ''seg/a'' ''two''
        [(''/data/seg/a'', ''one'')])) ''seg/a'' = Some ''one''"
proof -
  have a: "stored ''/data'' [(''/data/seg/a'', ''one'')] ''seg/a'' = Some ''one''" by code_simp
  moreover have "fst (PutImmutable (local_store sum_digest ''/data'' calm) ''seg/a'' ''two'' [(''/data/seg/a'', ''one'')])
      = Inl ErrConflict" by code_simp
  ultimately show ?thesis
    using PutImmutable_keeps [of sum_digest "''/data''" calm "''seg/a''" "''two''" "[(''/data/seg/a'', ''one'')]", OF surjective_pairing]
    by simp
qed


subsection \<open>Writers\<close>

text \<open>
  A codec for the concrete inputs: the generation, the writer and the state, each preceded by its
  length in unary. It reads back the checkpoints without tombstones that it wrote.
\<close>

definition put_text :: "string \<Rightarrow> string" where
  "put_text t = replicate (length t) (CHR ''#'') @ CHR '':'' # t"

definition get_text :: "string \<Rightarrow> (string \<times> string) option" where
  "get_text s =
     (let n = length (takeWhile (\<lambda>x. x = CHR ''#'') s) in
      case drop n s of [] \<Rightarrow> None | _ # rest \<Rightarrow> Some (take n rest, drop n rest))"

definition sample_marshal :: "Checkpoint \<Rightarrow> bytes sresult" where
  "sample_marshal cp =
     Inr (put_text (replicate (unat (cp_generation cp)) (CHR ''g'')) @ put_text (cp_writer cp)
          @ put_text (if cp_state cp = '''' then ''null'' else cp_state cp))"

definition sample_unmarshal :: "bytes \<Rightarrow> Checkpoint sresult" where
  "sample_unmarshal b =
     (case get_text b of
        None \<Rightarrow> Inl (OtherError ''unexpected end of JSON input'')
      | Some (g, b1) \<Rightarrow>
          (case get_text b1 of
             None \<Rightarrow> Inl (OtherError ''unexpected end of JSON input'')
           | Some (wr, b2) \<Rightarrow>
               (case get_text b2 of
                  None \<Rightarrow> Inl (OtherError ''unexpected end of JSON input'')
                | Some (st, _) \<Rightarrow>
                    Inr \<lparr>cp_generation = word_of_nat (length g), cp_writer = wr, cp_state = st, cp_tombstones = []\<rparr>)))"

definition sample_codec :: codec where
  "sample_codec = \<lparr>marshal = sample_marshal, unmarshal = sample_unmarshal, plain = (\<lambda>cp. cp_tombstones cp = [])\<rparr>"

lemma get_put: "get_text (put_text t @ rest) = Some (t, rest)"
proof -
  have "takeWhile (\<lambda>x. x = CHR ''#'') (replicate n (CHR ''#'') @ CHR '':'' # z) = replicate n (CHR ''#'')" for n z
    by (induction n) simp_all
  then show ?thesis by (simp add: get_text_def put_text_def Let_def)
qed

lemma sample_codec_ok: "codec_ok sample_codec"
  by (auto simp: codec_ok_def sample_codec_def sample_marshal_def sample_unmarshal_def stored_form_def
      get_put get_put [of _ "[]", simplified])

text \<open>Two coordinators: the first claims and commits, then the second claims.\<close>

definition run1 :: "(Writer \<times> Checkpoint) sresult \<times> files" where
  "run1 = Claim sample_codec (local_store sum_digest ''/data'' calm) (\<lambda>x. x) ''job/state'' ''w1'' []"

definition writer_of :: "(Writer \<times> Checkpoint) sresult \<times> files \<Rightarrow> Writer" where
  "writer_of r = (case fst r of Inr (w, _) \<Rightarrow> w | Inl _ \<Rightarrow> \<lparr>wr_key = '''', wr_id = '''', wr_version = '''', wr_value = emptyCheckpoint\<rparr>)"

definition run2 :: "unit sresult \<times> Writer \<times> files" where
  "run2 = Commit sample_codec (local_store sum_digest ''/data'' calm) (\<lambda>x. x) (writer_of run1) ''{}'' [] (snd run1)"

definition run3 :: "(Writer \<times> Checkpoint) sresult \<times> files" where
  "run3 = Claim sample_codec (local_store sum_digest ''/data'' calm) (\<lambda>x. x) ''job/state'' ''w2'' (snd (snd run2))"

lemma run_results:
  "fst run1 = Inr (writer_of run1, emptyCheckpoint)" "fst run2 = Inr ()"
  "fst run3 = Inr (writer_of run3, wr_value (fst (snd run2)))"
proof -
  have "case fst run1 of Inr (w, cp) \<Rightarrow> cp = emptyCheckpoint | _ \<Rightarrow> False" by code_simp
  then show "fst run1 = Inr (writer_of run1, emptyCheckpoint)" by (auto simp: writer_of_def split: sum.splits)
  have "case fst run2 of Inr _ \<Rightarrow> True | _ \<Rightarrow> False" by code_simp
  then show "fst run2 = Inr ()" by (auto split: sum.splits)
  have "case fst run3 of Inr (w, cp) \<Rightarrow> cp = wr_value (fst (snd run2)) | _ \<Rightarrow> False" by code_simp
  then show "fst run3 = Inr (writer_of run3, wr_value (fst (snd run2)))" by (auto simp: writer_of_def split: sum.splits)
qed

lemma run_calls:
  "Commit sample_codec (local_store sum_digest ''/data'' calm) (\<lambda>x. x) (writer_of run1) ''{}'' [] (snd run1)
   = (Inr (), fst (snd run2), snd (snd run2))"
  "Claim sample_codec (local_store sum_digest ''/data'' calm) (\<lambda>x. x) ''job/state'' ''w2'' (snd (snd run2))
   = (Inr (writer_of run3, wr_value (fst (snd run2))), snd run3)"
  using run_results(2,3) by (simp_all add: run2_def run3_def prod_eq_iff)

lemma run_facts:
  "wr_key (fst (snd run2)) = ''job/state''" "wr_key (writer_of run1) = ''job/state''"
  "cp_tombstones (wr_value (fst (snd run2))) = []" "cp_tombstones (wr_value (writer_of run3)) = []"
  by code_simp+


text \<open>The two coordinators of the runs: the writer of the second can commit, that of the first cannot.\<close>

lemma two_writers:
  "cp_run sample_codec (local_store sum_digest ''/data'') (stored ''/data'') ''job/state'' 3 (snd run3)
     [fst (snd run2), writer_of run3]"
proof -
  let ?F = "local_store sum_digest ''/data''" and ?o = "stored ''/data''" and ?k = "''job/state''"
  have c: "Claim sample_codec (?F calm) (\<lambda>x. x) ?k ''w1'' [] = (Inr (writer_of run1, emptyCheckpoint), snd run1)"
    using run_results(1) by (simp add: run1_def prod_eq_iff)
  have 0: "cp_run sample_codec ?F ?o ?k 0 [] []" by (rule cp_run.start) code_simp
  have p: "plain sample_codec (claimed ''w1'' (last_checkpoint sample_codec (?o [] ?k)))" by code_simp
  have n: "?o (snd run1) ?k \<noteq> ?o [] ?k" by code_simp
  have 1: "cp_run sample_codec ?F ?o ?k 1 (snd run1) [writer_of run1]"
    using cp_run.claim [where F = ?F and a = calm, OF 0 p c] n by simp
  have p1: "plain sample_codec (committed ''{}'' [] (last_checkpoint sample_codec (?o (snd run1) ?k)))" by code_simp
  have n1: "?o (snd (snd run2)) ?k \<noteq> ?o (snd run1) ?k" by code_simp
  have 2: "cp_run sample_codec ?F ?o ?k 2 (snd (snd run2)) [fst (snd run2)]"
  proof -
    have "Commit sample_codec (?F calm) (\<lambda>x. x) ([writer_of run1] ! 0) ''{}'' [] (snd run1)
        = (Inr (), fst (snd run2), snd (snd run2))"
      using run_calls(1) by simp
    from cp_run.commit [where F = ?F and a = calm and i = 0, OF 1 _ p1 this] n1 show ?thesis
      by (simp add: numeral_2_eq_2)
  qed
  have p2: "plain sample_codec (claimed ''w2'' (last_checkpoint sample_codec (?o (snd (snd run2)) ?k)))" by code_simp
  have n2: "?o (snd run3) ?k \<noteq> ?o (snd (snd run2)) ?k" by code_simp
  show ?thesis
    using cp_run.claim [where F = ?F and a = calm, OF 2 p2 run_calls(2)] n2 by (simp add: numeral_3_eq_3)
qed


text \<open>
  A claim fences the writer before it. When a claim succeeds, the writer whose checkpoint it replaced
  can no longer commit: the store stays as it is, and the answer is \<^verbatim>\<open>ErrFenced\<close> unless
  the checkpoint cannot be read.
\<close>

theorem claim_fences:
  assumes "Claim J (local_store sha dir o1) others k ident fs = (Inr (w2, previous), fs')"
    and "codec_ok J" and "plain J (wr_value w2)"
    and "wr_key w = k" and "cp_generation (wr_value w) = cp_generation previous"
  shows "\<exists>err. Commit J (local_store sha dir o2) others2 w st ts fs' = (Inl err, w, fs')
    \<and> (\<forall>obj. st_Get (local_store sha dir o2) k fs' = Inr obj \<longrightarrow> err = ErrFenced)"
proof -
  obtain b where b: "marshal J (wr_value w2) = Inr b" "wr_value w2 = claimed ident previous" "stored dir fs' k = Some b"
    by (rule object.claim_done [OF assms(1)]) simp
  then have "checkpoint_of J (stored dir fs' (wr_key w)) = Some (stored_form (wr_value w2))"
    using codec_okD [OF assms(2,3)] assms(4) by simp
  then show ?thesis using object.commit_overtaken assms(4,5) b(2) by fastforce
qed

theorem claim_fences_witness:
  "\<exists>err. Commit sample_codec (local_store sum_digest ''/data'' calm) (\<lambda>x. x) (fst (snd run2)) ''{}'' [] (snd run3)
     = (Inl err, fst (snd run2), snd run3)"
  using claim_fences [OF run_calls(2) sample_codec_ok _ run_facts(1)] run_facts(4)
  by (simp add: sample_codec_def) blast

text \<open>
  A claim hands over what was committed last: after a successful commit, the next successful claim
  returns that state and those tombstones.
\<close>

theorem claim_returns_commit:
  assumes "Commit J (local_store sha dir o1) others w st ts fs = (Inr (), w', fs1)"
    and "codec_ok J" and "plain J (wr_value w')" and "st \<noteq> ''''"
    and "Claim J (local_store sha dir o2) others2 (wr_key w) ident fs1 = (Inr (w2, previous), fs2)"
  shows "cp_state previous = st \<and> cp_tombstones previous = ts
    \<and> cp_generation (wr_value w2) = cp_generation (wr_value w') + 1"
proof -
  obtain b cp where b: "marshal J (wr_value w') = Inr b" "wr_value w' = committed st ts cp" "stored dir fs1 (wr_key w) = Some b"
    by (rule object.commit_done [OF assms(1)]) simp
  have "checkpoint_of J (stored dir fs1 (wr_key w)) = Some (wr_value w')"
    using codec_okD [OF assms(2,3) b(1)] b assms(4) by simp
  moreover obtain "wr_value w2 = claimed ident previous"
      "stored dir fs1 (wr_key w) = None \<and> previous = emptyCheckpoint \<or> checkpoint_of J (stored dir fs1 (wr_key w)) = Some previous"
    by (rule object.claim_done [OF assms(5)]) simp
  ultimately show ?thesis using b by auto
qed


theorem claim_returns_commit_witness: "cp_state (wr_value (fst (snd run2))) = ''{}''"
  using claim_returns_commit [OF run_calls(1) sample_codec_ok _ _ run_calls(2) [folded run_facts(2)]] run_facts(3)
  by (simp add: sample_codec_def)

text \<open>
  A commit is atomic. It succeeds only when both its read and its conditional write met the
  checkpoint with the digest this writer knows, so an interleaved write by another process makes
  it fail (unless the two bodies have one digest); and a commit that fails leaves the object as
  it was or replaces it by exactly the checkpoint it meant to write.
\<close>

theorem commit_atomic:
  "(\<forall>w' fs'. Commit J (local_store sha dir o1) others w st ts fs = (Inr (), w', fs') \<longrightarrow>
      map_option (version sha) (stored dir fs (wr_key w)) = Some (wr_version w)
      \<and> map_option (version sha) (stored dir (others fs) (wr_key w)) = Some (wr_version w))
   \<and> (\<forall>err w' fs'. Commit J (local_store sha dir o1) (\<lambda>x. x) w st ts fs = (Inl err, w', fs') \<longrightarrow>
      w' = w \<and> (stored dir fs' = stored dir fs \<or>
        (\<exists>cp b. checkpoint_of J (stored dir fs (wr_key w)) = Some cp
          \<and> marshal J (committed st ts cp) = Inr b \<and> stored dir fs' (wr_key w) = Some b)))"
proof (intro conjI allI impI)
  fix w' fs' assume "Commit J (local_store sha dir o1) others w st ts fs = (Inr (), w', fs')"
  then show "map_option (version sha) (stored dir fs (wr_key w)) = Some (wr_version w)"
      "map_option (version sha) (stored dir (others fs) (wr_key w)) = Some (wr_version w)"
    by (rule object.commit_done, simp)+
next
  fix err w' fs' assume c: "Commit J (local_store sha dir o1) (\<lambda>x. x) w st ts fs = (Inl err, w', fs')"
  show "w' = w" using object.commit_refused [OF c] by simp
  show "stored dir fs' = stored dir fs \<or> (\<exists>cp b. checkpoint_of J (stored dir fs (wr_key w)) = Some cp
          \<and> marshal J (committed st ts cp) = Inr b \<and> stored dir fs' (wr_key w) = Some b)"
    using object.commit_refused [OF c] by auto
qed

theorem commit_atomic_witness:
  "map_option (version sum_digest) (stored ''/data'' (snd run1) (wr_key (writer_of run1))) = Some (wr_version (writer_of run1))"
  using commit_atomic [of sample_codec sum_digest "''/data''" calm "\<lambda>x. x" "writer_of run1" "''{}''" "[]" "snd run1"]
    run_calls(1) by blast

end
