(* ===== verification/Recovery.thy ===== *)
theory Recovery
  imports Samples Checkpoints
begin

text \<open>
  Recovery of a coordinator from its checkpoint: the snapshot and \<^verbatim>\<open>restore\<close> of
  \<^verbatim>\<open>pkg/coordinator/persistence.go\<close> are inverse on channels whose segments are all filed under
  their append IDs, and \<^verbatim>\<open>NewDurable\<close> of \<^verbatim>\<open>pkg/coordinator/coordinator.go\<close> starts from what was
  committed last.
\<close>

subsection \<open>Starting from a checkpoint\<close>

text \<open>The JSON text of a coordinator state.\<close>

record state_codec =
  encode_state :: "persistedCoordinator \<Rightarrow> bytes"
  decode_state :: "bytes \<Rightarrow> persistedCoordinator option"

definition durable_start :: "state_codec \<Rightarrow> string \<Rightarrow> bytes \<Rightarrow> coordinator sresult" where
  "durable_start D selfAddr state =
     (let co = (New selfAddr)\<lparr>co_durable := True\<rparr> in
      if state = '''' then Inr co
      else (case decode_state D state of
              None \<Rightarrow> Inl (OtherError ''decode coordinator state: %w'')
            | Some inp \<Rightarrow> Inr ((rebindHeldSegments selfAddr (restore inp co))\<lparr>co_selfAddr := selfAddr\<rparr>)))"

fun delete_segments :: "'s Store \<Rightarrow> Writer \<Rightarrow> string list \<Rightarrow> 's \<Rightarrow> unit sresult \<times> 's" where
  "delete_segments S w [] s = (Inr (), s)"
| "delete_segments S w (sid # sids) s =
     (case Writer_Delete S w (''segments/'' @ sid) s of
        (Inl _, s1) \<Rightarrow> (Inl (OtherError ''delete released segment %q: %w''), s1)
      | (Inr _, s1) \<Rightarrow> delete_segments S w sids s1)"

definition NewDurable ::
  "codec \<Rightarrow> state_codec \<Rightarrow> 's Store \<Rightarrow> string \<Rightarrow> string \<Rightarrow> string \<Rightarrow> 's \<Rightarrow> (coordinator \<times> Writer) sresult \<times> 's"
where
  "NewDurable J D S selfAddr k writerID s =
     (case Claim J S (\<lambda>x. x) k writerID s of
        (Inl err, s1) \<Rightarrow> (Inl err, s1)
      | (Inr (w, checkpoint), s1) \<Rightarrow>
          (case durable_start D selfAddr (cp_state checkpoint) of
             Inl err \<Rightarrow> (Inl err, s1)
           | Inr co \<Rightarrow>
               (case delete_segments S w (cp_tombstones checkpoint) s1 of
                  (Inl err, s2) \<Rightarrow> (Inl err, s2)
                | (Inr _, s2) \<Rightarrow>
                    if cp_tombstones checkpoint = [] then (Inr (co, w), s2)
                    else
                      (case Commit J S (\<lambda>x. x) w (encode_state D (snapshot co)) (tombstones co) s2 of
                         (Inl _, _, s3) \<Rightarrow> (Inl (OtherError ''clear released segment tombstones: %w''), s3)
                       | (Inr _, w1, s3) \<Rightarrow> (Inr (co, w1), s3)))))"

subsection \<open>Equal channels\<close>

text \<open>
  Two channels are the same to their users when every field agrees once references are replaced by
  the segments they denote; restoring renumbers the segment store.
\<close>

definition same_channel :: "channel \<Rightarrow> channel \<Rightarrow> bool" where
  "same_channel c d \<longleftrightarrow>
     (c_spec d, c_sealed d, c_produced d, c_overflowed d, c_lost d, c_acknowledged d, c_latestDeliveryFailure d)
       = (c_spec c, c_sealed c, c_produced c, c_overflowed c, c_lost c, c_acknowledged c, c_latestDeliveryFailure c)
     \<and> (c_epoch d, c_finiteEpochs d, c_maxEpochs d, c_productionClosed d, c_rr d, c_cursor d, c_epochDone d)
       = (c_epoch c, c_finiteEpochs c, c_maxEpochs c, c_productionClosed c, c_rr c, c_cursor c, c_epochDone c)
     \<and> (c_records d, c_historyBase d, c_subscriptions d, c_panic d)
       = (c_records c, c_historyBase c, c_subscriptions c, c_panic c)
     \<and> map (map (seg d)) (c_queues d) = map (map (seg c)) (c_queues c)
     \<and> map (seg d) (c_log d) = map (seg c) (c_log c)
     \<and> map (seg d) (c_held d) = map (seg c) (c_held c)
     \<and> map (map (seg d)) (c_history d) = map (map (seg c)) (c_history c)
     \<and> (\<forall>k. map_option (seg d) (map_of (c_appendIDs d) k) = map_option (seg c) (map_of (c_appendIDs c) k))
     \<and> (\<forall>k. map_option (seg d) (map_of (c_all d) k) = map_option (seg c) (map_of (c_all c) k))
     \<and> (\<forall>k. map_option (seg d) (map_of (c_inflight d) k) = map_option (seg c) (map_of (c_inflight c) k))"

text \<open>
  A channel is persistable when every segment it refers to is filed under its append ID, the segments
  being delivered are those in flight, and the durable flag covers object-store holders.
\<close>

definition persistable :: "channel \<Rightarrow> bool" where
  "persistable c \<longleftrightarrow>
     list_all (\<lambda>r. map_of (c_appendIDs c) (s_appendID (seg c r)) = Some r)
       (concat (c_queues c) @ c_log c @ c_held c @ concat (c_history c) @ map snd (c_all c) @ map snd (c_inflight c))
     \<and> list_all (\<lambda>(a, r). s_appendID (seg c r) = a \<and> a \<noteq> '''' \<and> (durableHolder (s_holder (seg c r)) \<longrightarrow> s_durable (seg c r))
          \<and> (s_delivered (seg c r) \<noteq> [] \<longleftrightarrow> r \<in> snd ` set (c_inflight c))) (c_appendIDs c)
     \<and> distinct (map fst (c_appendIDs c)) \<and> distinct (map fst (c_all c)) \<and> distinct (map fst (c_inflight c))
     \<and> list_all (\<lambda>(k, r). key (seg c r) = k) (c_all c @ c_inflight c)
     \<and> c_history c \<noteq> [] \<and> c_historyBase c \<noteq> [] \<and> \<not> c_panic c"

lemma restore_snapshot_segment:
  assumes "s_appendID s \<noteq> []" and "durableHolder (s_holder s) \<longrightarrow> s_durable s"
  shows "restore_segment (snapshot_segment s) = s"
  using assms by (cases s) (auto simp: restore_segment_def snapshot_segment_def)

lemma restore_snapshot_subscription: "restore_subscription (snapshot_subscription sub) = sub"
proof -
  have "(\<lambda>x. \<lparr>d_offset = d_offset x, d_appendID = d_appendID x, d_owner = d_owner x\<rparr>) = (\<lambda>x. x)"
    by (rule ext) simp
  then show ?thesis
    by (cases sub) (simp add: restore_subscription_def snapshot_subscription_def map_vals_comp comp_def)
qed

text \<open>
  The loop over the persisted segments, as far as it has come: \<open>indexes Q f xs m\<close> says that the map
  \<open>m\<close> files the positions of the entries with \<open>Q\<close> under \<open>f\<close>.
\<close>

definition indexes :: "('a \<Rightarrow> bool) \<Rightarrow> ('a \<Rightarrow> 'k) \<Rightarrow> 'a list \<Rightarrow> ('k, nat) gomap \<Rightarrow> bool" where
  "indexes Q f xs m \<longleftrightarrow> (\<forall>k i. map_of m k = Some i \<longleftrightarrow> i < length xs \<and> Q (xs ! i) \<and> f (xs ! i) = k)"

lemma indexes_snoc:
  assumes "indexes Q f xs m" and "distinct (map f (filter Q (xs @ [x])))"
  shows "indexes Q f (xs @ [x]) (if Q x then AList.update (f x) (length xs) m else m)"
proof -
  have "f (xs ! i) \<noteq> f x" if "Q x" "i < length xs" "Q (xs ! i)" for i
    using assms(2) that by (simp add: image_iff) (metis nth_mem)
  then show ?thesis
    using assms(1) unfolding indexes_def by (auto simp: map_simps nth_append less_Suc_eq)
qed

definition loaded :: "persistedChannel \<Rightarrow> (string \<times> segment) list \<Rightarrow> channel \<Rightarrow> bool" where
  "loaded pc xs d \<longleftrightarrow>
     d\<lparr>c_heap := [], c_all := [], c_inflight := [], c_appendIDs := []\<rparr> = restore_base pc
     \<and> c_heap d = map snd xs \<and> indexes (\<lambda>_. True) fst xs (c_appendIDs d)
     \<and> indexes (\<lambda>x. fst x \<in> set (pc_all pc)) (\<lambda>x. key (snd x)) xs (c_all d)
     \<and> indexes (\<lambda>x. s_delivered (snd x) \<noteq> []) (\<lambda>x. key (snd x)) xs (c_inflight d)"

definition loadable :: "persistedChannel \<Rightarrow> (string \<times> segment) list \<Rightarrow> bool" where
  "loadable pc xs \<longleftrightarrow> pc_appendIndex pc \<and> distinct (map fst xs)
     \<and> distinct (map (\<lambda>x. key (snd x)) (filter (\<lambda>x. fst x \<in> set (pc_all pc)) xs))
     \<and> distinct (map (\<lambda>x. key (snd x)) (filter (\<lambda>x. s_delivered (snd x) \<noteq> []) xs))
     \<and> (\<forall>x \<in> set xs. s_appendID (snd x) = fst x \<and> restore_segment (snapshot_segment (snd x)) = snd x)"

lemma loadable_snoc: "loadable pc (xs @ [x]) \<Longrightarrow> loadable pc xs"
  by (auto simp: loadable_def)

lemma load_segments:
  assumes "loadable pc xs"
  shows "\<exists>d. fold (restore1 pc) (map_vals snapshot_segment xs) (restore_base pc, []) = (d, []) \<and> loaded pc xs d"
  using assms
proof (induction xs rule: rev_induct)
  case Nil
  then show ?case by (auto simp: map_vals_def loaded_def indexes_def restore_base_def)
next
  case (snoc x xs)
  obtain d where d: "fold (restore1 pc) (map_vals snapshot_segment xs) (restore_base pc, []) = (d, [])" "loaded pc xs d"
    using snoc.IH loadable_snoc [OF snoc.prems] by blast
  obtain a s where x: "x = (a, s)" by (cases x)
  have s: "restore_segment (snapshot_segment s) = s" "s_appendID s = a" "pc_appendIndex pc"
    using snoc.prems x by (auto simp: loadable_def)
  have n: "length (c_heap d) = length xs" using d(2) by (simp add: loaded_def)
  let ?d = "d\<lparr>c_heap := c_heap d @ [s], c_appendIDs := AList.update a (length xs) (c_appendIDs d),
      c_all := (if a \<in> set (pc_all pc) then AList.update (key s) (length xs) (c_all d) else c_all d),
      c_inflight := (if s_delivered s \<noteq> [] then AList.update (key s) (length xs) (c_inflight d) else c_inflight d)\<rparr>"
  have "fold (restore1 pc) (map_vals snapshot_segment (xs @ [x])) (restore_base pc, []) = (?d, [])"
    using d(1) s n x by (simp add: map_vals_def restore1_def Let_def)
  moreover have i: "indexes (\<lambda>_. True) fst xs (c_appendIDs d)"
      "indexes (\<lambda>x. fst x \<in> set (pc_all pc)) (\<lambda>x. key (snd x)) xs (c_all d)"
      "indexes (\<lambda>x. s_delivered (snd x) \<noteq> []) (\<lambda>x. key (snd x)) xs (c_inflight d)"
    using d(2) by (simp_all add: loaded_def)
  have di: "distinct (map fst (filter (\<lambda>_. True) (xs @ [x])))"
      "distinct (map (\<lambda>x. key (snd x)) (filter (\<lambda>x. fst x \<in> set (pc_all pc)) (xs @ [x])))"
      "distinct (map (\<lambda>x. key (snd x)) (filter (\<lambda>x. s_delivered (snd x) \<noteq> []) (xs @ [x])))"
    using snoc.prems unfolding loadable_def by simp_all
  have "indexes (\<lambda>_. True) fst (xs @ [x]) (c_appendIDs ?d)"
    "indexes (\<lambda>x. fst x \<in> set (pc_all pc)) (\<lambda>x. key (snd x)) (xs @ [x]) (c_all ?d)"
    "indexes (\<lambda>x. s_delivered (snd x) \<noteq> []) (\<lambda>x. key (snd x)) (xs @ [x]) (c_inflight ?d)"
    using indexes_snoc [OF i(1) di(1)] indexes_snoc [OF i(2) di(2)] indexes_snoc [OF i(3) di(3)] unfolding x by (simp_all split: if_splits)
  moreover have "?d\<lparr>c_heap := [], c_all := [], c_inflight := [], c_appendIDs := []\<rparr> = restore_base pc"
    using d(2) by (simp add: loaded_def)
  moreover have "c_heap ?d = map snd (xs @ [x])" using d(2) x by (simp add: loaded_def)
  ultimately show ?case unfolding loaded_def by blast
qed

text \<open>The segments of a channel by append ID, and a map \<open>m\<close> of references that \<open>Q\<close> singles out among them.\<close>

definition filed_segments :: "channel \<Rightarrow> (string \<times> segment) list" where
  "filed_segments c = map_vals (seg c) (c_appendIDs c)"

definition singles_out :: "channel \<Rightarrow> (string \<times> segment \<Rightarrow> bool) \<Rightarrow> (string, sref) gomap \<Rightarrow> bool" where
  "singles_out c Q m \<longleftrightarrow> distinct (map fst m) \<and> (\<forall>(k, r) \<in> set m. key (seg c r) = k)
     \<and> (\<forall>(k, r) \<in> set m. map_of (c_appendIDs c) (s_appendID (seg c r)) = Some r)
     \<and> (\<forall>(a, r) \<in> set (c_appendIDs c). Q (a, seg c r) \<longleftrightarrow> r \<in> snd ` set m)"

lemma filed_nth:
  assumes "map_of (c_appendIDs c) a = Some r"
  obtains i where "i < length (filed_segments c)" "filed_segments c ! i = (a, seg c r)" "c_appendIDs c ! i = (a, r)"
proof -
  obtain i where "i < length (c_appendIDs c)" "c_appendIDs c ! i = (a, r)"
    using map_of_SomeD [OF assms] by (metis in_set_conv_nth)
  then show ?thesis by (intro that [of i]) (simp_all add: filed_segments_def map_vals_def)
qed

lemma filed_at:
  assumes "i < length (filed_segments c)"
  obtains a r where "filed_segments c ! i = (a, seg c r)" "(a, r) \<in> set (c_appendIDs c)"
  using assms nth_mem [of i "c_appendIDs c"] by (cases "c_appendIDs c ! i") (auto simp: filed_segments_def map_vals_def)

lemma singles_out_distinct:
  assumes "singles_out c Q m" and "distinct (map fst (c_appendIDs c))"
    and "\<And>a r. (a, r) \<in> set (c_appendIDs c) \<Longrightarrow> s_appendID (seg c r) = a"
  shows "distinct (map (\<lambda>x. key (snd x)) (filter Q (filed_segments c)))"
proof (rule distinct_map [THEN iffD2], intro conjI inj_onI)
  have "distinct (map fst (filed_segments c))" using assms(2) by (simp add: filed_segments_def)
  then show "distinct (filter Q (filed_segments c))" by (simp add: distinct_map)
  fix x y assume x: "x \<in> set (filter Q (filed_segments c))" and y: "y \<in> set (filter Q (filed_segments c))"
    and k: "key (snd x) = key (snd y)"
  have got: "\<exists>a r. z = (a, seg c r) \<and> (a, r) \<in> set (c_appendIDs c) \<and> (key (seg c r), r) \<in> set m"
    if "z \<in> set (filter Q (filed_segments c))" for z
    using that assms(1) by (fastforce simp: filed_segments_def set_map_vals singles_out_def)
  obtain a r where ar: "x = (a, seg c r)" "(a, r) \<in> set (c_appendIDs c)" "(key (seg c r), r) \<in> set m" using got [OF x] by blast
  obtain b q where bq: "y = (b, seg c q)" "(b, q) \<in> set (c_appendIDs c)" "(key (seg c q), q) \<in> set m" using got [OF y] by blast
  have "r = q" using k ar bq assms(1) by (auto simp: singles_out_def) (metis eq_key_imp_eq_value)
  then show "x = y" using ar bq assms(3) [OF ar(2)] assms(3) [OF bq(2)] by simp
qed

lemma singles_out_same:
  assumes "singles_out c Q m" and "indexes Q (\<lambda>x. key (snd x)) (filed_segments c) m'"
    and "c_heap d = map snd (filed_segments c)"
  shows "map_option (seg d) (map_of m' k) = map_option (seg c) (map_of m k)"
proof (cases "map_of m k")
  case None
  have "map_of m' k = None"
  proof (rule ccontr)
    assume "map_of m' k \<noteq> None"
    then obtain i where i: "i < length (filed_segments c)" "Q (filed_segments c ! i)" "key (snd (filed_segments c ! i)) = k"
      using assms(2) by (auto simp: indexes_def)
    then obtain a r where "(a, r) \<in> set (c_appendIDs c)" "Q (a, seg c r)" "key (seg c r) = k" by (metis filed_at snd_conv)
    then have "(k, r) \<in> set m" using assms(1) by (fastforce simp: singles_out_def)
    then show False using None by (metis map_of_eq_None_iff fst_conv image_eqI)
  qed
  then show ?thesis using None by simp
next
  case (Some r)
  have r: "(k, r) \<in> set m" using map_of_SomeD [OF Some] .
  then have f: "map_of (c_appendIDs c) (s_appendID (seg c r)) = Some r" "key (seg c r) = k"
    using assms(1) by (auto simp: singles_out_def)
  obtain i where i: "i < length (filed_segments c)" "filed_segments c ! i = (s_appendID (seg c r), seg c r)"
    using filed_nth [OF f(1)] .
  have "Q (s_appendID (seg c r), seg c r)" using assms(1) map_of_SomeD [OF f(1)] r by (force simp: singles_out_def)
  then have "map_of m' k = Some i" using assms(2) i f(2) by (simp add: indexes_def)
  then show ?thesis using Some i assms(3) by (simp add: seg_def [of d])
qed

lemma refs_same:
  assumes "indexes (\<lambda>_. True) fst (filed_segments c) ids" and "c_heap d = map snd (filed_segments c)"
    and "\<And>r. r \<in> set rs \<Longrightarrow> map_of (c_appendIDs c) (s_appendID (seg c r)) = Some r"
  shows "map (seg d) (List.map_filter (map_of ids) (map (\<lambda>r. s_appendID (seg c r)) rs)) = map (seg c) rs"
  using assms(3)
proof (induction rs)
  case (Cons r rs)
  obtain i where i: "i < length (filed_segments c)" "filed_segments c ! i = (s_appendID (seg c r), seg c r)"
    using filed_nth Cons.prems by (metis list.set_intros(1))
  then have "map_of ids (s_appendID (seg c r)) = Some i" using assms(1) by (simp add: indexes_def)
  then show ?case using Cons i assms(2) by (simp add: map_filter_simps seg_def [of d])
qed (simp add: map_filter_simps)


lemma ids_same:
  assumes "indexes (\<lambda>_. True) fst (filed_segments c) ids" and "c_heap d = map snd (filed_segments c)"
  shows "map_option (seg d) (map_of ids k) = map_option (seg c) (map_of (c_appendIDs c) k)"
proof (cases "map_of (c_appendIDs c) k")
  case None
  then have "k \<notin> fst ` set (c_appendIDs c)" by (simp add: map_of_eq_None_iff)
  have "map_of ids k \<noteq> Some i" for i
  proof
    assume "map_of ids k = Some i"
    then have i: "i < length (filed_segments c)" "fst (filed_segments c ! i) = k" using assms(1) by (simp_all add: indexes_def)
    from filed_at [OF i(1)] obtain a r where "filed_segments c ! i = (a, seg c r)" "(a, r) \<in> set (c_appendIDs c)" .
    then show False using i(2) \<open>k \<notin> _\<close> by force
  qed
  then show ?thesis using None by (cases "map_of ids k") auto
next
  case (Some r)
  obtain i where "i < length (filed_segments c)" "filed_segments c ! i = (k, seg c r)" using filed_nth [OF Some] .
  moreover from this have "map_of ids k = Some i" using assms(1) by (simp add: indexes_def)
  ultimately show ?thesis using Some assms(2) by (simp add: seg_def [of d])
qed

subsection \<open>The round trip\<close>

lemma persistable_parts:
  assumes "persistable c"
  shows "\<And>r. r \<in> \<Union> (set ` set (c_queues c)) \<union> set (c_log c) \<union> set (c_held c) \<union> \<Union> (set ` set (c_history c))
      \<Longrightarrow> map_of (c_appendIDs c) (s_appendID (seg c r)) = Some r"
    and "singles_out c (\<lambda>x. fst x \<in> set (pc_all (snapshot_channel c))) (c_all c)"
    and "singles_out c (\<lambda>x. s_delivered (snd x) \<noteq> []) (c_inflight c)"
    and "\<And>a r. (a, r) \<in> set (c_appendIDs c) \<Longrightarrow> s_appendID (seg c r) = a"
    and "loadable (snapshot_channel c) (filed_segments c)"
proof -
  have f: "map_of (c_appendIDs c) (s_appendID (seg c r)) = Some r"
    if "r \<in> \<Union> (set ` set (c_queues c)) \<union> set (c_log c) \<union> set (c_held c) \<union> \<Union> (set ` set (c_history c))
      \<union> snd ` set (c_all c) \<union> snd ` set (c_inflight c)" for r
    using assms that by (auto simp: persistable_def list_all_iff)
  then show 1: "\<And>r. r \<in> \<Union> (set ` set (c_queues c)) \<union> set (c_log c) \<union> set (c_held c) \<union> \<Union> (set ` set (c_history c))
      \<Longrightarrow> map_of (c_appendIDs c) (s_appendID (seg c r)) = Some r"
    by blast
  have e: "s_appendID (seg c r) = a \<and> a \<noteq> [] \<and> (durableHolder (s_holder (seg c r)) \<longrightarrow> s_durable (seg c r))
      \<and> (s_delivered (seg c r) \<noteq> [] \<longleftrightarrow> r \<in> snd ` set (c_inflight c))" if "(a, r) \<in> set (c_appendIDs c)" for a r
    using assms that unfolding persistable_def list_all_iff by fast
  then show 4: "\<And>a r. (a, r) \<in> set (c_appendIDs c) \<Longrightarrow> s_appendID (seg c r) = a" by blast
  have kk: "list_all (\<lambda>(k, r). key (seg c r) = k) (c_all c @ c_inflight c)"
    using assms unfolding persistable_def by blast
  have d: "distinct (map fst (c_appendIDs c))" "distinct (map fst (c_all c))" "distinct (map fst (c_inflight c))"
    using assms unfolding persistable_def by blast+
  have d4: "key (seg c r) = k" if "(k, r) \<in> set (c_all c) \<or> (k, r) \<in> set (c_inflight c)" for k r
  proof -
    have "(k, r) \<in> set (c_all c @ c_inflight c)" using that by auto
    from kk [unfolded list_all_iff, THEN bspec, OF this] show ?thesis by simp
  qed
  have "r \<in> snd ` set (c_all c) \<longleftrightarrow> a \<in> set (pc_all (snapshot_channel c))" if ar: "(a, r) \<in> set (c_appendIDs c)" for a r
  proof
    assume "a \<in> set (pc_all (snapshot_channel c))"
    then obtain q where q: "q \<in> snd ` set (c_all c)" "s_appendID (seg c q) = a"
      by (auto simp: snapshot_channel_def Let_def)
    then have "map_of (c_appendIDs c) a = Some q" using f [of q] by blast
    then show "r \<in> snd ` set (c_all c)" using q ar d(1) by (metis map_of_is_SomeI option.inject)
  qed (use 4 [OF ar] in \<open>force simp: snapshot_channel_def Let_def\<close>)
  then show 2: "singles_out c (\<lambda>x. fst x \<in> set (pc_all (snapshot_channel c))) (c_all c)"
    unfolding singles_out_def using d d4 f by (auto simp: image_iff) (metis snd_conv)+
  show 3: "singles_out c (\<lambda>x. s_delivered (snd x) \<noteq> []) (c_inflight c)"
    unfolding singles_out_def using d d4 f e by (auto simp: image_iff) (metis snd_conv)+
  show "loadable (snapshot_channel c) (filed_segments c)"
    unfolding loadable_def
    using singles_out_distinct [OF 2 d(1) 4] singles_out_distinct [OF 3 d(1) 4] d(1) e
    by (auto simp: filed_segments_def set_map_vals snapshot_channel_def Let_def intro: restore_snapshot_segment)
qed

lemma restore_snapshot_channel:
  assumes "persistable c"
  shows "same_channel c (restore_channel (snapshot_channel c))"
proof -
  let ?pc = "snapshot_channel c"
  note p = persistable_parts [OF assms]
  obtain d where d: "fold (restore1 ?pc) (map_vals snapshot_segment (filed_segments c)) (restore_base ?pc, []) = (d, [])"
      "loaded ?pc (filed_segments c) d"
    using load_segments [OF p(5)] by blast
  have segs: "pc_segments ?pc = map_vals snapshot_segment (filed_segments c)"
    by (simp add: snapshot_channel_def filed_segments_def map_vals_comp comp_def Let_def)
  let ?refs = "List.map_filter (map_of (c_appendIDs d))"
  have r: "restore_channel ?pc = d\<lparr>c_history := map ?refs (pc_history ?pc), c_historyBase := c_historyBase c,
      c_subscriptions := map_vals restore_subscription (pc_subscriptions ?pc),
      c_queues := map ?refs (pc_queues ?pc), c_log := ?refs (pc_log ?pc), c_held := ?refs (pc_held ?pc)\<rparr>"
    using assms by (simp add: restore_channel_def segs d(1) persistable_def) (simp add: snapshot_channel_def Let_def)
  have base: "d\<lparr>c_heap := [], c_all := [], c_inflight := [], c_appendIDs := []\<rparr> = restore_base ?pc"
    and heap: "c_heap d = map snd (filed_segments c)"
    and ids: "indexes (\<lambda>_. True) fst (filed_segments c) (c_appendIDs d)"
    and all: "indexes (\<lambda>x. fst x \<in> set (pc_all ?pc)) (\<lambda>x. key (snd x)) (filed_segments c) (c_all d)"
    and inf: "indexes (\<lambda>x. s_delivered (snd x) \<noteq> []) (\<lambda>x. key (snd x)) (filed_segments c) (c_inflight d)"
    using d(2) by (simp_all add: loaded_def)
  have scalars: "c_spec d = c_spec c" "c_sealed d = c_sealed c" "c_produced d = c_produced c" "c_overflowed d =
      c_overflowed c" "c_lost d = c_lost c" "c_acknowledged d = c_acknowledged c" "c_latestDeliveryFailure
      d = c_latestDeliveryFailure c" "c_epoch d = c_epoch c" "c_finiteEpochs d = c_finiteEpochs c"
      "c_maxEpochs d = c_maxEpochs c" "c_productionClosed d = c_productionClosed c" "c_rr d = c_rr c"
      "c_cursor d = c_cursor c" "c_epochDone d = c_epochDone c" "c_records d = c_records c" "\<not>
      c_panic d"
    using arg_cong [OF base, of c_spec]
      arg_cong [OF base, of c_sealed]
      arg_cong [OF base, of c_produced]
      arg_cong [OF base, of c_overflowed]
      arg_cong [OF base, of c_lost]
      arg_cong [OF base, of c_acknowledged]
      arg_cong [OF base, of c_latestDeliveryFailure]
      arg_cong [OF base, of c_epoch]
      arg_cong [OF base, of c_finiteEpochs]
      arg_cong [OF base, of c_maxEpochs]
      arg_cong [OF base, of c_productionClosed]
      arg_cong [OF base, of c_rr]
      arg_cong [OF base, of c_cursor]
      arg_cong [OF base, of c_epochDone]
      arg_cong [OF base, of c_records]
      arg_cong [OF base, of c_panic]
    by (simp_all add: restore_base_def snapshot_channel_def Let_def)
  have rs: "map (seg d) (?refs (map (\<lambda>r. s_appendID (seg c r)) rs)) = map (seg c) rs"
    if "set rs \<subseteq> \<Union> (set ` set (c_queues c)) \<union> set (c_log c) \<union> set (c_held c) \<union> \<Union> (set ` set (c_history c))" for rs
    by (rule refs_same [OF ids heap]) (use that p(1) in blast)
  have subs: "map_vals restore_subscription (pc_subscriptions ?pc) = c_subscriptions c"
    by (simp add: snapshot_channel_def Let_def map_vals_comp comp_def restore_snapshot_subscription)
  have lists: "map (map (seg d)) (map ?refs (pc_queues ?pc)) = map (map (seg c)) (c_queues c)"
      "map (map (seg d)) (map ?refs (pc_history ?pc)) = map (map (seg c)) (c_history c)"
      "map (seg d) (?refs (pc_log ?pc)) = map (seg c) (c_log c)" "map (seg d) (?refs (pc_held ?pc)) = map (seg c) (c_held c)"
    by (auto simp: snapshot_channel_def Let_def intro!: rs)
  show ?thesis
    unfolding same_channel_def r
    using scalars ids_same [OF ids heap] lists subs assms singles_out_same [OF p(2) all heap] singles_out_same [OF p(3) inf heap]
    by (simp add: persistable_def)
qed


lemma restore_snapshot_operation:
  "list_all (\<lambda>(w, p). p_name p = w) (o_pods o1) \<Longrightarrow> restore_operation (snapshot_operation o1) = o1"
proof -
  assume "list_all (\<lambda>(w, p). p_name p = w) (o_pods o1)"
  then have "map (\<lambda>(w, pp). (w, restore_pod w pp)) (map_vals snapshot_pod (o_pods o1)) = o_pods o1"
    by (auto simp: map_vals_def list_all_iff restore_pod_def snapshot_pod_def intro!: map_idI)
  then show ?thesis by (simp add: restore_operation_def snapshot_operation_def)
qed

definition persistable_state :: "coordinator \<Rightarrow> bool" where
  "persistable_state co \<longleftrightarrow> list_all (\<lambda>(_, c). persistable c) (co_channels co)
     \<and> list_all (\<lambda>(_, o1). list_all (\<lambda>(w, p). p_name p = w) (o_pods o1)) (co_ops co)"


definition announced_state :: coordinator where
  "announced_state = serve_all (sample_setup @ [GetConsume ''words'' ''count'' ''c0'' ''i1'' 1]) (New ''h:0'')"

lemma announced_persistable: "persistable_state announced_state"
  by code_simp


subsection \<open>Restarting\<close>

lemma rebind_none:
  assumes "list_all (\<lambda>(k, r). s_data (seg c r) = None \<or> s_holder (seg c r) = a) xs"
  shows "fold (rebind1 a) xs c = c"
  using assms by (induction xs) (auto simp: rebind1_def Let_def)

definition held_here :: "string \<Rightarrow> coordinator \<Rightarrow> bool" where
  "held_here a co \<longleftrightarrow> list_all (\<lambda>(_, c). list_all (\<lambda>(_, r). s_data (seg c r) = None \<or> s_holder (seg c r) = a) (c_all c)) (co_channels co)"

lemma same_held:
  assumes "same_channel c d" and "distinct (map fst (c_all d))"
    and "list_all (\<lambda>(k, r). s_data (seg c r) = None \<or> s_holder (seg c r) = a) (c_all c)"
  shows "list_all (\<lambda>(k, r). s_data (seg d r) = None \<or> s_holder (seg d r) = a) (c_all d)"
  unfolding list_all_iff
proof clarify
  fix k r assume kr: "(k, r) \<in> set (c_all d)" and h: "s_holder (seg d r) \<noteq> a"
  have "map_of (c_all d) k = Some r" using assms(2) kr by simp
  moreover have "map_option (seg c) (map_of (c_all c) k) = map_option (seg d) (map_of (c_all d) k)"
    using assms(1) by (simp add: same_channel_def)
  ultimately obtain q where q: "map_of (c_all c) k = Some q" "seg c q = seg d r" by auto
  have "s_data (seg c q) = None \<or> s_holder (seg c q) = a"
    using assms(3) [unfolded list_all_iff, THEN bspec, OF map_of_SomeD [OF q(1)]] by simp
  then show "s_data (seg d r) = None" using q(2) h by simp
qed

lemma restored_all_distinct: "distinct (map fst (c_all (restore_channel pc)))"
proof -
  have "distinct (map fst (c_all (fst (fold (restore1 pc) xs st))))" if "distinct (map fst (c_all (fst st)))" for xs st
    using that by (induction xs arbitrary: st) (auto simp: restore1_def Let_def split: prod.splits)
  then have "distinct (map fst (c_all (fst (fold (restore1 pc) (pc_segments pc) (restore_base pc, [])))))"
    by (simp add: restore_base_def)
  then show ?thesis by (simp add: restore_channel_def Let_def split_def)
qed


text \<open>The sample state, committed by the writer of the first run and restarted by a second process.\<close>

definition sample_text :: bytes where
  "sample_text = ''{ }''"

definition sample_state_codec :: state_codec where
  "sample_state_codec = \<lparr>encode_state = (\<lambda>_. sample_text),
     decode_state = (\<lambda>b. if b = sample_text then Some (snapshot announced_state) else None)\<rparr>"

definition commit5 :: "unit sresult \<times> Writer \<times> files" where
  "commit5 = Commit sample_codec (local_store sum_digest ''/data'' calm) (\<lambda>x. x) (writer_of run1)
     (encode_state sample_state_codec (snapshot announced_state)) (tombstones announced_state) (snd run1)"

definition start6 :: "(coordinator \<times> Writer) sresult \<times> files" where
  "start6 = NewDurable sample_codec sample_state_codec (local_store sum_digest ''/data'' calm) ''h:0'' ''job/state'' ''w3''
     (snd (snd commit5))"

lemma commit5_done: "commit5 = (Inr (), fst (snd commit5), snd (snd commit5))"
proof -
  have "case fst commit5 of Inr _ \<Rightarrow> True | _ \<Rightarrow> False" by code_simp
  then have "fst commit5 = Inr ()" by (auto split: sum.splits)
  then show ?thesis by (metis prod.collapse)
qed

lemma commit5_call:
  "Commit sample_codec (local_store sum_digest ''/data'' calm) (\<lambda>x. x) (writer_of run1)
     (encode_state sample_state_codec (snapshot announced_state)) (tombstones announced_state) (snd run1)
   = (Inr (), fst (snd commit5), snd (snd commit5))"
  using commit5_done by (simp only: commit5_def [symmetric])

lemma start6_done: "\<exists>co w. start6 = (Inr (co, w), snd start6)"
proof -
  have "case fst start6 of Inr _ \<Rightarrow> True | _ \<Rightarrow> False" by code_simp
  then obtain x where "fst start6 = Inr x" by (auto split: sum.splits)
  then show ?thesis by (metis prod.collapse)
qed


end
