(* ===== verification/SegmentStore.thy ===== *)
theory SegmentStore
  imports Prelude
begin

text \<open>
  The segment store of a worker pod, after \<^verbatim>\<open>segmentStore\<close> in \<^verbatim>\<open>pkg/sdk/sdk.go\<close> and
  \<^verbatim>\<open>pkg/sdk/blob.go\<close>: segments as files, and blobs whose lifetime is bound to the segments that
  refer to them.

  \<open>ss_files\<close> and \<open>ss_blobFiles\<close> are the two kinds of files in the directory. \<open>nano\<close> is the
  clock reading in a new name, and \<open>fault\<close> says whether the system calls of the method fail;
  temporary files, which are never served, are left out. Each method is one step; the code holds its
  mutex only around the bookkeeping.
\<close>

datatype werror = ErrSealed | ErrStorageCapacity | WorkerError string

type_synonym 'a wresult = "werror + 'a"

record blobRef =
  br_segments :: "string goset"
  br_bound :: bool

record segmentStore =
  ss_seq :: nat
  ss_maxBytes :: int
  ss_usedBytes :: int
  ss_files :: "(string, string) gomap"
  ss_blobFiles :: "(string, string) gomap"
  ss_blobs :: "(string, blobRef) gomap"
  ss_segBlobs :: "(string, string list) gomap"

definition openStore :: "int \<Rightarrow> segmentStore" where
  "openStore maxBytes = \<lparr>ss_seq = 0, ss_maxBytes = maxBytes, ss_usedBytes = 0, ss_files = [],
     ss_blobFiles = [], ss_blobs = [], ss_segBlobs = []\<rparr>"

definition segment_name :: "string \<Rightarrow> nat \<Rightarrow> nat \<Rightarrow> string" where
  "segment_name inst nano seq = inst @ ''-'' @ itoa nano @ ''-'' @ itoa seq"

definition store_write ::
  "string option \<Rightarrow> string \<Rightarrow> nat \<Rightarrow> string \<Rightarrow> segmentStore \<Rightarrow> (string \<times> int) wresult \<times> segmentStore"
where
  "store_write fault inst nano body s0 =
     (let s = s0\<lparr>ss_seq := ss_seq s0 + 1\<rparr>; i = segment_name inst nano (ss_seq s); n = int (length body) in
      if 0 < ss_maxBytes s \<and> ss_maxBytes s < ss_usedBytes s + n then (Inl ErrStorageCapacity, s)
      else
        (case fault of
           Some e \<Rightarrow> (Inl (WorkerError e), s)
         | None \<Rightarrow> (Inr (i, n), s\<lparr>ss_files := AList.update i body (ss_files s), ss_usedBytes := ss_usedBytes s + n\<rparr>)))"

definition bad_id :: "string \<Rightarrow> bool" where
  "bad_id i \<longleftrightarrow> i = '''' \<or> CHR ''/'' \<in> set i \<or> CHR 0x5C \<in> set i"

definition store_serve :: "segmentStore \<Rightarrow> string \<Rightarrow> int \<times> string" where
  "store_serve s i =
     (if bad_id i then (400, ''bad segment id'')
      else (case map_of (ss_files s) i of None \<Rightarrow> (404, ''segment not found'') | Some body \<Rightarrow> (200, body)))"

definition store_serveBlob :: "segmentStore \<Rightarrow> string \<Rightarrow> int \<times> string" where
  "store_serveBlob s i =
     (if bad_id i then (400, ''bad blob id'')
      else (case map_of (ss_blobFiles s) i of None \<Rightarrow> (404, ''blob not found'') | Some body \<Rightarrow> (200, body)))"

subsection \<open>Blobs\<close>

definition writeBlob ::
  "string option \<Rightarrow> string \<Rightarrow> nat \<Rightarrow> string \<Rightarrow> segmentStore \<Rightarrow> (string \<times> int) wresult \<times> segmentStore"
where
  "writeBlob fault inst nano payload s0 =
     (let s = s0\<lparr>ss_seq := ss_seq s0 + 1\<rparr>; i = segment_name inst nano (ss_seq s);
          limit = ss_maxBytes s; remaining = limit - ss_usedBytes s;
          n = (if 0 < limit then min (int (length payload)) (remaining + 1) else int (length payload)) in
      if 0 < limit \<and> remaining \<le> 0 then (Inl ErrStorageCapacity, s)
      else
        (case fault of
           Some e \<Rightarrow> (Inl (WorkerError e), s)
         | None \<Rightarrow>
             if 0 < limit \<and> remaining < n then (Inl ErrStorageCapacity, s)
             else (Inr (i, n), s\<lparr>ss_blobFiles := AList.update i payload (ss_blobFiles s),
                     ss_usedBytes := ss_usedBytes s + n,
                     ss_blobs := AList.update i \<lparr>br_segments = [], br_bound = False\<rparr> (ss_blobs s)\<rparr>)))"

definition bind1 :: "string \<Rightarrow> string \<Rightarrow> (string, blobRef) gomap \<Rightarrow> (string, blobRef) gomap" where
  "bind1 segment b m =
     (case map_of m b of
        None \<Rightarrow> m
      | Some r \<Rightarrow> AList.update b (r\<lparr>br_bound := True, br_segments := set_add segment (br_segments r)\<rparr>) m)"

definition bind :: "string \<Rightarrow> string list \<Rightarrow> segmentStore \<Rightarrow> segmentStore" where
  "bind segment blobs s =
     (if blobs = [] then s
      else s\<lparr>ss_blobs := fold (bind1 segment) blobs (ss_blobs s),
             ss_segBlobs := AList.update segment (map_get [] (ss_segBlobs s) segment @ blobs) (ss_segBlobs s)\<rparr>)"

text \<open>Removing a file subtracts its size; a file that is not there, or cannot be removed, changes nothing.\<close>

definition removeBlobFile :: "bool \<Rightarrow> string \<Rightarrow> segmentStore \<Rightarrow> segmentStore" where
  "removeBlobFile fault b s =
     (case map_of (ss_blobFiles s) b of
        None \<Rightarrow> s
      | Some body \<Rightarrow>
          if fault then s
          else s\<lparr>ss_blobFiles := AList.delete b (ss_blobFiles s), ss_usedBytes := ss_usedBytes s - int (length body)\<rparr>)"

definition release1 ::
  "string \<Rightarrow> string \<Rightarrow> (string, blobRef) gomap \<times> string list \<Rightarrow> (string, blobRef) gomap \<times> string list"
where
  "release1 segment b st =
     (let (m, dead) = st in
      case map_of m b of
        None \<Rightarrow> (m, dead)
      | Some r \<Rightarrow>
          (let r1 = r\<lparr>br_segments := set_del segment (br_segments r)\<rparr> in
           if br_bound r1 \<and> br_segments r1 = [] then (AList.delete b m, dead @ [b])
           else (AList.update b r1 m, dead)))"

definition releaseBlobs :: "bool \<Rightarrow> string \<Rightarrow> segmentStore \<Rightarrow> segmentStore" where
  "releaseBlobs fault segment s =
     (let (m, dead) = fold (release1 segment) (map_get [] (ss_segBlobs s) segment) (ss_blobs s, [])
      in fold (removeBlobFile fault) dead
           (s\<lparr>ss_segBlobs := AList.delete segment (ss_segBlobs s), ss_blobs := m\<rparr>))"

definition dropBlob :: "bool \<Rightarrow> string \<Rightarrow> segmentStore \<Rightarrow> segmentStore" where
  "dropBlob fault b s = removeBlobFile fault b (s\<lparr>ss_blobs := AList.delete b (ss_blobs s)\<rparr>)"

definition store_remove :: "bool \<Rightarrow> string \<Rightarrow> segmentStore \<Rightarrow> segmentStore" where
  "store_remove fault i s =
     releaseBlobs fault i
       (case map_of (ss_files s) i of
          None \<Rightarrow> s
        | Some body \<Rightarrow>
            if fault then s
            else s\<lparr>ss_files := AList.delete i (ss_files s), ss_usedBytes := ss_usedBytes s - int (length body)\<rparr>)"

subsection \<open>Runs of a store\<close>

text \<open>
  A pod writes blobs, flushes segments that refer to blobs it has written and not dropped, drops
  blobs of records it could not emit, and removes released segments. Names are new: the sequence
  number of a store never repeats.
\<close>

inductive store_run :: "segmentStore \<Rightarrow> bool" where
  start: "store_run (openStore limit)"
| blob: "store_run s \<Longrightarrow> store_run (snd (writeBlob fault inst nano payload s))"
| flush: "store_run s \<Longrightarrow> store_write fault inst nano body s = (Inr (i, n), s')
    \<Longrightarrow> set blobs \<subseteq> fst ` set (ss_blobs s) \<Longrightarrow> store_run (bind i blobs s')"
| fails: "store_run s \<Longrightarrow> store_write fault inst nano body s = (Inl e, s') \<Longrightarrow> store_run s'"
| dropped: "store_run s \<Longrightarrow> map_of (ss_blobs s) b = Some r \<Longrightarrow> \<not> br_bound r \<Longrightarrow> store_run (dropBlob fault b s)"
| remove: "store_run s \<Longrightarrow> store_run (store_remove fault i s)"

inductive_cases store_runE: "store_run s"

end
