(* ===== verification/Worker.thy ===== *)
theory Worker
  imports Server SegmentStore
begin

text \<open>
  A worker pod, after the types and the coordinator client of \<^verbatim>\<open>pkg/sdk/sdk.go\<close>.

  Everything outside the process answers calls: the coordinator, the pods that hold segments, the
  durable store, the local file system and clock, and the context of \<^verbatim>\<open>Run\<close>. A \<open>machine\<close> gives the
  answer to a call after the calls and answers so far, so any of them may fail at any time and any
  environment with a memory is covered. \<open>ask\<close> makes one call and records it in the worker's trace.
  A request to the coordinator is a \<open>request\<close> of its server and is answered with a \<open>response\<close>,
  so that the coordinator of this development can be the environment.

  A \<^verbatim>\<open>json.RawMessage\<close> is the value it encodes; \<open>json_text\<close> is the text \<^verbatim>\<open>json.Marshal\<close> gives it
  (for valid UTF-8 without the two line separators it escapes). \<^verbatim>\<open>float64\<close> is the type parameter of a
  machine, with parsing, printing (which refuses infinities and NaN), addition and comparison.
\<close>

subsection \<open>JSON text\<close>

definition hex :: "nat \<Rightarrow> char" where
  "hex d = (if d < 10 then digit d else char_of (87 + d))"

definition escape_char :: "char \<Rightarrow> string" where
  "escape_char c =
     (let n = (of_char c :: nat) in
      if c = CHR 0x22 then [CHR 0x5C, CHR 0x22]
      else if c = CHR 0x5C then [CHR 0x5C, CHR 0x5C]
      else if n = 8 then [CHR 0x5C, CHR ''b'']
      else if n = 12 then [CHR 0x5C, CHR ''f'']
      else if n = 10 then [CHR 0x5C, CHR ''n'']
      else if n = 13 then [CHR 0x5C, CHR ''r'']
      else if n = 9 then [CHR 0x5C, CHR ''t'']
      else if n < 32 \<or> c = CHR ''<'' \<or> c = CHR ''>'' \<or> c = CHR 0x26
      then [CHR 0x5C, CHR ''u'', CHR ''0'', CHR ''0'', hex (n div 16), hex (n mod 16)]
      else [c])"

definition quoted :: "string \<Rightarrow> string" where
  "quoted s = [CHR 0x22] @ concat (map escape_char s) @ [CHR 0x22]"

fun commas :: "string list \<Rightarrow> string" where
  "commas [] = ''''"
| "commas [x] = x"
| "commas (x # xs) = x @ '','' @ commas xs"

fun json_text :: "json \<Rightarrow> string" where
  "json_text JNull = ''null''"
| "json_text (JBool b) = (if b then ''true'' else ''false'')"
| "json_text (JNumber s) = s"
| "json_text (JString s) = quoted s"
| "json_text (JArray xs) = ''['' @ commas (map json_text xs) @ '']''"
| "json_text (JObject kvs) = ''{'' @ commas (map (\<lambda>(k, v). quoted k @ '':'' @ json_text v) kvs) @ ''}''"

definition itoa_int :: "int \<Rightarrow> string" where
  "itoa_int i = (if i < 0 then ''-'' @ itoa (nat (- i)) else itoa (nat i))"

subsection \<open>Records and buffers\<close>

record wireRecord =
  x_key :: string
  x_value :: json
  x_epoch :: int
  x_blob :: string

definition record_text :: "wireRecord \<Rightarrow> string" where
  "record_text r = json_text (JObject
     [(''key'', JString (x_key r)), (''value'', x_value r), (''epoch'', JNumber (itoa_int (x_epoch r)))])"

definition segment_text :: "wireRecord list \<Rightarrow> string" where
  "segment_text recs = ''['' @ commas (map record_text recs) @ '']''"

definition to_record :: "wireRecord \<Rightarrow> Record" where
  "to_record r = \<lparr>r_key = x_key r, r_value = x_value r, r_epoch = x_epoch r\<rparr>"

record bufKey =
  bk_channel :: string
  bk_partition :: int
  bk_epoch :: int

definition flushRecords :: nat where "flushRecords = 500"
definition flushBytes :: int where "flushBytes = 4194304"
definition defaultMaxRecordBytes :: int where "defaultMaxRecordBytes = 8388608"
definition defaultMaxBufferedBytes :: int where "defaultMaxBufferedBytes = 67108864"
definition defaultMaxFetchedBytes :: int where "defaultMaxFetchedBytes = 67108864"
definition defaultMaxFetchedRecords :: int where "defaultMaxFetchedRecords = 64 * int flushRecords"
definition defaultMaxSegmentStoreBytes :: int where "defaultMaxSegmentStoreBytes = 1073741824"

subsection \<open>Checkpoints of an operation\<close>

record checkpointInput =
  ci_channel :: string
  ci_ack :: SegmentAck

record checkpointManifest =
  mf_boundary :: nat
  mf_complete :: bool
  mf_epochCallbackComplete :: bool
  mf_epoch :: int
  mf_stateKey :: string
  mf_inputs :: "checkpointInput list"
  mf_outputs :: "(string, SegmentAnnouncement list) gomap"

record checkpointSession =
  cs_prefix :: string
  cs_current :: checkpointManifest
  cs_covered :: "string goset"

subsection \<open>The environment\<close>

text \<open>
  What a streaming JSON decoder finds in the body of a segment: whether it opens an array, its items
  (\<open>None\<close> for one that is not a record), whether the array closes, and what follows it.
\<close>

datatype trailer = EndOfBody | AnotherValue | BadTrailer

record segmentBody =
  sb_opening :: "bool option"
  sb_items :: "wireRecord option list"
  sb_closed :: bool
  sb_trailer :: trailer
  sb_length :: int

datatype call =
    Http request | FetchSegment string | FetchBlob string
  | Clock | WriteFile | RemoveFile string | OpenSegments string string
  | PutSegment string string | GetSegment string int | DeleteSegment string
  | ClaimCheckpoint string string | GetState string | PutState string string | CommitCheckpoint checkpointManifest
  | ContextErr | Wait int

datatype answer =
    Unreachable string | Answer response | SegmentPage int segmentBody | BlobPage int string
  | Local nat "string option" | Opened string | Stored segmentBody
  | Claimed "checkpointManifest option" | StateBytes string

type_synonym history = "(call \<times> answer) list"

record 'f machine =
  mc_world :: "history \<Rightarrow> call \<Rightarrow> answer"
  fl_parse :: "string \<Rightarrow> 'f option"
  fl_print :: "'f \<Rightarrow> string option"
  fl_add :: "'f \<Rightarrow> 'f \<Rightarrow> 'f"
  fl_less :: "'f \<Rightarrow> 'f \<Rightarrow> bool"
  fl_zero :: 'f
  fl_one :: 'f

subsection \<open>The worker\<close>

record worker =
  wk_operation :: string
  wk_instance :: string
  wk_incarnation :: string
  wk_slots :: int
  wk_inbound :: "string list"
  wk_segmentDir :: string
  wk_segmentListen :: string
  wk_tickInterval :: int
  wk_maxRecordBytes :: int
  wk_maxBufferedBytes :: int
  wk_maxFetchedBytes :: int
  wk_maxFetchedRecords :: int
  wk_maxSegmentStoreBytes :: int
  wk_durable :: bool
  wk_bounded :: bool
  wk_baseURL :: string
  wk_prefix :: string
  wk_checkpointed :: bool
  wk_checkpointPrefix :: string
  wk_rank :: int
  wk_size :: int
  wk_feedback :: "string goset"
  wk_feedbackOut :: "string goset"
  wk_specs :: "(string, Channel) gomap option"
  wk_buffers :: "(bufKey, wireRecord list) gomap"
  wk_combineIndex :: "(bufKey, (string, nat) gomap) gomap"
  wk_bufBytes :: "(bufKey, int) gomap"
  wk_bufferedBytes :: int
  wk_order :: "bufKey list"
  wk_rr :: "(string, 64 word) gomap"
  wk_unannounced :: "(string, SegmentAnnouncement list) gomap"
  wk_overflowed :: "(string, int) gomap"
  wk_epoch :: int
  wk_maxEpoch :: int
  wk_lastDone :: int
  wk_syncLoop :: bool
  wk_task :: TaskID
  wk_addr :: string
  wk_store :: "segmentStore option"
  wk_segmentSeq :: nat
  wk_checkpoint :: "checkpointSession option"
  wk_trace :: history

definition noTask :: TaskID where
  "noTask = \<lparr>t_channel = '''', t_partition = 0, t_epoch = 0, t_attempt = 0\<rparr>"

text \<open>
  A worker built by hand with the fields a caller sets; \<open>init_worker\<close> fills in the defaults. The
  maps of the code start empty where \<^verbatim>\<open>init\<close> would make them, and \<open>random\<close> is the text of the
  generated incarnation.
\<close>

definition zero_worker :: "string \<Rightarrow> string \<Rightarrow> string list \<Rightarrow> worker" where
  "zero_worker operation inst inbound =
     \<lparr>wk_operation = operation, wk_instance = inst, wk_incarnation = '''', wk_slots = 0, wk_inbound = inbound,
      wk_segmentDir = '''', wk_segmentListen = '''', wk_tickInterval = 0, wk_maxRecordBytes = 0,
      wk_maxBufferedBytes = 0, wk_maxFetchedBytes = 0, wk_maxFetchedRecords = 0, wk_maxSegmentStoreBytes = 0,
      wk_durable = False, wk_bounded = False, wk_baseURL = '''', wk_prefix = '''', wk_checkpointed = False,
      wk_checkpointPrefix = '''', wk_rank = 0, wk_size = 0, wk_feedback = [], wk_feedbackOut = [],
      wk_specs = None, wk_buffers = [], wk_combineIndex = [], wk_bufBytes = [], wk_bufferedBytes = 0,
      wk_order = [], wk_rr = [], wk_unannounced = [], wk_overflowed = [], wk_epoch = 0, wk_maxEpoch = 0,
      wk_lastDone = -1, wk_syncLoop = False, wk_task = noTask, wk_addr = '''', wk_store = None,
      wk_segmentSeq = 0, wk_checkpoint = None, wk_trace = []\<rparr>"

definition positive_or :: "int \<Rightarrow> int \<Rightarrow> int" where
  "positive_or d n = (if n \<le> 0 then d else n)"

definition init_worker :: "string \<Rightarrow> worker \<Rightarrow> worker" where
  "init_worker random w =
     w\<lparr>wk_incarnation := (if wk_incarnation w = '''' then random else wk_incarnation w),
       wk_maxRecordBytes := positive_or defaultMaxRecordBytes (wk_maxRecordBytes w),
       wk_maxBufferedBytes := positive_or defaultMaxBufferedBytes (wk_maxBufferedBytes w),
       wk_maxFetchedBytes := positive_or defaultMaxFetchedBytes (wk_maxFetchedBytes w),
       wk_maxFetchedRecords := positive_or defaultMaxFetchedRecords (wk_maxFetchedRecords w),
       wk_maxSegmentStoreBytes := positive_or defaultMaxSegmentStoreBytes (wk_maxSegmentStoreBytes w),
       wk_slots := positive_or 1 (wk_slots w),
       wk_segmentDir := (if wk_segmentDir w = '''' then ''/var/lib/stark8s/segments'' else wk_segmentDir w),
       wk_segmentListen := (if wk_segmentListen w = '''' then '':8090'' else wk_segmentListen w)\<rparr>"

definition SetFeedback :: "string list \<Rightarrow> string list \<Rightarrow> worker \<Rightarrow> worker" where
  "SetFeedback inbound outbound w =
     w\<lparr>wk_feedback := fold set_add inbound (wk_feedback w),
       wk_feedbackOut := fold set_add outbound (wk_feedbackOut w)\<rparr>"

definition CollectiveIOEnabled :: "worker \<Rightarrow> bool" where
  "CollectiveIOEnabled w \<longleftrightarrow> wk_size w = 0 \<or> wk_rank w = 0"

subsection \<open>Calls\<close>

definition thenW :: "'a wresult \<times> 's \<Rightarrow> ('a \<Rightarrow> 's \<Rightarrow> 'b wresult \<times> 's) \<Rightarrow> 'b wresult \<times> 's" where
  "thenW m f = (case m of (Inl err, s) \<Rightarrow> (Inl err, s) | (Inr x, s) \<Rightarrow> f x s)"

lemma thenW_simps [simp]: "thenW (Inl err, s) f = (Inl err, s)" "thenW (Inr x, s) f = f x s"
  by (simp_all add: thenW_def)

text \<open>A property of the state that both parts keep is kept by the sequence.\<close>

lemma thenW_inv: "I (snd m) \<Longrightarrow> (\<And>x s. m = (Inr x, s) \<Longrightarrow> I s \<Longrightarrow> I (snd (f x s))) \<Longrightarrow> I (snd (thenW m f))"
  by (cases m; cases "fst m") (auto simp: thenW_def)

lemma thenW_ok:
  assumes "thenW m f = (Inr y, s')"
  obtains x s where "m = (Inr x, s)" "f x s = (Inr y, s')"
proof (cases m)
  case (Pair r s)
  with assms that show ?thesis by (cases r) auto
qed

definition ask :: "'f machine \<Rightarrow> call \<Rightarrow> worker \<Rightarrow> answer \<times> worker" where
  "ask M c w = (let a = mc_world M (wk_trace w) c in (a, w\<lparr>wk_trace := wk_trace w @ [(c, a)]\<rparr>))"

definition http_result :: "answer \<Rightarrow> body wresult" where
  "http_result a =
     (case a of
        Answer r \<Rightarrow>
          if status r = 409 then Inl ErrSealed
          else if 300 \<le> status r then Inl (WorkerError ''%s %s: %s: %s'')
          else Inr (body r)
      | Unreachable e \<Rightarrow> Inl (WorkerError e)
      | _ \<Rightarrow> Inl (WorkerError ''no response''))"

definition do_request :: "'f machine \<Rightarrow> request \<Rightarrow> worker \<Rightarrow> body wresult \<times> worker" where
  "do_request M req w = (let (a, w1) = ask M (Http req) w in (http_result a, w1))"

definition call_ok :: "'f machine \<Rightarrow> request \<Rightarrow> worker \<Rightarrow> unit wresult \<times> worker" where
  "call_ok M req w = thenW (do_request M req w) (\<lambda>_ w1. (Inr (), w1))"

definition registration :: "worker \<Rightarrow> PodRegistration" where
  "registration w = \<lparr>reg_operation = wk_operation w, reg_pod = wk_instance w, reg_incarnation = wk_incarnation w,
     reg_addr = wk_addr w, reg_slots = wk_slots w\<rparr>"

definition register :: "'f machine \<Rightarrow> worker \<Rightarrow> unit wresult \<times> worker" where
  "register M w = call_ok M (PostRegister (registration w)) w"

definition reportDone :: "'f machine \<Rightarrow> worker \<Rightarrow> unit wresult \<times> worker" where
  "reportDone M w = call_ok M (PostSourceDone (registration w)) w"

definition consume :: "'f machine \<Rightarrow> string \<Rightarrow> int \<Rightarrow> worker \<Rightarrow> ConsumeResponse wresult \<times> worker" where
  "consume M ch limit w =
     thenW (do_request M (GetConsume ch (wk_operation w) (wk_instance w) (wk_incarnation w) limit) w) (\<lambda>b w1.
       (case b of Work r \<Rightarrow> Inr r | _ \<Rightarrow> Inl (WorkerError ''invalid character''), w1))"

definition ack :: "'f machine \<Rightarrow> string \<Rightarrow> SegmentAck list \<Rightarrow> worker \<Rightarrow> unit wresult \<times> worker" where
  "ack M ch acks w = call_ok M (PostAck ch (wk_operation w) (wk_instance w) (wk_incarnation w) acks) w"

definition nack :: "'f machine \<Rightarrow> string \<Rightarrow> SegmentAck list \<Rightarrow> worker \<Rightarrow> unit wresult \<times> worker" where
  "nack M ch deliveries w = call_ok M (PostNack ch (wk_operation w) (wk_instance w) (wk_incarnation w) deliveries) w"

subsection \<open>Topology and segment server\<close>

definition spec_entry :: "Channel \<Rightarrow> Channel" where
  "spec_entry s =
     (if p_partitions (ch_partitioning s) \<le> 0
      then s\<lparr>ch_partitioning := (ch_partitioning s)\<lparr>p_partitions := 1\<rparr>\<rparr> else s)"

definition loadTopology :: "'f machine \<Rightarrow> worker \<Rightarrow> unit wresult \<times> worker" where
  "loadTopology M w =
     thenW (do_request M GetTopology w) (\<lambda>b w1.
       case b of
         Channels specs \<Rightarrow>
           (Inr (), w1\<lparr>wk_specs := Some (fold (\<lambda>s m. AList.update (ch_name s) (spec_entry s) m) specs [])\<rparr>)
       | _ \<Rightarrow> (Inl (WorkerError ''invalid character''), w1))"

definition spec_of :: "'f machine \<Rightarrow> string \<Rightarrow> worker \<Rightarrow> Channel wresult \<times> worker" where
  "spec_of M channel w =
     thenW (case wk_specs w of None \<Rightarrow> loadTopology M w | Some _ \<Rightarrow> (Inr (), w)) (\<lambda>_ w1.
       case map_of (case wk_specs w1 of None \<Rightarrow> [] | Some m \<Rightarrow> m) channel of
         None \<Rightarrow> (Inl (WorkerError ''channel %q is not declared in the topology''), w1)
       | Some s \<Rightarrow> (Inr s, w1))"

definition serveSegments :: "'f machine \<Rightarrow> worker \<Rightarrow> unit wresult \<times> worker" where
  "serveSegments M w =
     (case wk_store w of
        Some _ \<Rightarrow> (Inr (), w)
      | None \<Rightarrow>
          (case ask M (OpenSegments (wk_segmentDir w) (wk_segmentListen w)) w of
             (Opened addr, w1) \<Rightarrow>
               (Inr (), w1\<lparr>wk_addr := addr, wk_store := Some (openStore (wk_maxSegmentStoreBytes w))\<rparr>)
           | (_, w1) \<Rightarrow> (Inl (WorkerError ''segment server: %w''), w1)))"

end
