(* ===== verification/Emitting.thy ===== *)
theory Emitting
  imports Worker
begin

text \<open>
  Emitting records, after \<^verbatim>\<open>Emit\<close>, \<^verbatim>\<open>buffer\<close>, \<^verbatim>\<open>combine\<close>, \<^verbatim>\<open>flushBuffer\<close> and \<^verbatim>\<open>Flush\<close> of
  \<^verbatim>\<open>pkg/sdk/sdk.go\<close> and \<^verbatim>\<open>EmitBlob\<close> of \<^verbatim>\<open>pkg/sdk/blob.go\<close>.

  Records wait in one buffer per channel, partition and epoch; a full buffer, a full worker or
  \<^verbatim>\<open>Flush\<close> turns a buffer into a segment, and \<^verbatim>\<open>Flush\<close> announces the segments. The value of a
  record is \<open>None\<close> when \<^verbatim>\<open>json.Marshal\<close> refuses it.
\<close>

subsection \<open>Blob handles\<close>

record BlobHandle =
  bh_blob :: string
  bh_holder :: string
  bh_size :: int

definition lower :: "char \<Rightarrow> char" where
  "lower c = (let n = (of_char c :: nat) in if 65 \<le> n \<and> n \<le> 90 then char_of (n + 32) else c)"

definition field :: "string \<Rightarrow> string \<Rightarrow> bool" where
  "field name k \<longleftrightarrow> map lower k = map lower name"

definition is_digit :: "char \<Rightarrow> bool" where
  "is_digit c \<longleftrightarrow> (48 :: nat) \<le> of_char c \<and> of_char c \<le> (57 :: nat)"

definition digits_value :: "string \<Rightarrow> nat" where
  "digits_value s = foldl (\<lambda>n c. 10 * n + (of_char c - 48)) 0 s"

text \<open>A JSON number as an \<^verbatim>\<open>int64\<close>: an integer literal in range.\<close>

definition json_int64 :: "string \<Rightarrow> int option" where
  "json_int64 s =
     (let neg = HasPrefix s ''-''; ds = (if neg then drop 1 s else s);
          v = (if neg then - int (digits_value ds) else int (digits_value ds)) in
      if ds \<noteq> '''' \<and> list_all is_digit ds \<and> - (2 ^ 63) \<le> v \<and> v < 2 ^ 63 then Some v else None)"

text \<open>
  \<^verbatim>\<open>json.Unmarshal\<close> into a handle: unknown members are skipped, names match without case, a null
  changes nothing and a member of the wrong type is an error.
\<close>

definition handle_member :: "string \<times> json \<Rightarrow> BlobHandle option \<Rightarrow> BlobHandle option" where
  "handle_member kv h =
     (case h of
        None \<Rightarrow> None
      | Some b \<Rightarrow>
          if field ''stark8sBlob'' (fst kv) then
            (case snd kv of JString s \<Rightarrow> Some (b\<lparr>bh_blob := s\<rparr>) | JNull \<Rightarrow> Some b | _ \<Rightarrow> None)
          else if field ''holder'' (fst kv) then
            (case snd kv of JString s \<Rightarrow> Some (b\<lparr>bh_holder := s\<rparr>) | JNull \<Rightarrow> Some b | _ \<Rightarrow> None)
          else if field ''size'' (fst kv) then
            (case snd kv of
               JNumber t \<Rightarrow> map_option (\<lambda>n. b\<lparr>bh_size := n\<rparr>) (json_int64 t) | JNull \<Rightarrow> Some b | _ \<Rightarrow> None)
          else Some b)"

definition unmarshal_handle :: "json \<Rightarrow> BlobHandle option" where
  "unmarshal_handle v =
     (case v of
        JObject kvs \<Rightarrow> fold handle_member kvs (Some \<lparr>bh_blob = '''', bh_holder = '''', bh_size = 0\<rparr>)
      | _ \<Rightarrow> None)"

definition handle_json :: "BlobHandle \<Rightarrow> json" where
  "handle_json h = JObject [(''stark8sBlob'', JString (bh_blob h)), (''holder'', JString (bh_holder h)),
     (''size'', JNumber (itoa_int (bh_size h)))]"

text \<open>\<^verbatim>\<open>Record.Blob\<close>: the handle a consumed record carries, if any.\<close>

definition record_Blob :: "json \<Rightarrow> BlobHandle option" where
  "record_Blob v =
     (case unmarshal_handle v of
        None \<Rightarrow> None
      | Some h \<Rightarrow> if bh_blob h = '''' \<or> bh_holder h = '''' then None else Some h)"

subsection \<open>Validating\<close>

definition record_size :: "string \<Rightarrow> json \<Rightarrow> int" where
  "record_size ky v = int (length ky + length (json_text v))"

definition ValidateEmit ::
  "'f machine \<Rightarrow> string \<Rightarrow> string \<Rightarrow> json option \<Rightarrow> worker \<Rightarrow> unit wresult \<times> worker" where
  "ValidateEmit M channel ky value w =
     thenW (spec_of M channel w) (\<lambda>_ w1.
       case value of
         None \<Rightarrow> (Inl (WorkerError ''json: unsupported value''), w1)
       | Some v \<Rightarrow>
           if wk_maxRecordBytes w1 < record_size ky v
           then (Inl (WorkerError ''channel %q record is %d bytes; limit is %d: use EmitBlob for large payloads''), w1)
           else if wk_durable w1 \<and> (case unmarshal_handle v of None \<Rightarrow> False | Some h \<Rightarrow> bh_blob h \<noteq> '''')
           then (Inl (WorkerError ''blob handles cannot be written to durable segments because their payload is pod-local''), w1)
           else (Inr (), w1))"

subsection \<open>Segments\<close>

definition trim_slashes :: "string \<Rightarrow> string" where
  "trim_slashes s = rev (dropWhile (\<lambda>c. c = CHR ''/'') (rev (dropWhile (\<lambda>c. c = CHR ''/'') s)))"

definition trim_right_slashes :: "string \<Rightarrow> string" where
  "trim_right_slashes s = rev (dropWhile (\<lambda>c. c = CHR ''/'') (rev s))"

definition segmentKey :: "worker \<Rightarrow> string \<Rightarrow> string" where
  "segmentKey w i =
     (let p = trim_slashes (wk_prefix w) in if p = '''' then ''segments/'' @ i else p @ ''/segments/'' @ i)"

definition drop_buffer :: "bufKey \<Rightarrow> worker \<Rightarrow> worker" where
  "drop_buffer k w =
     w\<lparr>wk_buffers := AList.delete k (wk_buffers w), wk_combineIndex := AList.delete k (wk_combineIndex w),
       wk_bufBytes := AList.delete k (wk_bufBytes w)\<rparr>"

definition clear_buffer :: "bufKey \<Rightarrow> worker \<Rightarrow> worker" where
  "clear_buffer k w = drop_buffer k (w\<lparr>wk_bufferedBytes := wk_bufferedBytes w - map_get 0 (wk_bufBytes w) k\<rparr>)"

text \<open>Writing a segment: to the durable store under a new key, or as a file of this pod.\<close>

definition clock_of :: "answer \<Rightarrow> nat" where
  "clock_of a = (case a of Local nano _ \<Rightarrow> nano | _ \<Rightarrow> 0)"

definition write_durable ::
  "'f machine \<Rightarrow> wireRecord list \<Rightarrow> worker \<Rightarrow> (string \<times> int \<times> string) wresult \<times> worker" where
  "write_durable M recs w0 =
     (let (a, w) = ask M Clock (w0\<lparr>wk_segmentSeq := wk_segmentSeq w0 + 1\<rparr>);
          i = segment_name (wk_instance w) (clock_of a) (wk_segmentSeq w); text = segment_text recs;
          holder = trim_right_slashes (wk_baseURL w) in
      case ask M (PutSegment (segmentKey w i) text) w of
        (Local _ None, w1) \<Rightarrow>
          if holder = '''' then (Inl (WorkerError ''SegmentBaseURL is required with DurableSegments''), w1)
          else (Inr (i, int (length text), holder), w1)
      | (_, w1) \<Rightarrow> (Inl (WorkerError ''put immutable object''), w1))"

definition fault_of :: "answer \<Rightarrow> string option" where
  "fault_of a = (case a of Local _ fault \<Rightarrow> fault | _ \<Rightarrow> Some ''input/output error'')"

definition write_local ::
  "'f machine \<Rightarrow> wireRecord list \<Rightarrow> worker \<Rightarrow> (string \<times> int \<times> string) wresult \<times> worker" where
  "write_local M recs w =
     (case wk_store w of
        None \<Rightarrow> (Inl (WorkerError ''nil pointer dereference''), w)
      | Some st \<Rightarrow>
          (let (a, w1) = ask M WriteFile w in
           case store_write (fault_of a) (wk_instance w) (clock_of a) (segment_text recs) st of
             (Inl e, st1) \<Rightarrow> (Inl e, w1\<lparr>wk_store := Some st1\<rparr>)
           | (Inr (i, n), st1) \<Rightarrow> (Inr (i, n, wk_addr w), w1\<lparr>wk_store := Some st1\<rparr>)))"

definition segment_blobs :: "wireRecord list \<Rightarrow> string list" where
  "segment_blobs recs = filter (\<lambda>b. b \<noteq> '''') (map x_blob recs)"

definition announcement :: "worker \<Rightarrow> bufKey \<Rightarrow> wireRecord list \<Rightarrow> string \<times> int \<times> string \<Rightarrow> SegmentAnnouncement" where
  "announcement w k recs written =
     (let (i, n, holder) = written in
      \<lparr>a_id = i, a_appendID = '''', a_channel = bk_channel k, a_partition = bk_partition k, a_epoch = bk_epoch k,
       a_records = int (length recs), a_bytes = n, a_holder = holder, a_producer = wk_instance w,
       a_durable = wk_durable w, a_task = wk_task w, a_overflowed = 0\<rparr>)"

definition queue_announcement :: "string \<Rightarrow> SegmentAnnouncement \<Rightarrow> worker \<Rightarrow> worker" where
  "queue_announcement ch a w =
     w\<lparr>wk_unannounced := AList.update ch (map_get [] (wk_unannounced w) ch @ [a]) (wk_unannounced w)\<rparr>"

definition bind_blobs :: "string \<Rightarrow> string list \<Rightarrow> worker \<Rightarrow> worker" where
  "bind_blobs i blobs w = w\<lparr>wk_store := map_option (bind i blobs) (wk_store w)\<rparr>"

definition flush_external ::
  "'f machine \<Rightarrow> bufKey \<Rightarrow> wireRecord list \<Rightarrow> worker \<Rightarrow> unit wresult \<times> worker" where
  "flush_external M k recs w =
     (if wk_checkpoint w \<noteq> None
      then (Inl (WorkerError ''checkpointed output to an external channel requires a transactional or idempotent sink''), w)
      else thenW (call_ok M (PostRecords (bk_channel k) (wk_operation w) (map to_record recs)) w)
             (\<lambda>_ w1. (Inr (), clear_buffer k w1)))"

definition flush_segment ::
  "'f machine \<Rightarrow> bufKey \<Rightarrow> wireRecord list \<Rightarrow> worker \<Rightarrow> unit wresult \<times> worker" where
  "flush_segment M k recs w =
     thenW (if \<not> wk_durable w \<and> wk_store w = None then serveSegments M w else (Inr (), w)) (\<lambda>_ w1.
     thenW (if wk_durable w1 then write_durable M recs w1 else write_local M recs w1) (\<lambda>written w2.
       (Inr (), queue_announcement (bk_channel k) (announcement w2 k recs written)
                  (clear_buffer k (bind_blobs (fst written) (segment_blobs recs) w2)))))"

definition flushBuffer :: "'f machine \<Rightarrow> bufKey \<Rightarrow> worker \<Rightarrow> unit wresult \<times> worker" where
  "flushBuffer M k w =
     (let recs = map_get [] (wk_buffers w) k in
      if recs = [] then (Inr (), drop_buffer k w)
      else
        thenW (spec_of M (bk_channel k) w) (\<lambda>spec w1.
          if ch_to spec = '''' then flush_external M k recs w1 else flush_segment M k recs w1))"

subsection \<open>Buffering\<close>

definition buffered :: "worker \<Rightarrow> bufKey \<Rightarrow> wireRecord list" where
  "buffered w k = map_get [] (wk_buffers w) k"

definition add_bytes :: "bufKey \<Rightarrow> int \<Rightarrow> worker \<Rightarrow> worker" where
  "add_bytes k n w =
     w\<lparr>wk_bufBytes := AList.update k (map_get 0 (wk_bufBytes w) k + n) (wk_bufBytes w),
       wk_bufferedBytes := wk_bufferedBytes w + n\<rparr>"

definition append_record :: "bufKey \<Rightarrow> wireRecord \<Rightarrow> worker \<Rightarrow> worker" where
  "append_record k r w =
     add_bytes k (record_size (x_key r) (x_value r))
       (w\<lparr>wk_buffers := AList.update k (buffered w k @ [r]) (wk_buffers w)\<rparr>)"

text \<open>\<^verbatim>\<open>json.Unmarshal\<close> into a \<^verbatim>\<open>float64\<close> that is zero: a null leaves it zero.\<close>

definition to_float :: "'f machine \<Rightarrow> json \<Rightarrow> 'f option" where
  "to_float M v = (case v of JNumber s \<Rightarrow> fl_parse M s | JNull \<Rightarrow> Some (fl_zero M) | _ \<Rightarrow> None)"

definition setCombined :: "'f machine \<Rightarrow> bufKey \<Rightarrow> nat \<Rightarrow> 'f \<Rightarrow> worker \<Rightarrow> unit wresult \<times> worker" where
  "setCombined M k i v w =
     (case fl_print M v of
        None \<Rightarrow> (Inl (WorkerError ''json: unsupported value''), w)
      | Some s \<Rightarrow>
          (let r = buffered w k ! i; b = JNumber s in
           (Inr (), (add_bytes k (int (length (json_text b)) - int (length (json_text (x_value r)))) w)
              \<lparr>wk_buffers := AList.update k ((buffered w k)[i := r\<lparr>x_value := b\<rparr>]) (wk_buffers w)\<rparr>)))"

definition index_of :: "bufKey \<Rightarrow> worker \<Rightarrow> (string, nat) gomap" where
  "index_of k w = map_get [] (wk_combineIndex w) k"

definition new_key :: "bufKey \<Rightarrow> string \<Rightarrow> json \<Rightarrow> int \<Rightarrow> worker \<Rightarrow> worker" where
  "new_key k ky v ep w =
     append_record k \<lparr>x_key = ky, x_value = v, x_epoch = ep, x_blob = ''''\<rparr>
       (w\<lparr>wk_combineIndex := AList.update k (AList.update ky (length (buffered w k)) (index_of k w)) (wk_combineIndex w)\<rparr>)"

definition combined :: "'f machine \<Rightarrow> CombineMode \<Rightarrow> 'f \<Rightarrow> 'f \<Rightarrow> 'f option" where
  "combined M mode held incoming =
     (case mode of
        CombineSum \<Rightarrow> Some (fl_add M held incoming)
      | CombineMin \<Rightarrow> Some (if fl_less M incoming held then incoming else held)
      | CombineMax \<Rightarrow> Some (if fl_less M held incoming then incoming else held)
      | _ \<Rightarrow> None)"

definition combine ::
  "'f machine \<Rightarrow> bufKey \<Rightarrow> CombineMode \<Rightarrow> string \<Rightarrow> json \<Rightarrow> int \<Rightarrow> worker \<Rightarrow> unit wresult \<times> worker" where
  "combine M k mode ky v ep w0 =
     (let w = w0\<lparr>wk_combineIndex := AList.update k (index_of k w0) (wk_combineIndex w0)\<rparr>;
          seen = map_of (index_of k w) ky in
      if mode = CombineCount then
        (case seen of
           Some i \<Rightarrow>
             (case to_float M (x_value (buffered w k ! i)) of
                None \<Rightarrow> (Inl (WorkerError ''combine Count on channel %q key %q: %w''), w)
              | Some n \<Rightarrow> setCombined M k i (fl_add M n (fl_one M)) w)
         | None \<Rightarrow> (Inr (), new_key k ky (JNumber ''1'') ep w))
      else
        (case to_float M v of
           None \<Rightarrow> (Inl (WorkerError ''combine %s on channel %q key %q: value must be a number: %w''), w)
         | Some incoming \<Rightarrow>
             (case seen of
                None \<Rightarrow> (Inr (), new_key k ky v ep w)
              | Some i \<Rightarrow>
                  (case to_float M (x_value (buffered w k ! i)) of
                     None \<Rightarrow> (Inl (WorkerError ''combine %s on channel %q key %q: %w''), w)
                   | Some held \<Rightarrow>
                       (case combined M mode held incoming of
                          None \<Rightarrow> (Inl (WorkerError ''channel %q: unknown combine mode %q''), w)
                        | Some x \<Rightarrow> setCombined M k i x w)))))"

text \<open>The oldest key in the order that still has records, and the keys after it.\<close>

fun next_buffered :: "worker \<Rightarrow> bufKey list \<Rightarrow> (bufKey \<times> bufKey list) option" where
  "next_buffered w [] = None"
| "next_buffered w (k # ks) = (if buffered w k \<noteq> [] then Some (k, ks) else next_buffered w ks)"

definition freeing :: "werror \<Rightarrow> werror" where
  "freeing e = (case e of WorkerError _ \<Rightarrow> WorkerError ''freeing buffered output at %d of %d bytes: %w'' | _ \<Rightarrow> e)"

lemma next_buffered_shorter: "next_buffered w ks = Some (k, rest) \<Longrightarrow> length rest < length ks"
  by (induction ks) (auto split: if_splits)

subsection \<open>What a call changes\<close>

text \<open>
  Calls leave their record in the trace, and reading a channel's declaration may load the topology:
  everything else of the worker, its \<open>shell\<close>, stays. Flushing also changes the \<open>output\<close> side.
\<close>

definition shell :: "worker \<Rightarrow> worker" where
  "shell w = w\<lparr>wk_trace := [], wk_specs := None\<rparr>"

definition settings :: "worker \<Rightarrow> worker" where
  "settings w = w\<lparr>wk_trace := [], wk_specs := None, wk_buffers := [], wk_combineIndex := [], wk_bufBytes := [],
     wk_bufferedBytes := 0, wk_unannounced := [], wk_addr := [], wk_store := None, wk_segmentSeq := 0\<rparr>"

lemma shell_fields:
  assumes "shell w' = shell w"
  shows "wk_buffers w' = wk_buffers w" "wk_bufBytes w' = wk_bufBytes w" "wk_combineIndex w' = wk_combineIndex w"
    "wk_bufferedBytes w' = wk_bufferedBytes w" "wk_order w' = wk_order w" "wk_unannounced w' = wk_unannounced w"
    "wk_overflowed w' = wk_overflowed w" "wk_store w' = wk_store w" "wk_checkpoint w' = wk_checkpoint w"
    "wk_epoch w' = wk_epoch w" "wk_addr w' = wk_addr w" "wk_segmentSeq w' = wk_segmentSeq w" "wk_rr w' = wk_rr w"
    "settings w' = settings w"
proof -
  have *: "f (shell w') = f (shell w)" for f :: "worker \<Rightarrow> 'z" using assms by simp
  show "wk_buffers w' = wk_buffers w" using * [of wk_buffers] by (simp add: shell_def)
  show "wk_bufBytes w' = wk_bufBytes w" using * [of wk_bufBytes] by (simp add: shell_def)
  show "wk_combineIndex w' = wk_combineIndex w" using * [of wk_combineIndex] by (simp add: shell_def)
  show "wk_bufferedBytes w' = wk_bufferedBytes w" using * [of wk_bufferedBytes] by (simp add: shell_def)
  show "wk_order w' = wk_order w" using * [of wk_order] by (simp add: shell_def)
  show "wk_unannounced w' = wk_unannounced w" using * [of wk_unannounced] by (simp add: shell_def)
  show "wk_overflowed w' = wk_overflowed w" using * [of wk_overflowed] by (simp add: shell_def)
  show "wk_store w' = wk_store w" using * [of wk_store] by (simp add: shell_def)
  show "wk_checkpoint w' = wk_checkpoint w" using * [of wk_checkpoint] by (simp add: shell_def)
  show "wk_epoch w' = wk_epoch w" using * [of wk_epoch] by (simp add: shell_def)
  show "wk_addr w' = wk_addr w" using * [of wk_addr] by (simp add: shell_def)
  show "wk_segmentSeq w' = wk_segmentSeq w" using * [of wk_segmentSeq] by (simp add: shell_def)
  show "wk_rr w' = wk_rr w" using * [of wk_rr] by (simp add: shell_def)
  show "settings w' = settings w" using * [of settings] by (simp add: shell_def settings_def)
qed

lemma settings_fields:
  assumes "settings w' = settings w"
  shows "wk_order w' = wk_order w" "wk_overflowed w' = wk_overflowed w" "wk_checkpoint w' = wk_checkpoint w"
    "wk_epoch w' = wk_epoch w" "wk_maxBufferedBytes w' = wk_maxBufferedBytes w" "wk_instance w' = wk_instance w"
    "wk_operation w' = wk_operation w" "wk_incarnation w' = wk_incarnation w" "wk_durable w' = wk_durable w"
    "wk_task w' = wk_task w" "wk_rr w' = wk_rr w"
proof -
  have *: "f (settings w') = f (settings w)" for f :: "worker \<Rightarrow> 'z" using assms by simp
  show "wk_order w' = wk_order w" using * [of wk_order] by (simp add: settings_def)
  show "wk_overflowed w' = wk_overflowed w" using * [of wk_overflowed] by (simp add: settings_def)
  show "wk_checkpoint w' = wk_checkpoint w" using * [of wk_checkpoint] by (simp add: settings_def)
  show "wk_epoch w' = wk_epoch w" using * [of wk_epoch] by (simp add: settings_def)
  show "wk_maxBufferedBytes w' = wk_maxBufferedBytes w" using * [of wk_maxBufferedBytes] by (simp add: settings_def)
  show "wk_instance w' = wk_instance w" using * [of wk_instance] by (simp add: settings_def)
  show "wk_operation w' = wk_operation w" using * [of wk_operation] by (simp add: settings_def)
  show "wk_incarnation w' = wk_incarnation w" using * [of wk_incarnation] by (simp add: settings_def)
  show "wk_durable w' = wk_durable w" using * [of wk_durable] by (simp add: settings_def)
  show "wk_task w' = wk_task w" using * [of wk_task] by (simp add: settings_def)
  show "wk_rr w' = wk_rr w" using * [of wk_rr] by (simp add: settings_def)
qed

lemma ask_shell: "ask M c w = (a, w') \<Longrightarrow> shell w' = shell w"
  by (auto simp: ask_def Let_def shell_def)

lemma do_eq:
  "do_request M req w = (let a = mc_world M (wk_trace w) (Http req) in (http_result a, w\<lparr>wk_trace := wk_trace w @ [(Http req, a)]\<rparr>))"
  by (simp add: do_request_def ask_def Let_def)

lemma call_eq:
  "call_ok M req w =
     (let a = mc_world M (wk_trace w) (Http req) in
      (map_sum id (\<lambda>_. ()) (http_result a), w\<lparr>wk_trace := wk_trace w @ [(Http req, a)]\<rparr>))"
  by (simp add: call_ok_def do_eq Let_def thenW_def split: sum.splits)

lemma call_shell: "shell (snd (call_ok M req w)) = shell w"
  by (simp add: call_eq Let_def shell_def)

lemma load_shell: "shell (snd (loadTopology M w)) = shell w"
  unfolding loadTopology_def do_eq Let_def by (simp add: thenW_def shell_def split: sum.splits body.splits)

lemma spec_shell: "shell (snd (spec_of M ch w)) = shell w"
  unfolding spec_of_def
  by (rule thenW_inv [where I = "\<lambda>s. shell s = shell w"]) (simp_all add: load_shell split: option.splits)

lemma settings_updates [simp]:
  "settings (w\<lparr>wk_trace := tr\<rparr>) = settings w" "settings (w\<lparr>wk_specs := sp\<rparr>) = settings w"
  "settings (w\<lparr>wk_addr := ad\<rparr>) = settings w" "settings (w\<lparr>wk_store := st\<rparr>) = settings w"
  "settings (w\<lparr>wk_segmentSeq := n\<rparr>) = settings w" "settings (w\<lparr>wk_unannounced := u\<rparr>) = settings w"
  "settings (w\<lparr>wk_buffers := b\<rparr>) = settings w" "settings (w\<lparr>wk_combineIndex := ci\<rparr>) = settings w"
  "settings (w\<lparr>wk_bufBytes := bb\<rparr>) = settings w" "settings (w\<lparr>wk_bufferedBytes := t\<rparr>) = settings w"
  by (simp_all add: settings_def)

lemma ask_settings: "settings (snd (ask M c w)) = settings w"
  by (simp add: ask_def Let_def)

lemma serve_settings: "settings (snd (serveSegments M w)) = settings w"
  using ask_settings [of M "OpenSegments (wk_segmentDir w) (wk_segmentListen w)" w]
  by (cases "ask M (OpenSegments (wk_segmentDir w) (wk_segmentListen w)) w")
    (simp add: serveSegments_def split: option.split answer.split)

lemma durable_settings: "settings (snd (write_durable M recs w)) = settings w"
proof -
  obtain a w1 where 1: "ask M Clock (w\<lparr>wk_segmentSeq := wk_segmentSeq w + 1\<rparr>) = (a, w1)" by fastforce
  obtain i where i: "i = segment_name (wk_instance w1) (clock_of a) (wk_segmentSeq w1)" by simp
  obtain b w2 where 2: "ask M (PutSegment (segmentKey w1 i) (segment_text recs)) w1 = (b, w2)" by fastforce
  have "settings w2 = settings w"
    using ask_settings [of M Clock "w\<lparr>wk_segmentSeq := wk_segmentSeq w + 1\<rparr>"]
      ask_settings [of M "PutSegment (segmentKey w1 i) (segment_text recs)" w1] 1 2 by simp
  then show ?thesis using 2 unfolding write_durable_def 1 Let_def i by (simp split: answer.split option.split)
qed

lemma local_settings: "settings (snd (write_local M recs w)) = settings w"
  using ask_settings [of M WriteFile w]
  by (cases "ask M WriteFile w") (simp add: write_local_def split: option.split sum.split prod.split)

lemma clear_settings:
  "settings (drop_buffer k w) = settings w" "settings (clear_buffer k w) = settings w"
  "settings (queue_announcement ch a w) = settings w" "settings (bind_blobs i bs w) = settings w"
  by (simp_all add: drop_buffer_def clear_buffer_def queue_announcement_def bind_blobs_def)

lemma flush_external_settings: "settings (snd (flush_external M k recs w)) = settings w"
proof (cases "wk_checkpoint w = None")
  case True
  have "settings (snd (thenW (call_ok M (PostRecords (bk_channel k) (wk_operation w) (map to_record recs)) w)
      (\<lambda>_ w1. (Inr (), clear_buffer k w1)))) = settings w"
    by (rule thenW_inv [where I = "\<lambda>s. settings s = settings w"])
      (simp_all add: shell_fields(14) [OF call_shell] clear_settings)
  then show ?thesis using True by (simp add: flush_external_def)
qed (simp add: flush_external_def)

lemma flush_segment_settings: "settings (snd (flush_segment M k recs w)) = settings w"
  unfolding flush_segment_def
proof (rule thenW_inv [where I = "\<lambda>s. settings s = settings w"], goal_cases)
  case 1
  then show ?case by (simp add: serve_settings)
next
  case (2 x s)
  show ?case
  proof (rule thenW_inv [where I = "\<lambda>s. settings s = settings w"], goal_cases)
    case 1
    then show ?case using 2 by (simp add: durable_settings local_settings)
  qed (simp add: clear_settings)
qed

lemma flush_settings: "settings (snd (flushBuffer M k w)) = settings w"
proof (cases "map_get [] (wk_buffers w) k = []")
  case False
  have "settings (snd (thenW (spec_of M (bk_channel k) w) (\<lambda>spec w1.
      if ch_to spec = '''' then flush_external M k (map_get [] (wk_buffers w) k) w1
      else flush_segment M k (map_get [] (wk_buffers w) k) w1))) = settings w"
    by (rule thenW_inv [where I = "\<lambda>s. settings s = settings w"])
      (simp_all add: shell_fields(14) [OF spec_shell] flush_external_settings flush_segment_settings)
  then show ?thesis using False by (simp add: flushBuffer_def Let_def)
qed (simp add: flushBuffer_def clear_settings)

lemma flush_order: "flushBuffer M k w = (r, w') \<Longrightarrow> wk_order w' = wk_order w"
  using settings_fields(1) [OF flush_settings [of M k w]] by simp

subsection \<open>Making room and emitting\<close>

function reserveBufferBytes :: "'f machine \<Rightarrow> int \<Rightarrow> worker \<Rightarrow> unit wresult \<times> worker" where
  "reserveBufferBytes M n w =
     (if wk_bufferedBytes w + n \<le> wk_maxBufferedBytes w then (Inr (), w)
      else
        (case next_buffered w (wk_order w) of
           None \<Rightarrow> (Inl (WorkerError ''record needs %d buffered bytes; aggregate limit is %d''), w\<lparr>wk_order := []\<rparr>)
         | Some (oldest, rest) \<Rightarrow>
             (case flushBuffer M oldest (w\<lparr>wk_order := rest\<rparr>) of
                (Inl e, w1) \<Rightarrow> (Inl (freeing e), w1)
              | (Inr _, w1) \<Rightarrow> reserveBufferBytes M n w1)))"
  by pat_completeness auto

text \<open>The loop ends: every round takes a key off the order, and flushing puts none back.\<close>

termination
  by (relation "measure (\<lambda>(M, n, w). length (wk_order w))") (auto dest!: flush_order [OF sym] next_buffered_shorter)

declare reserveBufferBytes.simps [simp del]

definition pick_partition :: "Channel \<Rightarrow> string \<Rightarrow> string \<Rightarrow> worker \<Rightarrow> int \<times> worker" where
  "pick_partition spec channel ky w =
     (let n = p_partitions (ch_partitioning spec) in
      if ch_to spec = '''' \<or> p_mode (ch_partitioning spec) = PartitionBroadcast then (0, w)
      else if p_mode (ch_partitioning spec) = PartitionHash then (HashPartition ky n, w)
      else
        (let c = map_get 0 (wk_rr w) channel in
         (uint (c mod word_of_int n), w\<lparr>wk_rr := AList.update channel (c + 1) (wk_rr w)\<rparr>)))"

definition full :: "bufKey \<Rightarrow> worker \<Rightarrow> bool" where
  "full k w \<longleftrightarrow> flushRecords \<le> length (buffered w k) \<or> flushBytes \<le> map_get 0 (wk_bufBytes w) k"

definition store_in_buffer ::
  "'f machine \<Rightarrow> Channel \<Rightarrow> bufKey \<Rightarrow> string \<Rightarrow> json \<Rightarrow> int \<Rightarrow> string \<Rightarrow> worker \<Rightarrow> unit wresult \<times> worker" where
  "store_in_buffer M spec k ky v ep blob w =
     (if ch_combine spec \<noteq> CombineNone
      then
        if blob \<noteq> '''' then (Inl (WorkerError ''channel %q combines numeric records and cannot carry blobs''), w)
        else combine M k (ch_combine spec) ky v ep w
      else (Inr (), append_record k \<lparr>x_key = ky, x_value = v, x_epoch = ep, x_blob = blob\<rparr> w))"

definition buffer ::
  "'f machine \<Rightarrow> string \<Rightarrow> string \<Rightarrow> json \<Rightarrow> int \<Rightarrow> string \<Rightarrow> worker \<Rightarrow> unit wresult \<times> worker" where
  "buffer M channel ky v ep blob w =
     thenW (spec_of M channel w) (\<lambda>spec w1.
       if wk_maxRecordBytes w1 < record_size ky v
       then (Inl (WorkerError ''channel %q record is %d bytes; limit is %d: use EmitBlob for large payloads''), w1)
       else
         thenW (reserveBufferBytes M (record_size ky v) w1) (\<lambda>_ w2.
           let (p, w3) = pick_partition spec channel ky w2;
               k = \<lparr>bk_channel = channel, bk_partition = p, bk_epoch = ep\<rparr>;
               w4 = (if map_of (wk_buffers w3) k = None then w3\<lparr>wk_order := wk_order w3 @ [k]\<rparr> else w3) in
           thenW (store_in_buffer M spec k ky v ep blob w4) (\<lambda>_ w5.
             if full k w5 then flushBuffer M k w5 else (Inr (), w5))))"

definition drop_blob_of :: "string \<Rightarrow> worker \<Rightarrow> worker" where
  "drop_blob_of blob w = w\<lparr>wk_store := map_option (dropBlob False blob) (wk_store w)\<rparr>"

definition emit ::
  "'f machine \<Rightarrow> string \<Rightarrow> string \<Rightarrow> json option \<Rightarrow> string \<Rightarrow> worker \<Rightarrow> unit wresult \<times> worker" where
  "emit M channel ky value blob w =
     thenW (ValidateEmit M channel ky value w) (\<lambda>_ w1.
     thenW (spec_of M channel w1) (\<lambda>spec w2.
       let v = the value; ep = wrap32 (wk_epoch w2 + 1) in
       if channel \<notin> set (wk_feedbackOut w2) then buffer M channel ky v (wk_epoch w2) blob w2
       else
         (case ch_feedback spec of
            Some f \<Rightarrow>
              if f_mode f = FeedbackAsynchronous \<and> f_maxEpochs f \<le> ep
              then
                if f_overflow f = ''''
                then (Inr (), (if blob \<noteq> '''' then drop_blob_of blob else id)
                        (w2\<lparr>wk_overflowed := AList.update channel (map_get 0 (wk_overflowed w2) channel + 1) (wk_overflowed w2)\<rparr>))
                else buffer M (f_overflow f) ky v ep blob w2
              else buffer M channel ky v ep blob w2
          | None \<Rightarrow> buffer M channel ky v ep blob w2)))"

definition Emit ::
  "'f machine \<Rightarrow> string \<Rightarrow> string \<Rightarrow> json option \<Rightarrow> worker \<Rightarrow> unit wresult \<times> worker" where
  "Emit M channel ky value w =
     (if \<not> CollectiveIOEnabled w
      then (Inl (WorkerError ''collective rank %d cannot emit graph records; rank zero owns graph I/O''), w)
      else emit M channel ky value '''' w)"

definition EmitBlob :: "'f machine \<Rightarrow> string \<Rightarrow> string \<Rightarrow> string \<Rightarrow> worker \<Rightarrow> unit wresult \<times> worker" where
  "EmitBlob M channel ky payload w =
     (if wk_durable w
      then (Inl (WorkerError ''EmitBlob cannot write to durable segments because blob payloads are pod-local; store the payload durably and emit its application-owned reference''), w)
      else
        thenW (spec_of M channel w) (\<lambda>_ w1.
        thenW (serveSegments M w1) (\<lambda>_ w2.
          let (a, w3) = ask M WriteFile w2 in
          case writeBlob (fault_of a) (wk_instance w3) (clock_of a) payload (the (wk_store w3)) of
            (Inl e, st) \<Rightarrow> (Inl e, w3\<lparr>wk_store := Some st\<rparr>)
          | (Inr (i, n), st) \<Rightarrow>
              (case emit M channel ky (Some (handle_json \<lparr>bh_blob = i, bh_holder = wk_addr w3, bh_size = n\<rparr>)) i
                      (w3\<lparr>wk_store := Some st\<rparr>) of
                 (Inl e, w4) \<Rightarrow> (Inl e, drop_blob_of i w4)
               | (Inr _, w4) \<Rightarrow> (Inr (), w4)))))"

subsection \<open>Flushing\<close>

text \<open>The first failing flush leaves its own key as the whole order, as the code does.\<close>

fun flush_keys :: "'f machine \<Rightarrow> bufKey list \<Rightarrow> worker \<Rightarrow> unit wresult \<times> worker" where
  "flush_keys M [] w = (Inr (), w)"
| "flush_keys M (k # ks) w =
     (case flushBuffer M k w of
        (Inl e, w1) \<Rightarrow> (Inl e, w1\<lparr>wk_order := wk_order w1 @ [k]\<rparr>)
      | (Inr _, w1) \<Rightarrow> flush_keys M ks w1)"

definition overflow_announcement :: "string \<Rightarrow> int \<Rightarrow> SegmentAnnouncement" where
  "overflow_announcement ch n = \<lparr>a_id = '''', a_appendID = '''', a_channel = ch, a_partition = 0, a_epoch = 0,
     a_records = 0, a_bytes = 0, a_holder = '''', a_producer = '''', a_durable = False, a_task = noTask, a_overflowed = n\<rparr>"

definition queue_overflow :: "string \<times> int \<Rightarrow> worker \<Rightarrow> worker" where
  "queue_overflow cn w =
     (if 0 < snd cn
      then queue_announcement (fst cn) (overflow_announcement (fst cn) (snd cn))
             (w\<lparr>wk_overflowed := AList.update (fst cn) 0 (wk_overflowed w)\<rparr>)
      else w)"

definition materialize :: "'f machine \<Rightarrow> worker \<Rightarrow> unit wresult \<times> worker" where
  "materialize M w =
     (let keys = filter (\<lambda>k. map_of (wk_buffers w) k \<noteq> None) (wk_order w) in
      thenW (flush_keys M keys (w\<lparr>wk_order := []\<rparr>)) (\<lambda>_ w1.
        (Inr (), fold queue_overflow (wk_overflowed w1) w1)))"

fun publish_all ::
  "'f machine \<Rightarrow> (string \<times> SegmentAnnouncement list) list \<Rightarrow> worker \<Rightarrow> unit wresult \<times> worker" where
  "publish_all M [] w = (Inr (), w)"
| "publish_all M ((ch, anns) # rest) w =
     thenW (call_ok M (PostSegments ch (wk_operation w) (wk_instance w) (wk_incarnation w) anns) w) (\<lambda>_ w1.
       publish_all M rest (w1\<lparr>wk_unannounced := AList.delete ch (wk_unannounced w1)\<rparr>))"

definition publish :: "'f machine \<Rightarrow> worker \<Rightarrow> unit wresult \<times> worker" where
  "publish M w = publish_all M (wk_unannounced w) w"

definition Flush :: "'f machine \<Rightarrow> worker \<Rightarrow> unit wresult \<times> worker" where
  "Flush M w =
     thenW (materialize M w) (\<lambda>_ w1. if wk_checkpoint w1 \<noteq> None then (Inr (), w1) else publish M w1)"

end
