(* ===== verification/Blobs.thy ===== *)
theory Blobs
  imports SegmentStore
begin

text \<open>
  What the segment store of a pod keeps: its byte account, and every blob a segment refers to for as
  long as that segment is not released.
\<close>

definition sizes :: "(string, string) gomap \<Rightarrow> int" where
  "sizes m = sum_list (map (\<lambda>(_, b). int (length b)) m)"

lemma sizes_update_new: "map_of m k = None \<Longrightarrow> sizes (AList.update k v m) = sizes m + int (length v)"
  by (induction m) (auto simp: sizes_def split: if_splits)

lemma sizes_delete:
  "distinct (map fst m) \<Longrightarrow> map_of m k = Some v \<Longrightarrow> sizes (AList.delete k m) = sizes m - int (length v)"
proof (induction m)
  case (Cons x m)
  show ?case
  proof (cases "fst x = k")
    case True
    then have "AList.delete k m = m" using Cons.prems(1) by (intro AList.delete_id) (auto simp: map_of_eq_None_iff)
    then show ?thesis using True Cons.prems(2) by (cases x) (simp add: sizes_def)
  next
    case False
    then show ?thesis using Cons by (cases x) (auto simp: sizes_def)
  qed
qed simp

lemma digit_neq_dash: "d < 10 \<Longrightarrow> digit d \<noteq> CHR ''-''"
proof
  assume "d < 10" "digit d = CHR ''-''"
  then have "of_char (digit d) = (of_char (CHR ''-'') :: nat)" by simp
  with \<open>d < 10\<close> show False by (simp add: digit_def)
qed

lemma itoa_no_dash: "CHR ''-'' \<notin> set (itoa n)"
proof (induction n rule: itoa.induct)
  case (1 n)
  then show ?case
    by (subst itoa.simps) (auto simp: digit_neq_dash digit_neq_dash [symmetric])
qed

text \<open>The sequence number at the end of a name tells names apart.\<close>

lemma segment_name_seq: "segment_name i n q = segment_name i' n' q' \<Longrightarrow> q = q'"
proof -
  assume "segment_name i n q = segment_name i' n' q'"
  then have "rev (itoa q) @ CHR ''-'' # rev (i @ ''-'' @ itoa n) = rev (itoa q') @ CHR ''-'' # rev (i' @ ''-'' @ itoa n')"
    unfolding segment_name_def by (metis append.assoc append_Cons append_Nil rev.simps(2) rev_append)
  then have "rev (itoa q) = rev (itoa q')" by (rule split_at_sep [THEN conjunct1]) (simp_all add: itoa_no_dash)
  then show ?thesis by (auto dest: itoa_inj)
qed

subsection \<open>The invariant\<close>

definition named :: "nat \<Rightarrow> string \<Rightarrow> bool" where
  "named q k \<longleftrightarrow> (\<exists>i n p. p \<le> q \<and> k = segment_name i n p)"

lemma named_mono: "named q k \<Longrightarrow> q \<le> q' \<Longrightarrow> named q' k"
  unfolding named_def using order_trans by blast

lemma named_new [simp]: "named (Suc q) (segment_name i n (Suc q))" "\<not> named q (segment_name i n (Suc q))"
  by (auto simp: named_def dest: segment_name_seq)

definition mkeys :: "('k, 'v) gomap \<Rightarrow> 'k set" where
  "mkeys m = fst ` set m"

definition account_ok :: "segmentStore \<Rightarrow> bool" where
  "account_ok s \<longleftrightarrow> ss_usedBytes s = sizes (ss_files s) + sizes (ss_blobFiles s)
     \<and> (0 < ss_maxBytes s \<longrightarrow> ss_usedBytes s \<le> ss_maxBytes s)
     \<and> distinct (map fst (ss_files s)) \<and> distinct (map fst (ss_blobFiles s))
     \<and> (\<forall>k \<in> mkeys (ss_files s) \<union> mkeys (ss_blobFiles s). named (ss_seq s) k)"

definition refs_live :: "segmentStore \<Rightarrow> bool" where
  "refs_live s \<longleftrightarrow> (\<forall>k \<in> mkeys (ss_blobs s) \<union> mkeys (ss_segBlobs s). named (ss_seq s) k)
     \<and> (\<forall>b r. map_of (ss_blobs s) b = Some r \<longrightarrow> map_of (ss_blobFiles s) b \<noteq> None)
     \<and> (\<forall>g bs b. map_of (ss_segBlobs s) g = Some bs \<longrightarrow> b \<in> set bs \<longrightarrow>
          (\<exists>r. map_of (ss_blobs s) b = Some r \<and> br_bound r \<and> g \<in> set (br_segments r)))"

lemma mkeys_Nil [simp]: "mkeys [] = {}"
  by (simp add: mkeys_def)

lemma fresh_none: "(\<forall>k \<in> mkeys m. named q k) \<Longrightarrow> map_of m (segment_name i n (Suc q)) = None"
  unfolding mkeys_def by (metis map_of_eq_None_iff named_new(2))

lemma fst_update: "mkeys (AList.update k v m) = insert k (mkeys m)"
  unfolding mkeys_def by (induction m) auto

lemma fst_delete: "mkeys (AList.delete k m) \<subseteq> mkeys m"
  by (auto simp: AList.delete_eq mkeys_def)

lemma fst_delete_eq: "mkeys (AList.delete k m) = mkeys m - {k}"
  by (auto simp: AList.delete_eq image_iff mkeys_def)

lemma map_of_key: "map_of m k = Some v \<Longrightarrow> k \<in> mkeys m"
  unfolding mkeys_def by (metis map_of_eq_None_iff option.distinct(1))

lemma sizes_nonneg [simp]: "0 \<le> sizes m"
  by (auto simp: sizes_def intro!: sum_list_nonneg)

subsection \<open>Every method keeps it\<close>

lemma account_openStore: "account_ok (openStore limit)" "refs_live (openStore limit)"
  by (auto simp: account_ok_def refs_live_def openStore_def sizes_def)

lemma account_bind: "account_ok s \<Longrightarrow> account_ok (bind g bs s)"
  by (auto simp: account_ok_def bind_def)

lemma account_removeBlobFile: "account_ok s \<Longrightarrow> account_ok (removeBlobFile fault b s)"
  using fst_delete [of b "ss_blobFiles s"]
  by (auto simp: account_ok_def removeBlobFile_def sizes_delete split: option.splits)

lemma account_fold_remove: "account_ok s \<Longrightarrow> account_ok (fold (removeBlobFile fault) bs s)"
  by (induction bs arbitrary: s) (simp_all add: account_removeBlobFile)

lemma account_blobs [simp]:
  "account_ok (s\<lparr>ss_blobs := m\<rparr>) = account_ok s" "account_ok (s\<lparr>ss_segBlobs := g\<rparr>) = account_ok s"
  by (simp_all add: account_ok_def)

lemma named_later: "\<forall>k \<in> A. named q k \<Longrightarrow> \<forall>k \<in> A. named (Suc q) k"
  using named_mono [of q _ "Suc q"] by simp

lemma account_step: "account_ok s \<Longrightarrow> account_ok (s\<lparr>ss_seq := Suc (ss_seq s)\<rparr>)"
  using named_later [of "mkeys (ss_files s) \<union> mkeys (ss_blobFiles s)" "ss_seq s"]
  by (auto simp: account_ok_def)

lemma account_add_file:
  assumes "account_ok s" and "0 < ss_maxBytes s \<longrightarrow> ss_usedBytes s + int (length body) \<le> ss_maxBytes s"
  shows "account_ok (s\<lparr>ss_seq := Suc (ss_seq s), ss_files := AList.update (segment_name inst nano (Suc (ss_seq s))) body (ss_files s),
           ss_usedBytes := ss_usedBytes s + int (length body)\<rparr>)"
proof -
  have "map_of (ss_files s) (segment_name inst nano (Suc (ss_seq s))) = None"
    using assms(1) by (intro fresh_none) (simp add: account_ok_def)
  then show ?thesis using account_step [OF assms(1)] assms(2)
    by (simp add: account_ok_def fst_update sizes_update_new distinct_update)
qed

lemma account_add_blob:
  assumes "account_ok s" and "0 < ss_maxBytes s \<longrightarrow> ss_usedBytes s + int (length body) \<le> ss_maxBytes s"
  shows "account_ok (s\<lparr>ss_seq := Suc (ss_seq s), ss_blobFiles := AList.update (segment_name inst nano (Suc (ss_seq s))) body (ss_blobFiles s),
           ss_usedBytes := ss_usedBytes s + int (length body)\<rparr>)"
proof -
  have "map_of (ss_blobFiles s) (segment_name inst nano (Suc (ss_seq s))) = None"
    using assms(1) by (intro fresh_none) (simp add: account_ok_def)
  then show ?thesis using account_step [OF assms(1)] assms(2)
    by (simp add: account_ok_def fst_update sizes_update_new distinct_update)
qed

lemma write_cases:
  assumes "store_write fault inst nano body s = (r, s')"
  obtains e where "r = Inl e" "s' = s\<lparr>ss_seq := Suc (ss_seq s)\<rparr>"
  | "0 < ss_maxBytes s \<longrightarrow> ss_usedBytes s + int (length body) \<le> ss_maxBytes s"
    "r = Inr (segment_name inst nano (Suc (ss_seq s)), int (length body))"
    "s' = s\<lparr>ss_seq := Suc (ss_seq s), ss_files := AList.update (segment_name inst nano (Suc (ss_seq s))) body (ss_files s),
            ss_usedBytes := ss_usedBytes s + int (length body)\<rparr>"
proof (cases "0 < ss_maxBytes s \<and> ss_maxBytes s < ss_usedBytes s + int (length body)")
  case True
  then show ?thesis using assms by (intro that(1) [of ErrStorageCapacity]) (simp_all add: store_write_def Let_def)
next
  case False
  show ?thesis
  proof (cases fault)
    case None
    then show ?thesis using False assms by (intro that(2)) (auto simp: store_write_def Let_def)
  next
    case (Some e)
    then show ?thesis using False assms by (intro that(1) [of "WorkerError e"]) (auto simp: store_write_def Let_def)
  qed
qed

lemma account_write:
  assumes "account_ok s" and "store_write fault inst nano body s = (r, s')"
  shows "account_ok s'"
  using assms(2)
proof (cases rule: write_cases)
  case (1 e)
  then show ?thesis using account_step [OF assms(1)] by simp
next
  case 2
  then show ?thesis using account_add_file [OF assms(1)] by simp
qed

lemma writeBlob_cases:
  obtains e where "writeBlob fault inst nano payload s = (Inl e, s\<lparr>ss_seq := Suc (ss_seq s)\<rparr>)"
  | "0 < ss_maxBytes s \<longrightarrow> ss_usedBytes s + int (length payload) \<le> ss_maxBytes s"
    "writeBlob fault inst nano payload s = (Inr (segment_name inst nano (Suc (ss_seq s)), int (length payload)),
       s\<lparr>ss_seq := Suc (ss_seq s), ss_blobFiles := AList.update (segment_name inst nano (Suc (ss_seq s))) payload (ss_blobFiles s),
         ss_usedBytes := ss_usedBytes s + int (length payload),
         ss_blobs := AList.update (segment_name inst nano (Suc (ss_seq s))) \<lparr>br_segments = [], br_bound = False\<rparr> (ss_blobs s)\<rparr>)"
proof (cases "0 < ss_maxBytes s \<and> ss_maxBytes s - ss_usedBytes s < int (length payload) \<or> 0 < ss_maxBytes s \<and> ss_maxBytes s \<le> ss_usedBytes s \<or> fault \<noteq> None")
  case True
  then have "\<exists>e. writeBlob fault inst nano payload s = (Inl e, s\<lparr>ss_seq := Suc (ss_seq s)\<rparr>)"
    by (cases fault) (auto simp: writeBlob_def Let_def)
  then show ?thesis using that(1) by blast
next
  case False
  then show ?thesis by (intro that(2)) (auto simp: writeBlob_def Let_def min_def)
qed

lemma account_writeBlob:
  assumes "account_ok s"
  shows "account_ok (snd (writeBlob fault inst nano payload s))"
proof (cases fault inst nano payload s rule: writeBlob_cases)
  case (1 e)
  then show ?thesis using account_step [OF assms] by simp
next
  case 2
  then show ?thesis
    using account_add_blob [OF assms 2(1)] by simp
qed

lemma account_releaseBlobs: "account_ok s \<Longrightarrow> account_ok (releaseBlobs fault g s)"
  by (simp add: releaseBlobs_def Let_def split_def account_fold_remove)

lemma account_remove:
  assumes "account_ok s"
  shows "account_ok (store_remove fault i s)"
proof -
  have "account_ok (case map_of (ss_files s) i of None \<Rightarrow> s | Some body \<Rightarrow> if fault then s
      else s\<lparr>ss_files := AList.delete i (ss_files s), ss_usedBytes := ss_usedBytes s - int (length body)\<rparr>)"
    using assms fst_delete [of i "ss_files s"] by (auto simp: account_ok_def sizes_delete split: option.splits)
  then show ?thesis unfolding store_remove_def by (rule account_releaseBlobs)
qed

lemma run_account: "store_run s \<Longrightarrow> account_ok s"
proof (induction rule: store_run.induct)
  case (flush s fault inst nano body i n s' blobs)
  then show ?case using account_bind account_write by blast
next
  case (dropped s b r fault)
  then show ?case by (simp add: dropBlob_def account_removeBlobFile)
qed (auto simp: account_openStore account_writeBlob account_remove intro: account_write)

subsection \<open>Blobs outlive the segments that refer to them\<close>

text \<open>What a map of references keeps when segment \<open>g\<close> is left out: the claims of every other segment.\<close>

definition owned_by :: "(string, blobRef) gomap \<Rightarrow> string \<Rightarrow> string \<Rightarrow> bool" where
  "owned_by m b g \<longleftrightarrow> (\<exists>r. map_of m b = Some r \<and> br_bound r \<and> g \<in> set (br_segments r))"

lemma refs_live_owned:
  "refs_live s \<longleftrightarrow> (\<forall>k \<in> mkeys (ss_blobs s) \<union> mkeys (ss_segBlobs s). named (ss_seq s) k)
     \<and> mkeys (ss_blobs s) \<subseteq> mkeys (ss_blobFiles s)
     \<and> (\<forall>g bs b. map_of (ss_segBlobs s) g = Some bs \<longrightarrow> b \<in> set bs \<longrightarrow> owned_by (ss_blobs s) b g)"
proof -
  have "(\<forall>b r. map_of (ss_blobs s) b = Some r \<longrightarrow> map_of (ss_blobFiles s) b \<noteq> None)
      = (mkeys (ss_blobs s) \<subseteq> mkeys (ss_blobFiles s))"
    by (simp add: subset_iff mkeys_def dom_map_of_conv_image_fst [symmetric] dom_def)
  then show ?thesis by (simp add: refs_live_def owned_by_def)
qed

lemma bind1_keys: "mkeys (bind1 g b m) = mkeys m"
  using map_of_key [of m b] by (auto simp: bind1_def fst_update insert_absorb split: option.splits)

lemma binds_keys: "mkeys (fold (bind1 g) bs m) = mkeys m"
  by (induction bs arbitrary: m) (simp_all add: bind1_keys)

lemma bind1_owned: "owned_by m b g' \<Longrightarrow> owned_by (bind1 g c m) b g'"
  by (auto simp: owned_by_def bind1_def update_conv' split: option.splits)

lemma bind1_claims: "b \<in> mkeys m \<Longrightarrow> owned_by (bind1 g b m) b g"
  by (auto simp: owned_by_def bind1_def update_conv' mkeys_def map_of_eq_None_iff split: option.splits)

lemma binds_owned: "owned_by m b g' \<Longrightarrow> owned_by (fold (bind1 g) bs m) b g'"
  by (induction bs arbitrary: m) (simp_all add: bind1_owned)

lemma binds_claims: "b \<in> set bs \<Longrightarrow> set bs \<subseteq> mkeys m \<Longrightarrow> owned_by (fold (bind1 g) bs m) b g"
proof (induction bs arbitrary: m)
  case (Cons c bs)
  show ?case
  proof (cases "b = c")
    case True
    then show ?thesis using Cons.prems by (simp add: binds_owned bind1_claims)
  next
    case False
    then show ?thesis using Cons by (simp add: bind1_keys)
  qed
qed simp

lemma release1_keys:
  "release1 g b (m, dead) = (m', dead') \<Longrightarrow> mkeys m' \<subseteq> mkeys m
     \<and> set dead' \<subseteq> set dead \<union> (mkeys m - mkeys m')"
  using map_of_key [of m b]
  by (auto simp: release1_def Let_def fst_update fst_delete_eq insert_absorb split: option.splits if_splits)

lemma releases_keys:
  "fold (release1 g) bs (m, dead) = (m', dead') \<Longrightarrow> set dead \<inter> mkeys m = {}
     \<Longrightarrow> mkeys m' \<subseteq> mkeys m \<and> set dead' \<inter> mkeys m' = {}"
proof (induction bs arbitrary: m dead)
  case (Cons b bs)
  obtain m1 d1 where *: "release1 g b (m, dead) = (m1, d1)" by fastforce
  from release1_keys [OF this] Cons.prems(2) have "set d1 \<inter> mkeys m1 = {}" by blast
  moreover have "fold (release1 g) bs (m1, d1) = (m', dead')" using Cons.prems(1) * by simp
  ultimately show ?case using Cons.IH [of m1 d1] release1_keys [OF *] by (meson order_trans)
qed auto

lemma set_del_Nil: "set_del g xs = [] \<Longrightarrow> x \<in> set xs \<Longrightarrow> x = g"
  by (metis Diff_iff empty_iff list.set(1) set_set_del singleton_iff)

lemma release1_owned:
  "owned_by m b g' \<Longrightarrow> g' \<noteq> g \<Longrightarrow> owned_by (fst (release1 g c (m, dead))) b g'"
  by (auto simp: owned_by_def release1_def Let_def update_conv' delete_conv' dest: set_del_Nil split: option.splits if_splits)

lemma releases_owned:
  "owned_by m b g' \<Longrightarrow> g' \<noteq> g \<Longrightarrow> owned_by (fst (fold (release1 g) bs (m, dead))) b g'"
proof (induction bs arbitrary: m dead)
  case (Cons c bs)
  obtain m1 d1 where *: "release1 g c (m, dead) = (m1, d1)" by fastforce
  then show ?case using Cons release1_owned [OF Cons.prems, of c dead] by simp
qed simp

lemma removes_files:
  "ss_blobs (fold (removeBlobFile fault) bs s) = ss_blobs s \<and> ss_segBlobs (fold (removeBlobFile fault) bs s) = ss_segBlobs s
   \<and> ss_seq (fold (removeBlobFile fault) bs s) = ss_seq s
   \<and> mkeys (ss_blobFiles s) - set bs \<subseteq> mkeys (ss_blobFiles (fold (removeBlobFile fault) bs s))"
proof (induction bs arbitrary: s)
  case (Cons b bs)
  have "ss_blobs (removeBlobFile fault b s) = ss_blobs s \<and> ss_segBlobs (removeBlobFile fault b s) = ss_segBlobs s
      \<and> ss_seq (removeBlobFile fault b s) = ss_seq s
      \<and> mkeys (ss_blobFiles s) - {b} \<subseteq> mkeys (ss_blobFiles (removeBlobFile fault b s))"
    by (auto simp: removeBlobFile_def fst_delete_eq split: option.splits)
  with Cons.IH [of "removeBlobFile fault b s"] show ?case by auto
qed simp

lemmas refs_liveE = refs_live_owned [THEN iffD1, elim_format]

lemma refs_step: "refs_live s \<Longrightarrow> refs_live (s\<lparr>ss_seq := Suc (ss_seq s)\<rparr>)"
  using named_later [of "mkeys (ss_blobs s) \<union> mkeys (ss_segBlobs s)" "ss_seq s"]
  by (simp add: refs_live_owned)

lemma refs_ignores [simp]:
  "refs_live (s\<lparr>ss_files := f\<rparr>) = refs_live s" "refs_live (s\<lparr>ss_usedBytes := u\<rparr>) = refs_live s"
  by (simp_all add: refs_live_def)

lemma refs_writeBlob:
  assumes "refs_live s"
  shows "refs_live (snd (writeBlob fault inst nano payload s))"
proof (cases fault inst nano payload s rule: writeBlob_cases)
  case (1 e)
  then show ?thesis using refs_step [OF assms] by simp
next
  case 2
  let ?i = "segment_name inst nano (Suc (ss_seq s))" and ?r = "\<lparr>br_segments = [], br_bound = False\<rparr>"
  have "?i \<notin> mkeys (ss_blobs s)" using assms named_new(2) [of "ss_seq s" inst nano] unfolding refs_live_owned by blast
  then have "owned_by (ss_blobs s) b g \<Longrightarrow> owned_by (AList.update ?i ?r (ss_blobs s)) b g" for b g
    by (auto simp: owned_by_def update_conv' dest: map_of_key)
  then show ?thesis using refs_step [OF assms] 2(2) by (auto simp: refs_live_owned fst_update)
qed

lemma refs_bind:
  assumes "refs_live s" and "set bs \<subseteq> mkeys (ss_blobs s)" and "named (ss_seq s) g"
  shows "refs_live (bind g bs s)"
proof (cases "bs = []")
  case False
  have "map_of (ss_segBlobs (bind g bs s)) h = Some cs \<Longrightarrow> b \<in> set cs \<Longrightarrow> owned_by (ss_blobs (bind g bs s)) b h" for h cs b
    using assms(1) binds_owned [of "ss_blobs s" b h g bs] binds_claims [of b bs "ss_blobs s" g] assms(2) False
    by (auto simp: bind_def refs_live_owned update_conv' map_get_def split: if_splits option.splits)
  then show ?thesis using assms False by (auto simp: bind_def refs_live_owned binds_keys fst_update)
qed (simp add: bind_def assms)

lemma refs_releaseBlobs:
  assumes "refs_live s"
  shows "refs_live (releaseBlobs fault g s)"
proof -
  obtain m dead where f: "fold (release1 g) (map_get [] (ss_segBlobs s) g) (ss_blobs s, []) = (m, dead)" by fastforce
  let ?t = "s\<lparr>ss_segBlobs := AList.delete g (ss_segBlobs s), ss_blobs := m\<rparr>"
  have r: "releaseBlobs fault g s = fold (removeBlobFile fault) dead ?t" by (simp add: releaseBlobs_def f)
  have k: "mkeys m \<subseteq> mkeys (ss_blobs s)" "set dead \<inter> mkeys m = {}" using releases_keys [OF f] by simp_all
  have c: "owned_by (ss_blobs s) b h \<Longrightarrow> h \<noteq> g \<Longrightarrow> owned_by m b h" for b h
    using releases_owned [of "ss_blobs s" b h g "map_get [] (ss_segBlobs s) g" "[]"] f by simp
  have "refs_live ?t" using assms k(1) c by (auto simp: refs_live_owned delete_conv' fst_delete_eq split: if_splits)
  then show ?thesis using removes_files [of fault dead ?t] k(2) unfolding r by (auto simp: refs_live_owned)
qed

lemma refs_dropBlob:
  assumes "refs_live s" and "map_of (ss_blobs s) b = Some r" and "\<not> br_bound r"
  shows "refs_live (dropBlob fault b s)"
proof -
  let ?t = "s\<lparr>ss_blobs := AList.delete b (ss_blobs s)\<rparr>"
  have "owned_by (ss_blobs s) c h \<Longrightarrow> owned_by (AList.delete b (ss_blobs s)) c h" for c h
    using assms(2,3) by (auto simp: owned_by_def delete_conv')
  then have "refs_live ?t" using assms(1) by (auto simp: refs_live_owned fst_delete_eq)
  then show ?thesis using removes_files [of fault "[b]" ?t]
    by (auto simp: dropBlob_def refs_live_owned fst_delete_eq)
qed

lemma refs_remove: "refs_live s \<Longrightarrow> refs_live (store_remove fault i s)"
  unfolding store_remove_def by (rule refs_releaseBlobs) (simp split: option.splits)

lemma run_refs: "store_run s \<Longrightarrow> refs_live s"
proof (induction rule: store_run.induct)
  case (start limit)
  then show ?case by (rule account_openStore)
next
  case (blob s fault inst nano payload)
  then show ?case by (simp add: refs_writeBlob)
next
  case (flush s fault inst nano body i n s' blobs)
  from flush(2) show ?case
  proof (cases rule: write_cases)
    case 2
    then have "refs_live s'" using refs_step [OF flush.IH] by simp
    then show ?thesis using 2 flush(3) by (intro refs_bind) (simp_all add: mkeys_def)
  qed simp
next
  case (fails s fault inst nano body e s')
  from fails(2) show ?case
  proof (cases rule: write_cases)
    case (1 e)
    then show ?thesis using refs_step [OF fails.IH] by simp
  qed simp
next
  case (dropped s b r fault)
  then show ?case by (simp add: refs_dropBlob)
next
  case (remove s fault i)
  then show ?case by (simp add: refs_remove)
qed

subsection \<open>Properties\<close>

text \<open>
  The byte count a pod's store compares with its limit is exactly what its segment and blob
  files hold, and it never passes the limit, after any sequence of writes, failed writes, drops and
  removals.
\<close>

theorem store_bytes_exact:
  assumes "store_run s" and "0 < ss_maxBytes s"
  shows "ss_usedBytes s = sizes (ss_files s) + sizes (ss_blobFiles s) \<and> ss_usedBytes s \<le> ss_maxBytes s"
  using run_account [OF assms(1)] assms(2) by (simp add: account_ok_def)

definition blobbed :: segmentStore where
  "blobbed =
     (let s1 = snd (writeBlob None ''p'' 7 ''payload'' (openStore 30)) in
      bind ''p-8-2'' [''p-7-1''] (snd (store_write None ''p'' 8 ''[{...}]'' s1)))"

lemma itoa_small [simp]: "n < 10 \<Longrightarrow> itoa n = [digit n]"
  by (subst itoa.simps) simp

lemma digit_samples:
  "digit (Suc 0) = CHR ''1''" "digit (Suc (Suc 0)) = CHR ''2''" "digit 2 = CHR ''2''" "digit 7 = CHR ''7''" "digit 8 = CHR ''8''"
  by code_simp+

lemmas blobbed_simps = blobbed_def writeBlob_def store_write_def openStore_def segment_name_def digit_samples bind_def
  bind1_def Let_def

lemma blobbed_runs: "store_run blobbed"
proof -
  have "store_run (snd (writeBlob None ''p'' 7 ''payload'' (openStore 30)))" by (intro store_run.blob store_run.start)
  then show ?thesis unfolding blobbed_def Let_def
    by (rule store_run.flush [where fault = None and inst = "''p''" and nano = 8 and body = "''[{...}]''" and n = 7])
      (simp_all add: writeBlob_def store_write_def openStore_def segment_name_def digit_samples Let_def)
qed

theorem store_bytes_exact_witness:
  "ss_maxBytes blobbed = 30 \<and> ss_usedBytes blobbed = 14
   \<and> ss_usedBytes blobbed = sizes (ss_files blobbed) + sizes (ss_blobFiles blobbed) \<and> ss_usedBytes blobbed \<le> ss_maxBytes blobbed"
proof -
  have *: "ss_maxBytes blobbed = 30" "ss_usedBytes blobbed = 14" by (simp_all add: blobbed_simps)
  then show ?thesis using store_bytes_exact [OF blobbed_runs] by simp
qed



end
