(* ===== verification/Buffers.thy ===== *)
theory Buffers
  imports Emitting Blobs
begin

text \<open>
  What the output buffers of a worker keep: the byte counts that decide when to flush are the sizes of
  the records held, and every position in a combining buffer's index is the record of that key.
\<close>

subsection \<open>The effect of a flush on the buffers\<close>

definition same_buffers :: "worker \<Rightarrow> worker \<Rightarrow> bool" where
  "same_buffers w w' \<longleftrightarrow> wk_buffers w' = wk_buffers w \<and> wk_combineIndex w' = wk_combineIndex w
     \<and> wk_bufBytes w' = wk_bufBytes w \<and> wk_bufferedBytes w' = wk_bufferedBytes w"

lemma same_refl [simp]: "same_buffers w w"
  by (simp add: same_buffers_def)

lemma same_trans: "same_buffers w w1 \<Longrightarrow> same_buffers w1 w2 \<Longrightarrow> same_buffers w w2"
  by (simp add: same_buffers_def)

lemma same_shell: "shell w' = shell w \<Longrightarrow> same_buffers w w'"
  unfolding same_buffers_def using shell_fields(1-4) [of w' w] by blast

lemma same_updates [simp]:
  "same_buffers w (w'\<lparr>wk_trace := tr\<rparr>) = same_buffers w w'" "same_buffers w (w'\<lparr>wk_addr := ad\<rparr>) = same_buffers w w'"
  "same_buffers w (w'\<lparr>wk_store := st\<rparr>) = same_buffers w w'" "same_buffers w (w'\<lparr>wk_segmentSeq := n\<rparr>) = same_buffers w w'"
  "same_buffers w (w'\<lparr>wk_unannounced := u\<rparr>) = same_buffers w w'" "same_buffers w (w'\<lparr>wk_order := od\<rparr>) = same_buffers w w'"
  "same_buffers (w\<lparr>wk_order := od\<rparr>) w' = same_buffers w w'"
  "same_buffers (w\<lparr>wk_segmentSeq := n\<rparr>) w' = same_buffers w w'"
  by (simp_all add: same_buffers_def)

lemma ask_same: "ask M c w = (a, w') \<Longrightarrow> same_buffers w w'"
  by (rule same_shell) (rule ask_shell)

lemma serve_same: "same_buffers w (snd (serveSegments M w))"
  using ask_same [of M "OpenSegments (wk_segmentDir w) (wk_segmentListen w)" w]
  by (cases "ask M (OpenSegments (wk_segmentDir w) (wk_segmentListen w)) w")
    (simp add: serveSegments_def split: option.split answer.split)

lemma durable_same: "same_buffers w (snd (write_durable M recs w))"
proof -
  obtain a w1 where 1: "ask M Clock (w\<lparr>wk_segmentSeq := wk_segmentSeq w + 1\<rparr>) = (a, w1)" by fastforce
  obtain i where i: "i = segment_name (wk_instance w1) (clock_of a) (wk_segmentSeq w1)" by simp
  obtain b w2 where 2: "ask M (PutSegment (segmentKey w1 i) (segment_text recs)) w1 = (b, w2)" by fastforce
  have "same_buffers w w2" using same_trans [OF ask_same [OF 1] ask_same [OF 2]] by simp
  then show ?thesis using 2 unfolding write_durable_def 1 Let_def i by (simp split: answer.split option.split)
qed

lemma local_same: "same_buffers w (snd (write_local M recs w))"
  using ask_same [of M WriteFile w]
  by (cases "ask M WriteFile w") (simp add: write_local_def split: option.split sum.split prod.split)

definition cleared :: "bufKey \<Rightarrow> worker \<Rightarrow> worker \<Rightarrow> bool" where
  "cleared k w w' \<longleftrightarrow> wk_buffers w' = AList.delete k (wk_buffers w)
     \<and> wk_combineIndex w' = AList.delete k (wk_combineIndex w) \<and> wk_bufBytes w' = AList.delete k (wk_bufBytes w)
     \<and> wk_bufferedBytes w' = wk_bufferedBytes w - (if buffered w k = [] then 0 else map_get 0 (wk_bufBytes w) k)"

lemma cleared_clear: "same_buffers w w1 \<Longrightarrow> buffered w k \<noteq> [] \<Longrightarrow> cleared k w (clear_buffer k w1)"
  by (simp add: cleared_def clear_buffer_def drop_buffer_def same_buffers_def buffered_def)

lemma cleared_queue [simp]:
  "cleared k w (queue_announcement ch a w') = cleared k w w'" "cleared k w (w'\<lparr>wk_store := st\<rparr>) = cleared k w w'"
  by (simp_all add: cleared_def queue_announcement_def)

lemma same_bind [simp]: "same_buffers w (bind_blobs i bs w') = same_buffers w w'"
  by (simp add: bind_blobs_def)

text \<open>A flush that fails changes no buffer; one that succeeds takes its own buffer away, bytes included.\<close>

lemma external_effect:
  assumes "flush_external M k recs w = (r, w')" and "same_buffers w0 w" and "buffered w0 k \<noteq> []"
  shows "(r \<noteq> Inr () \<and> same_buffers w0 w') \<or> (r = Inr () \<and> cleared k w0 w')"
proof (cases "wk_checkpoint w = None")
  case True
  let ?c = "call_ok M (PostRecords (bk_channel k) (wk_operation w) (map to_record recs)) w"
  have "same_buffers w0 (snd ?c)" using same_trans [OF assms(2) same_shell [OF call_shell]] .
  then show ?thesis using assms True cleared_clear
    by (cases ?c; cases "fst ?c") (auto simp: flush_external_def)
qed (use assms in \<open>auto simp: flush_external_def\<close>)

lemma segment_effect:
  assumes "flush_segment M k recs w = (r, w')" and "same_buffers w0 w" and "buffered w0 k \<noteq> []"
  shows "(r \<noteq> Inr () \<and> same_buffers w0 w') \<or> (r = Inr () \<and> cleared k w0 w')"
proof -
  let ?s = "if \<not> wk_durable w \<and> wk_store w = None then serveSegments M w else (Inr (), w)"
  obtain r1 w1 where 1: "?s = (r1, w1)" by fastforce
  have s1: "same_buffers w0 w1" using serve_same [of w M] 1 same_trans [OF assms(2)] assms(2) by (auto split: if_splits)
  show ?thesis
  proof (cases r1)
    case (Inl e)
    then show ?thesis using assms(1) 1 s1 by (auto simp: flush_segment_def)
  next
    case (Inr u)
    let ?p = "if wk_durable w1 then write_durable M recs w1 else write_local M recs w1"
    obtain r2 w2 where 2: "?p = (r2, w2)" by fastforce
    have s2: "same_buffers w0 w2"
      using durable_same [of w1 M recs] local_same [of w1 M recs] 2 same_trans [OF s1] by (auto split: if_splits)
    show ?thesis using assms(1,3) s2 cleared_clear [of w0 "bind_blobs (fst (projr r2)) (segment_blobs recs) w2" k]
      unfolding flush_segment_def 1 Inr thenW_simps 2 by (cases r2) auto
  qed
qed

lemma flush_effect:
  assumes "flushBuffer M k w = (r, w')"
  shows "(r \<noteq> Inr () \<and> same_buffers w w') \<or> (r = Inr () \<and> cleared k w w')"
proof (cases "buffered w k = []")
  case True
  then show ?thesis using assms by (auto simp: flushBuffer_def buffered_def cleared_def drop_buffer_def)
next
  case False
  obtain r1 w1 where 1: "spec_of M (bk_channel k) w = (r1, w1)" by fastforce
  have s: "same_buffers w w1" using same_shell [OF spec_shell [of M "bk_channel k" w]] 1 by simp
  show ?thesis
  proof (cases r1)
    case (Inl e)
    then show ?thesis using assms False 1 s by (auto simp: flushBuffer_def buffered_def)
  next
    case (Inr spec)
    then have "(if ch_to spec = '''' then flush_external M k (buffered w k) w1 else flush_segment M k (buffered w k) w1) = (r, w')"
      using assms False 1 by (simp add: flushBuffer_def buffered_def Let_def split: if_splits)
    then show ?thesis using external_effect [OF _ s False] segment_effect [OF _ s False] by (cases "ch_to spec = ''''") simp_all
  qed
qed

subsection \<open>The byte counts\<close>

definition sizes_of :: "wireRecord list \<Rightarrow> int" where
  "sizes_of rs = sum_list (map (\<lambda>r. record_size (x_key r) (x_value r)) rs)"

definition held_bytes :: "(bufKey, wireRecord list) gomap \<Rightarrow> int" where
  "held_bytes m = sum_list (map (\<lambda>(_, rs). sizes_of rs) m)"

definition tally :: "worker \<Rightarrow> bool" where
  "tally w \<longleftrightarrow> distinct (map fst (wk_buffers w))
     \<and> (\<forall>k. map_get 0 (wk_bufBytes w) k = sizes_of (buffered w k))
     \<and> wk_bufferedBytes w = held_bytes (wk_buffers w)"

definition indexed :: "worker \<Rightarrow> bool" where
  "indexed w \<longleftrightarrow> (\<forall>k ky i. map_of (index_of k w) ky = Some i \<longrightarrow>
     i < length (buffered w k) \<and> x_key (buffered w k ! i) = ky)"

lemma sizes_of_simps [simp]: "sizes_of [] = 0" "sizes_of (r # rs) = record_size (x_key r) (x_value r) + sizes_of rs"
  "sizes_of (xs @ ys) = sizes_of xs + sizes_of ys"
  by (simp_all add: sizes_of_def)

lemma sizes_of_nonneg [simp]: "0 \<le> sizes_of rs"
  by (induction rs) (simp_all add: record_size_def)

lemma held_update:
  "distinct (map fst m) \<Longrightarrow> held_bytes (AList.update k rs m) = held_bytes m - sizes_of (map_get [] m k) + sizes_of rs"
proof (induction m)
  case (Cons x m)
  then show ?case by (cases x) (auto simp: held_bytes_def map_get_def)
qed (simp add: held_bytes_def map_get_def)

lemma held_delete: "distinct (map fst m) \<Longrightarrow> held_bytes (AList.delete k m) = held_bytes m - sizes_of (map_get [] m k)"
proof (induction m)
  case (Cons x m)
  then have "fst x = k \<Longrightarrow> AList.delete k m = m" by (intro AList.delete_id) (auto simp: map_of_eq_None_iff)
  then show ?case using Cons by (cases x) (auto simp: held_bytes_def map_get_def)
qed (simp add: held_bytes_def map_get_def)

lemma tally_same: "same_buffers w w' \<Longrightarrow> tally w' = tally w" "same_buffers w w' \<Longrightarrow> indexed w' = indexed w"
  by (simp_all add: same_buffers_def tally_def buffered_def indexed_def index_of_def)

lemma tally_cleared:
  assumes "cleared k w w'" and "tally w"
  shows "tally w'"
proof -
  have b: "buffered w' j = (if j = k then [] else buffered w j)" for j
    using assms(1) by (simp add: cleared_def buffered_def map_get_def map_simps)
  have "map_get 0 (wk_bufBytes w') j = sizes_of (buffered w' j)" for j
    using assms by (simp add: b cleared_def tally_def) (simp add: map_get_def map_simps)
  moreover have "wk_bufferedBytes w' = held_bytes (wk_buffers w) - sizes_of (buffered w k)"
    using assms by (simp add: cleared_def tally_def)
  ultimately show ?thesis using assms by (simp add: tally_def cleared_def held_delete buffered_def)
qed

lemma indexed_cleared: "cleared k w w' \<Longrightarrow> indexed w \<Longrightarrow> indexed w'"
  by (auto simp: cleared_def indexed_def index_of_def buffered_def map_get_def map_simps)

definition books :: "worker \<Rightarrow> bool" where
  "books w \<longleftrightarrow> tally w \<and> indexed w"

lemma books_same: "same_buffers w w' \<Longrightarrow> books w \<Longrightarrow> books w'"
  using tally_same by (auto simp: books_def)

lemma books_flush: "books w \<Longrightarrow> books (snd (flushBuffer M k w))"
  using flush_effect [of M k w "fst (flushBuffer M k w)" "snd (flushBuffer M k w)"]
    books_same tally_cleared indexed_cleared unfolding books_def by (metis prod.collapse)

subsection \<open>Every operation keeps the books\<close>

lemma buffered_update:
  "buffered (w\<lparr>wk_buffers := AList.update k rs (wk_buffers w)\<rparr>) j = (if j = k then rs else buffered w j)"
  by (simp add: buffered_def map_get_def map_simps)

lemma buffered_add_bytes [simp]: "buffered (add_bytes k n w) j = buffered w j" "index_of j (add_bytes k n w) = index_of j w"
  by (simp_all add: buffered_def add_bytes_def index_of_def)

lemma tally_change:
  assumes "tally w" and "n = sizes_of rs - sizes_of (buffered w k)"
  shows "tally ((add_bytes k n w)\<lparr>wk_buffers := AList.update k rs (wk_buffers w)\<rparr>)"
proof -
  let ?w = "(add_bytes k n w)\<lparr>wk_buffers := AList.update k rs (wk_buffers w)\<rparr>"
  have b: "buffered ?w j = (if j = k then rs else buffered w j)" for j
    by (simp add: buffered_def map_get_def map_simps)
  have n: "map_get 0 (wk_bufBytes ?w) j = map_get 0 (wk_bufBytes w) j + (if j = k then n else 0)" for j
    by (simp add: add_bytes_def map_get_def map_simps)
  have "held_bytes (wk_buffers ?w) = held_bytes (wk_buffers w) - sizes_of (buffered w k) + sizes_of rs"
    using assms(1) by (simp add: tally_def held_update buffered_def)
  then show ?thesis using assms unfolding tally_def b n by (simp add: add_bytes_def)
qed

lemma indexed_ext:
  assumes "indexed w" and "\<And>j. index_of j w' = index_of j w"
    and "\<And>j i. i < length (buffered w j) \<Longrightarrow> i < length (buffered w' j) \<and> x_key (buffered w' j ! i) = x_key (buffered w j ! i)"
  shows "indexed w'"
  using assms by (simp add: indexed_def)

lemma append_alt:
  "append_record k r w = (add_bytes k (record_size (x_key r) (x_value r)) w)
     \<lparr>wk_buffers := AList.update k (buffered w k @ [r]) (wk_buffers w)\<rparr>"
  by (simp add: append_record_def add_bytes_def)

lemma append_frame [simp]:
  "index_of j ((add_bytes k n w)\<lparr>wk_buffers := AList.update k rs m\<rparr>) = index_of j w"
  "buffered ((add_bytes k n w)\<lparr>wk_buffers := AList.update k rs (wk_buffers w)\<rparr>) j = (if j = k then rs else buffered w j)"
  "index_of j (w\<lparr>wk_combineIndex := AList.update k ix (wk_combineIndex w)\<rparr>) = (if j = k then ix else index_of j w)"
  "buffered (w\<lparr>wk_combineIndex := ci\<rparr>) j = buffered w j"
  by (simp_all add: index_of_def add_bytes_def buffered_def map_get_def map_simps)

lemma books_append:
  assumes "books w"
  shows "books (append_record k r w)"
proof -
  have "tally (append_record k r w)" using assms unfolding append_alt books_def by (intro tally_change) simp_all
  moreover have "indexed (append_record k r w)"
    unfolding append_alt by (rule indexed_ext [of w]) (use assms in \<open>auto simp: books_def nth_append\<close>)
  ultimately show ?thesis by (simp add: books_def)
qed

lemma sizes_of_set: "i < length rs \<Longrightarrow> sizes_of (rs[i := r]) = sizes_of rs
    - record_size (x_key (rs ! i)) (x_value (rs ! i)) + record_size (x_key r) (x_value r)"
  by (induction rs arbitrary: i) (auto split: nat.splits)

lemma books_setCombined:
  assumes "books w" and "i < length (buffered w k)"
  shows "books (snd (setCombined M k i v w))"
proof (cases "fl_print M v")
  case (Some s)
  let ?r = "buffered w k ! i"
  let ?rs = "(buffered w k)[i := ?r\<lparr>x_value := JNumber s\<rparr>]"
  let ?w = "snd (setCombined M k i v w)"
  have w: "?w = (add_bytes k (int (length (json_text (JNumber s))) - int (length (json_text (x_value ?r)))) w)
      \<lparr>wk_buffers := AList.update k ?rs (wk_buffers w)\<rparr>"
    using Some by (simp add: setCombined_def Let_def)
  have "tally ?w" unfolding w
    using assms by (intro tally_change) (simp_all add: books_def sizes_of_set record_size_def)
  moreover have "indexed ?w"
    unfolding w by (rule indexed_ext [of w]) (use assms in \<open>auto simp: books_def nth_list_update\<close>)
  ultimately show ?thesis by (simp add: books_def)
qed (use assms in \<open>simp add: setCombined_def\<close>)

lemma tally_index [simp]: "tally (w\<lparr>wk_combineIndex := ci\<rparr>) = tally w"
  by (simp add: tally_def buffered_def)

lemma books_new_key:
  assumes "books w" and "map_of (index_of k w) ky = None"
  shows "books (new_key k ky v ep w)"
proof -
  have "tally (new_key k ky v ep w)"
    using assms books_append unfolding new_key_def append_alt
    by (intro tally_change) (simp_all add: books_def buffered_def)
  moreover have "buffered (new_key k ky v ep w) j
      = (if j = k then buffered w k @ [\<lparr>x_key = ky, x_value = v, x_epoch = ep, x_blob = ''''\<rparr>] else buffered w j)"
    "index_of j (new_key k ky v ep w) = (if j = k then AList.update ky (length (buffered w k)) (index_of k w) else index_of j w)" for j
    by (simp_all add: new_key_def append_alt buffered_def index_of_def map_get_def map_simps add_bytes_def)
  then have "indexed (new_key k ky v ep w)"
    using assms(1) unfolding indexed_def books_def by (auto simp: map_simps nth_append less_Suc_eq split: if_splits)
  ultimately show ?thesis by (simp add: books_def)
qed

lemma books_combine:
  assumes "books w"
  shows "books (snd (combine M k mode ky v ep w))"
proof -
  let ?w = "w\<lparr>wk_combineIndex := AList.update k (index_of k w) (wk_combineIndex w)\<rparr>"
  have "index_of j ?w = index_of j w" for j by (simp add: index_of_def map_get_def map_simps)
  then have b: "books ?w" and i: "index_of k ?w = index_of k w"
    using assms by (simp_all add: books_def indexed_def buffered_def)
  then have s: "map_of (index_of k ?w) ky = Some i \<Longrightarrow> i < length (buffered ?w k)" for i
    by (auto simp: books_def indexed_def)
  have c: "map_of (index_of k ?w) ky = Some i \<Longrightarrow> books (snd (setCombined M k i x ?w))" for i x
    by (rule books_setCombined [OF b s])
  have n: "map_of (index_of k ?w) ky = None \<Longrightarrow> books (new_key k ky x ep ?w)" for x
    by (rule books_new_key [OF b])
  show ?thesis unfolding combine_def Let_def using b c n by (auto split: option.split)
qed

lemma books_updates [simp]:
  "books (w\<lparr>wk_order := od\<rparr>) = books w" "books (w\<lparr>wk_store := st\<rparr>) = books w" "books (w\<lparr>wk_rr := rr\<rparr>) = books w"
  "books (w\<lparr>wk_unannounced := u\<rparr>) = books w" "books (w\<lparr>wk_overflowed := ov\<rparr>) = books w"
  by (simp_all add: books_def tally_def indexed_def buffered_def index_of_def)

lemma ask_books: "books w \<Longrightarrow> books (snd (ask M c w))"
  using ask_same [of M c w] books_same by (metis prod.collapse)

subsection \<open>Invariants of the output side\<close>

text \<open>
  A declaration is loaded once: from then on every call leaves it as it is.
\<close>

definition loaded :: "worker \<Rightarrow> string \<Rightarrow> Channel \<Rightarrow> bool" where
  "loaded w ch spec \<longleftrightarrow> (\<exists>m. wk_specs w = Some m \<and> map_of m ch = Some spec)"

definition keeps_specs :: "worker \<Rightarrow> worker \<Rightarrow> bool" where
  "keeps_specs w w' \<longleftrightarrow> wk_specs w = None \<or> wk_specs w' = wk_specs w"

lemma keeps_specs_loaded: "keeps_specs w w' \<Longrightarrow> loaded w ch spec \<Longrightarrow> loaded w' ch spec"
  by (auto simp: keeps_specs_def loaded_def)

lemma keeps_specs_trans: "keeps_specs w w1 \<Longrightarrow> keeps_specs w1 w2 \<Longrightarrow> keeps_specs w w2"
  by (auto simp: keeps_specs_def)

lemma keeps_specs_simps [simp]:
  "keeps_specs w w" "keeps_specs w (w'\<lparr>wk_trace := tr\<rparr>) = keeps_specs w w'" "keeps_specs w (w'\<lparr>wk_addr := ad\<rparr>) = keeps_specs w w'"
  "keeps_specs w (w'\<lparr>wk_store := st\<rparr>) = keeps_specs w w'" "keeps_specs w (w'\<lparr>wk_unannounced := u\<rparr>) = keeps_specs w w'"
  "keeps_specs w (w'\<lparr>wk_order := od\<rparr>) = keeps_specs w w'" "keeps_specs (w\<lparr>wk_order := od\<rparr>) w' = keeps_specs w w'"
  "keeps_specs (w\<lparr>wk_segmentSeq := n\<rparr>) w' = keeps_specs w w'" "keeps_specs w (clear_buffer k w') = keeps_specs w w'"
  "keeps_specs w (drop_buffer k w') = keeps_specs w w'" "keeps_specs w (queue_announcement ch a w') = keeps_specs w w'"
  "keeps_specs w (bind_blobs i bs w') = keeps_specs w w'"
  by (simp_all add: keeps_specs_def clear_buffer_def drop_buffer_def queue_announcement_def bind_blobs_def)

lemma ask_specs: "ask M c w = (a, w') \<Longrightarrow> keeps_specs w w'"
  by (auto simp: ask_def Let_def)

lemma call_specs: "keeps_specs w (snd (call_ok M req w))"
  by (simp add: call_eq Let_def)

lemma spec_specs: "keeps_specs w (snd (spec_of M ch w))"
  by (cases "wk_specs w") (auto simp: spec_of_def keeps_specs_def split: option.splits)

lemma spec_loaded: "spec_of M ch w = (Inr spec, w') \<Longrightarrow> loaded w' ch spec"
  unfolding spec_of_def by (elim thenW_ok) (auto simp: loaded_def split: option.splits)

lemma serve_specs: "keeps_specs w (snd (serveSegments M w))"
  using ask_specs [of M "OpenSegments (wk_segmentDir w) (wk_segmentListen w)" w]
  by (cases "ask M (OpenSegments (wk_segmentDir w) (wk_segmentListen w)) w")
    (simp add: serveSegments_def split: option.split answer.split)

lemma durable_specs: "keeps_specs w (snd (write_durable M recs w))"
proof -
  obtain a w1 where 1: "ask M Clock (w\<lparr>wk_segmentSeq := wk_segmentSeq w + 1\<rparr>) = (a, w1)" by fastforce
  obtain i where i: "i = segment_name (wk_instance w1) (clock_of a) (wk_segmentSeq w1)" by simp
  obtain b w2 where 2: "ask M (PutSegment (segmentKey w1 i) (segment_text recs)) w1 = (b, w2)" by fastforce
  have "keeps_specs w w2" using keeps_specs_trans [OF ask_specs [OF 1] ask_specs [OF 2]] by simp
  then show ?thesis using 2 unfolding write_durable_def 1 Let_def i by (simp split: answer.split option.split)
qed

lemma local_specs: "keeps_specs w (snd (write_local M recs w))"
  using ask_specs [of M WriteFile w]
  by (cases "ask M WriteFile w") (simp add: write_local_def split: option.split sum.split prod.split)

lemma flush_external_specs: "keeps_specs w (snd (flush_external M k recs w))"
  unfolding flush_external_def
  by (auto intro: thenW_inv [where I = "keeps_specs w"] simp: call_specs)

lemma flush_segment_specs: "keeps_specs w (snd (flush_segment M k recs w))"
  unfolding flush_segment_def
proof (rule thenW_inv [where I = "keeps_specs w"], goal_cases)
  case (2 x w1)
  show ?case
  proof (rule thenW_inv [where I = "keeps_specs w"], goal_cases)
    case 1
    then show ?case using keeps_specs_trans [OF 2(2)] by (simp add: durable_specs local_specs)
  qed simp
qed (simp add: serve_specs)

lemma flush_specs: "keeps_specs w (snd (flushBuffer M k w))"
proof (cases "map_get [] (wk_buffers w) k = []")
  case False
  have "keeps_specs w (snd (thenW (spec_of M (bk_channel k) w) (\<lambda>spec w1.
      if ch_to spec = '''' then flush_external M k (map_get [] (wk_buffers w) k) w1
      else flush_segment M k (map_get [] (wk_buffers w) k) w1)))"
    by (rule thenW_inv [where I = "keeps_specs w"])
      (simp_all add: spec_specs keeps_specs_trans [OF _ flush_external_specs] keeps_specs_trans [OF _ flush_segment_specs])
  then show ?thesis using False by (simp add: flushBuffer_def Let_def)
qed (simp add: flushBuffer_def)

text \<open>Besides flushing, the output side makes these calls.\<close>

definition output_call :: "call \<Rightarrow> bool" where
  "output_call c \<longleftrightarrow> (case c of WriteFile \<Rightarrow> True | Http (PostSegments _ _ _ _ _) \<Rightarrow> True | _ \<Rightarrow> False)"

text \<open>
  A property of the worker that flushing one buffer and storing one record keep, and that does not
  depend on the trace or the order of the buffers, is kept by everything that emits or flushes.
\<close>

lemma reserved_room: "reserveBufferBytes M n w = (Inr (), w') \<Longrightarrow> wk_bufferedBytes w' + n \<le> wk_maxBufferedBytes w'"
proof (induction M n w rule: reserveBufferBytes.induct)
  case (1 M n w)
  show ?case
  proof (cases "wk_bufferedBytes w + n \<le> wk_maxBufferedBytes w")
    case True
    then show ?thesis using 1(2) by (subst (asm) reserveBufferBytes.simps) simp
  next
    case False
    then obtain k rest where k: "next_buffered w (wk_order w) = Some (k, rest)"
      using 1(2) by (subst (asm) reserveBufferBytes.simps) (auto split: option.splits)
    obtain r w1 where f: "flushBuffer M k (w\<lparr>wk_order := rest\<rparr>) = (r, w1)" by fastforce
    have "r = Inr () \<and> reserveBufferBytes M n w1 = (Inr (), w')"
      using 1(2) False k f by (subst (asm) reserveBufferBytes.simps) (cases r; simp)
    then show ?thesis using 1(1) [OF False k refl f [symmetric]] by simp
  qed
qed

lemma serve_store: "serveSegments M w = (Inr (), w') \<Longrightarrow> wk_store w' \<noteq> None"
  by (auto simp: serveSegments_def split: option.splits prod.splits answer.splits)

locale output_invariant =
  fixes M :: "'f machine" and I :: "worker \<Rightarrow> bool"
  assumes asked: "I w \<Longrightarrow> output_call c \<Longrightarrow> I (snd (ask M c w))"
    and specified: "I w \<Longrightarrow> I (snd (spec_of M ch w))"
    and served: "I w \<Longrightarrow> I (snd (serveSegments M w))"
    and flushed: "I w \<Longrightarrow> I (snd (flushBuffer M k w))"
    and ordered: "I w \<Longrightarrow> I (w\<lparr>wk_order := od\<rparr>)"
    and rotated: "I w \<Longrightarrow> I (w\<lparr>wk_rr := rr\<rparr>)"
    and dropped: "I w \<Longrightarrow> I (drop_blob_of b w)"
    and stored: "I w \<Longrightarrow> wk_store w = Some st0 \<Longrightarrow> I (w\<lparr>wk_store := Some (snd (writeBlob fault inst nano payload st0))\<rparr>)"
    and counted: "I w \<Longrightarrow> I (w\<lparr>wk_overflowed := ov\<rparr>)"
    and queued: "I w \<Longrightarrow> I (queue_announcement ch (overflow_announcement ch n) w)"
    and unqueued: "I w \<Longrightarrow> I (w\<lparr>wk_unannounced := AList.delete ch (wk_unannounced w)\<rparr>)"
    and held: "I w \<Longrightarrow> loaded w ch spec \<Longrightarrow> wk_bufferedBytes w + record_size ky v \<le> wk_maxBufferedBytes w \<Longrightarrow>
      I (snd (store_in_buffer M spec \<lparr>bk_channel = ch, bk_partition = fst (pick_partition spec ch ky w0), bk_epoch = ep\<rparr>
        ky v ep blob w))"
begin

lemma called: "I w \<Longrightarrow> I (snd (call_ok M (PostSegments ch opn p inc anns) w))"
  unfolding call_ok_def
  by (rule thenW_inv [where I = I]) (simp_all add: do_request_def split_def Let_def asked output_call_def)

lemma reserved: "I w \<Longrightarrow> I (snd (reserveBufferBytes M n w)) \<and> keeps_specs w (snd (reserveBufferBytes M n w))"
proof (induction "length (wk_order w)" arbitrary: w rule: less_induct)
  case less
  show ?case
  proof (cases "wk_bufferedBytes w + n \<le> wk_maxBufferedBytes w \<or> next_buffered w (wk_order w) = None")
    case True
    then show ?thesis using less.prems ordered by (subst (1 2) reserveBufferBytes.simps) auto
  next
    case False
    then obtain k rest where k: "next_buffered w (wk_order w) = Some (k, rest)" by auto
    obtain r w1 where f: "flushBuffer M k (w\<lparr>wk_order := rest\<rparr>) = (r, w1)" by fastforce
    have "length (wk_order w1) < length (wk_order w)" using next_buffered_shorter [OF k] flush_order [OF f] by simp
    moreover have "I w1" using flushed [OF ordered [OF less.prems], of k rest] f by simp
    moreover have "keeps_specs w w1" using flush_specs [of "w\<lparr>wk_order := rest\<rparr>" M k] f by simp
    moreover have "reserveBufferBytes M n w = (case r of Inl e \<Rightarrow> (Inl (freeing e), w1) | Inr _ \<Rightarrow> reserveBufferBytes M n w1)"
      using False k f by (subst reserveBufferBytes.simps) (simp split: sum.split)
    ultimately show ?thesis using less.hyps keeps_specs_trans by (simp split: sum.split)
  qed
qed

lemma validated: "I w \<Longrightarrow> I (snd (ValidateEmit M ch ky value w))"
  unfolding ValidateEmit_def by (rule thenW_inv [where I = I]) (simp_all add: specified split: option.splits)

lemma pick_specs: "wk_specs (snd (pick_partition spec ch ky w)) = wk_specs w"
  by (simp add: pick_partition_def Let_def)

lemma pick_room:
  "wk_bufferedBytes (snd (pick_partition spec ch ky w)) = wk_bufferedBytes w"
  "wk_maxBufferedBytes (snd (pick_partition spec ch ky w)) = wk_maxBufferedBytes w"
  by (simp_all add: pick_partition_def Let_def)

lemma picked: "I w \<Longrightarrow> I (snd (pick_partition spec ch ky w))"
  by (simp add: pick_partition_def Let_def rotated)

lemma put:
  assumes "I w2" and "loaded w2 ch spec" and "wk_bufferedBytes w2 + record_size ky v \<le> wk_maxBufferedBytes w2"
  shows "I (snd (let (p, w3) = pick_partition spec ch ky w2;
        k = \<lparr>bk_channel = ch, bk_partition = p, bk_epoch = ep\<rparr>;
        w4 = (if map_of (wk_buffers w3) k = None then w3\<lparr>wk_order := wk_order w3 @ [k]\<rparr> else w3) in
      thenW (store_in_buffer M spec k ky v ep blob w4) (\<lambda>_ w5.
        if full k w5 then flushBuffer M k w5 else (Inr (), w5))))"
proof -
  obtain p w3 where p: "pick_partition spec ch ky w2 = (p, w3)" by fastforce
  let ?k = "\<lparr>bk_channel = ch, bk_partition = p, bk_epoch = ep\<rparr>"
  have i: "I (if c then w3\<lparr>wk_order := wk_order w3 @ [?k]\<rparr> else w3)" for c
    using picked [OF assms(1), of spec ch ky] ordered p by simp
  have l: "loaded (if c then w3\<lparr>wk_order := wk_order w3 @ [?k]\<rparr> else w3) ch spec" for c
    using assms(2) pick_specs [of spec ch ky w2] p by (simp add: loaded_def)
  have m: "wk_bufferedBytes (if c then w3\<lparr>wk_order := wk_order w3 @ [?k]\<rparr> else w3) + record_size ky v
      \<le> wk_maxBufferedBytes (if c then w3\<lparr>wk_order := wk_order w3 @ [?k]\<rparr> else w3)" for c
    using assms(3) pick_room [of spec ch ky w2] p by simp
  show ?thesis unfolding p Let_def prod.case
    by (rule thenW_inv [where I = I]) (use held [OF i l m, of w2 ep blob] p flushed in auto)
qed

lemma buffers: "I w \<Longrightarrow> I (snd (buffer M ch ky v ep blob w))"
  unfolding buffer_def
proof (rule thenW_inv [where I = I], goal_cases)
  case (2 spec w1)
  have r: "I (snd (reserveBufferBytes M (record_size ky v) w1))" "keeps_specs w1 (snd (reserveBufferBytes M (record_size ky v) w1))"
    using reserved [OF 2(3)] by simp_all
  have l: "loaded w1 ch spec" using spec_loaded [OF 2(2)] .
  have "I (snd (thenW (reserveBufferBytes M (record_size ky v) w1) (\<lambda>_ w2.
      let (p, w3) = pick_partition spec ch ky w2;
          k = \<lparr>bk_channel = ch, bk_partition = p, bk_epoch = ep\<rparr>;
          w4 = (if map_of (wk_buffers w3) k = None then w3\<lparr>wk_order := wk_order w3 @ [k]\<rparr> else w3) in
      thenW (store_in_buffer M spec k ky v ep blob w4) (\<lambda>_ w5.
        if full k w5 then flushBuffer M k w5 else (Inr (), w5)))))"
  proof (rule thenW_inv [where I = I], goal_cases)
    case (2 x w2)
    then show ?case using r(2) keeps_specs_loaded [OF _ l] reserved_room by (intro put) simp_all
  qed (rule r)
  then show ?case using 2(3) by simp
qed (rule specified)

lemma emits: "I w \<Longrightarrow> I (snd (emit M ch ky value blob w))"
  unfolding emit_def
proof (rule thenW_inv [where I = I], goal_cases)
  case (2 x w1)
  show ?case
    by (rule thenW_inv [where I = I])
      (auto simp: 2 specified Let_def buffers dropped counted split: option.splits)
qed (rule validated)

lemma Emits: "I w \<Longrightarrow> I (snd (Emit M ch ky value w))"
  by (simp add: Emit_def emits)

lemma flushes: "I w \<Longrightarrow> I (snd (flush_keys M ks w))"
proof (induction ks arbitrary: w)
  case (Cons k ks)
  then show ?case using flushed [OF Cons.prems, of k] ordered
    by (cases "flushBuffer M k w"; cases "fst (flushBuffer M k w)") simp_all
qed simp

lemma overflows: "I w \<Longrightarrow> I (fold queue_overflow cs w)"
  by (induction cs arbitrary: w) (simp_all add: queue_overflow_def queued counted)

lemma materializes: "I w \<Longrightarrow> I (snd (materialize M w))"
  unfolding materialize_def Let_def
  by (rule thenW_inv [where I = I]) (simp_all add: flushes ordered overflows)

lemma publishes_all: "I w \<Longrightarrow> I (snd (publish_all M us w))"
proof (induction us arbitrary: w)
  case (Cons u us)
  obtain ch anns where u: "u = (ch, anns)" by fastforce
  show ?case unfolding u publish_all.simps
    by (rule thenW_inv [where I = I]) (simp_all add: called Cons unqueued)
qed simp

lemma publishes: "I w \<Longrightarrow> I (snd (publish M w))"
  by (simp add: publish_def publishes_all)

lemma Flushes: "I w \<Longrightarrow> I (snd (Flush M w))"
  unfolding Flush_def by (rule thenW_inv [where I = I]) (simp_all add: materializes publishes)

lemma written:
  assumes "I w2" and "wk_store w2 \<noteq> None"
  shows "I (snd (let (a, w3) = ask M WriteFile w2 in
      case writeBlob (fault_of a) (wk_instance w3) (clock_of a) payload (the (wk_store w3)) of
        (Inl e, st) \<Rightarrow> (Inl e, w3\<lparr>wk_store := Some st\<rparr>)
      | (Inr (i, n), st) \<Rightarrow>
          (case emit M ch ky (Some (handle_json \<lparr>bh_blob = i, bh_holder = wk_addr w3, bh_size = n\<rparr>)) i
                  (w3\<lparr>wk_store := Some st\<rparr>) of
             (Inl e, w4) \<Rightarrow> (Inl e, drop_blob_of i w4)
           | (Inr _, w4) \<Rightarrow> (Inr (), w4))))"
proof -
  obtain a w3 where a: "ask M WriteFile w2 = (a, w3)" by fastforce
  then have b: "I w3" and s: "wk_store w3 = wk_store w2"
    using asked [OF assms(1), of WriteFile] shell_fields(8) [OF ask_shell] by (auto simp: output_call_def)
  obtain st0 where st0: "wk_store w3 = Some st0" using assms(2) s by auto
  obtain r st where w: "writeBlob (fault_of a) (wk_instance w3) (clock_of a) payload st0 = (r, st)" by fastforce
  then have i: "I (w3\<lparr>wk_store := Some st\<rparr>)" using stored [OF b st0] by (metis snd_conv)
  have e: "I (snd (emit M ch ky v i (w3\<lparr>wk_store := Some st\<rparr>)))" for v i using i by (rule emits)
  show ?thesis
  proof (cases r)
    case (Inr p)
    obtain r4 w4 where e4: "emit M ch ky (Some (handle_json \<lparr>bh_blob = fst p, bh_holder = wk_addr w3, bh_size = snd p\<rparr>)) (fst p)
        (w3\<lparr>wk_store := Some st\<rparr>) = (r4, w4)" by fastforce
    then have "I w4" using e by (metis snd_conv)
    then show ?thesis using Inr e4 by (cases p; cases r4) (simp_all add: a w st0 dropped)
  qed (simp add: a w st0 i)
qed

lemma EmitBlobs: "I w \<Longrightarrow> I (snd (EmitBlob M ch ky payload w))"
proof (cases "wk_durable w")
  case False
  assume i: "I w"
  show ?thesis unfolding EmitBlob_def if_not_P [OF False]
  proof (rule thenW_inv [where I = I], goal_cases)
    case (2 x w1)
    show ?case
    proof (rule thenW_inv [where I = I], goal_cases)
      case (2 y w2)
      then show ?case using serve_store [of M w1 w2] by (intro written) simp_all
    qed (rule served [OF 2(2)])
  qed (rule specified [OF i])
qed (simp add: EmitBlob_def)

end

interpretation books: output_invariant M books
proof
  fix w ch spec ky w0 ep v blob k and M :: "'f machine"
  show "books w \<Longrightarrow> books (snd (spec_of M ch w))" by (rule books_same [OF same_shell [OF spec_shell]])
  show "books w \<Longrightarrow> books (snd (serveSegments M w))" by (rule books_same [OF serve_same])
  show "books w \<Longrightarrow> books (snd (store_in_buffer M spec
      \<lparr>bk_channel = ch, bk_partition = fst (pick_partition spec ch ky w0), bk_epoch = ep\<rparr> ky v ep blob w))"
    by (simp add: store_in_buffer_def books_combine books_append)
qed (simp_all add: ask_books books_flush queue_announcement_def drop_blob_of_def)

end
