(* ===== verification/Outputs.thy ===== *)
theory Outputs
  imports Buffers
begin

text \<open>
  What a worker's output side guarantees: its byte account and bound, partitions the coordinator
  accepts, and that a flush hands over every record it holds.
\<close>

subsection \<open>Runs of the output side\<close>

text \<open>
  A worker starts with nothing buffered, then emits and flushes, succeeding or not, while the rest of
  its state (the epoch, the task, its inputs) changes as the handlers run.
\<close>

definition fresh :: "worker \<Rightarrow> bool" where
  "fresh w \<longleftrightarrow> wk_buffers w = [] \<and> wk_combineIndex w = [] \<and> wk_bufBytes w = [] \<and> wk_bufferedBytes w = 0
     \<and> wk_unannounced w = [] \<and> wk_specs w = None \<and> wk_store w = None \<and> wk_order w = [] \<and> 0 < wk_maxBufferedBytes w"

definition same_output :: "worker \<Rightarrow> worker \<Rightarrow> bool" where
  "same_output w w' \<longleftrightarrow> same_buffers w w' \<and> wk_unannounced w' = wk_unannounced w \<and> wk_specs w' = wk_specs w
     \<and> wk_store w' = wk_store w \<and> wk_order w' = wk_order w \<and> wk_maxBufferedBytes w' = wk_maxBufferedBytes w"

inductive output_run :: "'f machine \<Rightarrow> worker \<Rightarrow> bool" for M :: "'f machine" where
  start: "fresh w \<Longrightarrow> output_run M w"
| emit: "output_run M w \<Longrightarrow> output_run M (snd (Emit M ch ky value w))"
| blob: "output_run M w \<Longrightarrow> output_run M (snd (EmitBlob M ch ky payload w))"
| flush: "output_run M w \<Longrightarrow> output_run M (snd (Flush M w))"
| other: "output_run M w \<Longrightarrow> same_output w w' \<Longrightarrow> output_run M w'"

inductive_cases output_runE: "output_run M w"

context output_invariant
begin

lemma runs:
  assumes "output_run M w" and "\<And>w. fresh w \<Longrightarrow> I w" and "\<And>w w'. I w \<Longrightarrow> same_output w w' \<Longrightarrow> I w'"
  shows "I w"
  using assms(1) by induction (auto simp: assms(2) Emits EmitBlobs Flushes intro: assms(3))

end

lemma same_more [simp]:
  "same_buffers w (w'\<lparr>wk_rr := rr\<rparr>) = same_buffers w w'" "same_buffers w (w'\<lparr>wk_overflowed := ov\<rparr>) = same_buffers w w'"
  by (simp_all add: same_buffers_def)

lemma books_run: "output_run M w \<Longrightarrow> books w"
proof (erule books.runs)
  show "fresh w \<Longrightarrow> books w" for w
    by (simp add: fresh_def books_def tally_def indexed_def buffered_def index_of_def held_bytes_def map_get_def)
  show "books w \<Longrightarrow> same_output w w' \<Longrightarrow> books w'" for w w' using books_same [of w w'] by (simp add: same_output_def)
qed

subsection \<open>The bound on buffered bytes\<close>

text \<open>No channel of the topology combines, and partition counts are \<^verbatim>\<open>int32\<close> values.\<close>

definition answers_topology :: "'f machine \<Rightarrow> (Channel \<Rightarrow> bool) \<Rightarrow> bool" where
  "answers_topology M P \<longleftrightarrow> (\<forall>h r specs s. mc_world M h (Http GetTopology) = Answer r \<longrightarrow> body r = Channels specs \<longrightarrow> s \<in> set specs \<longrightarrow> P s)"

definition all_loaded :: "(Channel \<Rightarrow> bool) \<Rightarrow> worker \<Rightarrow> bool" where
  "all_loaded P w \<longleftrightarrow> (\<forall>ch spec. loaded w ch spec \<longrightarrow> P spec)"

lemma update_specs_loaded:
  "map_of (fold (\<lambda>s m. AList.update (ch_name s) (spec_entry s) m) specs m0) ch = Some spec \<Longrightarrow>
   spec \<in> spec_entry ` set specs \<or> map_of m0 ch = Some spec"
  by (induction specs arbitrary: m0) (fastforce simp: map_simps split: if_splits)+

lemma all_loaded_load:
  assumes "answers_topology M P" and "\<And>s. P s \<Longrightarrow> Q (spec_entry s)" and "all_loaded Q w"
  shows "all_loaded Q (snd (spec_of M ch w))"
proof (cases "wk_specs w")
  case None
  let ?a = "mc_world M (wk_trace w) (Http GetTopology)"
  have "all_loaded Q (snd (loadTopology M w))"
  proof (cases "http_result ?a")
    case (Inr b)
    then obtain r where r: "?a = Answer r" "b = body r" by (auto simp: http_result_def split: answer.splits if_splits)
    show ?thesis
    proof (cases b)
      case (Channels specs)
      have "Q spec" if "map_of (fold (\<lambda>s m. AList.update (ch_name s) (spec_entry s) m) specs []) c = Some spec" for c spec
        using update_specs_loaded [OF that] assms(1,2) r Channels unfolding answers_topology_def by fastforce
      then show ?thesis using Inr Channels by (auto simp: loadTopology_def do_eq Let_def all_loaded_def loaded_def)
    qed (use assms(3) Inr in \<open>simp_all add: loadTopology_def do_eq Let_def all_loaded_def loaded_def\<close>)
  qed (use assms(3) in \<open>simp add: loadTopology_def do_eq Let_def all_loaded_def loaded_def\<close>)
  then show ?thesis using None
    by (cases "loadTopology M w"; cases "fst (loadTopology M w)") (auto simp: spec_of_def split: option.splits)
qed (use assms(3) in \<open>simp add: spec_of_def split: option.splits\<close>)

lemma flush_loads:
  "wk_specs (snd (flushBuffer M k w)) = wk_specs w
   \<or> wk_specs (snd (flushBuffer M k w)) = wk_specs (snd (spec_of M (bk_channel k) w))"
proof (cases "buffered w k = []")
  case False
  obtain r w1 where 1: "spec_of M (bk_channel k) w = (r, w1)" by fastforce
  show ?thesis
  proof (cases r)
    case (Inr spec)
    then have "wk_specs w1 \<noteq> None" using spec_loaded [of M "bk_channel k" w spec w1] 1 by (auto simp: loaded_def)
    then show ?thesis
      using False 1 Inr flush_external_specs [of w1 M k "buffered w k"] flush_segment_specs [of w1 M k "buffered w k"]
      by (auto simp: flushBuffer_def buffered_def keeps_specs_def Let_def)
  qed (use False 1 in \<open>simp add: flushBuffer_def buffered_def\<close>)
qed (simp add: flushBuffer_def buffered_def drop_buffer_def)

lemma all_loaded_specs: "wk_specs w' = wk_specs w \<Longrightarrow> all_loaded Q w' = all_loaded Q w"
  by (simp add: all_loaded_def loaded_def)

lemma all_loaded_flush:
  assumes "answers_topology M P" and "\<And>s. P s \<Longrightarrow> Q (spec_entry s)" and "all_loaded Q w"
  shows "all_loaded Q (snd (flushBuffer M k w))"
  using flush_loads [of M k w] all_loaded_specs [of "snd (flushBuffer M k w)" w Q] assms(3)
    all_loaded_specs [of "snd (flushBuffer M k w)" "snd (spec_of M (bk_channel k) w)" Q] all_loaded_load [OF assms] by auto

lemma serve_specs_eq: "wk_specs (snd (serveSegments M w)) = wk_specs w"
  by (cases "ask M (OpenSegments (wk_segmentDir w) (wk_segmentListen w)) w")
    (auto simp: serveSegments_def ask_def Let_def split: option.split answer.split)

definition combines_nothing :: "Channel \<Rightarrow> bool" where
  "combines_nothing s \<longleftrightarrow> ch_combine s = CombineNone"

definition within :: "worker \<Rightarrow> bool" where
  "within w \<longleftrightarrow> books w \<and> all_loaded combines_nothing w \<and> wk_bufferedBytes w \<le> wk_maxBufferedBytes w"

lemma within_same:
  "within w \<Longrightarrow> same_buffers w w' \<Longrightarrow> wk_specs w' = wk_specs w \<Longrightarrow> wk_maxBufferedBytes w' = wk_maxBufferedBytes w \<Longrightarrow> within w'"
  using books_same [of w w'] all_loaded_specs [of w' w] by (simp add: within_def same_buffers_def)

lemma within_flush:
  assumes "answers_topology M combines_nothing" and "within w"
  shows "within (snd (flushBuffer M k w))"
proof -
  obtain r w' where f: "flushBuffer M k w = (r, w')" by fastforce
  have "wk_bufferedBytes w' \<le> wk_bufferedBytes w"
    using flush_effect [OF f] assms(2) by (auto simp: same_buffers_def cleared_def within_def books_def tally_def)
  moreover have "all_loaded combines_nothing w'"
    using all_loaded_flush [OF assms(1), of combines_nothing w k] assms(2) f
    by (simp add: within_def combines_nothing_def spec_entry_def)
  ultimately show ?thesis
    using assms(2) books.flushed [of w M k] settings_fields(5) [OF flush_settings [of M k w]] f by (simp add: within_def)
qed

lemma within_spec: "answers_topology M combines_nothing \<Longrightarrow> within w \<Longrightarrow> within (snd (spec_of M ch w))"
  using all_loaded_load [of M combines_nothing combines_nothing w ch] books.specified [of w M ch]
    shell_fields(4) [OF spec_shell [of M ch w]] settings_fields(5) [OF shell_fields(14) [OF spec_shell [of M ch w]]]
  by (simp add: within_def combines_nothing_def spec_entry_def)

lemma within_hold:
  assumes "within w" and "loaded w ch spec" and "wk_bufferedBytes w + record_size ky v \<le> wk_maxBufferedBytes w"
  shows "within (snd (store_in_buffer M spec k ky v ep blob w))"
proof -
  have "ch_combine spec = CombineNone" using assms(1,2) by (simp add: within_def all_loaded_def combines_nothing_def)
  then have s: "snd (store_in_buffer M spec k ky v ep blob w) = append_record k \<lparr>x_key = ky, x_value = v, x_epoch = ep, x_blob = blob\<rparr> w"
    by (simp add: store_in_buffer_def)
  show ?thesis unfolding s using assms(1,3) books_append [of w k "\<lparr>x_key = ky, x_value = v, x_epoch = ep, x_blob = blob\<rparr>"]
    by (simp add: within_def append_alt add_bytes_def all_loaded_def loaded_def)
qed

lemma within_invariant: "answers_topology M combines_nothing \<Longrightarrow> output_invariant M within"
proof
  fix w c ch k
  assume t: "answers_topology M combines_nothing" and w: "within w"
  show "within (snd (ask M c w))" using within_same [OF w] ask_same [of M c w] by (simp add: ask_def Let_def)
  show "within (snd (serveSegments M w))"
    using within_same [OF w serve_same serve_specs_eq settings_fields(5) [OF serve_settings]] .
qed (auto intro: within_spec within_flush within_hold within_same
    simp: queue_announcement_def drop_blob_of_def)

subsection \<open>What a flushed buffer became\<close>

definition matches :: "bufKey \<Rightarrow> wireRecord list \<Rightarrow> SegmentAnnouncement \<Rightarrow> bool" where
  "matches k recs a \<longleftrightarrow> a_channel a = bk_channel k \<and> a_partition a = bk_partition k \<and> a_epoch a = bk_epoch k
     \<and> a_records a = int (length recs) \<and> a_bytes a = int (length (segment_text recs))"

definition kept_text :: "worker \<Rightarrow> string \<Rightarrow> string \<Rightarrow> bool" where
  "kept_text w i text \<longleftrightarrow>
     (if wk_durable w then \<exists>n. (PutSegment (segmentKey w i) text, Local n None) \<in> set (wk_trace w)
      else \<exists>st. wk_store w = Some st \<and> map_of (ss_files st) i = Some text)"

definition posted :: "worker \<Rightarrow> bufKey \<Rightarrow> wireRecord list \<Rightarrow> bool" where
  "posted w k recs \<longleftrightarrow> (\<exists>a b. (Http (PostRecords (bk_channel k) (wk_operation w) (map to_record recs)), a) \<in> set (wk_trace w)
     \<and> http_result a = Inr b)"

lemma durable_done:
  assumes "write_durable M recs w = (Inr (i, n, h), w')" and "wk_durable w"
  shows "kept_text w' i (segment_text recs) \<and> n = int (length (segment_text recs)) \<and> wk_unannounced w' = wk_unannounced w"
proof -
  obtain a w1 where 1: "ask M Clock (w\<lparr>wk_segmentSeq := wk_segmentSeq w + 1\<rparr>) = (a, w1)" by fastforce
  define j where "j = segment_name (wk_instance w1) (clock_of a) (wk_segmentSeq w1)"
  obtain b w2 where 2: "ask M (PutSegment (segmentKey w1 j) (segment_text recs)) w1 = (b, w2)" by fastforce
  have w: "w2 = w1\<lparr>wk_trace := wk_trace w1 @ [(PutSegment (segmentKey w1 j) (segment_text recs), b)]\<rparr>"
    "wk_unannounced w1 = wk_unannounced w" "wk_durable w1 = wk_durable w"
    using 1 2 by (auto simp: ask_def Let_def)
  obtain c where b: "b = Local c None" "i = j" "n = int (length (segment_text recs))" "w' = w2"
    using assms(1) 2 unfolding write_durable_def 1 Let_def j_def [symmetric]
    by (auto simp: j_def split: answer.splits option.splits if_splits)
  then show ?thesis using w assms(2) by (auto simp: kept_text_def segmentKey_def)
qed

lemma local_done:
  assumes "write_local M recs w = (Inr (i, n, h), w')" and "\<not> wk_durable w"
  shows "kept_text w' i (segment_text recs) \<and> n = int (length (segment_text recs)) \<and> wk_unannounced w' = wk_unannounced w"
proof -
  obtain st where st: "wk_store w = Some st" using assms(1) by (auto simp: write_local_def split: option.splits)
  obtain a w1 where a: "ask M WriteFile w = (a, w1)" by fastforce
  obtain r st1 where s: "store_write (fault_of a) (wk_instance w) (clock_of a) (segment_text recs) st = (r, st1)" by fastforce
  then have r: "r = Inr (i, n)" "w' = w1\<lparr>wk_store := Some st1\<rparr>"
    using assms(1) by (auto simp: write_local_def st a split: sum.splits)
  have "wk_unannounced w1 = wk_unannounced w \<and> wk_durable w1 = wk_durable w" using a by (auto simp: ask_def Let_def)
  then show ?thesis using s r assms(2) by (auto elim!: write_cases simp: kept_text_def map_simps)
qed

lemma files_bind [simp]: "ss_files (bind j bs st) = ss_files st"
  by (simp add: bind_def)

lemma kept_bind [simp]: "kept_text (bind_blobs j bs w) i text = kept_text w i text"
  by (cases "wk_store w") (auto simp: kept_text_def bind_blobs_def segmentKey_def)

lemma kept_clear [simp]:
  "kept_text (clear_buffer k w) i text = kept_text w i text" "kept_text (queue_announcement ch a w) i text = kept_text w i text"
  by (simp_all add: kept_text_def clear_buffer_def drop_buffer_def queue_announcement_def segmentKey_def)

definition queues :: "worker \<Rightarrow> bufKey \<Rightarrow> wireRecord list \<Rightarrow> worker \<Rightarrow> bool" where
  "queues w k recs w' \<longleftrightarrow> (\<exists>a. matches k recs a \<and> kept_text w' (a_id a) (segment_text recs)
     \<and> wk_unannounced w' = AList.update (bk_channel k) (map_get [] (wk_unannounced w) (bk_channel k) @ [a]) (wk_unannounced w))"

lemma segment_done:
  assumes "flush_segment M k recs w = (Inr (), w')"
  shows "queues w k recs w'"
proof -
  from assms obtain w1 where 1: "(if \<not> wk_durable w \<and> wk_store w = None then serveSegments M w else (Inr (), w)) = (Inr (), w1)"
    and rest: "thenW (if wk_durable w1 then write_durable M recs w1 else write_local M recs w1) (\<lambda>written w2.
       (Inr (), queue_announcement (bk_channel k) (announcement w2 k recs written)
                  (clear_buffer k (bind_blobs (fst written) (segment_blobs recs) w2)))) = (Inr (), w')"
    unfolding flush_segment_def by (elim thenW_ok) auto
  have u: "wk_unannounced w1 = wk_unannounced w"
    using 1 by (auto simp: serveSegments_def ask_def Let_def split: if_splits option.splits answer.splits)
  from rest obtain i n h w2 where 2: "(if wk_durable w1 then write_durable M recs w1 else write_local M recs w1) = (Inr (i, n, h), w2)"
    and w': "w' = queue_announcement (bk_channel k) (announcement w2 k recs (i, n, h)) (clear_buffer k (bind_blobs i (segment_blobs recs) w2))"
    by (elim thenW_ok) auto
  have k: "kept_text w2 i (segment_text recs) \<and> n = int (length (segment_text recs)) \<and> wk_unannounced w2 = wk_unannounced w1"
    using 2 durable_done [of M recs w1 i n h w2] local_done [of M recs w1 i n h w2] by (auto split: if_splits)
  have "matches k recs (announcement w2 k recs (i, n, h))" "a_id (announcement w2 k recs (i, n, h)) = i"
    using k by (simp_all add: matches_def announcement_def)
  moreover have "wk_unannounced w' = AList.update (bk_channel k)
      (map_get [] (wk_unannounced w) (bk_channel k) @ [announcement w2 k recs (i, n, h)]) (wk_unannounced w)"
    unfolding w' using k u by (simp add: queue_announcement_def clear_buffer_def drop_buffer_def bind_blobs_def)
  ultimately show ?thesis unfolding queues_def w' using k by (intro exI [of _ "announcement w2 k recs (i, n, h)"]) simp
qed

subsection \<open>Nothing handed over is forgotten\<close>

definition banked :: "worker \<Rightarrow> bool" where
  "banked w \<longleftrightarrow> (\<forall>st. wk_store w = Some st \<longrightarrow> account_ok st)"

text \<open>Calls, stored segments and queued announcements only accumulate while buffers are flushed.\<close>

definition accrues :: "worker \<Rightarrow> worker \<Rightarrow> bool" where
  "accrues w w' \<longleftrightarrow> (banked w \<longrightarrow> banked w'
     \<and> (\<forall>st i t. wk_store w = Some st \<longrightarrow> map_of (ss_files st) i = Some t \<longrightarrow>
          (\<exists>st'. wk_store w' = Some st' \<and> map_of (ss_files st') i = Some t)))
     \<and> set (wk_trace w) \<subseteq> set (wk_trace w')
     \<and> wk_durable w' = wk_durable w \<and> wk_prefix w' = wk_prefix w \<and> wk_operation w' = wk_operation w
     \<and> (\<forall>ch. set (map_get [] (wk_unannounced w) ch) \<subseteq> set (map_get [] (wk_unannounced w') ch))"

lemma accrues_refl [simp]: "accrues w w"
  by (auto simp: accrues_def)

lemma accrues_trans:
  assumes "accrues w w1" and "accrues w1 w2"
  shows "accrues w w2"
proof -
  have "banked w \<Longrightarrow> wk_store w = Some st \<Longrightarrow> map_of (ss_files st) i = Some t \<Longrightarrow>
      \<exists>st'. wk_store w2 = Some st' \<and> map_of (ss_files st') i = Some t" for st i t
    using assms unfolding accrues_def by metis
  moreover have "banked w \<Longrightarrow> banked w2" "set (wk_trace w) \<subseteq> set (wk_trace w2)"
    "wk_durable w2 = wk_durable w" "wk_prefix w2 = wk_prefix w" "wk_operation w2 = wk_operation w"
    "set (map_get [] (wk_unannounced w) ch) \<subseteq> set (map_get [] (wk_unannounced w2) ch)" for ch
    using assms unfolding accrues_def by (blast, blast, simp, simp, simp, blast)
  ultimately show ?thesis unfolding accrues_def by blast
qed

lemma accrues_ask: "ask M c w = (a, w') \<Longrightarrow> accrues w w'"
  by (auto simp: ask_def Let_def accrues_def banked_def)

lemma accrues_call: "accrues w (snd (call_ok M req w))"
  by (auto simp: call_eq Let_def accrues_def banked_def)

lemma accrues_spec: "accrues w (snd (spec_of M ch w))"
proof -
  have "accrues w (snd (loadTopology M w))"
    by (auto simp: loadTopology_def do_eq Let_def thenW_def accrues_def banked_def split: sum.splits body.splits)
  then have "accrues w (snd (case wk_specs w of None \<Rightarrow> loadTopology M w | Some _ \<Rightarrow> (Inr (), w)))" by (simp split: option.split)
  then show ?thesis unfolding spec_of_def by (rule thenW_inv [where I = "accrues w"]) (simp split: option.split)
qed

lemma accrues_serve: "accrues w (snd (serveSegments M w))"
  by (cases "ask M (OpenSegments (wk_segmentDir w) (wk_segmentListen w)) w")
    (auto simp: serveSegments_def ask_def Let_def accrues_def banked_def account_openStore split: option.split answer.split)

lemma accrues_durable: "accrues w (snd (write_durable M recs w))"
proof -
  obtain a w1 where 1: "ask M Clock (w\<lparr>wk_segmentSeq := wk_segmentSeq w + 1\<rparr>) = (a, w1)" by fastforce
  obtain i where i: "i = segment_name (wk_instance w1) (clock_of a) (wk_segmentSeq w1)" by simp
  obtain b w2 where 2: "ask M (PutSegment (segmentKey w1 i) (segment_text recs)) w1 = (b, w2)" by fastforce
  have "accrues w (w\<lparr>wk_segmentSeq := wk_segmentSeq w + 1\<rparr>)" by (simp add: accrues_def banked_def)
  then have "accrues w w2" using accrues_trans accrues_ask [OF 1] accrues_ask [OF 2] by blast
  then show ?thesis using 2 unfolding write_durable_def 1 Let_def i by (simp split: answer.split option.split)
qed

lemma write_keeps_files:
  assumes "account_ok st" and "store_write fault inst nano text st = (r, st')" and "map_of (ss_files st) i = Some t"
  shows "map_of (ss_files st') i = Some t"
  using assms(2)
proof (cases rule: write_cases)
  case 2
  have "map_of (ss_files st) (segment_name inst nano (Suc (ss_seq st))) = None"
    using assms(1) by (intro fresh_none) (simp add: account_ok_def)
  then show ?thesis using 2 assms(3) by (auto simp: map_simps)
qed (use assms in simp)

lemma accrues_local: "accrues w (snd (write_local M recs w))"
proof (cases "wk_store w")
  case (Some st)
  obtain a w1 where a: "ask M WriteFile w = (a, w1)" by fastforce
  obtain r st1 where s: "store_write (fault_of a) (wk_instance w) (clock_of a) (segment_text recs) st = (r, st1)" by fastforce
  have "accrues w (w1\<lparr>wk_store := Some st1\<rparr>)"
    using accrues_ask [OF a] Some account_write [OF _ s] write_keeps_files [OF _ s] a
    by (auto simp: accrues_def banked_def ask_def Let_def)
  then show ?thesis using Some a s by (cases r) (auto simp: write_local_def)
qed (simp add: write_local_def)

lemma accrues_clear [simp]: "accrues w (clear_buffer k w') = accrues w w'" "accrues w (drop_buffer k w') = accrues w w'"
  "accrues w (w'\<lparr>wk_order := od\<rparr>) = accrues w w'" "accrues (w\<lparr>wk_order := od\<rparr>) w' = accrues w w'"
  by (simp_all add: accrues_def banked_def clear_buffer_def drop_buffer_def)

lemma accrues_bind: "accrues w w' \<Longrightarrow> accrues w (bind_blobs i bs w')"
  by (cases "wk_store w'") (auto simp: accrues_def banked_def bind_blobs_def account_bind)

lemma accrues_queue: "accrues w w' \<Longrightarrow> accrues w (queue_announcement ch a w')"
proof (erule accrues_trans)
  have "set (map_get [] m c) \<subseteq> set (map_get [] (AList.update ch (map_get [] m ch @ [a]) m) c)"
    for m :: "(string, SegmentAnnouncement list) gomap" and c
    by (auto simp: map_get_def map_simps)
  then show "accrues w' (queue_announcement ch a w')" by (simp add: accrues_def queue_announcement_def banked_def)
qed

lemma accrues_flush_segment: "accrues w (snd (flush_segment M k recs w))"
  unfolding flush_segment_def
proof (rule thenW_inv [where I = "accrues w"], goal_cases)
  case (2 x w1)
  show ?case
  proof (rule thenW_inv [where I = "accrues w"], goal_cases)
    case 1
    then show ?case using accrues_trans [OF 2(2)] by (simp add: accrues_durable accrues_local)
  qed (simp add: accrues_queue accrues_bind)
qed (simp add: accrues_serve)

lemma accrues_flush: "accrues w (snd (flushBuffer M k w))"
proof (cases "map_get [] (wk_buffers w) k = []")
  case False
  have "accrues w (snd (thenW (spec_of M (bk_channel k) w) (\<lambda>spec w1.
      if ch_to spec = '''' then flush_external M k (map_get [] (wk_buffers w) k) w1
      else flush_segment M k (map_get [] (wk_buffers w) k) w1)))"
  proof (rule thenW_inv [where I = "accrues w"], goal_cases)
    case (2 spec w1)
    have "accrues w1 (snd (flush_external M k recs w1))" for recs
      unfolding flush_external_def by (auto intro: thenW_inv [where I = "accrues w1"] simp: accrues_call)
    then show ?case using accrues_trans [OF 2(2)] accrues_flush_segment [of w1 M k] by simp
  qed (rule accrues_spec)
  then show ?thesis using False by (simp add: flushBuffer_def Let_def)
qed (simp add: flushBuffer_def)

subsection \<open>Flushing delivers\<close>

text \<open>
  Handed over: the records went to the coordinator in an accepted request, or they are the text of a
  stored segment whose announcement the worker holds; delivered: that announcement was accepted.
\<close>

definition queued_for :: "worker \<Rightarrow> bufKey \<Rightarrow> wireRecord list \<Rightarrow> bool" where
  "queued_for w k recs \<longleftrightarrow> (\<exists>a \<in> set (map_get [] (wk_unannounced w) (bk_channel k)).
     matches k recs a \<and> kept_text w (a_id a) (segment_text recs))"

definition announced_for :: "worker \<Rightarrow> bufKey \<Rightarrow> wireRecord list \<Rightarrow> bool" where
  "announced_for w k recs \<longleftrightarrow> (\<exists>anns a ans b.
     (Http (PostSegments (bk_channel k) (wk_operation w) (wk_instance w) (wk_incarnation w) anns), ans) \<in> set (wk_trace w)
     \<and> http_result ans = Inr b \<and> a \<in> set anns \<and> matches k recs a \<and> kept_text w (a_id a) (segment_text recs))"

lemma accruesD:
  assumes "accrues w w'"
  shows "x \<in> set (wk_trace w) \<Longrightarrow> x \<in> set (wk_trace w')" "wk_durable w' = wk_durable w" "segmentKey w' i = segmentKey w i"
    "wk_operation w' = wk_operation w" "y \<in> set (map_get [] (wk_unannounced w) ch) \<Longrightarrow> y \<in> set (map_get [] (wk_unannounced w') ch)"
    "banked w \<Longrightarrow> wk_store w = Some st \<Longrightarrow> map_of (ss_files st) i = Some t \<Longrightarrow>
      \<exists>st'. wk_store w' = Some st' \<and> map_of (ss_files st') i = Some t"
    "banked w \<Longrightarrow> banked w'"
  using assms unfolding accrues_def segmentKey_def by (blast, simp, simp, simp, blast, blast, blast)

lemma kept_accrues:
  assumes "banked w" and "accrues w w'" and "kept_text w i t"
  shows "kept_text w' i t"
  using assms(3) accruesD(1) [OF assms(2)] accruesD(6) [OF assms(2,1)]
  unfolding kept_text_def accruesD(2,3) [OF assms(2)] by (simp split: if_splits) blast+

lemma handed_accrues:
  assumes "accrues w w'"
  shows "posted w k recs \<Longrightarrow> posted w' k recs" "banked w \<Longrightarrow> queued_for w k recs \<Longrightarrow> queued_for w' k recs"
  using kept_accrues [OF _ assms] accruesD(1,5) [OF assms]
  unfolding posted_def queued_for_def accruesD(4) [OF assms] by blast+

lemma external_done:
  assumes "flush_external M k recs w = (Inr (), w')"
  shows "posted w' k recs"
proof -
  let ?req = "PostRecords (bk_channel k) (wk_operation w) (map to_record recs)"
  let ?a = "mc_world M (wk_trace w) (Http ?req)"
  have "\<exists>b. http_result ?a = Inr b" "w' = clear_buffer k (w\<lparr>wk_trace := wk_trace w @ [(Http ?req, ?a)]\<rparr>)"
    using assms by (auto simp: flush_external_def call_eq Let_def thenW_def split: if_splits sum.splits)
      (metis map_sum.simps(1) old.sum.exhaust sum.distinct(1))+
  then show ?thesis by (auto simp: posted_def clear_buffer_def drop_buffer_def)
qed

lemma flush_done:
  assumes "flushBuffer M k w = (Inr (), w')" and "buffered w k \<noteq> []"
  shows "posted w' k (buffered w k) \<or> queued_for w' k (buffered w k)"
proof -
  from assms obtain spec w1 where s: "spec_of M (bk_channel k) w = (Inr spec, w1)"
    and f: "(if ch_to spec = '''' then flush_external M k (buffered w k) w1 else flush_segment M k (buffered w k) w1) = (Inr (), w')"
    unfolding flushBuffer_def Let_def buffered_def [symmetric] by (auto elim!: thenW_ok)
  show ?thesis
  proof (cases "ch_to spec = ''''")
    case False
    then have "queues w1 k (buffered w k) w'" using f segment_done by simp
    then show ?thesis by (auto simp: queues_def queued_for_def map_get_def map_simps)
  qed (use f external_done [of M k "buffered w k" w1 w'] in simp)
qed

lemma buffered_cleared: "cleared k w w' \<Longrightarrow> buffered w' j = (if j = k then [] else buffered w j)"
  by (simp add: cleared_def buffered_def map_get_def map_simps)

lemma flush_keys_done:
  assumes "flush_keys M ks w = (Inr (), w')" and "banked w"
  shows "accrues w w' \<and> (\<forall>k. buffered w' k = (if k \<in> set ks then [] else buffered w k))
     \<and> (\<forall>k \<in> set ks. buffered w k \<noteq> [] \<longrightarrow> posted w' k (buffered w k) \<or> queued_for w' k (buffered w k))"
  using assms
proof (induction ks arbitrary: w)
  case (Cons k ks)
  obtain w1 where f: "flushBuffer M k w = (Inr (), w1)" and r: "flush_keys M ks w1 = (Inr (), w')"
    using Cons.prems(1) by (cases "flushBuffer M k w"; cases "fst (flushBuffer M k w)") auto
  have g: "accrues w w1" using accrues_flush [of w M k] f by simp
  then have b: "banked w1" using Cons.prems(2) by (simp add: accrues_def)
  have c: "buffered w1 j = (if j = k then [] else buffered w j)" for j
    using flush_effect [OF f] by (auto simp: buffered_cleared)
  note ih = Cons.IH [OF r b]
  have "posted w' k (buffered w k) \<or> queued_for w' k (buffered w k)" if "buffered w k \<noteq> []"
    using flush_done [OF f that] handed_accrues [OF conjunct1 [OF ih]] b by blast
  moreover have "posted w' j (buffered w j) \<or> queued_for w' j (buffered w j)" if "j \<in> set ks" "buffered w j \<noteq> []" "j \<noteq> k" for j
    using ih that c [of j] by auto
  ultimately show ?case using accrues_trans [OF g] ih c by auto
qed simp

lemma overflow_accrues: "accrues w (fold queue_overflow cs w)"
proof (induction cs arbitrary: w)
  case (Cons c cs)
  have "accrues w (w\<lparr>wk_overflowed := ov\<rparr>)" for ov by (simp add: accrues_def banked_def)
  then have "accrues w (queue_overflow c w)" by (simp add: queue_overflow_def accrues_queue)
  then show ?case using Cons.IH accrues_trans by simp
qed simp

lemma overflow_buffers: "same_buffers w (fold queue_overflow cs w)"
proof (induction cs arbitrary: w)
  case (Cons c cs)
  have "same_buffers w (queue_overflow c w)" by (simp add: queue_overflow_def queue_announcement_def)
  then show ?case using Cons.IH same_trans by simp
qed simp

lemma publish_all_done:
  "publish_all M us w = (Inr (), w') \<Longrightarrow>
     w' = w\<lparr>wk_trace := wk_trace w', wk_unannounced := wk_unannounced w'\<rparr>
     \<and> wk_unannounced w' = filter (\<lambda>(ch, _). ch \<notin> fst ` set us) (wk_unannounced w) \<and> set (wk_trace w) \<subseteq> set (wk_trace w')
     \<and> (\<forall>(ch, anns) \<in> set us. \<exists>ans b. (Http (PostSegments ch (wk_operation w) (wk_instance w) (wk_incarnation w) anns), ans)
          \<in> set (wk_trace w') \<and> http_result ans = Inr b)"
proof (induction us arbitrary: w)
  case (Cons u us)
  obtain ch anns where u: "u = (ch, anns)" by fastforce
  let ?req = "PostSegments ch (wk_operation w) (wk_instance w) (wk_incarnation w) anns"
  let ?a = "mc_world M (wk_trace w) (Http ?req)"
  let ?w = "w\<lparr>wk_trace := wk_trace w @ [(Http ?req, ?a)], wk_unannounced := AList.delete ch (wk_unannounced w)\<rparr>"
  obtain b where a: "http_result ?a = Inr b" and r: "publish_all M us ?w = (Inr (), w')"
    using Cons.prems by (cases "http_result ?a") (auto simp: u call_eq Let_def)
  have d: "filter (\<lambda>(c, _). c \<notin> fst ` set us) (AList.delete ch (wk_unannounced w))
      = filter (\<lambda>(c, _). c \<notin> fst ` set (u # us)) (wk_unannounced w)"
    by (auto simp: u AList.delete_eq intro!: filter_cong)
  show ?case using Cons.IH [OF r] a d by (auto simp: u)
qed simp

lemma unannounced_in: "a \<in> set (map_get [] m ch) \<Longrightarrow> \<exists>anns. (ch, anns) \<in> set m \<and> a \<in> set anns"
  by (cases "map_of m ch") (auto simp: map_get_def dest: map_of_SomeD)

lemma publish_announces:
  assumes "publish M w = (Inr (), w')" and "queued_for w k recs"
  shows "announced_for w' k recs"
proof -
  note d = publish_all_done [OF assms(1) [unfolded publish_def]]
  obtain a where a: "a \<in> set (map_get [] (wk_unannounced w) (bk_channel k))" "matches k recs a" "kept_text w (a_id a) (segment_text recs)"
    using assms(2) by (auto simp: queued_for_def)
  obtain anns where n: "(bk_channel k, anns) \<in> set (wk_unannounced w)" "a \<in> set anns" using unannounced_in [OF a(1)] by blast
  obtain tr u where w': "w' = w\<lparr>wk_trace := tr, wk_unannounced := u\<rparr>" using d by blast
  have f: "wk_operation w' = wk_operation w" "wk_instance w' = wk_instance w" "wk_incarnation w' = wk_incarnation w"
    "wk_durable w' = wk_durable w" "wk_prefix w' = wk_prefix w" "wk_store w' = wk_store w"
    by (simp_all add: w')
  have "kept_text w' (a_id a) (segment_text recs)"
    using a(3) d unfolding kept_text_def segmentKey_def f by (auto split: if_splits)
  then show ?thesis unfolding announced_for_def f using d n a(2) by fastforce
qed

lemma hold_frame:
  "wk_store (snd (store_in_buffer M spec k ky v ep blob w)) = wk_store w
   \<and> wk_checkpoint (snd (store_in_buffer M spec k ky v ep blob w)) = wk_checkpoint w
   \<and> wk_order (snd (store_in_buffer M spec k ky v ep blob w)) = wk_order w"
  by (auto simp: store_in_buffer_def combine_def Let_def setCombined_def new_key_def append_alt add_bytes_def split: option.split)

interpretation banks: output_invariant M banked
proof
  fix w c ch k b st0 fault inst nano payload spec ky w0 ep v blob and M :: "'f machine"
  assume w: "banked w"
  show "banked (snd (ask M c w))" using accruesD(7) [OF accrues_ask [OF prod.collapse [symmetric]] w] .
  show "banked (snd (spec_of M ch w))" using accruesD(7) [OF accrues_spec w] .
  show "banked (snd (serveSegments M w))" using accruesD(7) [OF accrues_serve w] .
  show "banked (snd (flushBuffer M k w))" using accruesD(7) [OF accrues_flush w] .
  show "banked (drop_blob_of b w)"
    using w by (auto simp: banked_def drop_blob_of_def dropBlob_def account_removeBlobFile)
  show "banked (w\<lparr>wk_store := Some (snd (writeBlob fault inst nano payload st0))\<rparr>)" if "wk_store w = Some st0"
    using w that by (simp add: banked_def account_writeBlob)
  show "banked (snd (store_in_buffer M spec
      \<lparr>bk_channel = ch, bk_partition = fst (pick_partition spec ch ky w0), bk_epoch = ep\<rparr> ky v ep blob w))"
    using w by (simp add: banked_def hold_frame)
qed (simp_all add: banked_def queue_announcement_def)

interpretation session: output_invariant M "\<lambda>w. wk_checkpoint w = c"
proof
  fix w :: worker and cl ch k spec ky w0 ep v blob and M :: "'f machine"
  assume w: "wk_checkpoint w = c"
  show "wk_checkpoint (snd (ask M cl w)) = c" using w by (simp add: ask_def Let_def)
  show "wk_checkpoint (snd (spec_of M ch w)) = c" using w shell_fields(9) [OF spec_shell [of M ch w]] by simp
  show "wk_checkpoint (snd (serveSegments M w)) = c" using w settings_fields(3) [OF serve_settings [of M w]] by simp
  show "wk_checkpoint (snd (flushBuffer M k w)) = c" using w settings_fields(3) [OF flush_settings [of M k w]] by simp
  show "wk_checkpoint (snd (store_in_buffer M spec
      \<lparr>bk_channel = ch, bk_partition = fst (pick_partition spec ch ky w0), bk_epoch = ep\<rparr> ky v ep blob w)) = c"
    using w by (simp add: hold_frame)
qed (simp_all add: queue_announcement_def drop_blob_of_def)

text \<open>Every buffer has records and is in the order, so the next flush reaches it.\<close>

definition covered :: "worker \<Rightarrow> bool" where
  "covered w \<longleftrightarrow> (\<forall>k rs. map_of (wk_buffers w) k = Some rs \<longrightarrow> rs \<noteq> [] \<and> k \<in> set (wk_order w))"

lemma materialize_done:
  assumes "materialize M w = (Inr (), w')" and "covered w" and "banked w"
  shows "buffered w' k = [] \<and> banked w'
     \<and> (buffered w k \<noteq> [] \<longrightarrow> posted w' k (buffered w k) \<or> queued_for w' k (buffered w k))"
proof -
  let ?ks = "filter (\<lambda>k. map_of (wk_buffers w) k \<noteq> None) (wk_order w)"
  have b0: "banked (w\<lparr>wk_order := []\<rparr>)" "buffered (w\<lparr>wk_order := []\<rparr>) j = buffered w j" for j
    using assms(3) by (simp_all add: banked_def buffered_def)
  obtain w1 where f: "flush_keys M ?ks (w\<lparr>wk_order := []\<rparr>) = (Inr (), w1)" and w': "w' = fold queue_overflow (wk_overflowed w1) w1"
    using assms(1) unfolding materialize_def Let_def by (elim thenW_ok) auto
  note d = flush_keys_done [OF f b0(1), unfolded b0(2)]
  have ks: "buffered w k \<noteq> [] \<Longrightarrow> k \<in> set ?ks"
    using assms(2) by (auto simp: covered_def buffered_def map_get_def split: option.splits)
  have g: "accrues w1 w'" unfolding w' by (rule overflow_accrues)
  have "banked w1" using d accruesD(7) [of "w\<lparr>wk_order := []\<rparr>" w1] b0(1) by blast
  moreover have "buffered w' k = buffered w1 k"
    using overflow_buffers [of w1 "wk_overflowed w1"] w' by (simp add: same_buffers_def buffered_def)
  moreover have "buffered w1 k = []" using d ks by (metis (no_types, lifting))
  moreover have "buffered w k \<noteq> [] \<longrightarrow> posted w1 k (buffered w k) \<or> queued_for w1 k (buffered w k)" using d ks by blast
  ultimately show ?thesis using handed_accrues [OF g] accruesD(7) [OF g] by auto
qed

lemma flush_delivers:
  assumes "Flush M w = (Inr (), w')" and "covered w" and "banked w" and "wk_checkpoint w = None"
  shows "buffered w' k = [] \<and> wk_unannounced w' = []
    \<and> (buffered w k \<noteq> [] \<longrightarrow> posted w' k (buffered w k) \<or> announced_for w' k (buffered w k))"
proof -
  obtain w1 where m: "materialize M w = (Inr (), w1)"
    and p: "(if wk_checkpoint w1 \<noteq> None then (Inr (), w1) else publish M w1) = (Inr (), w')"
    using assms(1) unfolding Flush_def by (elim thenW_ok) auto
  have pub: "publish M w1 = (Inr (), w')" using p session.materializes [OF assms(4), of M] m by simp
  note d = materialize_done [OF m assms(2,3), of k] and e = publish_all_done [OF pub [unfolded publish_def]]
  obtain tr u where w': "w' = w1\<lparr>wk_trace := tr, wk_unannounced := u\<rparr>" using e by blast
  have "wk_unannounced w' = filter (\<lambda>(ch, _). ch \<notin> fst ` set (wk_unannounced w1)) (wk_unannounced w1)" using e by blast
  also have "\<dots> = []" by (auto simp: filter_empty_conv image_iff)
  finally have "wk_unannounced w' = []" .
  moreover have "buffered w' k = []" using d by (simp add: w' buffered_def)
  moreover have "posted w1 k rs \<Longrightarrow> posted w' k rs" for rs using e by (auto simp: posted_def w')
  ultimately show ?thesis using d publish_announces [OF pub] by blast
qed

subsection \<open>Runs without a failure keep every buffer in reach\<close>

lemma covered_updates [simp]:
  "covered (w\<lparr>wk_store := st\<rparr>) = covered w" "covered (w\<lparr>wk_rr := rr\<rparr>) = covered w"
  "covered (w\<lparr>wk_overflowed := ov\<rparr>) = covered w" "covered (w\<lparr>wk_unannounced := u\<rparr>) = covered w"
  by (simp_all add: covered_def)

lemma covered_shell: "covered w \<Longrightarrow> shell w' = shell w \<Longrightarrow> covered w'"
  using shell_fields(1,5) [of w' w] by (simp add: covered_def)

lemma covered_order: "covered w \<Longrightarrow> covered (w\<lparr>wk_order := wk_order w @ ks\<rparr>)"
  by (auto simp: covered_def)

lemma covered_flush:
  assumes "flushBuffer M k w = (r, w')" and "\<And>j rs. map_of (wk_buffers w) j = Some rs \<Longrightarrow> rs \<noteq> [] \<and> (j = k \<and> r = Inr () \<or> j \<in> set (wk_order w))"
  shows "covered w'"
  using flush_effect [OF assms(1)] flush_order [OF assms(1)] assms(2)
  by (fastforce simp: covered_def same_buffers_def cleared_def map_simps split: if_splits)

lemma covered_kept: "covered w \<Longrightarrow> flushBuffer M k w = (r, w') \<Longrightarrow> covered w'"
  by (erule covered_flush) (simp add: covered_def)

lemma next_buffered_rest:
  "next_buffered w ks = Some (k, rest) \<Longrightarrow> j \<in> set ks \<Longrightarrow> buffered w j \<noteq> [] \<Longrightarrow> j = k \<or> j \<in> set rest"
  by (induction ks) (auto split: if_splits)

lemma covered_reserve: "covered w \<Longrightarrow> reserveBufferBytes M n w = (Inr (), w') \<Longrightarrow> covered w'"
proof (induction M n w rule: reserveBufferBytes.induct)
  case (1 M n w)
  show ?case
  proof (cases "wk_bufferedBytes w + n \<le> wk_maxBufferedBytes w")
    case True
    then show ?thesis using 1(2,3) by (subst (asm) reserveBufferBytes.simps) simp
  next
    case False
    then obtain k rest where k: "next_buffered w (wk_order w) = Some (k, rest)"
      using 1(3) by (subst (asm) reserveBufferBytes.simps) (auto split: option.splits)
    obtain r w1 where f: "flushBuffer M k (w\<lparr>wk_order := rest\<rparr>) = (r, w1)" by fastforce
    have r: "r = Inr ()" "reserveBufferBytes M n w1 = (Inr (), w')"
      using 1(3) False k f by (subst (asm) reserveBufferBytes.simps, cases r, simp, simp)+
    have "covered w1"
      using 1(2) next_buffered_rest [OF k] r(1) by (intro covered_flush [OF f]) (auto simp: covered_def buffered_def map_get_def)
    then show ?thesis using 1(1) [OF False k refl f [symmetric]] r by simp
  qed
qed

lemma set_combined_buffers:
  "\<exists>rs. length rs = length (buffered w k) \<and> wk_buffers (snd (setCombined M k i x w)) \<in> {wk_buffers w, AList.update k rs (wk_buffers w)}"
proof (cases "fl_print M x")
  case None
  then show ?thesis by (intro exI [of _ "buffered w k"]) (simp add: setCombined_def)
next
  case (Some a)
  then show ?thesis
    by (intro exI [of _ "(buffered w k)[i := (buffered w k ! i)\<lparr>x_value := JNumber a\<rparr>]"])
      (simp add: setCombined_def Let_def add_bytes_def)
qed

lemma indexedD: "books w \<Longrightarrow> map_of (index_of k w) ky = Some i \<Longrightarrow> i < length (buffered w k)"
  by (simp add: books_def indexed_def)

lemma combine_buffers:
  assumes "books w"
  shows "\<exists>rs. rs \<noteq> [] \<and> wk_buffers (snd (combine M k mode ky v ep w)) \<in> {wk_buffers w, AList.update k rs (wk_buffers w)}"
proof -
  let ?w = "w\<lparr>wk_combineIndex := AList.update k (index_of k w) (wk_combineIndex w)\<rparr>"
  have n: "wk_buffers (new_key k ky x ep ?w) = AList.update k (buffered w k @ [\<lparr>x_key = ky, x_value = x, x_epoch = ep, x_blob = ''''\<rparr>]) (wk_buffers w)" for x
    by (simp add: new_key_def append_alt add_bytes_def buffered_def)
  have s: "\<exists>rs. rs \<noteq> [] \<and> wk_buffers (snd (setCombined M k i x ?w)) \<in> {wk_buffers w, AList.update k rs (wk_buffers w)}"
    if "map_of (index_of k ?w) ky = Some i" for i x
  proof -
    have "buffered w k \<noteq> []" using indexedD [OF assms, of k ky i] that by auto
    moreover obtain rs where "length rs = length (buffered w k)"
      "wk_buffers (snd (setCombined M k i x ?w)) \<in> {wk_buffers w, AList.update k rs (wk_buffers w)}"
      using set_combined_buffers [of ?w k M i x] by auto
    ultimately show ?thesis by (intro exI [of _ rs]) auto
  qed
  show ?thesis unfolding combine_def Let_def using s n by (auto split: option.split)
qed

lemma covered_hold:
  assumes "covered w" and "k \<in> set (wk_order w)" and "books w"
  shows "covered (snd (store_in_buffer M spec k ky v ep blob w))"
proof -
  let ?w = "snd (store_in_buffer M spec k ky v ep blob w)"
  obtain rs where "rs \<noteq> []" and b: "wk_buffers ?w = wk_buffers w \<or> wk_buffers ?w = AList.update k rs (wk_buffers w)"
  proof (cases "ch_combine spec = CombineNone")
    case True
    then show ?thesis
      by (intro that [of "buffered w k @ [\<lparr>x_key = ky, x_value = v, x_epoch = ep, x_blob = blob\<rparr>]"])
        (simp_all add: store_in_buffer_def append_alt add_bytes_def)
  next
    case False
    obtain rs where "rs \<noteq> []" "wk_buffers (snd (combine M k (ch_combine spec) ky v ep w)) \<in> {wk_buffers w, AList.update k rs (wk_buffers w)}"
      using combine_buffers [OF assms(3), of M k "ch_combine spec" ky v ep] by blast
    then show ?thesis using False by (intro that [of rs]) (simp_all add: store_in_buffer_def)
  qed
  then have "map_of (wk_buffers ?w) j = Some rs' \<Longrightarrow> rs' \<noteq> [] \<and> j \<in> set (wk_order w)" for j rs'
    using assms(1,2) unfolding covered_def by (metis map_of_update_iff option.inject)
  then show ?thesis using hold_frame [of M spec k ky v ep blob w] by (simp add: covered_def)
qed

lemma covered_buffer:
  assumes "buffer M ch ky v ep blob w = (Inr (), w')" and "covered w" and "books w"
  shows "covered w'"
proof -
  from assms(1) obtain spec w1 where s: "spec_of M ch w = (Inr spec, w1)"
    and f: "(if wk_maxRecordBytes w1 < record_size ky v
       then (Inl (WorkerError ''channel %q record is %d bytes; limit is %d: use EmitBlob for large payloads''), w1)
       else thenW (reserveBufferBytes M (record_size ky v) w1) (\<lambda>_ w2.
           let (p, w3) = pick_partition spec ch ky w2;
               k = \<lparr>bk_channel = ch, bk_partition = p, bk_epoch = ep\<rparr>;
               w4 = (if map_of (wk_buffers w3) k = None then w3\<lparr>wk_order := wk_order w3 @ [k]\<rparr> else w3) in
           thenW (store_in_buffer M spec k ky v ep blob w4) (\<lambda>_ w5.
             if full k w5 then flushBuffer M k w5 else (Inr (), w5)))) = (Inr (), w')"
    unfolding buffer_def by (elim thenW_ok) blast
  then obtain w2 where r: "reserveBufferBytes M (record_size ky v) w1 = (Inr (), w2)"
    and g: "(let (p, w3) = pick_partition spec ch ky w2;
               k = \<lparr>bk_channel = ch, bk_partition = p, bk_epoch = ep\<rparr>;
               w4 = (if map_of (wk_buffers w3) k = None then w3\<lparr>wk_order := wk_order w3 @ [k]\<rparr> else w3) in
           thenW (store_in_buffer M spec k ky v ep blob w4) (\<lambda>_ w5.
             if full k w5 then flushBuffer M k w5 else (Inr (), w5))) = (Inr (), w')"
    by (auto split: if_splits elim!: thenW_ok)
  have c2: "covered w2" "books w2"
    using covered_reserve [OF covered_shell [OF assms(2)] r] spec_shell [of M ch w] s books.specified [OF assms(3), of M ch]
      books.reserved [of w1 M "record_size ky v"] r by simp_all
  obtain p w3 where p: "pick_partition spec ch ky w2 = (p, w3)" by fastforce
  then have c3: "covered w3" "books w3"
    using c2 books.picked [OF c2(2), of spec ch ky] by (auto simp: pick_partition_def Let_def split: if_splits)
  let ?k = "\<lparr>bk_channel = ch, bk_partition = p, bk_epoch = ep\<rparr>"
  let ?w4 = "if map_of (wk_buffers w3) ?k = None then w3\<lparr>wk_order := wk_order w3 @ [?k]\<rparr> else w3"
  have c4: "covered ?w4" "books ?w4" "?k \<in> set (wk_order ?w4)"
    using c3 covered_order [of w3 "[?k]"] by (auto simp: covered_def)
  obtain w5 where h: "store_in_buffer M spec ?k ky v ep blob ?w4 = (Inr (), w5)"
    and e: "(if full ?k w5 then flushBuffer M ?k w5 else (Inr (), w5)) = (Inr (), w')"
    using g unfolding p Let_def prod.case by (elim thenW_ok) simp
  have "covered w5" using covered_hold [OF c4(1,3,2), of M spec ky v ep blob] h by simp
  then show ?thesis using e covered_kept [of w5 M ?k] by (auto split: if_splits)
qed

lemma covered_emit:
  assumes "emit M ch ky vo blob w = (Inr (), w')" and "covered w" and "books w"
  shows "covered w'"
proof -
  obtain w1 where v: "ValidateEmit M ch ky vo w = (Inr (), w1)"
    and f: "thenW (spec_of M ch w1) (\<lambda>spec w2.
       let v = the vo; ep = wrap32 (wk_epoch w2 + 1) in
       if ch \<notin> set (wk_feedbackOut w2) then buffer M ch ky v (wk_epoch w2) blob w2
       else
         (case ch_feedback spec of
            Some f \<Rightarrow>
              if f_mode f = FeedbackAsynchronous \<and> f_maxEpochs f \<le> ep
              then
                if f_overflow f = ''''
                then (Inr (), (if blob \<noteq> '''' then drop_blob_of blob else id)
                        (w2\<lparr>wk_overflowed := AList.update ch (map_get 0 (wk_overflowed w2) ch + 1) (wk_overflowed w2)\<rparr>))
                else buffer M (f_overflow f) ky v ep blob w2
              else buffer M ch ky v ep blob w2
          | None \<Rightarrow> buffer M ch ky v ep blob w2)) = (Inr (), w')"
    using assms(1) unfolding emit_def by (elim thenW_ok) auto
  have "shell (snd (ValidateEmit M ch ky vo w)) = shell w"
    unfolding ValidateEmit_def
    by (rule thenW_inv [where I = "\<lambda>s. shell s = shell w"]) (simp_all add: spec_shell split: option.splits)
  then have c1: "covered w1" "books w1" using covered_shell [OF assms(2)] books.validated [OF assms(3), of M ch ky vo] v by simp_all
  obtain spec w2 where s: "spec_of M ch w1 = (Inr spec, w2)" using f by (elim thenW_ok)
  have c2: "covered w2" "books w2"
    using covered_shell [OF c1(1)] spec_shell [of M ch w1] books.specified [OF c1(2), of M ch] s by simp_all
  show ?thesis using f c2 covered_buffer [OF _ c2] unfolding s thenW_simps Let_def
    by (auto simp: drop_blob_of_def split: if_splits option.splits)
qed

lemma covered_materialize:
  assumes "materialize M w = (Inr (), w')" and "covered w"
  shows "covered w'"
proof -
  let ?ks = "filter (\<lambda>k. map_of (wk_buffers w) k \<noteq> None) (wk_order w)"
  obtain w1 where f: "flush_keys M ?ks (w\<lparr>wk_order := []\<rparr>) = (Inr (), w1)" and w': "w' = fold queue_overflow (wk_overflowed w1) w1"
    using assms(1) unfolding materialize_def Let_def by (elim thenW_ok) auto
  have e: "map_of (wk_buffers w0) k = None \<Longrightarrow> flush_keys M ks w0 = (Inr (), w9) \<Longrightarrow> map_of (wk_buffers w9) k = None" for k ks w0 w9
  proof (induction ks arbitrary: w0)
    case (Cons j ks)
    then obtain w2 where "flushBuffer M j w0 = (Inr (), w2)" "flush_keys M ks w2 = (Inr (), w9)"
      by (cases "flushBuffer M j w0"; cases "fst (flushBuffer M j w0)") auto
    then show ?case using Cons.IH [of w2] Cons.prems(1) flush_effect [of M j w0 "Inr ()" w2]
      by (auto simp: cleared_def map_simps)
  qed simp
  have n: "k \<in> set ks \<Longrightarrow> flush_keys M ks w0 = (Inr (), w9) \<Longrightarrow> map_of (wk_buffers w9) k = None" for k ks w0 w9
  proof (induction ks arbitrary: w0)
    case (Cons j ks)
    then obtain w2 where 2: "flushBuffer M j w0 = (Inr (), w2)" "flush_keys M ks w2 = (Inr (), w9)"
      by (cases "flushBuffer M j w0"; cases "fst (flushBuffer M j w0)") auto
    show ?case
    proof (cases "k \<in> set ks")
      case False
      then have "map_of (wk_buffers w2) k = None" using Cons.prems(1) flush_effect [OF 2(1)] by (auto simp: cleared_def map_simps)
      then show ?thesis using e 2(2) by blast
    qed (use Cons.IH 2(2) in blast)
  qed simp
  have "map_of (wk_buffers w1) k = None" for k
  proof (cases "k \<in> set ?ks")
    case False
    then have "map_of (wk_buffers (w\<lparr>wk_order := []\<rparr>)) k = None"
      using assms(2) by (cases "map_of (wk_buffers w) k") (auto simp: covered_def)
    then show ?thesis by (rule e [OF _ f])
  qed (rule n [OF _ f])
  then have "covered w1" by (simp add: covered_def)
  moreover have "wk_buffers w' = wk_buffers w1" using overflow_buffers [of w1] w' by (simp add: same_buffers_def)
  ultimately show ?thesis using \<open>\<And>k. map_of (wk_buffers w1) k = None\<close> by (simp add: covered_def)
qed

end
