(* ===== verification/Ranges.thy ===== *)
theory Ranges
  imports Outputs
begin

text \<open>
  Workers announce segments the coordinator can place: the partition a worker computes is one of the
  channel's, and an announcement names the channel it is sent to.
\<close>

subsection \<open>What a flush queues\<close>

lemma serve_unannounced: "wk_unannounced (snd (serveSegments M w)) = wk_unannounced w"
  by (cases "ask M (OpenSegments (wk_segmentDir w) (wk_segmentListen w)) w")
    (auto simp: serveSegments_def ask_def Let_def split: option.split answer.split)

lemma durable_unannounced: "wk_unannounced (snd (write_durable M recs w)) = wk_unannounced w"
proof -
  obtain a w1 where 1: "ask M Clock (w\<lparr>wk_segmentSeq := wk_segmentSeq w + 1\<rparr>) = (a, w1)" by fastforce
  obtain i where i: "i = segment_name (wk_instance w1) (clock_of a) (wk_segmentSeq w1)" by simp
  obtain b w2 where 2: "ask M (PutSegment (segmentKey w1 i) (segment_text recs)) w1 = (b, w2)" by fastforce
  have "wk_unannounced w2 = wk_unannounced w"
    using shell_fields(6) [OF ask_shell [OF 1]] shell_fields(6) [OF ask_shell [OF 2]] by simp
  then show ?thesis using 2 unfolding write_durable_def 1 Let_def i by (simp split: answer.split option.split)
qed

lemma local_unannounced: "wk_unannounced (snd (write_local M recs w)) = wk_unannounced w"
  using shell_fields(6) [OF ask_shell [of M WriteFile w]]
  by (cases "ask M WriteFile w") (simp add: write_local_def split: option.split sum.split prod.split)

lemma segment_unannounced:
  assumes "flush_segment M k recs w = (Inl e, w')"
  shows "wk_unannounced w' = wk_unannounced w"
proof -
  obtain r1 w1 where 1: "(if \<not> wk_durable w \<and> wk_store w = None then serveSegments M w else (Inr (), w)) = (r1, w1)" by fastforce
  have u1: "wk_unannounced w1 = wk_unannounced w" using 1 serve_unannounced [of M w] by (auto split: if_splits)
  obtain r2 w2 where 2: "(if wk_durable w1 then write_durable M recs w1 else write_local M recs w1) = (r2, w2)" by fastforce
  have u2: "wk_unannounced w2 = wk_unannounced w"
    using 2 u1 durable_unannounced [of M recs w1] local_unannounced [of M recs w1] by (auto split: if_splits)
  show ?thesis using assms u1 u2 unfolding flush_segment_def 1 by (cases r1; cases r2) (simp_all add: 2)
qed

lemma flush_queues:
  assumes "flushBuffer M k w = (r, w')"
  shows "wk_unannounced w' = wk_unannounced w
    \<or> (buffered w k \<noteq> [] \<and> (\<exists>a. matches k (buffered w k) a
         \<and> wk_unannounced w' = AList.update (bk_channel k) (map_get [] (wk_unannounced w) (bk_channel k) @ [a]) (wk_unannounced w)))"
proof (cases "buffered w k = []")
  case True
  then show ?thesis using assms by (auto simp: flushBuffer_def buffered_def drop_buffer_def)
next
  case False
  obtain r1 w1 where 1: "spec_of M (bk_channel k) w = (r1, w1)" by fastforce
  have u1: "wk_unannounced w1 = wk_unannounced w" using shell_fields(6) [OF spec_shell [of M "bk_channel k" w]] 1 by simp
  show ?thesis
  proof (cases r1)
    case (Inl e)
    then show ?thesis using assms False 1 u1 by (auto simp: flushBuffer_def buffered_def)
  next
    case (Inr spec)
    then have f: "(if ch_to spec = '''' then flush_external M k (buffered w k) w1 else flush_segment M k (buffered w k) w1) = (r, w')"
      using assms False 1 by (simp add: flushBuffer_def buffered_def Let_def split: if_splits)
    have "wk_unannounced (snd (flush_external M k (buffered w k) w1)) = wk_unannounced w1"
      by (auto simp: flush_external_def call_eq Let_def thenW_def clear_buffer_def drop_buffer_def split: sum.split)
    then show ?thesis using f u1 False segment_unannounced [of M k "buffered w k" w1] segment_done [of M k "buffered w k" w1 w']
      by (cases r) (auto simp: queues_def split: if_splits)
  qed
qed

subsection \<open>Partitions in range\<close>

definition int32_partitions :: "Channel \<Rightarrow> bool" where
  "int32_partitions s \<longleftrightarrow> p_partitions (ch_partitioning s) < 2 ^ 31"

definition wide :: "Channel \<Rightarrow> bool" where
  "wide s \<longleftrightarrow> 0 < p_partitions (ch_partitioning s) \<and> p_partitions (ch_partitioning s) < 2 ^ 31"

definition in_parts :: "worker \<Rightarrow> string \<Rightarrow> int \<Rightarrow> bool" where
  "in_parts w ch p \<longleftrightarrow> (\<exists>spec. loaded w ch spec \<and> 0 \<le> p \<and> p < p_partitions (ch_partitioning spec))"

definition ranged :: "worker \<Rightarrow> bool" where
  "ranged w \<longleftrightarrow> all_loaded wide w \<and> (\<forall>k rs. map_of (wk_buffers w) k = Some rs \<longrightarrow> in_parts w (bk_channel k) (bk_partition k))
     \<and> (\<forall>ch anns a. map_of (wk_unannounced w) ch = Some anns \<longrightarrow> a \<in> set anns \<longrightarrow>
          a_channel a = ch \<and> (a_id a = '''' \<or> in_parts w ch (a_partition a)))"

lemma pick_in_parts:
  assumes "wide spec"
  shows "0 \<le> fst (pick_partition spec ch ky w) \<and> fst (pick_partition spec ch ky w) < p_partitions (ch_partitioning spec)"
proof -
  let ?n = "p_partitions (ch_partitioning spec)"
  have n: "0 < ?n" "?n < 2 ^ 31" using assms by (simp_all add: wide_def)
  have "uint (c mod word_of_int ?n) < ?n" for c :: "64 word"
  proof -
    have "uint (word_of_int ?n :: 64 word) = ?n" using n by (simp add: uint_word_of_int)
    then have "uint (c mod word_of_int ?n) = uint c mod ?n" by (simp add: uint_mod)
    then show ?thesis using n by simp
  qed
  then show ?thesis using n HashPartition_less [of ?n ky] HashPartition_nonneg [of ky ?n]
    by (auto simp: pick_partition_def Let_def)
qed

lemma in_parts_keeps: "in_parts w ch p \<Longrightarrow> keeps_specs w w' \<Longrightarrow> in_parts w' ch p"
  unfolding in_parts_def using keeps_specs_loaded by blast

lemma ranged_same:
  assumes "ranged w" and "keeps_specs w w'" and "all_loaded wide w'" and "wk_buffers w' = wk_buffers w" and "wk_unannounced w' = wk_unannounced w"
  shows "ranged w'"
  using assms in_parts_keeps [OF _ assms(2)] unfolding ranged_def by metis

lemma ranged_flush:
  assumes "answers_topology M int32_partitions" and "ranged w"
  shows "ranged (snd (flushBuffer M k w))"
proof -
  obtain r w' where f: "flushBuffer M k w = (r, w')" by fastforce
  have s: "keeps_specs w w'" using flush_specs [of w M k] f by simp
  have "all_loaded wide w'"
    using all_loaded_flush [OF assms(1), of wide w k] assms(2) f by (simp add: ranged_def int32_partitions_def wide_def spec_entry_def)
  moreover have "map_of (wk_buffers w') j = Some rs \<Longrightarrow> map_of (wk_buffers w) j = Some rs" for j rs
    using flush_effect [OF f] by (auto simp: same_buffers_def cleared_def map_simps split: if_splits)
  then have "map_of (wk_buffers w') j = Some rs \<Longrightarrow> in_parts w' (bk_channel j) (bk_partition j)" for j rs
    using assms(2) in_parts_keeps [OF _ s] unfolding ranged_def by blast
  moreover have "a_channel a = ch \<and> (a_id a = '''' \<or> in_parts w' ch (a_partition a))"
    if "map_of (wk_unannounced w') ch = Some anns" "a \<in> set anns" for ch anns a
  proof -
    have old: "map_of (wk_unannounced w) c = Some as \<Longrightarrow> b \<in> set as \<Longrightarrow> a_channel b = c \<and> (a_id b = '''' \<or> in_parts w' c (a_partition b))"
      for c as b using assms(2) in_parts_keeps [OF _ s] unfolding ranged_def by blast
    have new: "buffered w k \<noteq> [] \<Longrightarrow> in_parts w' (bk_channel k) (bk_partition k)"
      using assms(2) in_parts_keeps [OF _ s] unfolding ranged_def buffered_def map_get_def by (auto split: option.splits)
    have "(\<exists>as. map_of (wk_unannounced w) ch = Some as \<and> a \<in> set as)
        \<or> (buffered w k \<noteq> [] \<and> ch = bk_channel k \<and> a_channel a = bk_channel k \<and> a_partition a = bk_partition k)"
      using flush_queues [OF f] that by (auto simp: map_simps matches_def map_get_def split: if_splits option.splits)
    then show ?thesis using old new by metis
  qed
  ultimately show ?thesis unfolding ranged_def f by simp
qed

lemma hold_buffers:
  "\<exists>rs. wk_buffers (snd (store_in_buffer M spec k ky v ep blob w)) \<in> {wk_buffers w, AList.update k rs (wk_buffers w)}"
proof -
  let ?w = "w\<lparr>wk_combineIndex := AList.update k (index_of k w) (wk_combineIndex w)\<rparr>"
  have n: "wk_buffers (new_key k ky x ep ?w) = AList.update k (buffered w k @ [\<lparr>x_key = ky, x_value = x, x_epoch = ep, x_blob = ''''\<rparr>]) (wk_buffers w)" for x
    by (simp add: new_key_def append_alt add_bytes_def buffered_def)
  have "\<exists>rs. wk_buffers (snd (setCombined M k i x ?w)) \<in> {wk_buffers w, AList.update k rs (wk_buffers w)}" for i x
    using set_combined_buffers [of ?w k M i x] by auto
  then have "\<exists>rs. wk_buffers (snd (combine M k mode ky v ep w)) \<in> {wk_buffers w, AList.update k rs (wk_buffers w)}" for mode
    unfolding combine_def Let_def using n by (auto split: option.split)
  then show ?thesis by (auto simp: store_in_buffer_def append_alt add_bytes_def)
qed

lemma hold_rest:
  "wk_specs (snd (store_in_buffer M spec k ky v ep blob w)) = wk_specs w
   \<and> wk_unannounced (snd (store_in_buffer M spec k ky v ep blob w)) = wk_unannounced w"
  by (auto simp: store_in_buffer_def combine_def Let_def setCombined_def new_key_def append_alt add_bytes_def split: option.split)

lemma ranged_hold:
  assumes "ranged w" and "loaded w ch spec" and "bk_channel k = ch" and "in_parts w ch (bk_partition k)"
  shows "ranged (snd (store_in_buffer M spec k ky v ep blob w))"
proof -
  let ?w = "snd (store_in_buffer M spec k ky v ep blob w)"
  have s: "wk_specs ?w = wk_specs w" "wk_unannounced ?w = wk_unannounced w" using hold_rest [of M spec k ky v ep blob w] by auto
  have p: "in_parts ?w c p = in_parts w c p" for c p by (simp add: in_parts_def loaded_def s)
  obtain rs where "wk_buffers ?w = wk_buffers w \<or> wk_buffers ?w = AList.update k rs (wk_buffers w)"
    using hold_buffers [of M spec k ky v ep blob w] by auto
  then have "map_of (wk_buffers ?w) j = Some rs' \<Longrightarrow> in_parts w (bk_channel j) (bk_partition j)" for j rs'
    using assms unfolding ranged_def by (metis map_of_update_iff)
  then show ?thesis using assms(1) all_loaded_specs [OF s(1)] unfolding ranged_def p s(2) by blast
qed

lemma in_parts_updates [simp]:
  "in_parts (w\<lparr>wk_unannounced := u\<rparr>) ch p = in_parts w ch p" "all_loaded P (w\<lparr>wk_unannounced := u\<rparr>) = all_loaded P w"
  by (simp_all add: in_parts_def all_loaded_def loaded_def)

lemma ranged_updates [simp]:
  "ranged (w\<lparr>wk_order := od\<rparr>) = ranged w" "ranged (w\<lparr>wk_rr := rr\<rparr>) = ranged w"
  "ranged (w\<lparr>wk_store := st\<rparr>) = ranged w" "ranged (w\<lparr>wk_overflowed := ov\<rparr>) = ranged w"
  by (simp_all add: ranged_def all_loaded_def in_parts_def loaded_def)

lemma ranged_queue:
  assumes "ranged w"
  shows "ranged (queue_announcement ch (overflow_announcement ch n) w)"
proof -
  let ?u = "AList.update ch (map_get [] (wk_unannounced w) ch @ [overflow_announcement ch n]) (wk_unannounced w)"
  have "map_of ?u c = Some anns \<Longrightarrow> a \<in> set anns \<Longrightarrow>
      a = overflow_announcement ch n \<and> c = ch \<or> (\<exists>as. map_of (wk_unannounced w) c = Some as \<and> a \<in> set as)" for c anns a
    by (cases "map_of (wk_unannounced w) ch") (auto simp: map_simps map_get_def split: if_splits)
  moreover have "a_id (overflow_announcement ch n) = '''' \<and> a_channel (overflow_announcement ch n) = ch"
    by (simp add: overflow_announcement_def)
  ultimately show ?thesis using assms unfolding ranged_def queue_announcement_def by (simp del: map_of_eq_None_iff) metis
qed

lemma ranged_unqueue: "ranged w \<Longrightarrow> ranged (w\<lparr>wk_unannounced := AList.delete ch (wk_unannounced w)\<rparr>)"
  unfolding ranged_def by (simp add: map_simps)

lemma ranged_invariant:
  assumes "answers_topology M int32_partitions"
  shows "output_invariant M ranged"
proof
  fix w :: worker and c ch k spec ky w0 ep v blob
  assume w: "ranged w"
  show "ranged (snd (ask M c w))" by (rule ranged_same [OF w]) (use w in \<open>simp_all add: ask_def Let_def ranged_def all_loaded_def loaded_def\<close>)
  show "ranged (snd (spec_of M ch w))"
    using all_loaded_load [OF assms, of wide w ch] w shell_fields(1,6) [OF spec_shell [of M ch w]]
    by (intro ranged_same [OF w spec_specs]) (simp_all add: ranged_def int32_partitions_def wide_def spec_entry_def)
  show "ranged (snd (serveSegments M w))"
    using w serve_same [of w M] all_loaded_specs [OF serve_specs_eq [of M w], of wide]
    by (intro ranged_same [OF w serve_specs]) (simp_all add: serve_unannounced ranged_def same_buffers_def)
  show "ranged (snd (flushBuffer M k w))" by (rule ranged_flush [OF assms w])
  show "ranged (snd (store_in_buffer M spec
      \<lparr>bk_channel = ch, bk_partition = fst (pick_partition spec ch ky w0), bk_epoch = ep\<rparr> ky v ep blob w))" if "loaded w ch spec"
    by (rule ranged_hold [OF w that]) (use w that pick_in_parts in \<open>auto simp: ranged_def all_loaded_def in_parts_def\<close>)
qed (simp_all add: drop_blob_of_def ranged_queue ranged_unqueue)

lemma announce_check_placeable:
  assumes "\<And>a. a \<in> set anns \<Longrightarrow> a_channel a = name \<and> (a_id a = '''' \<or> 0 \<le> a_partition a \<and> a_partition a < partitions c)"
  shows "announce_check name c anns h \<noteq> Inl (Error 400 ''partition %d out of range for channel %q'')
    \<and> announce_check name c anns h \<noteq> Inl (Error 400 ''segment %q announced for channel %q on channel %q'')"
  using assms
proof (induction name c anns h rule: announce_check.induct)
  case (2 name c a anns h)
  have a: "a_channel a = name" "a_id a \<noteq> '''' \<Longrightarrow> 0 \<le> a_partition a \<and> a_partition a < partitions c" using 2(4) by auto
  show ?case
  proof (cases "a_id a = ''''")
    case True
    then show ?thesis using 2 by simp
  next
    case False
    then show ?thesis using 2 a by (auto split: option.split)
  qed
qed simp

lemma ranged_run: "output_run M w \<Longrightarrow> answers_topology M int32_partitions \<Longrightarrow> ranged w"
proof (erule output_invariant.runs [OF ranged_invariant, rotated])
  show "fresh w \<Longrightarrow> ranged w" for w by (simp add: fresh_def ranged_def all_loaded_def loaded_def)
  show "ranged w \<Longrightarrow> same_output w w' \<Longrightarrow> ranged w'" for w w'
    by (rule ranged_same [of w w'])
      (simp_all add: same_output_def same_buffers_def keeps_specs_def ranged_def all_loaded_def loaded_def)
qed

end
