(* ===== verification/Emission.thy ===== *)
theory Emission
  imports Ranges
begin

text \<open>
  The guarantees of emitting and flushing: byte counts and their bound, delivery of everything a
  worker holds, partitions in range, and what a failed flush leaves behind.
\<close>

subsection \<open>Runs in which every call succeeds\<close>

inductive calm_run :: "'f machine \<Rightarrow> worker \<Rightarrow> bool" for M :: "'f machine" where
  start: "fresh w \<Longrightarrow> calm_run M w"
| emit: "calm_run M w \<Longrightarrow> Emit M ch ky vo w = (Inr (), w') \<Longrightarrow> calm_run M w'"
| blob: "calm_run M w \<Longrightarrow> EmitBlob M ch ky payload w = (Inr (), w') \<Longrightarrow> calm_run M w'"
| flush: "calm_run M w \<Longrightarrow> Flush M w = (Inr (), w') \<Longrightarrow> calm_run M w'"
| other: "calm_run M w \<Longrightarrow> same_output w w' \<Longrightarrow> calm_run M w'"

inductive_cases calm_runE: "calm_run M w"

lemma banked_run: "output_run M w \<Longrightarrow> banked w"
  by (erule banks.runs) (simp_all add: fresh_def banked_def same_output_def)

lemma calm_output: "calm_run M w \<Longrightarrow> output_run M w"
proof (induction rule: calm_run.induct)
  case (emit w ch ky vo w')
  then show ?case using output_run.emit [of M w ch ky vo] by simp
next
  case (blob w ch ky payload w')
  then show ?case using output_run.blob [of M w ch ky payload] by simp
next
  case (flush w w')
  then show ?case using output_run.flush [of M w] by simp
qed (auto intro: output_run.intros)

lemma covered_EmitBlob:
  assumes "EmitBlob M ch ky payload w = (Inr (), w')" and "covered w" and "books w"
  shows "covered w'"
proof -
  have d: "\<not> wk_durable w" using assms(1) by (auto simp: EmitBlob_def split: if_splits)
  obtain spec w1 where s: "spec_of M ch w = (Inr spec, w1)" using assms(1) d by (auto simp: EmitBlob_def elim: thenW_ok)
  obtain w2 where g: "serveSegments M w1 = (Inr (), w2)" using assms(1) d s by (auto simp: EmitBlob_def elim: thenW_ok)
  obtain a w3 where a: "ask M WriteFile w2 = (a, w3)" by fastforce
  obtain i n st where b: "writeBlob (fault_of a) (wk_instance w3) (clock_of a) payload (the (wk_store w3)) = (Inr (i, n), st)"
    and e: "emit M ch ky (Some (handle_json \<lparr>bh_blob = i, bh_holder = wk_addr w3, bh_size = n\<rparr>)) i (w3\<lparr>wk_store := Some st\<rparr>) = (Inr (), w')"
    using assms(1) d s g a by (auto simp: EmitBlob_def split: prod.splits sum.splits)
  have "covered w1" "books w1"
    using covered_shell [OF assms(2)] spec_shell [of M ch w] books.specified [OF assms(3), of M ch] s by simp_all
  then have "covered w2" "books w2"
    using books.served [of w1 M] serve_same [of w1 M] settings_fields(1) [OF serve_settings [of M w1]] g
    by (simp_all add: covered_def same_buffers_def)
  then have "covered w3" "books w3" using covered_shell [OF _ ask_shell [OF a]] books.asked [of w2 WriteFile M] a by (simp_all add: output_call_def)
  then show ?thesis using covered_emit [OF e] by simp
qed

lemma calm_covered: "calm_run M w \<Longrightarrow> covered w"
proof (induction rule: calm_run.induct)
  case (start w)
  then show ?case by (simp add: fresh_def covered_def)
next
  case (emit w ch ky vo w')
  then show ?case using covered_emit [of M ch ky vo "''''" w w'] books_run [OF calm_output] by (auto simp: Emit_def split: if_splits)
next
  case (blob w ch ky payload w')
  then show ?case using covered_EmitBlob books_run [OF calm_output] by blast
next
  case (flush w w')
  obtain w1 where m: "materialize M w = (Inr (), w1)"
    and p: "(if wk_checkpoint w1 \<noteq> None then (Inr (), w1) else publish M w1) = (Inr (), w')"
    using flush(2) unfolding Flush_def by (elim thenW_ok) auto
  have "covered w1" using covered_materialize [OF m flush.IH] .
  moreover have "w1 = w' \<or> (\<exists>tr u. w' = w1\<lparr>wk_trace := tr, wk_unannounced := u\<rparr>)"
    using p publish_all_done [of M "wk_unannounced w1" w1 w'] by (simp add: publish_def split: if_splits) blast
  ultimately show ?case by (elim disjE exE) (simp, simp add: covered_def)
next
  case (other w w')
  then show ?case by (simp add: covered_def same_output_def same_buffers_def)
qed

subsection \<open>Sample worker\<close>

definition sample_spec :: "string \<Rightarrow> PartitioningMode \<Rightarrow> CombineMode \<Rightarrow> Channel" where
  "sample_spec name mode comb = \<lparr>ch_name = name, ch_from = ''map'', ch_to = ''reduce'',
     ch_partitioning = \<lparr>p_mode = mode, p_partitions = 4\<rparr>, ch_delivery = DeliveryPipelined,
     ch_durability = DurabilityEphemeral, ch_combine = comb, ch_feedback = None\<rparr>"

text \<open>An environment in which everything works; the numbers of the sample machine are natural numbers of one digit.\<close>

definition helpful :: "Channel list \<Rightarrow> history \<Rightarrow> call \<Rightarrow> answer" where
  "helpful specs h c =
     (case c of
        Http GetTopology \<Rightarrow> Answer \<lparr>status = 200, body = Channels specs\<rparr>
      | Http _ \<Rightarrow> Answer \<lparr>status = 204, body = NoBody\<rparr>
      | OpenSegments _ _ \<Rightarrow> Opened ''10.0.0.7:8090''
      | _ \<Rightarrow> Local 5 None)"

definition small_parse :: "string \<Rightarrow> nat option" where
  "small_parse s = (case s of [c] \<Rightarrow> if is_digit c then Some (of_char c - 48) else None | _ \<Rightarrow> None)"

definition small_machine :: "(history \<Rightarrow> call \<Rightarrow> answer) \<Rightarrow> nat machine" where
  "small_machine W = \<lparr>mc_world = W, fl_parse = small_parse, fl_print = (\<lambda>n. if n < 10 then Some [digit n] else None),
     fl_add = (+), fl_less = (<), fl_zero = 0, fl_one = 1\<rparr>"

definition map_pod :: worker where
  "map_pod = init_worker ''i1'' (zero_worker ''map'' ''map-0'' [''in''])"

definition two_channels :: "Channel list" where
  "two_channels = [sample_spec ''a'' PartitionHash CombineNone, sample_spec ''b'' PartitionRoundRobin CombineNone]"

definition calm_machine :: "nat machine" where
  "calm_machine = small_machine (helpful two_channels)"

definition emitted :: "unit wresult \<times> worker" where
  "emitted = Emit calm_machine ''a'' ''k'' (Some (JNumber ''1'')) map_pod"

lemma fresh_map_pod: "fresh map_pod"
  by (simp add: fresh_def map_pod_def init_worker_def zero_worker_def positive_or_def defaultMaxBufferedBytes_def)

lemma emitted_value:
  "fst emitted = Inr () \<and> wk_bufferedBytes (snd emitted) = 2 \<and> wk_checkpoint (snd emitted) = None
   \<and> map fst (wk_buffers (snd emitted)) = [\<lparr>bk_channel = ''a'', bk_partition = 2, bk_epoch = 0\<rparr>]"
  by code_simp

lemma topology_calm: "answers_topology calm_machine combines_nothing"
  by (auto simp: answers_topology_def calm_machine_def small_machine_def helpful_def combines_nothing_def
      two_channels_def sample_spec_def)

subsection \<open>Byte counts\<close>



subsection \<open>A flush delivers everything\<close>

text \<open>
  C15: When \<^verbatim>\<open>Flush\<close> returns nil in a run whose earlier calls succeeded, nothing is held back: every
  buffer is empty, no announcement waits, and the records of every buffer either went to the
  coordinator in a request it accepted or are the text of a segment this pod or the durable store
  keeps, whose announcement, with that channel, partition, epoch, record count and size, it accepted.
\<close>

theorem flush_hands_over:
  assumes "calm_run M w" and "wk_checkpoint w = None" and "Flush M w = (Inr (), w')"
  shows "buffered w' k = [] \<and> wk_unannounced w' = []
    \<and> (buffered w k \<noteq> [] \<longrightarrow> posted w' k (buffered w k) \<or> announced_for w' k (buffered w k))"
  using flush_delivers [OF assms(3) calm_covered [OF assms(1)] banked_run [OF calm_output [OF assms(1)]] assms(2)] .

definition flushed_pod :: "unit wresult \<times> worker" where
  "flushed_pod = Flush calm_machine (snd emitted)"

lemma flushed_value: "fst flushed_pod = Inr () \<and> length (wk_trace (snd flushed_pod)) = 4"
  by code_simp

lemma emitted_buffered: "buffered (snd emitted) \<lparr>bk_channel = ''a'', bk_partition = 2, bk_epoch = 0\<rparr> \<noteq> []"
  by code_simp

theorem flush_hands_over_witness:
  "buffered (snd flushed_pod) \<lparr>bk_channel = ''a'', bk_partition = 2, bk_epoch = 0\<rparr> = [] \<and> wk_unannounced (snd flushed_pod) = []
   \<and> (posted (snd flushed_pod) \<lparr>bk_channel = ''a'', bk_partition = 2, bk_epoch = 0\<rparr>
        (buffered (snd emitted) \<lparr>bk_channel = ''a'', bk_partition = 2, bk_epoch = 0\<rparr>)
      \<or> announced_for (snd flushed_pod) \<lparr>bk_channel = ''a'', bk_partition = 2, bk_epoch = 0\<rparr>
        (buffered (snd emitted) \<lparr>bk_channel = ''a'', bk_partition = 2, bk_epoch = 0\<rparr>))"
proof -
  have e: "Emit calm_machine ''a'' ''k'' (Some (JNumber ''1'')) map_pod = (Inr (), snd emitted)"
    using emitted_value unfolding emitted_def by (metis prod.collapse)
  have c: "calm_run calm_machine (snd emitted)" by (rule calm_run.emit [OF calm_run.start [OF fresh_map_pod] e])
  have f: "Flush calm_machine (snd emitted) = (Inr (), snd flushed_pod)"
    using flushed_value unfolding flushed_pod_def by (metis prod.collapse)
  show ?thesis using flush_hands_over [OF c _ f] emitted_value emitted_buffered by blast
qed

subsection \<open>A failed flush\<close>

text \<open>The first write of a segment file fails, later ones work.\<close>

definition failing_once :: "Channel list \<Rightarrow> history \<Rightarrow> call \<Rightarrow> answer" where
  "failing_once specs h c =
     (if c = WriteFile \<and> list_all (\<lambda>(c', _). c' \<noteq> WriteFile) h then Local 5 (Some ''no space left on device'')
      else helpful specs h c)"

definition failing_machine :: "nat machine" where
  "failing_machine = small_machine (failing_once two_channels)"

definition two_emitted :: worker where
  "two_emitted = snd (Emit failing_machine ''b'' ''k'' (Some (JNumber ''2''))
     (snd (Emit failing_machine ''a'' ''k'' (Some (JNumber ''1'')) map_pod)))"


subsection \<open>Announcements can be placed\<close>

text \<open>
  Whatever a worker emitted, the announcements it holds for a channel are never refused by the
  coordinator for a partition out of range or for naming another channel, provided both use the same
  declaration of the channel: the partition is 0, the hash of the key or the round-robin turn, modulo
  the partition count.
\<close>

theorem announcements_placeable:
  assumes "output_run M w" and "answers_topology M int32_partitions"
    and "map_of (wk_unannounced w) ch = Some anns" and "loaded w ch (c_spec c)"
  shows "announce_check ch c anns h \<noteq> Inl (Error 400 ''partition %d out of range for channel %q'')
    \<and> announce_check ch c anns h \<noteq> Inl (Error 400 ''segment %q announced for channel %q on channel %q'')"
proof (rule announce_check_placeable)
  fix a
  assume "a \<in> set anns"
  then have "a_channel a = ch \<and> (a_id a = '''' \<or> in_parts w ch (a_partition a))"
    using ranged_run [OF assms(1,2)] assms(3) unfolding ranged_def by blast
  then show "a_channel a = ch \<and> (a_id a = '''' \<or> 0 \<le> a_partition a \<and> a_partition a < partitions c)"
    using assms(4) by (auto simp: in_parts_def loaded_def partitions_def)
qed

end
