(* ===== verification/Combining.thy ===== *)
theory Combining
  imports Emission
begin

text \<open>
  Combining equals folding: what a buffer of a combining channel holds is what folding the emitted
  facts key by key gives.
\<close>

subsection \<open>The reference\<close>

fun add_fact :: "('f \<Rightarrow> 'f \<Rightarrow> 'f) \<Rightarrow> string \<times> 'f \<Rightarrow> (string \<times> 'f) list \<Rightarrow> (string \<times> 'f) list" where
  "add_fact f (ky, x) [] = [(ky, x)]"
| "add_fact f (ky, x) ((k', y) # ts) = (if k' = ky then (k', f y x) # ts else (k', y) # add_fact f (ky, x) ts)"

definition totals :: "('f \<Rightarrow> 'f \<Rightarrow> 'f) \<Rightarrow> (string \<times> 'f) list \<Rightarrow> (string \<times> 'f) list" where
  "totals f facts = fold (add_fact f) facts []"

definition operation_of :: "'f machine \<Rightarrow> CombineMode \<Rightarrow> 'f \<Rightarrow> 'f \<Rightarrow> 'f" where
  "operation_of M mode held incoming =
     (case mode of
        CombineMin \<Rightarrow> if fl_less M incoming held then incoming else held
      | CombineMax \<Rightarrow> if fl_less M held incoming then incoming else held
      | _ \<Rightarrow> fl_add M held incoming)"

text \<open>A count adds one for every fact, whatever its value; the other modes need a number.\<close>

definition fact_value :: "'f machine \<Rightarrow> CombineMode \<Rightarrow> json \<Rightarrow> 'f option" where
  "fact_value M mode v = (if mode = CombineCount then Some (fl_one M) else to_float M v)"

fun combine_all :: "'f machine \<Rightarrow> bufKey \<Rightarrow> CombineMode \<Rightarrow> int \<Rightarrow> (string \<times> json) list \<Rightarrow> worker \<Rightarrow> unit wresult \<times> worker" where
  "combine_all M k mode ep [] w = (Inr (), w)"
| "combine_all M k mode ep ((ky, v) # facts) w =
     thenW (combine M k mode ky v ep w) (\<lambda>_ w1. combine_all M k mode ep facts w1)"

text \<open>Go prints a \<^verbatim>\<open>float64\<close> so that reading it back gives the same number.\<close>

definition floats_ok :: "'f machine \<Rightarrow> bool" where
  "floats_ok M \<longleftrightarrow> (\<forall>x s. fl_print M x = Some s \<longrightarrow> fl_parse M s = Some x) \<and> fl_parse M ''1'' = Some (fl_one M)"

subsection \<open>The simulation\<close>

definition view :: "'f machine \<Rightarrow> wireRecord list \<Rightarrow> (string \<times> 'f option) list" where
  "view M rs = map (\<lambda>r. (x_key r, to_float M (x_value r))) rs"

definition some_vals :: "(string \<times> 'f) list \<Rightarrow> (string \<times> 'f option) list" where
  "some_vals ts = map (\<lambda>(ky, x). (ky, Some x)) ts"

definition keyed :: "worker \<Rightarrow> bufKey \<Rightarrow> bool" where
  "keyed w k \<longleftrightarrow> (\<forall>i < length (buffered w k). map_of (index_of k w) (x_key (buffered w k ! i)) = Some i)"

definition holds :: "'f machine \<Rightarrow> bufKey \<Rightarrow> (string \<times> 'f) list \<Rightarrow> worker \<Rightarrow> bool" where
  "holds M k ts w \<longleftrightarrow> books w \<and> keyed w k \<and> view M (buffered w k) = some_vals ts"

lemma add_new: "ky \<notin> fst ` set ts \<Longrightarrow> add_fact f (ky, x) ts = ts @ [(ky, x)]"
  by (induction ts) auto

lemma add_seen:
  "distinct (map fst ts) \<Longrightarrow> i < length ts \<Longrightarrow> fst (ts ! i) = ky \<Longrightarrow> add_fact f (ky, x) ts = ts[i := (ky, f (snd (ts ! i)) x)]"
proof (induction ts arbitrary: i)
  case (Cons t ts)
  show ?case
  proof (cases i)
    case 0
    then show ?thesis using Cons.prems by (cases t) auto
  next
    case (Suc j)
    then have "fst (ts ! j) \<in> fst ` set ts" using Cons.prems(2) by simp
    then show ?thesis using Suc Cons by (cases t) auto
  qed
qed simp

lemma view_nth: "i < length rs \<Longrightarrow> view M rs ! i = (x_key (rs ! i), to_float M (x_value (rs ! i)))"
  by (simp add: view_def)

lemma view_lengths: "view M rs = some_vals ts \<Longrightarrow> length rs = length ts \<and> map x_key rs = map fst ts"
proof
  assume v: "view M rs = some_vals ts"
  then have "map fst (view M rs) = map fst (some_vals ts)" by simp
  then show "map x_key rs = map fst ts" by (simp add: view_def some_vals_def comp_def split_def)
  show "length rs = length ts" using arg_cong [OF v, of length] by (simp add: view_def some_vals_def)
qed

lemma keyed_distinct: "keyed w k \<Longrightarrow> distinct (map x_key (buffered w k))"
  by (auto simp: keyed_def distinct_conv_nth) (metis option.inject)

lemma holds_new:
  assumes "holds M k ts w" and "map_of (index_of k w) ky = None" and "to_float M v = Some x"
  shows "holds M k (add_fact f (ky, x) ts) (new_key k ky v ep w)"
proof -
  let ?r = "\<lparr>x_key = ky, x_value = v, x_epoch = ep, x_blob = ''''\<rparr>"
  have b: "buffered (new_key k ky v ep w) k = buffered w k @ [?r]"
    "index_of k (new_key k ky v ep w) = AList.update ky (length (buffered w k)) (index_of k w)"
    by (simp_all add: new_key_def append_alt buffered_def index_of_def map_get_def map_simps add_bytes_def)
  have k: "keyed w k" and v: "view M (buffered w k) = some_vals ts" using assms(1) by (simp_all add: holds_def)
  have n: "ky \<notin> x_key ` set (buffered w k)" using k assms(2) by (auto simp: keyed_def in_set_conv_nth)
  then have "ky \<notin> fst ` set ts" using view_lengths [OF v] by (metis image_set)
  moreover have "keyed (new_key k ky v ep w) k"
    using k n unfolding keyed_def b by (auto simp: map_simps nth_append less_Suc_eq)
  moreover have "view M (buffered w k @ [?r]) = some_vals (ts @ [(ky, x)])"
    using v assms(3) by (simp add: view_def some_vals_def)
  ultimately show ?thesis using assms(1,2) books_new_key b(1) by (simp add: holds_def add_new)
qed

lemma holds_set:
  assumes "holds M k ts w" and "map_of (index_of k w) ky = Some i" and "floats_ok M"
    and "to_float M (x_value (buffered w k ! i)) = Some y" and "setCombined M k i (f y x) w = (Inr (), w')"
  shows "holds M k (add_fact f (ky, x) ts) w'"
proof -
  have k: "keyed w k" and v: "view M (buffered w k) = some_vals ts" and b: "books w" using assms(1) by (simp_all add: holds_def)
  have i: "i < length (buffered w k)" "x_key (buffered w k ! i) = ky" using b assms(2) by (simp_all add: books_def indexed_def)
  obtain s where s: "fl_print M (f y x) = Some s" using assms(5) by (auto simp: setCombined_def split: option.splits)
  let ?rs = "(buffered w k)[i := (buffered w k ! i)\<lparr>x_value := JNumber s\<rparr>]"
  have w': "w' = (add_bytes k (int (length s) - int (length (json_text (x_value (buffered w k ! i))))) w)
      \<lparr>wk_buffers := AList.update k ?rs (wk_buffers w)\<rparr>"
    using assms(5) s by (simp add: setCombined_def Let_def)
  have l: "length (buffered w k) = length ts" "map x_key (buffered w k) = map fst ts" using view_lengths [OF v] by simp_all
  have t: "ts ! i = (ky, y)"
    using arg_cong [OF v, of "\<lambda>z. z ! i"] i assms(4) l(1) by (cases "ts ! i") (simp add: view_nth some_vals_def)
  have "add_fact f (ky, x) ts = ts[i := (ky, f y x)]"
    using add_seen [of ts i ky f x] keyed_distinct [OF k] l i t by simp
  moreover have "view M ?rs = some_vals (ts[i := (ky, f y x)])"
    using v s assms(3) i by (simp add: view_def some_vals_def map_update to_float_def floats_ok_def)
  moreover have "keyed w' k" using k i unfolding w' keyed_def by (simp add: nth_list_update)
  moreover have "buffered w' k = ?rs" unfolding w' by simp
  moreover have "books w'" using books_setCombined [OF b i(1), of M "f y x"] assms(5) by simp
  ultimately show ?thesis by (simp add: holds_def)
qed

lemma holds_combine:
  assumes "holds M k ts w" and "combine M k mode ky v ep w = (Inr (), w')" and "floats_ok M" and "mode \<noteq> CombineNone"
  shows "\<exists>x. fact_value M mode v = Some x \<and> holds M k (add_fact (operation_of M mode) (ky, x) ts) w'"
proof -
  let ?w = "w\<lparr>wk_combineIndex := AList.update k (index_of k w) (wk_combineIndex w)\<rparr>"
  have "index_of j ?w = index_of j w" for j by (simp add: index_of_def map_get_def map_simps)
  then have h: "holds M k ts ?w" using assms(1) by (simp add: holds_def books_def indexed_def keyed_def)
  show ?thesis
  proof (cases "mode = CombineCount")
    case True
    then have op: "operation_of M mode = fl_add M" by (intro ext) (simp add: operation_of_def)
    show ?thesis
    proof (cases "map_of (index_of k ?w) ky")
      case None
      then have "w' = new_key k ky (JNumber ''1'') ep ?w" using assms(2) True by (simp add: combine_def Let_def)
      then show ?thesis using holds_new [OF h None, of "JNumber ''1''" "fl_one M"] assms(3) True
        by (simp add: fact_value_def to_float_def floats_ok_def)
    next
      case (Some i)
      then obtain y where y: "to_float M (x_value (buffered ?w k ! i)) = Some y" and "setCombined M k i (fl_add M y (fl_one M)) ?w = (Inr (), w')"
        using assms(2) True by (auto simp: combine_def Let_def split: option.splits)
      then show ?thesis unfolding op using holds_set [OF h Some assms(3) y, of "fl_add M" "fl_one M" w'] True
        by (simp add: fact_value_def)
    qed
  next
    case False
    obtain x where x: "to_float M v = Some x" using assms(2) False by (auto simp: combine_def Let_def split: option.splits)
    show ?thesis
    proof (cases "map_of (index_of k ?w) ky")
      case None
      then have "w' = new_key k ky v ep ?w" using assms(2) False x by (simp add: combine_def Let_def)
      then show ?thesis using holds_new [OF h None x] False x by (simp add: fact_value_def)
    next
      case (Some i)
      then obtain y where y: "to_float M (x_value (buffered ?w k ! i)) = Some y"
        and c: "setCombined M k i (operation_of M mode y x) ?w = (Inr (), w')"
        using assms(2,4) False x by (cases mode) (auto simp: combine_def combined_def operation_of_def Let_def split: option.splits)
      then show ?thesis using holds_set [OF h Some assms(3) y, of "operation_of M mode" x w'] False x c by (simp add: fact_value_def)
    qed
  qed
qed

lemma holds_all:
  "holds M k ts w \<Longrightarrow> combine_all M k mode ep facts w = (Inr (), w') \<Longrightarrow> floats_ok M \<Longrightarrow> mode \<noteq> CombineNone \<Longrightarrow>
   \<exists>xs. list_all2 (\<lambda>f x. fact_value M mode (snd f) = Some x) facts xs
     \<and> holds M k (fold (add_fact (operation_of M mode)) (zip (map fst facts) xs) ts) w'"
proof (induction facts arbitrary: ts w)
  case (Cons f facts)
  obtain ky v where f: "f = (ky, v)" by fastforce
  obtain w1 where 1: "combine M k mode ky v ep w = (Inr (), w1)" "combine_all M k mode ep facts w1 = (Inr (), w')"
    using Cons.prems(2) unfolding f combine_all.simps by (elim thenW_ok) auto
  obtain x where x: "fact_value M mode v = Some x" "holds M k (add_fact (operation_of M mode) (ky, x) ts) w1"
    using holds_combine [OF Cons.prems(1) 1(1) Cons.prems(3,4)] by blast
  obtain xs where "list_all2 (\<lambda>f x. fact_value M mode (snd f) = Some x) facts xs"
    "holds M k (fold (add_fact (operation_of M mode)) (zip (map fst facts) xs) (add_fact (operation_of M mode) (ky, x) ts)) w'"
    using Cons.IH [OF x(2) 1(2) Cons.prems(3,4)] by blast
  then show ?case using x(1) f by (intro exI [of _ "x # xs"]) simp
qed (auto intro: exI [of _ "[]"])

text \<open>
  C34: Combining in the buffer equals folding the facts. Emitting any sequence of facts into an empty
  buffer of a channel that declares Sum, Min, Max or Count leaves one record per distinct key, in the
  order the keys first appeared, whose number is the fold of the numbers emitted for that key: their
  sum, least or greatest, or how many they were.
\<close>

theorem combining_folds:
  assumes "floats_ok M" and "mode \<noteq> CombineNone" and "books w" and "buffered w k = []"
    and "combine_all M k mode ep facts w = (Inr (), w')"
  shows "\<exists>xs. list_all2 (\<lambda>f x. fact_value M mode (snd f) = Some x) facts xs
    \<and> map (\<lambda>r. (x_key r, to_float M (x_value r))) (buffered w' k)
      = map (\<lambda>(ky, x). (ky, Some x)) (totals (operation_of M mode) (zip (map fst facts) xs))"
proof -
  have "holds M k [] w" using assms(3,4) by (simp add: holds_def keyed_def view_def some_vals_def)
  from holds_all [OF this assms(5,1,2)] show ?thesis unfolding holds_def view_def some_vals_def totals_def by blast
qed

lemma small_floats: "floats_ok (small_machine W)"
  by (auto simp: floats_ok_def small_machine_def small_parse_def is_digit_def digit_def split: if_splits)

definition sum_key :: bufKey where
  "sum_key = \<lparr>bk_channel = ''s'', bk_partition = 0, bk_epoch = 0\<rparr>"

definition sum_facts :: "(string \<times> json) list" where
  "sum_facts = [(''x'', JNumber ''2''), (''y'', JNumber ''4''), (''x'', JNumber ''3'')]"

definition summed :: "unit wresult \<times> worker" where
  "summed = combine_all calm_machine sum_key CombineSum 0 sum_facts map_pod"

lemma summed_value:
  "fst summed = Inr () \<and> map (\<lambda>r. (x_key r, x_value r)) (buffered (snd summed) sum_key) = [(''x'', JNumber ''5''), (''y'', JNumber ''4'')]"
  by code_simp

theorem combining_folds_witness:
  "map (\<lambda>r. (x_key r, x_value r)) (buffered (snd summed) sum_key) = [(''x'', JNumber ''5''), (''y'', JNumber ''4'')]
   \<and> (\<exists>xs. list_all2 (\<lambda>f x. fact_value calm_machine CombineSum (snd f) = Some x) sum_facts xs
        \<and> map (\<lambda>r. (x_key r, to_float calm_machine (x_value r))) (buffered (snd summed) sum_key)
          = map (\<lambda>(ky, x). (ky, Some x)) (totals (operation_of calm_machine CombineSum) (zip (map fst sum_facts) xs)))"
proof -
  have s: "combine_all calm_machine sum_key CombineSum 0 sum_facts map_pod = (Inr (), snd summed)"
    using summed_value unfolding summed_def by (metis prod.collapse)
  have b: "books map_pod" by (rule books_run [OF output_run.start [OF fresh_map_pod]])
  have e: "buffered map_pod sum_key = []" using fresh_map_pod by (simp add: fresh_def buffered_def map_get_def)
  have f: "floats_ok calm_machine" unfolding calm_machine_def by (rule small_floats)
  from combining_folds [OF f _ b e s] summed_value show ?thesis by simp
qed

end
