(* ===== verification/Fetching.thy ===== *)
theory Fetching
  imports Emitting
begin

text \<open>
  The reading side of a worker and its retries, after \<^verbatim>\<open>fetch\<close>, \<^verbatim>\<open>decodeSegment\<close>, \<^verbatim>\<open>fetchRetry\<close>,
  \<^verbatim>\<open>retry\<close>, \<^verbatim>\<open>releaseSegments\<close> and \<^verbatim>\<open>heartbeat\<close> of \<^verbatim>\<open>pkg/sdk/sdk.go\<close> and \<^verbatim>\<open>openBlob\<close> of
  \<^verbatim>\<open>pkg/sdk/blob.go\<close>.

  \<open>ContextErr\<close> asks whether the context of \<^verbatim>\<open>Run\<close> has ended and \<open>Clock\<close> reads the time in
  nanoseconds; \<open>Wait\<close> sleeps for a number of milliseconds.
\<close>

subsection \<open>Retrying coordinator calls\<close>

definition ended :: "answer \<Rightarrow> bool" where
  "ended a = (case a of Local _ (Some _) \<Rightarrow> True | _ \<Rightarrow> False)"

definition final_error :: "werror \<Rightarrow> bool" where
  "final_error e \<longleftrightarrow> e = ErrStorageCapacity \<or> e = ErrSealed"

definition pause :: "'f machine \<Rightarrow> int \<Rightarrow> worker \<Rightarrow> worker" where
  "pause M ms w = snd (ask M (Wait ms) w)"

fun retry_loop ::
  "'f machine \<Rightarrow> nat \<Rightarrow> unit wresult \<Rightarrow> (worker \<Rightarrow> unit wresult \<times> worker) \<Rightarrow> worker \<Rightarrow> unit wresult \<times> worker" where
  "retry_loop M 0 err f w = (err, w)"
| "retry_loop M (Suc n) err f w =
     (let (c, w1) = ask M ContextErr w in
      if ended c then (err, w1)
      else
        (case f w1 of
           (Inr _, w2) \<Rightarrow> (Inr (), w2)
         | (Inl e, w2) \<Rightarrow> if final_error e then (Inl e, w2) else retry_loop M n (Inl e) f (pause M 1000 w2)))"

definition retry :: "'f machine \<Rightarrow> (worker \<Rightarrow> unit wresult \<times> worker) \<Rightarrow> worker \<Rightarrow> unit wresult \<times> worker" where
  "retry M f w = retry_loop M 30 (Inr ()) f w"

subsection \<open>Reading a segment\<close>

fun decode_items :: "int \<Rightarrow> wireRecord option list \<Rightarrow> wireRecord list \<Rightarrow> wireRecord list wresult" where
  "decode_items limit [] recs = Inr recs"
| "decode_items limit (it # its) recs =
     (if limit \<le> int (length recs) then Inl (WorkerError ''fetch segment %s: decoded records exceed limit %d'')
      else
        (case it of
           None \<Rightarrow> Inl (WorkerError ''invalid record'')
         | Some r \<Rightarrow> decode_items limit its (recs @ [r\<lparr>x_blob := ''''\<rparr>])))"

definition decodeSegment :: "segmentBody \<Rightarrow> int \<Rightarrow> wireRecord list wresult" where
  "decodeSegment b limit =
     (case sb_opening b of
        None \<Rightarrow> Inl (WorkerError ''unexpected EOF'')
      | Some False \<Rightarrow> Inl (WorkerError ''fetch segment %s: body must be a JSON array'')
      | Some True \<Rightarrow>
          (case decode_items limit (sb_items b) [] of
             Inl e \<Rightarrow> Inl e
           | Inr recs \<Rightarrow>
               if \<not> sb_closed b then Inl (WorkerError ''unexpected EOF'')
               else
                 (case sb_trailer b of
                    EndOfBody \<Rightarrow> Inr recs
                  | AnotherValue \<Rightarrow> Inl (WorkerError ''fetch segment %s: response contains more than one JSON value'')
                  | BadTrailer \<Rightarrow> Inl (WorkerError ''fetch segment %s: trailing response data: %w''))))"

definition fetchDurable :: "'f machine \<Rightarrow> SegmentRef \<Rightarrow> worker \<Rightarrow> wireRecord list wresult \<times> worker" where
  "fetchDurable M sg w =
     (if \<not> wk_bounded w
      then (Inl (WorkerError ''fetch segment %s: durable store does not support bounded reads''), w)
      else
        (case ask M (GetSegment (segmentKey w (ref_id sg)) (wk_maxFetchedBytes w)) w of
           (Stored b, w1) \<Rightarrow> (decodeSegment b (wk_maxFetchedRecords w), w1)
         | (_, w1) \<Rightarrow> (Inl (WorkerError ''fetch %s from durable storage: %w''), w1)))"

definition segment_url :: "worker \<Rightarrow> SegmentRef \<Rightarrow> string" where
  "segment_url w sg =
     (let holder = trim_right_slashes (ref_holder sg) in
      if HasPrefix holder ''http://'' \<or> HasPrefix holder ''https://''
      then holder @ ''/'' @ segmentKey w (ref_id sg)
      else ''http://'' @ holder @ ''/segments/'' @ ref_id sg)"

text \<open>
  A body longer than the limit never gives records: the limited reader is exhausted when the decoder
  succeeds, and when it fails the result is an error either way.
\<close>

definition fetch :: "'f machine \<Rightarrow> SegmentRef \<Rightarrow> worker \<Rightarrow> wireRecord list wresult \<times> worker" where
  "fetch M sg w =
     (if wk_maxFetchedBytes w < ref_bytes sg
      then (Inl (WorkerError ''fetch segment %s: declared size %d exceeds fetched-byte limit %d''), w)
      else if wk_maxFetchedRecords w < ref_records sg
      then (Inl (WorkerError ''fetch segment %s: declared records %d exceeds fetched-record limit %d''), w)
      else if wk_durable w then fetchDurable M sg w
      else
        (case ask M (FetchSegment (segment_url w sg)) w of
           (SegmentPage st b, w1) \<Rightarrow>
             if st \<noteq> 200 then (Inl (WorkerError ''fetch %s from %s: %s''), w1)
             else if wk_maxFetchedBytes w < sb_length b
             then (Inl (WorkerError ''fetch segment %s: encoded body exceeds fetched-byte limit %d''), w1)
             else (decodeSegment b (wk_maxFetchedRecords w), w1)
         | (Unreachable e, w1) \<Rightarrow> (Inl (WorkerError e), w1)
         | (_, w1) \<Rightarrow> (Inl (WorkerError ''no response''), w1)))"

definition fetchAttempts :: nat where "fetchAttempts = 6"
definition fetchRetryFloor :: int where "fetchRetryFloor = 200"
definition fetchRetryCeiling :: int where "fetchRetryCeiling = 2000"
definition fetchRetryBudget :: int where "fetchRetryBudget = 6000"

definition retry_context_ended :: "'f machine \<Rightarrow> int \<Rightarrow> worker \<Rightarrow> bool \<times> worker" where
  "retry_context_ended M deadline w =
     (let (c, w1) = ask M ContextErr w; (t, w2) = ask M Clock w1 in (ended c \<or> deadline \<le> int (clock_of t), w2))"

fun fetch_loop ::
  "'f machine \<Rightarrow> int \<Rightarrow> SegmentRef \<Rightarrow> nat \<Rightarrow> int \<Rightarrow> worker \<Rightarrow> wireRecord list option \<times> worker" where
  "fetch_loop M deadline sg 0 wait w = (None, w)"
| "fetch_loop M deadline sg (Suc left) wait w =
     (let (done, w1) = retry_context_ended M deadline w in
      if done then (None, w1)
      else
        (case fetch M sg w1 of
           (Inr recs, w2) \<Rightarrow> (Some recs, w2)
         | (Inl _, w2) \<Rightarrow>
             if left = 0 then (None, w2)
             else fetch_loop M deadline sg left (if wait < fetchRetryCeiling then 2 * wait else wait) (pause M wait w2)))"

definition fetchRetry :: "'f machine \<Rightarrow> SegmentRef \<Rightarrow> worker \<Rightarrow> wireRecord list wresult \<times> worker" where
  "fetchRetry M sg w =
     (let (t, w1) = ask M Clock w; deadline = int (clock_of t) + fetchRetryBudget * 1000000 in
      case fetch_loop M deadline sg fetchAttempts fetchRetryFloor w1 of
        (Some recs, w2) \<Rightarrow> (Inr recs, w2)
      | (None, w2) \<Rightarrow>
          (let (c, w3) = ask M ContextErr w2 in
           if ended c then (Inl (WorkerError ''context canceled''), w3)
           else (Inl (WorkerError ''fetch segment %s from %s: giving up after %d attempts: %w''), w3)))"

subsection \<open>Blobs\<close>

text \<open>Three attempts, with a growing pause between them; a missing blob is not asked for again.\<close>

fun open_loop :: "'f machine \<Rightarrow> BlobHandle \<Rightarrow> nat \<Rightarrow> nat \<Rightarrow> worker \<Rightarrow> (string \<times> int) wresult \<times> worker" where
  "open_loop M h attempt 0 w = (Inl (WorkerError ''blob %s on holder %s: %w''), w)"
| "open_loop M h attempt (Suc left) w =
     (let (c, w1) = (if attempt = 0 then (Local 0 None, w) else ask M ContextErr (pause M (200 * int attempt) w)) in
      if ended c then (Inl (WorkerError ''context canceled''), w1)
      else
        (case ask M (FetchBlob (''http://'' @ bh_holder h @ ''/blobs/'' @ bh_blob h)) w1 of
           (BlobPage st payload, w2) \<Rightarrow>
             if st = 200 then (Inr (payload, int (length payload)), w2)
             else if st = 404 then (Inl (WorkerError ''blob %s on holder %s: %w''), w2)
             else open_loop M h (attempt + 1) left w2
         | (_, w2) \<Rightarrow> open_loop M h (attempt + 1) left w2))"

definition openBlob :: "'f machine \<Rightarrow> BlobHandle \<Rightarrow> worker \<Rightarrow> (string \<times> int) wresult \<times> worker" where
  "openBlob M h w = open_loop M h 0 3 w"

definition OpenBlobContext :: "'f machine \<Rightarrow> json \<Rightarrow> worker \<Rightarrow> (string \<times> int) wresult \<times> worker" where
  "OpenBlobContext M v w =
     (case record_Blob v of
        None \<Rightarrow> (Inl (WorkerError ''record carries no blob handle''), w)
      | Some h \<Rightarrow> openBlob M h w)"

subsection \<open>Releasing and heartbeats\<close>

definition release_one :: "'f machine \<Rightarrow> string \<Rightarrow> worker \<Rightarrow> worker" where
  "release_one M i w =
     (if wk_durable w then snd (ask M (DeleteSegment (segmentKey w i)) w)
      else
        (case wk_store w of
           None \<Rightarrow> w
         | Some st \<Rightarrow>
             (let (a, w1) = ask M (RemoveFile i) w in
              w1\<lparr>wk_store := Some (store_remove (fault_of a \<noteq> None) i st)\<rparr>)))"

definition releaseSegments :: "'f machine \<Rightarrow> worker \<Rightarrow> worker" where
  "releaseSegments M w =
     (if wk_store w = None \<and> \<not> wk_durable w then w
      else
        (case do_request M (GetReleased (wk_operation w) (wk_instance w) (wk_incarnation w)) w of
           (Inr (IDs ids), w1) \<Rightarrow> fold (release_one M) ids w1
         | (_, w1) \<Rightarrow> w1))"

definition heartbeat :: "'f machine \<Rightarrow> worker \<Rightarrow> worker" where
  "heartbeat M w = releaseSegments M (snd (register M w))"

end
