(* ===== verification/Running.thy ===== *)
theory Running
  imports Fetching
begin

text \<open>
  Running a worker, after \<^verbatim>\<open>Run\<close> of \<^verbatim>\<open>pkg/sdk/sdk.go\<close> and the operation checkpoints of
  \<^verbatim>\<open>pkg/sdk/checkpoint.go\<close>.

  A handler is a \<open>script\<close>: it emits, flushes and opens blobs, sees the outcome of each, and ends with
  an error or not and a new application state. \<open>run_loop\<close> makes a bounded number of passes over the
  inbound channels; \<open>None\<close> means that the worker is still polling. Durations are milliseconds. The
  heartbeat runs beside this loop, touching only the segment store. The storage calls of a checkpoint
  (claim, state object, commit) are calls of the environment: the manifest read by a claim is \<open>None\<close>
  when the object did not exist before.
\<close>

subsection \<open>Handlers\<close>

datatype action =
    DoEmit string string "json option" | DoEmitBlob string string string | DoFlush | DoOpenBlob json
  | DoValidate string string "json option" | DoEpoch

datatype outcome = Done | Failed werror | Payload string | AtEpoch int int

datatype 'a script = Return "werror option" 'a | Act action "outcome \<Rightarrow> 'a script"

definition outcome_of :: "unit wresult \<Rightarrow> outcome" where
  "outcome_of r = (case r of Inl e \<Rightarrow> Failed e | Inr _ \<Rightarrow> Done)"

fun do_action :: "'f machine \<Rightarrow> action \<Rightarrow> worker \<Rightarrow> outcome \<times> worker" where
  "do_action M (DoEmit ch ky vo) w = (let (r, w1) = Emit M ch ky vo w in (outcome_of r, w1))"
| "do_action M (DoEmitBlob ch ky payload) w = (let (r, w1) = EmitBlob M ch ky payload w in (outcome_of r, w1))"
| "do_action M DoFlush w = (let (r, w1) = Flush M w in (outcome_of r, w1))"
| "do_action M (DoOpenBlob v) w =
     (case OpenBlobContext M v w of (Inl e, w1) \<Rightarrow> (Failed e, w1) | (Inr (payload, _), w1) \<Rightarrow> (Payload payload, w1))"
| "do_action M (DoValidate ch ky vo) w = (let (r, w1) = ValidateEmit M ch ky vo w in (outcome_of r, w1))"
| "do_action M DoEpoch w = (AtEpoch (wk_epoch w) (wk_maxEpoch w), w)"

primrec run_script :: "'a script \<Rightarrow> 'f machine \<Rightarrow> worker \<Rightarrow> unit wresult \<times> 'a \<times> worker" where
  "run_script (Return e s) M w = (case e of None \<Rightarrow> Inr () | Some x \<Rightarrow> Inl x, s, w)"
| "run_script (Act a k) M w = (let (oc, w1) = do_action M a w in run_script (k oc) M w1)"

record 'a handlers =
  h_snapshot :: "('a \<Rightarrow> string wresult) option"
  h_restore :: "(string \<Rightarrow> 'a \<Rightarrow> 'a wresult) option"
  h_source :: "('a \<Rightarrow> 'a script) option"
  h_onRecord :: "(string \<Rightarrow> wireRecord \<Rightarrow> int \<Rightarrow> int \<Rightarrow> 'a \<Rightarrow> 'a script) option"
  h_onEpochEnd :: "(int \<Rightarrow> 'a \<Rightarrow> 'a script) option"
  h_onDrain :: "('a \<Rightarrow> 'a script) option"
  h_tick :: "('a \<Rightarrow> 'a script) option"

definition on_worker :: "(worker \<Rightarrow> 'x wresult \<times> worker) \<Rightarrow> 'a \<times> worker \<Rightarrow> 'x wresult \<times> 'a \<times> worker" where
  "on_worker f st = (let (r, w) = f (snd st) in (r, fst st, w))"

definition handle :: "'f machine \<Rightarrow> ('a \<Rightarrow> 'a script) option \<Rightarrow> 'a \<times> worker \<Rightarrow> unit wresult \<times> 'a \<times> worker" where
  "handle M f st = (case f of None \<Rightarrow> (Inr (), st) | Some g \<Rightarrow> run_script (g (fst st)) M (snd st))"

subsection \<open>Operation checkpoints\<close>

definition emptyManifest :: checkpointManifest where
  "emptyManifest = \<lparr>mf_boundary = 0, mf_complete = False, mf_epochCallbackComplete = False, mf_epoch = 0,
     mf_stateKey = '''', mf_inputs = [], mf_outputs = []\<rparr>"

definition checkpointKey :: "worker \<Rightarrow> string" where
  "checkpointKey w =
     (let p = trim_slashes (wk_checkpointPrefix w); q = (if p = '''' then trim_slashes (wk_prefix w) else p);
          r = (if q = '''' then '''' else q @ ''/'')
      in r @ ''checkpoints/'' @ wk_operation w @ ''.json'')"

definition checkpointPrefixOf :: "worker \<Rightarrow> string" where
  "checkpointPrefixOf w = take (length (checkpointKey w) - length ''.json'') (checkpointKey w)"

definition inputKey :: "string \<Rightarrow> SegmentAck \<Rightarrow> string" where
  "inputKey channel a =
     (if k_appendID a \<noteq> '''' then channel @ [CHR 0x00] @ ''append'' @ [CHR 0x00] @ k_appendID a
      else channel @ [CHR 0x00] @ k_holder a @ [CHR 0x00] @ k_id a)"

definition bareAck :: "string \<Rightarrow> string \<Rightarrow> string \<Rightarrow> SegmentAck" where
  "bareAck i appendID holder = \<lparr>k_id = i, k_appendID = appendID, k_holder = holder, k_pod = '''', k_failure = '''', k_retryAfterMillis = 0\<rparr>"

definition covers :: "checkpointSession \<Rightarrow> string \<Rightarrow> SegmentRef \<Rightarrow> bool" where
  "covers cs channel sg \<longleftrightarrow>
     (ref_appendID sg \<noteq> '''' \<and> inputKey channel (bareAck (ref_id sg) (ref_appendID sg) '''') \<in> set (cs_covered cs))
     \<or> inputKey channel (bareAck (ref_id sg) '''' (ref_holder sg)) \<in> set (cs_covered cs)"

definition cover_inputs :: "checkpointInput list \<Rightarrow> string goset \<Rightarrow> string goset" where
  "cover_inputs ins covered = fold (\<lambda>i. set_add (inputKey (ci_channel i) (ci_ack i))) ins covered"

definition call_done :: "'f machine \<Rightarrow> call \<Rightarrow> string \<Rightarrow> worker \<Rightarrow> unit wresult \<times> worker" where
  "call_done M c msg w = (case ask M c w of (Local _ None, w1) \<Rightarrow> (Inr (), w1) | (_, w1) \<Rightarrow> (Inl (WorkerError msg), w1))"

definition startCheckpoint :: "'f machine \<Rightarrow> 'a handlers \<Rightarrow> 'a \<times> worker \<Rightarrow> unit wresult \<times> 'a \<times> worker" where
  "startCheckpoint M h st =
     (let (s, w) = st in
      if \<not> wk_checkpointed w
      then
        if h_snapshot h \<noteq> None \<or> h_restore h \<noteq> None
        then (Inl (WorkerError ''Snapshot and Restore require CheckpointStore''), st) else (Inr (), st)
      else
        (case (h_snapshot h, h_restore h) of
           (Some _, Some rst) \<Rightarrow>
             (case ask M (ClaimCheckpoint (checkpointKey w) (wk_incarnation w)) w of
                (Claimed previous, w1) \<Rightarrow>
                  (let session = \<lparr>cs_prefix = checkpointPrefixOf w, cs_current = emptyManifest, cs_covered = []\<rparr>;
                       w2 = w1\<lparr>wk_checkpoint := Some session\<rparr> in
                   case previous of
                     None \<Rightarrow> (Inr (), s, w2)
                   | Some m \<Rightarrow>
                       (case ask M (GetState (mf_stateKey m)) (w2\<lparr>wk_checkpoint := Some (session\<lparr>cs_current := m\<rparr>)\<rparr>) of
                          (StateBytes b, w3) \<Rightarrow>
                            (case rst b s of
                               Inl e \<Rightarrow> (Inl (WorkerError ''restore checkpoint state: %w''), s, w3)
                             | Inr s' \<Rightarrow>
                                 on_worker (publish M)
                                   (s', w3\<lparr>wk_epoch := mf_epoch m, wk_unannounced := mf_outputs m,
                                          wk_checkpoint := Some (session\<lparr>cs_current := m, cs_covered := cover_inputs (mf_inputs m) []\<rparr>)\<rparr>))
                        | (_, w3) \<Rightarrow> (Inl (WorkerError ''read checkpoint state: %w''), s, w3)))
              | (_, w1) \<Rightarrow> (Inl (WorkerError ''claim checkpoint''), s, w1))
         | _ \<Rightarrow> (Inl (WorkerError ''CheckpointStore requires both Snapshot and Restore''), st)))"

definition add_outputs ::
  "(string, SegmentAnnouncement list) gomap \<Rightarrow> (string, SegmentAnnouncement list) gomap \<Rightarrow> (string, SegmentAnnouncement list) gomap"
where
  "add_outputs new old = fold (\<lambda>(ch, anns) m. AList.update ch (map_get [] m ch @ anns) m) new old"

definition next_manifest :: "worker \<Rightarrow> checkpointSession \<Rightarrow> string \<Rightarrow> SegmentAck list \<Rightarrow> bool \<Rightarrow> bool \<Rightarrow> checkpointManifest" where
  "next_manifest w cs channel acks complete epochCallbackComplete =
     (let m = cs_current cs; b = mf_boundary m + 1 in
      \<lparr>mf_boundary = b, mf_complete = complete, mf_epochCallbackComplete = epochCallbackComplete, mf_epoch = wk_epoch w,
       mf_stateKey = cs_prefix cs @ ''/state-'' @ itoa b @ ''-'' @ wk_incarnation w,
       mf_inputs = mf_inputs m @ map (\<lambda>a. \<lparr>ci_channel = channel, ci_ack = a\<rparr>) acks,
       mf_outputs = add_outputs (wk_unannounced w) (mf_outputs m)\<rparr>)"

definition commitCheckpoint ::
  "'f machine \<Rightarrow> 'a handlers \<Rightarrow> string \<Rightarrow> SegmentAck list \<Rightarrow> bool \<Rightarrow> bool \<Rightarrow> 'a \<times> worker \<Rightarrow> unit wresult \<times> 'a \<times> worker"
where
  "commitCheckpoint M h channel acks complete epochCallbackComplete st =
     thenW (on_worker (materialize M) st) (\<lambda>_ st1.
       case (h_snapshot h, wk_checkpoint (snd st1)) of
         (Some snap, Some cs) \<Rightarrow>
           (case snap (fst st1) of
              Inl e \<Rightarrow> (Inl (WorkerError ''snapshot state: %w''), st1)
            | Inr bytes \<Rightarrow>
                (let m = next_manifest (snd st1) cs channel acks complete epochCallbackComplete in
                 thenW (on_worker (call_done M (PutState (mf_stateKey m) bytes) ''put immutable object'') st1) (\<lambda>_ st2.
                 thenW (on_worker (call_done M (CommitCheckpoint m) ''commit checkpoint'') st2) (\<lambda>_ st3.
                 thenW (on_worker (publish M) (fst st3, (snd st3)\<lparr>wk_checkpoint :=
                          Some (cs\<lparr>cs_current := m, cs_covered := cover_inputs (mf_inputs m) (cs_covered cs)\<rparr>)\<rparr>)) (\<lambda>_ st4.
                   if acks = [] then (Inr (), st4) else on_worker (retry M (ack M channel acks)) st4)))))
       | _ \<Rightarrow> (Inl (WorkerError ''nil pointer dereference''), st1))"

subsection \<open>Processing a segment\<close>

fun on_records :: "'f machine \<Rightarrow> 'a handlers \<Rightarrow> string \<Rightarrow> wireRecord list \<Rightarrow> 'a \<times> worker \<Rightarrow> unit wresult \<times> 'a \<times> worker" where
  "on_records M h ch [] st = (Inr (), st)"
| "on_records M h ch (r # rs) st =
     (let w = (if wk_syncLoop (snd st) then snd st else (snd st)\<lparr>wk_epoch := x_epoch r\<rparr>) in
      thenW (handle M (map_option (\<lambda>f. f ch r (wk_epoch w) (wk_maxEpoch w)) (h_onRecord h)) (fst st, w)) (\<lambda>_ st1.
        on_records M h ch rs st1))"

definition segment_ack :: "worker \<Rightarrow> SegmentRef \<Rightarrow> SegmentAck" where
  "segment_ack w sg = \<lparr>k_id = ref_id sg, k_appendID = ref_appendID sg, k_holder = ref_holder sg, k_pod = wk_instance w,
     k_failure = '''', k_retryAfterMillis = 0\<rparr>"

definition return_delivery :: "'f machine \<Rightarrow> string \<Rightarrow> SegmentRef \<Rightarrow> worker \<Rightarrow> unit wresult \<times> worker" where
  "return_delivery M ch sg w =
     (let (c, w1) = ask M ContextErr w in
      if ended c then (Inl (WorkerError ''context canceled''), w1)
      else
        (case nack M ch [(segment_ack w sg)\<lparr>k_failure := ''fetch segment %s from %s: %v'', k_retryAfterMillis := 500\<rparr>] w1 of
           (Inl _, w2) \<Rightarrow> (Inl (WorkerError ''%s; return delivery: %w''), w2)
         | (Inr _, w2) \<Rightarrow> (Inl (WorkerError ''%s; delivery returned''), w2)))"

definition finish_segment ::
  "'f machine \<Rightarrow> 'a handlers \<Rightarrow> string \<Rightarrow> SegmentRef \<Rightarrow> 'a \<times> worker \<Rightarrow> unit wresult \<times> 'a \<times> worker" where
  "finish_segment M h ch sg st =
     (let acks = [segment_ack (snd st) sg] in
      if wk_checkpoint (snd st) \<noteq> None then commitCheckpoint M h ch acks False False st
      else
        thenW (on_worker (retry M (Flush M)) st) (\<lambda>_ st1. on_worker (retry M (ack M ch acks)) st1))"

definition process_segment ::
  "'f machine \<Rightarrow> 'a handlers \<Rightarrow> string \<Rightarrow> int \<Rightarrow> SegmentRef \<Rightarrow> 'a \<times> worker \<Rightarrow> unit wresult \<times> 'a \<times> worker" where
  "process_segment M h ch part sg st =
     (if (case wk_checkpoint (snd st) of None \<Rightarrow> False | Some cs \<Rightarrow> covers cs ch sg)
      then on_worker (retry M (ack M ch [segment_ack (snd st) sg])) st
      else
        (case fetchRetry M sg (snd st) of
           (Inl _, w1) \<Rightarrow> on_worker (return_delivery M ch sg) (fst st, w1)
         | (Inr recs, w1) \<Rightarrow>
             thenW (on_records M h ch recs
                      (fst st, w1\<lparr>wk_task := \<lparr>t_channel = ch, t_partition = part, t_epoch = ref_epoch sg, t_attempt = 0\<rparr>\<rparr>))
               (\<lambda>_ st1. finish_segment M h ch sg st1)))"

fun process_all ::
  "'f machine \<Rightarrow> 'a handlers \<Rightarrow> string \<Rightarrow> (int \<times> SegmentRef) list \<Rightarrow> 'a \<times> worker \<Rightarrow> unit wresult \<times> 'a \<times> worker" where
  "process_all M h ch [] st = (Inr (), st)"
| "process_all M h ch ((part, sg) # rest) st =
     thenW (process_segment M h ch part sg st) (\<lambda>_ st1. process_all M h ch rest st1)"

subsection \<open>A pass over the inbound channels\<close>

definition work_items :: "ConsumeResponse \<Rightarrow> (int \<times> SegmentRef) list" where
  "work_items resp = concat (map (\<lambda>pw. map (Pair (w_partition pw)) (w_segments pw)) (resp_work resp))"

definition observe :: "string \<Rightarrow> ConsumeResponse \<Rightarrow> worker \<Rightarrow> worker" where
  "observe ch resp w =
     (let w1 =
        (if ch \<in> set (wk_feedback w)
         then
           (let w0 = w\<lparr>wk_maxEpoch := resp_maxEpochs resp\<rparr> in
            if resp_mode resp \<noteq> FeedbackAsynchronous then w0\<lparr>wk_syncLoop := True, wk_epoch := resp_epoch resp\<rparr> else w0)
         else w) in
      if resp_finiteEpochs resp
      then w1\<lparr>wk_syncLoop := True, wk_epoch := resp_epoch resp, wk_maxEpoch := resp_maxEpochs resp\<rparr> else w1)"

record pass_flags =
  pf_progressed :: bool
  pf_allDrained :: bool
  pf_allQuiet :: bool

definition channel_busy :: "worker \<Rightarrow> string \<Rightarrow> ConsumeResponse \<Rightarrow> bool" where
  "channel_busy w ch resp \<longleftrightarrow>
     (if resp_finiteEpochs resp \<and> \<not> resp_quiescent resp then True
      else if ch \<in> set (wk_feedback w) \<and> resp_mode resp \<noteq> FeedbackAsynchronous \<and> \<not> resp_quiescent resp then True
      else \<not> resp_finiteEpochs resp \<and> ch \<notin> set (wk_feedback w) \<and> \<not> resp_drained resp)"

definition poll_channel ::
  "'f machine \<Rightarrow> 'a handlers \<Rightarrow> string \<Rightarrow> pass_flags \<Rightarrow> 'a \<times> worker \<Rightarrow> pass_flags wresult \<times> 'a \<times> worker" where
  "poll_channel M h ch pf st =
     (case consume M ch 50 (snd st) of
        (Inl _, w1) \<Rightarrow> (Inr (pf\<lparr>pf_allDrained := False, pf_allQuiet := False\<rparr>), fst st, pause M 1000 w1)
      | (Inr resp, w1) \<Rightarrow>
          thenW (process_all M h ch (work_items resp) (fst st, observe ch resp w1)) (\<lambda>_ st2.
            (Inr \<lparr>pf_progressed = pf_progressed pf \<or> work_items resp \<noteq> [],
                  pf_allDrained = (pf_allDrained pf \<and> resp_drained resp),
                  pf_allQuiet = (pf_allQuiet pf \<and> \<not> channel_busy (snd st2) ch resp)\<rparr>, st2)))"

fun poll_channels ::
  "'f machine \<Rightarrow> 'a handlers \<Rightarrow> string list \<Rightarrow> pass_flags \<Rightarrow> 'a \<times> worker \<Rightarrow> pass_flags wresult \<times> 'a \<times> worker" where
  "poll_channels M h [] pf st = (Inr pf, st)"
| "poll_channels M h (ch # chs) pf st = thenW (poll_channel M h ch pf st) (\<lambda>pf1 st1. poll_channels M h chs pf1 st1)"

definition commit_or_flush :: "'f machine \<Rightarrow> 'a handlers \<Rightarrow> bool \<Rightarrow> bool \<Rightarrow> 'a \<times> worker \<Rightarrow> unit wresult \<times> 'a \<times> worker" where
  "commit_or_flush M h complete epochDone st =
     (if wk_checkpoint (snd st) \<noteq> None then commitCheckpoint M h '''' [] complete epochDone st
      else on_worker (retry M (Flush M)) st)"

text \<open>The loop variables of \<^verbatim>\<open>Run\<close>; \<open>verdict\<close> says whether it polls again or returns.\<close>

record loop_state =
  lp_backoff :: int
  lp_observed :: int
  lp_nextTick :: int

datatype verdict = Again loop_state | Finished

definition pollFloor :: int where "pollFloor = 100"
definition pollCeiling :: int where "pollCeiling = 2000"
definition barrierPollCeiling :: int where "barrierPollCeiling = 250"

definition now :: "'f machine \<Rightarrow> worker \<Rightarrow> int \<times> worker" where
  "now M w = (let (a, w1) = ask M Clock w in (int (clock_of a) div 1000000, w1))"

definition ticking :: "'a handlers \<Rightarrow> worker \<Rightarrow> bool" where
  "ticking h w \<longleftrightarrow> h_tick h \<noteq> None \<and> 0 < wk_tickInterval w"

definition maybe_tick ::
  "'f machine \<Rightarrow> 'a handlers \<Rightarrow> loop_state \<Rightarrow> 'a \<times> worker \<Rightarrow> loop_state wresult \<times> 'a \<times> worker" where
  "maybe_tick M h lp st =
     (if \<not> ticking h (snd st) then (Inr lp, st)
      else
        (let (t, w1) = now M (snd st) in
         if t < lp_nextTick lp then (Inr lp, fst st, w1)
         else
           thenW (handle M (h_tick h) (fst st, w1)) (\<lambda>_ st2.
           thenW (on_worker (retry M (Flush M)) st2) (\<lambda>_ st3.
             let (t2, w4) = now M (snd st3) in (Inr (lp\<lparr>lp_nextTick := t2 + wk_tickInterval w4\<rparr>), fst st3, w4)))))"

definition end_of_input :: "'f machine \<Rightarrow> 'a handlers \<Rightarrow> 'a \<times> worker \<Rightarrow> verdict wresult \<times> 'a \<times> worker" where
  "end_of_input M h st =
     thenW (handle M (h_onDrain h) st) (\<lambda>_ st1.
     thenW (commit_or_flush M h True False st1) (\<lambda>_ st2.
     thenW (on_worker (retry M (reportDone M)) st2) (\<lambda>_ st3. (Inr Finished, st3))))"

definition end_epoch :: "'f machine \<Rightarrow> 'a handlers \<Rightarrow> loop_state \<Rightarrow> 'a \<times> worker \<Rightarrow> verdict wresult \<times> 'a \<times> worker" where
  "end_epoch M h lp st =
     thenW (handle M (map_option (\<lambda>f. f (wk_epoch (snd st))) (h_onEpochEnd h)) st) (\<lambda>_ st1.
     thenW (commit_or_flush M h False True st1) (\<lambda>_ st2.
     thenW (on_worker (retry M (\<lambda>w. call_ok M (PostOperationEpochDone (wk_operation w) (wk_instance w) (wk_incarnation w) (wk_epoch w)) w)) st2)
       (\<lambda>_ st3. (Inr (Again lp), fst st3, (snd st3)\<lparr>wk_lastDone := wk_epoch (snd st3)\<rparr>))))"

definition sleep :: "'f machine \<Rightarrow> 'a handlers \<Rightarrow> loop_state \<Rightarrow> 'a \<times> worker \<Rightarrow> verdict wresult \<times> 'a \<times> worker" where
  "sleep M h lp st =
     (let ceiling = (if wk_syncLoop (snd st) then barrierPollCeiling else pollCeiling);
          backoff = min (lp_backoff lp) ceiling;
          (t, w1) = (if \<not> ticking h (snd st) then (0, snd st) else now M (snd st));
          wait = (if \<not> ticking h (snd st) then backoff else min backoff (lp_nextTick lp - t)) in
      (Inr (Again (lp\<lparr>lp_backoff := (if backoff < ceiling then 2 * backoff else backoff)\<rparr>)), fst st,
       if 0 < wait then pause M wait w1 else w1))"

definition one_pass ::
  "'f machine \<Rightarrow> 'a handlers \<Rightarrow> loop_state \<Rightarrow> 'a \<times> worker \<Rightarrow> verdict wresult \<times> 'a \<times> worker" where
  "one_pass M h lp st =
     thenW (poll_channels M h (wk_inbound (snd st)) \<lparr>pf_progressed = False, pf_allDrained = True, pf_allQuiet = True\<rparr> st) (\<lambda>pf st1.
       let e = wk_epoch (snd st1);
           lp1 = (if e \<noteq> lp_observed lp then lp\<lparr>lp_observed := e, lp_backoff := pollFloor\<rparr> else lp) in
       thenW (maybe_tick M h lp1 st1) (\<lambda>lp2 st2.
         if pf_progressed pf then (Inr (Again (lp2\<lparr>lp_backoff := pollFloor\<rparr>)), st2)
         else if pf_allDrained pf then end_of_input M h st2
         else if wk_syncLoop (snd st2) \<and> pf_allQuiet pf \<and> wk_lastDone (snd st2) < wk_epoch (snd st2) then end_epoch M h lp2 st2
         else sleep M h lp2 st2))"

fun run_loop ::
  "nat \<Rightarrow> 'f machine \<Rightarrow> 'a handlers \<Rightarrow> loop_state \<Rightarrow> 'a \<times> worker \<Rightarrow> unit wresult option \<times> 'a \<times> worker" where
  "run_loop 0 M h lp st = (None, st)"
| "run_loop (Suc n) M h lp st =
     (let (c, w1) = ask M ContextErr (snd st) in
      if ended c then (Some (Inl (WorkerError ''context canceled'')), fst st, w1)
      else
        (case one_pass M h lp (fst st, w1) of
           (Inl e, st2) \<Rightarrow> (Some (Inl e), st2)
         | (Inr Finished, st2) \<Rightarrow> (Some (Inr ()), st2)
         | (Inr (Again lp1), st2) \<Rightarrow> run_loop n M h lp1 st2))"

subsection \<open>Run\<close>

definition run_source :: "'f machine \<Rightarrow> 'a handlers \<Rightarrow> 'a \<times> worker \<Rightarrow> unit wresult \<times> 'a \<times> worker" where
  "run_source M h st =
     (if h_source h = None
      then (Inl (WorkerError ''operation %s has no inbound channels and no Source handler''), st)
      else
        thenW (handle M (h_source h) (fst st, (snd st)\<lparr>wk_task := noTask\<lparr>t_channel := wk_instance (snd st)\<rparr>\<rparr>)) (\<lambda>_ st1.
          case commit_or_flush M h True False st1 of
            (Inl ErrSealed, st2) \<Rightarrow>
              on_worker (retry M (reportDone M)) (fst st2, (snd st2)\<lparr>wk_buffers := [], wk_bufBytes := []\<rparr>)
          | (Inl e, st2) \<Rightarrow> (Inl e, st2)
          | (Inr _, st2) \<Rightarrow> on_worker (retry M (reportDone M)) st2))"

fun report_epochs :: "'f machine \<Rightarrow> string list \<Rightarrow> worker \<Rightarrow> unit wresult \<times> worker" where
  "report_epochs M [] w = (Inr (), w\<lparr>wk_lastDone := wk_epoch w\<rparr>)"
| "report_epochs M (ch # chs) w =
     thenW (retry M (\<lambda>v. call_ok M (PostEpochDone ch (wk_operation v) (wk_instance v) (wk_incarnation v) (wk_epoch v)) v) w)
       (\<lambda>_ w1. report_epochs M chs w1)"

definition prepare :: "'f machine \<Rightarrow> 'a handlers \<Rightarrow> 'a \<times> worker \<Rightarrow> unit wresult \<times> 'a \<times> worker" where
  "prepare M h st =
     thenW (on_worker (serveSegments M) st) (\<lambda>_ st1.
     thenW (on_worker (retry M (loadTopology M)) st1) (\<lambda>_ st2.
     thenW (on_worker (retry M (register M)) st2) (\<lambda>_ st3. startCheckpoint M h st3)))"

definition Run ::
  "nat \<Rightarrow> 'f machine \<Rightarrow> 'a handlers \<Rightarrow> 'a \<times> worker \<Rightarrow> unit wresult option \<times> 'a \<times> worker" where
  "Run fuel M h st =
     (let w = snd st in
      if wk_checkpointed w \<and> h_tick h \<noteq> None
      then (Some (Inl (WorkerError ''checkpointed operations cannot use Tick because tick state and output are outside an input checkpoint boundary'')), st)
      else if \<not> CollectiveIOEnabled w
      then
        if h_source h = None then (Some (Inl (WorkerError ''collective rank %d requires a Source handler'')), st)
        else (let (r, st1) = handle M (h_source h) st in (Some r, st1))
      else if h_tick h \<noteq> None \<and> wk_inbound w = []
      then (Some (Inl (WorkerError ''operation %s has a Tick handler and no inbound channels: Tick is driven by the loop that polls inbound channels, so give the operation a channel to consume or move the work into Source'')), st)
      else
        (case prepare M h st of
           (Inl e, st1) \<Rightarrow> (Some (Inl e), st1)
         | (Inr _, st1) \<Rightarrow>
             if (case wk_checkpoint (snd st1) of None \<Rightarrow> False | Some cs \<Rightarrow> mf_complete (cs_current cs))
             then (let (r, st2) = on_worker (retry M (reportDone M)) st1 in (Some r, st2))
             else
               (case (if (case wk_checkpoint (snd st1) of None \<Rightarrow> False | Some cs \<Rightarrow> mf_epochCallbackComplete (cs_current cs))
                      then on_worker (report_epochs M (wk_feedback (snd st1))) st1 else (Inr (), st1)) of
                  (Inl e, st2) \<Rightarrow> (Some (Inl e), st2)
                | (Inr _, st2) \<Rightarrow>
                    if wk_inbound (snd st2) = [] then (let (r, st3) = run_source M h st2 in (Some r, st3))
                    else
                      (let (t, w3) = now M (snd st2) in
                       run_loop fuel M h \<lparr>lp_backoff = pollFloor, lp_observed = -1, lp_nextTick = t + wk_tickInterval w3\<rparr> (fst st2, w3)))))"

end
