(* ===== verification/Handling.thy ===== *)
theory Handling
  imports Running Outputs
begin

text \<open>
  The protocol of a running worker: retries, acknowledgement after output, and checkpoints committed
  before anything they cover becomes visible.
\<close>

subsection \<open>Retries\<close>

text \<open>The state in which a retried call is made for the \<open>i\<close>-th time, when the ones before failed.\<close>

fun attempt :: "'f machine \<Rightarrow> (worker \<Rightarrow> unit wresult \<times> worker) \<Rightarrow> nat \<Rightarrow> worker \<Rightarrow> worker" where
  "attempt M f 0 w = snd (ask M ContextErr w)"
| "attempt M f (Suc i) w = attempt M f i (pause M 1000 (snd (f (snd (ask M ContextErr w)))))"

fun context_alive :: "'f machine \<Rightarrow> (worker \<Rightarrow> unit wresult \<times> worker) \<Rightarrow> nat \<Rightarrow> worker \<Rightarrow> bool" where
  "context_alive M f 0 w \<longleftrightarrow> \<not> ended (fst (ask M ContextErr w))"
| "context_alive M f (Suc i) w \<longleftrightarrow> \<not> ended (fst (ask M ContextErr w))
     \<and> context_alive M f i (pause M 1000 (snd (f (snd (ask M ContextErr w)))))"

lemma retry_loop_succeeds:
  "i < n \<Longrightarrow> context_alive M f i w \<Longrightarrow> (\<And>j. j < i \<Longrightarrow> \<exists>m. fst (f (attempt M f j w)) = Inl (WorkerError m)) \<Longrightarrow>
   f (attempt M f i w) = (Inr (), w') \<Longrightarrow> retry_loop M n err f w = (Inr (), w')"
proof (induction i arbitrary: n w err)
  case 0
  then show ?case by (cases n) (simp_all add: split_def Let_def)
next
  case (Suc i)
  obtain m where n: "n = Suc m" using Suc.prems(1) by (cases n) auto
  let ?w = "snd (ask M ContextErr w)"
  obtain e w2 where f: "f ?w = (Inl (WorkerError e), w2)" using Suc.prems(3) [of 0] by (cases "f ?w") auto
  have "retry_loop M m (Inl (WorkerError e)) f (pause M 1000 w2) = (Inr (), w')"
  proof (rule Suc.IH)
    fix j
    assume "j < i"
    then show "\<exists>m. fst (f (attempt M f j (pause M 1000 w2))) = Inl (WorkerError m)" using Suc.prems(3) [of "Suc j"] f by simp
  qed (use Suc.prems n f in auto)
  then show ?case using Suc.prems(2) f by (simp add: n split_def Let_def final_error_def)
qed

text \<open>
  A call the worker retries goes through if any of its first thirty attempts does: when the context
  stays alive and the attempts before fail with errors that are neither a sealed channel nor a full
  store, the retry returns nil with exactly the effect of the attempt that succeeded.
\<close>

theorem retry_succeeds:
  assumes "i < 30" and "context_alive M f i w"
    and "\<And>j. j < i \<Longrightarrow> \<exists>m. fst (f (attempt M f j w)) = Inl (WorkerError m)" and "f (attempt M f i w) = (Inr (), w')"
  shows "retry M f w = (Inr (), w')"
  unfolding retry_def by (rule retry_loop_succeeds [OF assms])

subsection \<open>Which calls are made\<close>

definition is_ack :: "call \<Rightarrow> bool" where
  "is_ack c = (case c of Http (PostAck _ _ _ _ _) \<Rightarrow> True | _ \<Rightarrow> False)"

definition is_announce :: "call \<Rightarrow> bool" where
  "is_announce c = (case c of Http (PostSegments _ _ _ _ _) \<Rightarrow> True | _ \<Rightarrow> False)"

lemma kind_simps [simp]:
  "is_ack (Http (PostAck ch opn p i as))" "\<not> is_ack (Http (PostSegments ch opn p i anns))" "\<not> is_ack ContextErr" "\<not> is_ack (Wait ms)"
  "\<not> is_ack Clock" "\<not> is_ack (PutState k t)" "\<not> is_ack (CommitCheckpoint m)"
  "is_announce (Http (PostSegments ch opn p i anns))" "\<not> is_announce (Http (PostAck ch opn p i as))" "\<not> is_announce ContextErr"
  "\<not> is_announce (Wait ms)" "\<not> is_announce (PutState k t)" "\<not> is_announce (CommitCheckpoint m)"
  by (simp_all add: is_ack_def is_announce_def)

definition calls :: "(call \<Rightarrow> bool) \<Rightarrow> worker \<Rightarrow> history" where
  "calls P w = filter (\<lambda>(c, _). P c) (wk_trace w)"

lemma calls_ask: "ask M c w = (a, w') \<Longrightarrow> calls P w' = calls P w @ (if P c then [(c, a)] else [])"
  by (auto simp: ask_def Let_def calls_def)

lemma calls_updates [simp]:
  "calls P (w\<lparr>wk_store := st\<rparr>) = calls P w" "calls P (w\<lparr>wk_order := od\<rparr>) = calls P w" "calls P (w\<lparr>wk_unannounced := u\<rparr>) = calls P w"
  "calls P (w\<lparr>wk_checkpoint := cp\<rparr>) = calls P w" "calls P (w\<lparr>wk_addr := ad\<rparr>) = calls P w" "calls P (w\<lparr>wk_specs := sp\<rparr>) = calls P w"
  "calls P (w\<lparr>wk_segmentSeq := n\<rparr>) = calls P w" "calls P (w\<lparr>wk_rr := rr\<rparr>) = calls P w" "calls P (w\<lparr>wk_overflowed := ov\<rparr>) = calls P w"
  "calls P (clear_buffer k w) = calls P w" "calls P (drop_buffer k w) = calls P w" "calls P (queue_announcement ch an w) = calls P w"
  "calls P (bind_blobs i bs w) = calls P w" "calls P (drop_blob_of b w) = calls P w"
  by (simp_all add: calls_def clear_buffer_def drop_buffer_def queue_announcement_def bind_blobs_def drop_blob_of_def)

text \<open>Calls made while a buffer is flushed: none of them acknowledges or announces.\<close>

definition quiet_calls :: "(call \<Rightarrow> bool) \<Rightarrow> bool" where
  "quiet_calls P \<longleftrightarrow> \<not> P (Http GetTopology) \<and> \<not> P Clock \<and> \<not> P WriteFile \<and> (\<forall>d l. \<not> P (OpenSegments d l))
     \<and> (\<forall>k t. \<not> P (PutSegment k t)) \<and> (\<forall>ch op rs. \<not> P (Http (PostRecords ch op rs)))"

lemma quiet_kinds: "quiet_calls is_ack" "quiet_calls is_announce" "quiet_calls (\<lambda>c. is_ack c \<or> is_announce c)"
  by (simp_all add: quiet_calls_def is_ack_def is_announce_def)

lemma calls_call: "calls P (snd (call_ok M req w)) = calls P w @ (if P (Http req) then [(Http req, mc_world M (wk_trace w) (Http req))] else [])"
  by (simp add: call_eq Let_def calls_def)

lemma calls_spec: "quiet_calls P \<Longrightarrow> calls P (snd (spec_of M ch w)) = calls P w"
proof -
  assume q: "quiet_calls P"
  have "calls P (snd (loadTopology M w)) = calls P w"
    using q by (auto simp: loadTopology_def do_eq Let_def thenW_def calls_def quiet_calls_def split: sum.splits body.splits)
  then have "calls P (snd (case wk_specs w of None \<Rightarrow> loadTopology M w | Some _ \<Rightarrow> (Inr (), w))) = calls P w" by (simp split: option.split)
  then show ?thesis unfolding spec_of_def by (rule thenW_inv [where I = "\<lambda>s. calls P s = calls P w"]) (simp split: option.split)
qed

lemma calls_serve: "quiet_calls P \<Longrightarrow> calls P (snd (serveSegments M w)) = calls P w"
  using calls_ask [of M "OpenSegments (wk_segmentDir w) (wk_segmentListen w)" w _ _ P]
  by (cases "ask M (OpenSegments (wk_segmentDir w) (wk_segmentListen w)) w")
    (simp add: serveSegments_def quiet_calls_def split: option.split answer.split)

lemma calls_write: "quiet_calls P \<Longrightarrow> calls P (snd (write_local M recs w)) = calls P w"
  using calls_ask [of M WriteFile w _ _ P]
  by (cases "ask M WriteFile w") (simp add: write_local_def quiet_calls_def split: option.split sum.split prod.split)

lemma calls_durable: "quiet_calls P \<Longrightarrow> calls P (snd (write_durable M recs w)) = calls P w"
proof -
  assume q: "quiet_calls P"
  obtain a w1 where 1: "ask M Clock (w\<lparr>wk_segmentSeq := wk_segmentSeq w + 1\<rparr>) = (a, w1)" by fastforce
  obtain i where i: "i = segment_name (wk_instance w1) (clock_of a) (wk_segmentSeq w1)" by simp
  obtain b w2 where 2: "ask M (PutSegment (segmentKey w1 i) (segment_text recs)) w1 = (b, w2)" by fastforce
  have "calls P w2 = calls P w" using calls_ask [OF 1, of P] calls_ask [OF 2, of P] q by (simp add: quiet_calls_def)
  then show ?thesis using 2 unfolding write_durable_def 1 Let_def i by (simp split: answer.split option.split)
qed

lemma calls_flush:
  assumes "quiet_calls P"
  shows "calls P (snd (flushBuffer M k w)) = calls P w"
proof -
  have e: "calls P (snd (flush_external M k recs v)) = calls P v" for recs v
    unfolding flush_external_def using assms
    by (auto intro: thenW_inv [where I = "\<lambda>s. calls P s = calls P v"] simp: calls_call quiet_calls_def)
  have g: "calls P (snd (flush_segment M k recs v)) = calls P v" for recs v
    unfolding flush_segment_def
  proof (rule thenW_inv [where I = "\<lambda>s. calls P s = calls P v"], goal_cases)
    case (2 x s)
    then show ?case
      by (intro thenW_inv [where I = "\<lambda>s. calls P s = calls P v"]) (simp_all add: calls_durable [OF assms] calls_write [OF assms])
  qed (simp add: calls_serve [OF assms])
  have "calls P (snd (thenW (spec_of M (bk_channel k) w) (\<lambda>spec w1.
      if ch_to spec = '''' then flush_external M k (map_get [] (wk_buffers w) k) w1
      else flush_segment M k (map_get [] (wk_buffers w) k) w1))) = calls P w"
    by (rule thenW_inv [where I = "\<lambda>s. calls P s = calls P w"]) (simp_all add: calls_spec [OF assms] e g)
  then show ?thesis by (simp add: flushBuffer_def Let_def)
qed

lemma calls_flush_keys: "quiet_calls P \<Longrightarrow> calls P (snd (flush_keys M ks w)) = calls P w"
proof (induction ks arbitrary: w)
  case (Cons k ks)
  then show ?case using calls_flush [of P M k w]
    by (cases "flushBuffer M k w"; cases "fst (flushBuffer M k w)") simp_all
qed simp

lemma calls_materialize: "quiet_calls P \<Longrightarrow> calls P (snd (materialize M w)) = calls P w"
  unfolding materialize_def Let_def
proof (rule thenW_inv [where I = "\<lambda>s. calls P s = calls P w"], goal_cases)
  case (2 x s)
  have "calls P (fold queue_overflow cs v) = calls P v" for cs v by (induction cs arbitrary: v) (simp_all add: queue_overflow_def)
  then show ?case using 2 by simp
qed (simp add: calls_flush_keys)

lemma acks_publish: "calls is_ack (snd (publish_all M us w)) = calls is_ack w"
proof (induction us arbitrary: w)
  case (Cons u us)
  obtain ch anns where u: "u = (ch, anns)" by fastforce
  show ?case unfolding u publish_all.simps
    by (rule thenW_inv [where I = "\<lambda>s. calls is_ack s = calls is_ack w"]) (simp_all add: calls_call Cons)
qed simp

lemma acks_Flush: "calls is_ack (snd (Flush M w)) = calls is_ack w"
  unfolding Flush_def
  by (rule thenW_inv [where I = "\<lambda>s. calls is_ack s = calls is_ack w"])
    (simp_all add: calls_materialize quiet_kinds publish_def acks_publish)

subsection \<open>What a retry leaves behind\<close>

lemma ask_context: "snd (ask M c w) = w\<lparr>wk_trace := wk_trace w @ [(c, fst (ask M c w))]\<rparr>"
  by (simp add: ask_def Let_def)

text \<open>A property that the retried call and changes of the trace keep is kept; success is success of one attempt.\<close>

lemma retry_loop_inv:
  assumes "I w" and "\<And>w. I w \<Longrightarrow> I (snd (f w))" and "\<And>w. I w \<Longrightarrow> I (snd (ask M ContextErr w))"
    and "\<And>w. I w \<Longrightarrow> I (snd (ask M (Wait 1000) w))"
  shows "I (snd (retry_loop M n err f w))
    \<and> (fst (retry_loop M n err f w) = Inr () \<longrightarrow> err = Inr () \<or> (\<exists>v. I v \<and> f v = (Inr (), snd (retry_loop M n err f w))))"
  using assms(1)
proof (induction n arbitrary: w err)
  case (Suc n)
  obtain c w1 where c: "ask M ContextErr w = (c, w1)" by fastforce
  have i1: "I w1" using assms(3) [OF Suc.prems] c by simp
  obtain r w2 where f: "f w1 = (r, w2)" by fastforce
  have i2: "I w2" using assms(2) [OF i1] f by simp
  have ih: "I (snd (retry_loop M n (Inl e) f (pause M 1000 w2)))
      \<and> (fst (retry_loop M n (Inl e) f (pause M 1000 w2)) = Inr () \<longrightarrow>
           (\<exists>v. I v \<and> f v = (Inr (), snd (retry_loop M n (Inl e) f (pause M 1000 w2)))))" for e
    using Suc.IH [of "pause M 1000 w2" "Inl e"] assms(4) [OF i2] by (simp add: pause_def)
  show ?case using i1 i2 ih f by (cases r) (auto simp: c)
qed simp

lemma retry_inv:
  assumes "I w" and "\<And>w. I w \<Longrightarrow> I (snd (f w))" and "\<And>w tr. I w \<Longrightarrow> I (w\<lparr>wk_trace := tr\<rparr>)"
  shows "I (snd (retry M f w))"
  unfolding retry_def
  by (rule conjunct1 [OF retry_loop_inv]) (use assms in \<open>simp_all add: ask_context\<close>)

lemma calls_retry:
  assumes "\<And>w. calls P (snd (f w)) = calls P w" and "\<not> P ContextErr" and "\<And>ms. \<not> P (Wait ms)"
  shows "calls P (snd (retry M f w)) = calls P w"
  unfolding retry_def
  by (rule conjunct1 [OF retry_loop_inv [where I = "\<lambda>v. calls P v = calls P w"]])
    (use assms in \<open>simp_all add: ask_context calls_def\<close>)

definition context_sticky :: "'f machine \<Rightarrow> bool" where
  "context_sticky M \<longleftrightarrow> (\<forall>h a. (ContextErr, a) \<in> set h \<longrightarrow> ended a \<longrightarrow> ended (mc_world M h ContextErr))"

lemma retry_done:
  assumes "retry M f w = (Inr (), w')" and "I w" and "\<And>w. I w \<Longrightarrow> I (snd (f w))" and "\<And>w tr. I w \<Longrightarrow> I (w\<lparr>wk_trace := tr\<rparr>)"
  shows "(ended (fst (ask M ContextErr w)) \<and> w' = snd (ask M ContextErr w)) \<or> (\<exists>v. I v \<and> f v = (Inr (), w'))"
proof -
  obtain c w1 where c: "ask M ContextErr w = (c, w1)" by fastforce
  have i1: "I w1" using assms(2,4) ask_context [of M ContextErr w] c by simp
  obtain r w2 where f: "f w1 = (r, w2)" by fastforce
  have i2: "I (pause M 1000 w2)" using assms(3) [OF i1] assms(4) f by (simp add: pause_def ask_context)
  have l: "retry_loop M 29 (Inl e) f (pause M 1000 w2) = (Inr (), w') \<Longrightarrow> \<exists>v. I v \<and> f v = (Inr (), w')" for e
    using retry_loop_inv [of I "pause M 1000 w2" f M 29 "Inl e", OF i2 assms(3)] assms(4) by (simp add: ask_context)
  have "30 = Suc 29" by simp
  then show ?thesis using assms(1) i1 f c unfolding retry_def \<open>30 = Suc 29\<close> retry_loop.simps
    by (cases r) (auto split: if_splits intro: l)
qed

lemma ack_frame: "snd (ack M ch as w) = w\<lparr>wk_trace := wk_trace (snd (ack M ch as w))\<rparr>"
  by (simp add: ack_def call_eq Let_def)

lemma retry_sticky:
  assumes "context_sticky M" and "(ContextErr, a) \<in> set (wk_trace w)" and "ended a"
  shows "retry M f w = (Inr (), snd (ask M ContextErr w))"
proof -
  have e: "ended (fst (ask M ContextErr w))" using assms by (simp add: context_sticky_def ask_def Let_def)
  have "30 = Suc 29" by simp
  then show ?thesis unfolding retry_def \<open>30 = Suc 29\<close> retry_loop.simps using e by (simp add: split_def Let_def)
qed

lemma publish_empties: "publish M w = (Inr (), w') \<Longrightarrow> wk_unannounced w' = []"
proof -
  assume "publish M w = (Inr (), w')"
  from publish_all_done [OF this [unfolded publish_def]]
  have "wk_unannounced w' = filter (\<lambda>(ch, _). ch \<notin> fst ` set (wk_unannounced w)) (wk_unannounced w)" by blast
  then show ?thesis by (auto simp: filter_empty_conv image_iff)
qed

lemma Flush_empties:
  assumes "Flush M w = (Inr (), w')" and "wk_checkpoint w = None"
  shows "wk_unannounced w' = []"
proof -
  obtain w1 where m: "materialize M w = (Inr (), w1)"
    and p: "(if wk_checkpoint w1 \<noteq> None then (Inr (), w1) else publish M w1) = (Inr (), w')"
    using assms(1) unfolding Flush_def by (elim thenW_ok) auto
  then show ?thesis using session.materializes [OF assms(2), of M] publish_empties by simp
qed


end
