(* ===== verification/Committing.thy ===== *)
theory Committing
  imports Handling Emission
begin

text \<open>
  Operation checkpoints: a commit comes before everything it covers, and a restart resumes from it.
\<close>

subsection \<open>The trace only grows\<close>

definition extends :: "worker \<Rightarrow> worker \<Rightarrow> history \<Rightarrow> bool" where
  "extends w w' new \<longleftrightarrow> wk_trace w' = wk_trace w @ new"

lemma extends_trans: "extends w w1 a \<Longrightarrow> extends w1 w2 b \<Longrightarrow> extends w w2 (a @ b)"
  by (simp add: extends_def)

definition effect :: "call \<Rightarrow> bool" where
  "effect c \<longleftrightarrow> is_ack c \<or> is_announce c"

lemma publish_extends:
  "\<exists>new. extends w (snd (publish_all M us w)) new
     \<and> (\<forall>(c, a) \<in> set new. \<exists>ch anns. (ch, anns) \<in> set us \<and> c = Http (PostSegments ch (wk_operation w) (wk_instance w) (wk_incarnation w) anns))"
proof (induction us arbitrary: w)
  case (Cons u us)
  obtain ch anns where u: "u = (ch, anns)" by fastforce
  let ?req = "PostSegments ch (wk_operation w) (wk_instance w) (wk_incarnation w) anns"
  let ?a = "mc_world M (wk_trace w) (Http ?req)"
  let ?w = "w\<lparr>wk_trace := wk_trace w @ [(Http ?req, ?a)], wk_unannounced := AList.delete ch (wk_unannounced w)\<rparr>"
  show ?case
  proof (cases "http_result ?a")
    case (Inl e)
    then show ?thesis by (intro exI [of _ "[(Http ?req, ?a)]"]) (auto simp: u call_eq Let_def extends_def)
  next
    case (Inr b)
    obtain new where "extends ?w (snd (publish_all M us ?w)) new"
      "\<forall>(c, a) \<in> set new. \<exists>ch anns. (ch, anns) \<in> set us \<and> c = Http (PostSegments ch (wk_operation w) (wk_instance w) (wk_incarnation w) anns)"
      using Cons.IH [of ?w] by auto
    then show ?thesis using Inr
      by (intro exI [of _ "(Http ?req, ?a) # new"]) (auto simp: u call_eq Let_def extends_def)
  qed
qed (simp add: extends_def)

lemma retry_ack_extends:
  "\<exists>new. extends w (snd (retry M (ack M ch as) w)) new \<and> (\<forall>(c, a) \<in> set new. \<not> is_announce c)"
proof -
  let ?I = "\<lambda>v. \<exists>new. extends w v new \<and> (\<forall>(c, a) \<in> set new. \<not> is_announce c)"
  have step: "?I v \<Longrightarrow> \<not> is_announce c \<Longrightarrow> ?I (v\<lparr>wk_trace := wk_trace v @ [(c, a)]\<rparr>)" for v c a
  proof (elim exE conjE)
    fix new
    assume "\<not> is_announce c" "extends w v new" "\<forall>(c, a) \<in> set new. \<not> is_announce c"
    then show "?I (v\<lparr>wk_trace := wk_trace v @ [(c, a)]\<rparr>)"
      by (intro exI [of _ "new @ [(c, a)]"]) (auto simp: extends_def)
  qed
  show ?thesis unfolding retry_def
    by (rule conjunct1 [OF retry_loop_inv [where I = ?I]])
      (auto simp: extends_def ask_context ack_def call_eq Let_def intro: exI [of _ "[]"] dest: step intro!: step)
qed

subsection \<open>Manifests\<close>

lemma map_get_update: "map_get d (AList.update k v m) j = (if j = k then v else map_get d m j)"
  by (simp add: map_get_def map_simps)

lemma add_outputs_old: "a \<in> set (map_get [] old c) \<Longrightarrow> a \<in> set (map_get [] (add_outputs new old) c)"
  unfolding add_outputs_def
proof (induction new arbitrary: old)
  case (Cons x new)
  obtain d as where x: "x = (d, as)" by fastforce
  show ?case using Cons.IH [of "AList.update d (map_get [] old d @ as) old"] Cons.prems
    by (cases "c = d") (simp_all add: x map_get_update)
qed simp

lemma add_outputs_new: "(c, anns) \<in> set new \<Longrightarrow> a \<in> set anns \<Longrightarrow> a \<in> set (map_get [] (add_outputs new old) c)"
  unfolding add_outputs_def
proof (induction new arbitrary: old)
  case (Cons x new)
  obtain d as where x: "x = (d, as)" by fastforce
  show ?case
  proof (cases "x = (c, anns)")
    case True
    then show ?thesis using add_outputs_old [of a "AList.update c (map_get [] old c @ anns) old" c new] Cons.prems(2)
      by (simp add: map_get_update add_outputs_def)
  qed (use Cons x in auto)
qed simp

lemma cover_inputs_set: "set (cover_inputs ins cov) = set cov \<union> (\<lambda>i. inputKey (ci_channel i) (ci_ack i)) ` set ins"
  unfolding cover_inputs_def by (induction ins arbitrary: cov) auto

lemma covers_acked:
  assumes "inputKey ch (segment_ack w sg) \<in> set (cs_covered cs)"
  shows "covers cs ch sg"
  using assms by (auto simp: covers_def segment_ack_def inputKey_def bareAck_def split: if_splits)

lemma call_done_cases:
  assumes "call_done M c msg w = (r, w')"
  obtains e a where "r = Inl e" "w' = w\<lparr>wk_trace := wk_trace w @ [(c, a)]\<rparr>"
  | n where "r = Inr ()" "w' = w\<lparr>wk_trace := wk_trace w @ [(c, Local n None)]\<rparr>"
proof -
  obtain a where a: "ask M c w = (a, w\<lparr>wk_trace := wk_trace w @ [(c, a)]\<rparr>)" by (simp add: ask_def Let_def)
  show ?thesis
  proof (cases "\<exists>n. a = Local n None")
    case True
    then show ?thesis using assms a that(2) by (auto simp: call_done_def)
  next
    case False
    then have "call_done M c msg w = (Inl (WorkerError msg), w\<lparr>wk_trace := wk_trace w @ [(c, a)]\<rparr>)"
      unfolding call_done_def a by (auto split: answer.split option.split)
    then show ?thesis using assms that(1) by simp
  qed
qed

subsection \<open>Commit first, then act\<close>

text \<open>
  What a commit leaves: either nothing was acknowledged or announced and the session is as before, or
  the trace splits at the accepted commit of a manifest, with every acknowledgement and announcement
  of this call after it.
\<close>

definition committed_first :: "checkpointSession \<Rightarrow> string \<Rightarrow> SegmentAck list \<Rightarrow> worker \<Rightarrow> worker \<Rightarrow> bool" where
  "committed_first cs ch acks w w' \<longleftrightarrow>
     (\<exists>m n pre post cs'. wk_trace w' = pre @ (CommitCheckpoint m, Local n None) # post
        \<and> filter (\<lambda>(c, _). effect c) pre = calls effect w
        \<and> mf_inputs m = mf_inputs (cs_current cs) @ map (\<lambda>a. \<lparr>ci_channel = ch, ci_ack = a\<rparr>) acks
        \<and> (\<forall>c opn p i anns ans a. (Http (PostSegments c opn p i anns), ans) \<in> set post \<longrightarrow> a \<in> set anns \<longrightarrow>
             a \<in> set (map_get [] (mf_outputs m) c))
        \<and> wk_checkpoint w' = Some cs' \<and> cs_current cs' = m
        \<and> set (cs_covered cs') = set (cs_covered cs) \<union> (\<lambda>i. inputKey (ci_channel i) (ci_ack i)) ` set (mf_inputs m))"

lemma commit_tail:
  assumes "wk_trace w3 = pre @ [(CommitCheckpoint m, Local n None)]" and "filter (\<lambda>(c, _). effect c) pre = calls effect w"
    and "m = next_manifest w1 cs ch acks complete ec" and "wk_unannounced w3 = wk_unannounced w1"
    and "(let (r4, w4) = publish M (w3\<lparr>wk_checkpoint := Some (cs\<lparr>cs_current := m, cs_covered := cover_inputs (mf_inputs m) (cs_covered cs)\<rparr>)\<rparr>) in
          case r4 of Inl e \<Rightarrow> (Inl e, w4) | Inr _ \<Rightarrow> if acks = [] then (Inr (), w4) else retry M (ack M ch acks) w4) = (r, w')"
  shows "committed_first cs ch acks w w'"
proof -
  let ?cs = "cs\<lparr>cs_current := m, cs_covered := cover_inputs (mf_inputs m) (cs_covered cs)\<rparr>"
  let ?w = "w3\<lparr>wk_checkpoint := Some ?cs\<rparr>"
  obtain r4 w4 where p: "publish M ?w = (r4, w4)" by fastforce
  obtain a where a: "extends ?w w4 a" "\<forall>(c, x) \<in> set a. \<exists>d anns. (d, anns) \<in> set (wk_unannounced w1)
      \<and> c = Http (PostSegments d (wk_operation ?w) (wk_instance ?w) (wk_incarnation ?w) anns)"
    using publish_extends [of ?w M "wk_unannounced ?w"] p assms(4) by (auto simp: publish_def)
  have c4: "wk_checkpoint w4 = Some ?cs" using session.publishes [of ?w "Some ?cs" M] p by simp
  have "\<exists>b. extends w4 w' b \<and> (\<forall>(c, x) \<in> set b. \<not> is_announce c) \<and> wk_checkpoint w' = Some ?cs"
  proof (cases "w' = w4")
    case True
    then show ?thesis using c4 by (intro exI [of _ "[]"]) (simp add: extends_def)
  next
    case False
    then have w': "w' = snd (retry M (ack M ch acks) w4)" using assms(5) p by (auto split: sum.splits if_splits)
    have "wk_checkpoint (snd (ack M ch acks x)) = wk_checkpoint x" for x by (subst ack_frame) simp
    then have "wk_checkpoint w' = Some ?cs"
      unfolding w' using retry_inv [of "\<lambda>x. wk_checkpoint x = Some ?cs" w4 "ack M ch acks" M] c4 by simp
    then show ?thesis using retry_ack_extends [of w4 M ch acks] w' by auto
  qed
  then obtain b where b: "extends w4 w' b" "\<forall>(c, x) \<in> set b. \<not> is_announce c" "wk_checkpoint w' = Some ?cs" by blast
  have t: "wk_trace w' = pre @ (CommitCheckpoint m, Local n None) # a @ b"
    using extends_trans [OF a(1) b(1)] assms(1) by (simp add: extends_def)
  have "x \<in> set (map_get [] (mf_outputs m) c)" if post: "(Http (PostSegments c opn q i anns), ans) \<in> set (a @ b)" and x: "x \<in> set anns"
    for c opn q i anns ans x
  proof -
    have "(Http (PostSegments c opn q i anns), ans) \<in> set a" using post b(2) by auto
    then have "(c, anns) \<in> set (wk_unannounced w1)" using a(2) by fastforce
    then show ?thesis using x assms(3) by (auto simp: next_manifest_def Let_def intro: add_outputs_new)
  qed
  moreover have "mf_inputs m = mf_inputs (cs_current cs) @ map (\<lambda>a. \<lparr>ci_channel = ch, ci_ack = a\<rparr>) acks"
    using assms(3) by (simp add: next_manifest_def Let_def)
  ultimately show ?thesis unfolding committed_first_def using t assms(2) b(3)
    by (intro exI [of _ m] exI [of _ n] exI [of _ pre] exI [of _ "a @ b"] exI [of _ ?cs]) (simp add: cover_inputs_set)
qed


subsection \<open>Restarting\<close>


subsection \<open>Sample runs\<close>

text \<open>A registration that fails once, a context that stays ended once it has, and a store with a checkpoint.\<close>

definition flaky :: "history \<Rightarrow> call \<Rightarrow> answer" where
  "flaky h c =
     (case c of
        Http (PostRegister _) \<Rightarrow>
          if list_all (\<lambda>(c', _). c' \<noteq> c) h then Unreachable ''connection refused'' else helpful two_channels h c
      | _ \<Rightarrow> helpful two_channels h c)"

definition flaky_machine :: "nat machine" where
  "flaky_machine = small_machine flaky"

lemma flaky_attempts:
  "fst (register flaky_machine (attempt flaky_machine (register flaky_machine) 0 map_pod)) = Inl (WorkerError ''connection refused'')
   \<and> fst (register flaky_machine (attempt flaky_machine (register flaky_machine) 1 map_pod)) = Inr ()
   \<and> context_alive flaky_machine (register flaky_machine) 1 map_pod"
  by code_simp

theorem retry_succeeds_witness:
  "retry flaky_machine (register flaky_machine) map_pod
   = (Inr (), snd (register flaky_machine (attempt flaky_machine (register flaky_machine) 1 map_pod)))"
proof (rule retry_succeeds [of 1])
  show "register flaky_machine (attempt flaky_machine (register flaky_machine) 1 map_pod)
      = (Inr (), snd (register flaky_machine (attempt flaky_machine (register flaky_machine) 1 map_pod)))"
    using flaky_attempts by (metis prod.collapse)
qed (use flaky_attempts in auto)

definition steady :: "history \<Rightarrow> call \<Rightarrow> answer" where
  "steady h c =
     (if c = ContextErr \<and> \<not> list_all (\<lambda>(c', a). c' \<noteq> ContextErr \<or> \<not> ended a) h then Local 0 (Some ''context canceled'')
      else helpful two_channels h c)"

definition steady_machine :: "nat machine" where
  "steady_machine = small_machine steady"

lemma steady_sticky: "context_sticky steady_machine"
  by (auto simp: context_sticky_def steady_machine_def small_machine_def steady_def list_all_iff ended_def)

definition no_handlers :: "unit handlers" where
  "no_handlers = \<lparr>h_snapshot = None, h_restore = None, h_source = None, h_onRecord = None, h_onEpochEnd = None,
     h_onDrain = None, h_tick = None\<rparr>"

definition input_segment :: SegmentRef where
  "input_segment = \<lparr>ref_id = ''s1'', ref_appendID = ''src/s1'', ref_holder = ''src'', ref_records = 1, ref_bytes = 10, ref_epoch = 0, ref_offset = 0\<rparr>"

definition worked :: worker where
  "worked = snd (Emit steady_machine ''a'' ''k'' (Some (JNumber ''1'')) map_pod)"

definition acked :: "unit wresult \<times> unit \<times> worker" where
  "acked = finish_segment steady_machine no_handlers ''in'' input_segment ((), worked)"

lemma acked_value: "wk_checkpoint worked = None \<and> calls is_ack (snd (snd acked)) \<noteq> calls is_ack worked
   \<and> length (calls is_announce (snd (snd acked))) = 1"
  by code_simp


definition last_manifest :: checkpointManifest where
  "last_manifest = \<lparr>mf_boundary = 1, mf_complete = False, mf_epochCallbackComplete = False, mf_epoch = 2,
     mf_stateKey = ''checkpoints/map/state-1-i0'', mf_inputs = [\<lparr>ci_channel = ''in'', ci_ack = segment_ack map_pod input_segment\<rparr>],
     mf_outputs = []\<rparr>"

definition restoring :: "history \<Rightarrow> call \<Rightarrow> answer" where
  "restoring h c =
     (case c of
        ClaimCheckpoint _ _ \<Rightarrow> Claimed (Some last_manifest)
      | GetState _ \<Rightarrow> StateBytes ''7''
      | _ \<Rightarrow> helpful two_channels h c)"

definition restoring_machine :: "nat machine" where
  "restoring_machine = small_machine restoring"

definition text_handlers :: "string handlers" where
  "text_handlers = \<lparr>h_snapshot = Some (\<lambda>s. Inr s), h_restore = Some (\<lambda>b s. Inr b), h_source = None, h_onRecord = None,
     h_onEpochEnd = None, h_onDrain = None, h_tick = None\<rparr>"

definition checkpointed_pod :: worker where
  "checkpointed_pod = map_pod\<lparr>wk_checkpointed := True\<rparr>"

definition restarted :: "unit wresult \<times> string \<times> worker" where
  "restarted = startCheckpoint restoring_machine text_handlers ('''', checkpointed_pod)"

definition other_segment :: SegmentRef where
  "other_segment = input_segment\<lparr>ref_id := ''s2'', ref_appendID := ''src/s2''\<rparr>"

definition session_of :: "worker \<Rightarrow> checkpointSession" where
  "session_of w = the (wk_checkpoint w)"

definition next_commit :: "unit wresult \<times> string \<times> worker" where
  "next_commit = commitCheckpoint restoring_machine text_handlers ''in'' [segment_ack checkpointed_pod other_segment] False False
     (''8'', snd (snd restarted))"

lemma restarted_value:
  "fst restarted = Inr () \<and> fst (snd restarted) = ''7'' \<and> wk_checkpointed checkpointed_pod \<and> wk_checkpoint (snd (snd restarted)) \<noteq> None"
  by code_simp

lemma claim_value:
  "mc_world restoring_machine (wk_trace checkpointed_pod) (ClaimCheckpoint (checkpointKey checkpointed_pod) (wk_incarnation checkpointed_pod))
   = Claimed (Some last_manifest)"
  by (simp add: restoring_machine_def small_machine_def restoring_def)


lemma committed_value:
  "fst next_commit = Inr () \<and> calls effect (snd (snd next_commit)) \<noteq> calls effect (snd (snd restarted))"
  by code_simp


end
