(* ===== verification/Runtime.thy ===== *)
theory Runtime
  imports Running
begin

text \<open>
  The local runtime protocol, after \<^verbatim>\<open>pkg/runtime/protocol.go\<close>, \<^verbatim>\<open>server.go\<close> and \<^verbatim>\<open>client.go\<close>. A worker
  written in Go hands the callbacks of the SDK to an application process over local HTTP: the
  application connects, declares itself ready, fetches the current invocation and posts its reply.

  The goroutines of the HTTP server and of \<^verbatim>\<open>Invoke\<close> interleave between their critical sections. Every
  critical section is one definition on the state \<open>server\<close>. A \<^verbatim>\<open>*call\<close> is a number; its reply channel,
  which holds one reply, is its entry in \<open>sv_replies\<close>. The reply that \<^verbatim>\<open>complete\<close> sends after it released the
  lock waits in \<open>sv_sending\<close>. \<^verbatim>\<open>signal\<close> closes a channel and makes a new one: \<open>sv_changed\<close> counts them, and a
  goroutine that waits on a number wakes up when it is no longer the current one.
\<close>

subsection \<open>Protocol\<close>

record RtRecord =
  rr_channel :: string
  rr_key :: string
  rr_value :: json
  rr_epoch :: int

record Invocation =
  iv_id :: string
  iv_kind :: string
  iv_record :: "RtRecord option"
  iv_epoch :: int
  iv_maxEpoch :: int
  iv_data :: "json option"

record Output =
  ou_channel :: string
  ou_key :: string
  ou_value :: json

record Reply =
  rp_session :: string
  rp_invocation :: string
  rp_outputs :: "Output list"
  rp_state :: "json option"
  rp_error :: string

definition emptyReply :: Reply where
  "emptyReply = \<lparr>rp_session = '''', rp_invocation = '''', rp_outputs = [], rp_state = None, rp_error = ''''\<rparr>"

definition invocation :: "string \<Rightarrow> Invocation" where
  "invocation kind = \<lparr>iv_id = '''', iv_kind = kind, iv_record = None, iv_epoch = 0, iv_maxEpoch = 0, iv_data = None\<rparr>"

text \<open>A request body as \<^verbatim>\<open>decode\<close> finds it.\<close>

datatype 'a payload = NotJSON | SeveralValues 'a | OneValue 'a

datatype rtbody = NoBody | Text string | SessionBody string | InvocationBody Invocation

type_synonym rtresponse = "int \<times> rtbody"

datatype rtrequest =
    GetHealth | PostConnect "string option" | PostReady "string payload" | GetInvocations string
  | PostReplies "Reply payload" | OtherRoute

subsection \<open>The server\<close>

record server =
  sv_session :: string
  sv_ready :: bool
  sv_current :: "(nat \<times> Invocation) option"
  sv_changed :: nat
  sv_checkpointed :: bool
  sv_fatal :: "string option"
  sv_failures :: "string list"
  sv_calls :: nat
  sv_sending :: "(nat \<times> Reply) list"
  sv_replies :: "(nat, Reply) gomap"

definition NewServer :: server where
  "NewServer = \<lparr>sv_session = '''', sv_ready = False, sv_current = None, sv_changed = 0, sv_checkpointed = False,
     sv_fatal = None, sv_failures = [], sv_calls = 0, sv_sending = [], sv_replies = []\<rparr>"

definition ConfigureCheckpointing :: "bool \<Rightarrow> server \<Rightarrow> server" where
  "ConfigureCheckpointing enabled s = s\<lparr>sv_checkpointed := enabled\<rparr>"

definition signal :: "server \<Rightarrow> server" where
  "signal s = s\<lparr>sv_changed := sv_changed s + 1\<rparr>"

definition replaced :: string where
  "replaced = ''checkpointed application session was replaced; restart the worker to restore committed state''"

text \<open>\<open>sid\<close> is the random session ID, if the system gives one.\<close>

definition connect :: "string option \<Rightarrow> server \<Rightarrow> rtresponse \<times> server" where
  "connect sid s =
     (case sid of
        None \<Rightarrow> ((500, Text ''random''), s)
      | Some i \<Rightarrow>
          (case sv_fatal s of
             Some e \<Rightarrow> ((503, Text e), s)
           | None \<Rightarrow>
               if sv_checkpointed s \<and> sv_session s \<noteq> ''''
               then
                 (let s1 = s\<lparr>sv_fatal := Some replaced\<rparr>;
                      s2 = (case sv_current s1 of
                              None \<Rightarrow> s1
                            | Some (c, _) \<Rightarrow>
                                s1\<lparr>sv_replies := AList.update c (emptyReply\<lparr>rp_error := replaced\<rparr>) (sv_replies s1), sv_current := None\<rparr>);
                      s3 = signal s2 in
                  ((409, Text replaced), s3\<lparr>sv_failures := sv_failures s3 @ [replaced]\<rparr>))
               else ((200, SessionBody i), signal (s\<lparr>sv_session := i, sv_ready := False\<rparr>))))"

definition decode :: "'a payload \<Rightarrow> rtresponse + 'a" where
  "decode p =
     (case p of
        NotJSON \<Rightarrow> Inl (400, Text ''invalid JSON'')
      | SeveralValues _ \<Rightarrow> Inl (400, Text ''request body must contain one JSON value'')
      | OneValue x \<Rightarrow> Inr x)"

definition setReady :: "string payload \<Rightarrow> server \<Rightarrow> rtresponse \<times> server" where
  "setReady p s =
     (case decode p of
        Inl r \<Rightarrow> (r, s)
      | Inr i \<Rightarrow>
          if i = '''' \<or> i \<noteq> sv_session s then ((409, Text ''stale session''), s)
          else ((204, NoBody), signal (s\<lparr>sv_ready := True\<rparr>)))"

text \<open>One turn of the loop of \<^verbatim>\<open>next\<close>: an answer, or none and the request waits for a signal.\<close>

definition next_turn :: "string \<Rightarrow> server \<Rightarrow> rtresponse option" where
  "next_turn sid s =
     (case sv_fatal s of
        Some e \<Rightarrow> Some (503, Text e)
      | None \<Rightarrow>
          if sid = '''' \<or> sid \<noteq> sv_session s then Some (409, Text ''stale session'')
          else if sv_ready s then map_option (\<lambda>(_, iv). (200, InvocationBody iv)) (sv_current s)
          else None)"

definition complete :: "Reply payload \<Rightarrow> server \<Rightarrow> rtresponse \<times> server" where
  "complete p s =
     (case decode p of
        Inl r \<Rightarrow> (r, s)
      | Inr r \<Rightarrow>
          if rp_session r = '''' \<or> rp_session r \<noteq> sv_session s then ((409, Text ''stale session''), s)
          else
            (case sv_current s of
               None \<Rightarrow> ((409, Text ''stale invocation''), s)
             | Some (c, iv) \<Rightarrow>
                 if rp_invocation r \<noteq> iv_id iv then ((409, Text ''stale invocation''), s)
                 else ((204, NoBody), signal (s\<lparr>sv_current := None, sv_sending := sv_sending s @ [(c, r)]\<rparr>))))"

definition ServeHTTP :: "rtrequest \<Rightarrow> server \<Rightarrow> rtresponse option \<times> server" where
  "ServeHTTP q s =
     (case q of
        GetHealth \<Rightarrow> (Some (204, NoBody), s)
      | PostConnect sid \<Rightarrow> (let (r, s1) = connect sid s in (Some r, s1))
      | PostReady p \<Rightarrow> (let (r, s1) = setReady p s in (Some r, s1))
      | GetInvocations sid \<Rightarrow> (next_turn sid s, s)
      | PostReplies p \<Rightarrow> (let (r, s1) = complete p s in (Some r, s1))
      | OtherRoute \<Rightarrow> (Some (404, Text ''404 page not found''), s))"

subsection \<open>Invoking the application\<close>

definition WaitReady_turn :: "server \<Rightarrow> unit wresult option" where
  "WaitReady_turn s =
     (case sv_fatal s of
        Some e \<Rightarrow> Some (Inl (WorkerError e))
      | None \<Rightarrow> if sv_ready s then Some (Inr ()) else None)"

text \<open>
  The critical sections of \<^verbatim>\<open>Invoke\<close> after \<^verbatim>\<open>WaitReady\<close>: making the call current under a new ID, giving it up when
  the context ends, and taking its reply.
\<close>

definition Invoke_start :: "Invocation \<Rightarrow> string \<Rightarrow> server \<Rightarrow> nat wresult \<times> server" where
  "Invoke_start iv i s =
     (let c = sv_calls s; s1 = s\<lparr>sv_calls := c + 1\<rparr> in
      if sv_current s \<noteq> None then (Inl (WorkerError ''an invocation is already active''), s1)
      else (Inr c, signal (s1\<lparr>sv_current := Some (c, iv\<lparr>iv_id := i\<rparr>)\<rparr>)))"

definition Invoke_cancel :: "nat \<Rightarrow> server \<Rightarrow> server" where
  "Invoke_cancel c s =
     (case sv_current s of
        Some (d, _) \<Rightarrow> if d = c then signal (s\<lparr>sv_current := None\<rparr>) else s
      | None \<Rightarrow> s)"

definition Invoke_result :: "Reply \<Rightarrow> Reply wresult" where
  "Invoke_result r = (if rp_error r \<noteq> '''' then Inl (WorkerError (rp_error r)) else Inr r)"

definition Invoke_receive :: "nat \<Rightarrow> server \<Rightarrow> (Reply wresult \<times> server) option" where
  "Invoke_receive c s =
     (case map_of (sv_replies s) c of
        None \<Rightarrow> None
      | Some r \<Rightarrow> Some (Invoke_result r, s\<lparr>sv_replies := AList.delete c (sv_replies s)\<rparr>))"

subsection \<open>Handlers\<close>

text \<open>
  The SDK handlers of a runtime are scripts. \<open>invoke\<close> is what \<^verbatim>\<open>Invoke\<close> returns for an invocation, with the
  state \<open>'a\<close> of the application it goes to. The outputs of a reply are all validated before the first
  is emitted. \<open>valid\<close> reads a JSON text.
\<close>

type_synonym 'a invoke = "Invocation \<Rightarrow> 'a \<Rightarrow> Reply wresult \<times> 'a"

definition output_error :: "werror \<Rightarrow> werror" where
  "output_error e = (case e of WorkerError _ \<Rightarrow> WorkerError ''invocation %s output: %w'' | _ \<Rightarrow> e)"

fun emit_outputs :: "Output list \<Rightarrow> 'a \<Rightarrow> 'a script" where
  "emit_outputs [] st = Return None st"
| "emit_outputs (out # outs) st =
     Act (DoEmit (ou_channel out) (ou_key out) (Some (ou_value out)))
       (\<lambda>oc. case oc of Failed e \<Rightarrow> Return (Some e) st | _ \<Rightarrow> emit_outputs outs st)"

fun validate_outputs :: "Output list \<Rightarrow> 'a script \<Rightarrow> 'a \<Rightarrow> 'a script" where
  "validate_outputs [] k st = k"
| "validate_outputs (out # outs) k st =
     Act (DoValidate (ou_channel out) (ou_key out) (Some (ou_value out)))
       (\<lambda>oc. case oc of Failed e \<Rightarrow> Return (Some (output_error e)) st | _ \<Rightarrow> validate_outputs outs k st)"

definition callThroughServer :: "'a invoke \<Rightarrow> Invocation \<Rightarrow> 'a \<Rightarrow> 'a script" where
  "callThroughServer invoke iv st =
     Act DoEpoch (\<lambda>oc.
       let iv1 = (case oc of AtEpoch e m \<Rightarrow> iv\<lparr>iv_epoch := e, iv_maxEpoch := m\<rparr> | _ \<Rightarrow> iv) in
       case invoke iv1 st of
         (Inl e, st1) \<Rightarrow> Return (Some e) st1
       | (Inr rpl, st1) \<Rightarrow> validate_outputs (rp_outputs rpl) (emit_outputs (rp_outputs rpl) st1) st1)"

definition record_invocation :: "string \<Rightarrow> wireRecord \<Rightarrow> Invocation" where
  "record_invocation ch r =
     (invocation ''record'')\<lparr>iv_record := Some \<lparr>rr_channel = ch, rr_key = x_key r, rr_value = x_value r, rr_epoch = x_epoch r\<rparr>\<rparr>"

definition Server_Handlers :: "'a invoke \<Rightarrow> 'a handlers" where
  "Server_Handlers invoke =
     \<lparr>h_snapshot = None, h_restore = None,
      h_source = Some (callThroughServer invoke (invocation ''source'')),
      h_onRecord = Some (\<lambda>ch r _ _. callThroughServer invoke (record_invocation ch r)),
      h_onEpochEnd = Some (\<lambda>epoch. callThroughServer invoke ((invocation ''epoch'')\<lparr>iv_epoch := epoch\<rparr>)),
      h_onDrain = Some (callThroughServer invoke (invocation ''drain'')),
      h_tick = None\<rparr>"

definition snapshot_reply :: "'a invoke \<Rightarrow> 'a \<Rightarrow> string wresult" where
  "snapshot_reply invoke st =
     (case fst (invoke (invocation ''snapshot'') st) of
        Inl e \<Rightarrow> Inl e
      | Inr rpl \<Rightarrow>
          (case rp_state rpl of
             None \<Rightarrow> Inl (WorkerError ''snapshot reply requires JSON state'')
           | Some v \<Rightarrow> Inr (json_text v)))"

definition restore_state :: "(string \<Rightarrow> json option) \<Rightarrow> 'a invoke \<Rightarrow> string \<Rightarrow> 'a \<Rightarrow> 'a wresult" where
  "restore_state valid invoke state st =
     (case valid state of
        None \<Rightarrow> Inl (WorkerError ''checkpoint state is not JSON'')
      | Some v \<Rightarrow>
          (case invoke ((invocation ''restore'')\<lparr>iv_data := Some v\<rparr>) st of
             (Inl e, _) \<Rightarrow> Inl e
           | (Inr _, st1) \<Rightarrow> Inr st1))"

definition Server_HandlersFor :: "(string \<Rightarrow> json option) \<Rightarrow> 'a invoke \<Rightarrow> worker \<Rightarrow> 'a handlers" where
  "Server_HandlersFor valid invoke w =
     (let h = (Server_Handlers invoke)\<lparr>h_tick := (if 0 < wk_tickInterval w
                then Some (callThroughServer invoke (invocation ''tick'')) else None)\<rparr> in
      if wk_checkpointed w
      then h\<lparr>h_snapshot := Some (snapshot_reply invoke), h_restore := Some (restore_state valid invoke)\<rparr> else h)"

subsection \<open>The client\<close>

text \<open>
  The callbacks of an application and the reply to one invocation. A snapshot callback returns raw bytes: a
  JSON value, or text that is none. Encoding a reply fails on a state that is not JSON and not empty.
\<close>

datatype raw = Value json | NoValue string

type_synonym 'a callback = "Invocation \<Rightarrow> 'a \<Rightarrow> Output list \<times> string option \<times> 'a"

record 'a Adapters =
  ad_source :: "'a callback option"
  ad_onRecord :: "'a callback option"
  ad_onEpoch :: "'a callback option"
  ad_onDrain :: "'a callback option"
  ad_onTick :: "'a callback option"
  ad_snapshot :: "(Invocation \<Rightarrow> 'a \<Rightarrow> raw \<times> string option) option"
  ad_restore :: "'a callback option"

definition callback_for :: "'a Adapters \<Rightarrow> string \<Rightarrow> 'a callback option" where
  "callback_for a kind =
     (if kind = ''source'' then ad_source a else if kind = ''record'' then ad_onRecord a
      else if kind = ''epoch'' then ad_onEpoch a else if kind = ''drain'' then ad_onDrain a
      else if kind = ''tick'' then ad_onTick a else if kind = ''restore'' then ad_restore a else None)"

definition state_of :: "raw \<Rightarrow> json option wresult" where
  "state_of b =
     (case b of Value v \<Rightarrow> Inr (Some v) | NoValue t \<Rightarrow> if t = '''' then Inr None else Inl (WorkerError ''json: error calling MarshalJSON''))"

definition error_text :: "string option \<Rightarrow> string" where
  "error_text e = (case e of None \<Rightarrow> '''' | Some x \<Rightarrow> x)"

definition client_reply :: "'a Adapters \<Rightarrow> string \<Rightarrow> Invocation \<Rightarrow> 'a \<Rightarrow> Reply wresult \<times> 'a" where
  "client_reply a sid iv st =
     (let rpl = emptyReply\<lparr>rp_session := sid, rp_invocation := iv_id iv\<rparr> in
      if iv_kind iv = ''snapshot''
      then
        (case ad_snapshot a of
           None \<Rightarrow> (Inr (rpl\<lparr>rp_error := ''no handler for snapshot''\<rparr>), st)
         | Some f \<Rightarrow>
             (let (b, e) = f iv st;
                  err = (case e of Some x \<Rightarrow> x | None \<Rightarrow> (case b of Value _ \<Rightarrow> '''' | NoValue _ \<Rightarrow> ''snapshot state must be JSON'')) in
              (case state_of b of Inl x \<Rightarrow> Inl x | Inr v \<Rightarrow> Inr (rpl\<lparr>rp_state := v, rp_error := err\<rparr>), st)))
      else
        (case callback_for a (iv_kind iv) of
           None \<Rightarrow>
             (Inr (if iv_kind iv = ''epoch'' \<or> iv_kind iv = ''drain'' then rpl
                   else rpl\<lparr>rp_error := ''no handler for '' @ iv_kind iv\<rparr>), st)
         | Some f \<Rightarrow>
             (let (outs, e, st1) = f iv st in (Inr (rpl\<lparr>rp_outputs := outs, rp_error := error_text e\<rparr>), st1))))"

text \<open>
  The client's requests, with the answers they get: no response, or a status and a body. \<^verbatim>\<open>Client.Run\<close> connects,
  declares itself ready and then takes rounds of an invocation and the answer to its reply, until a
  request fails. The result is the error that ended it, if the rounds given reach it, and the replies.
\<close>

datatype client_answer = NoAnswer string | Answered int rtbody

definition client_do :: "client_answer \<Rightarrow> rtbody wresult" where
  "client_do a =
     (case a of
        NoAnswer e \<Rightarrow> Inl (WorkerError e)
      | Answered code b \<Rightarrow> if 300 \<le> code then Inl (WorkerError ''%s %s: %s'') else Inr b)"

fun client_rounds ::
  "'a Adapters \<Rightarrow> string \<Rightarrow> (client_answer \<times> client_answer) list \<Rightarrow> 'a \<Rightarrow> werror option \<times> Reply list \<times> 'a" where
  "client_rounds a sid [] st = (None, [], st)"
| "client_rounds a sid ((q, p) # rest) st =
     (case client_do q of
        Inl e \<Rightarrow> (Some e, [], st)
      | Inr (InvocationBody iv) \<Rightarrow>
          (case client_reply a sid iv st of
             (Inl e, st1) \<Rightarrow> (Some e, [], st1)
           | (Inr rpl, st1) \<Rightarrow>
               (case client_do p of
                  Inl e \<Rightarrow> (Some e, [rpl], st1)
                | Inr _ \<Rightarrow> (case client_rounds a sid rest st1 of (r, rpls, st2) \<Rightarrow> (r, rpl # rpls, st2))))
      | Inr _ \<Rightarrow> (Some (WorkerError ''invalid character''), [], st))"

definition Client_Run ::
  "'a Adapters \<Rightarrow> client_answer \<Rightarrow> client_answer \<Rightarrow> (client_answer \<times> client_answer) list \<Rightarrow> 'a \<Rightarrow> werror option \<times> Reply list \<times> 'a" where
  "Client_Run a connected readied rounds st =
     (case client_do connected of
        Inl e \<Rightarrow> (Some e, [], st)
      | Inr (SessionBody sid) \<Rightarrow>
          (case client_do readied of Inl e \<Rightarrow> (Some e, [], st) | Inr _ \<Rightarrow> client_rounds a sid rounds st)
      | Inr _ \<Rightarrow> (Some (WorkerError ''invalid character''), [], st))"

end
