(* ===== verification/Invocations.thy ===== *)
theory Invocations
  imports Runtime Buffers "HOL-Library.Multiset"
begin

text \<open>
  Runs of the local runtime: any interleaving of requests of application processes, of invocations of
  the worker and of the sends between them. \<open>runtime_step\<close> is one critical section; its label says which
  invocation it starts or which reply it hands to \<^verbatim>\<open>Invoke\<close>.
\<close>

datatype rtlabel = Quiet | Started nat Invocation | Received nat Reply

inductive runtime_step :: "server \<Rightarrow> rtlabel \<Rightarrow> server \<Rightarrow> bool" where
  configure: "runtime_step s Quiet (ConfigureCheckpointing enabled s)"
| serve: "ServeHTTP q s = (r, s') \<Longrightarrow> runtime_step s Quiet s'"
| send: "sv_sending s = xs @ (c, r) # ys \<Longrightarrow> map_of (sv_replies s) c = None \<Longrightarrow>
    runtime_step s Quiet (s\<lparr>sv_sending := xs @ ys, sv_replies := AList.update c r (sv_replies s)\<rparr>)"
| start: "Invoke_start iv i s = (Inr c, s') \<Longrightarrow> runtime_step s (Started c (iv\<lparr>iv_id := i\<rparr>)) s'"
| busy: "Invoke_start iv i s = (Inl e, s') \<Longrightarrow> runtime_step s Quiet s'"
| cancel: "runtime_step s Quiet (Invoke_cancel c s)"
| receive: "Invoke_receive c s = Some (r, s') \<Longrightarrow> map_of (sv_replies s) c = Some rpl \<Longrightarrow> runtime_step s (Received c rpl) s'"
| report: "sv_failures s = e # es \<Longrightarrow> runtime_step s Quiet (s\<lparr>sv_failures := es\<rparr>)"

inductive_cases runtime_stepE: "runtime_step s l s'"

inductive runtime_run :: "server \<Rightarrow> rtlabel list \<Rightarrow> bool" where
  new: "runtime_run NewServer []"
| step: "runtime_run s ls \<Longrightarrow> runtime_step s l s' \<Longrightarrow> runtime_run s' (ls @ [l])"

subsection \<open>Every call is answered at most once\<close>

text \<open>Where a call can be: current, about to be answered, answered, or taken by \<^verbatim>\<open>Invoke\<close>.\<close>

definition started :: "rtlabel list \<Rightarrow> (nat \<times> Invocation) set" where
  "started ls = {(c, iv). Started c iv \<in> set ls}"

definition received :: "rtlabel list \<Rightarrow> (nat \<times> Reply) list" where
  "received ls = List.map_filter (\<lambda>l. case l of Received c r \<Rightarrow> Some (c, r) | _ \<Rightarrow> None) ls"

lemma log_simps [simp]:
  "started [] = {}" "received [] = []" "started (ls @ [Quiet]) = started ls" "received (ls @ [Quiet]) = received ls"
  "started (ls @ [Started c iv]) = insert (c, iv) (started ls)" "received (ls @ [Started c iv]) = received ls"
  "started (ls @ [Received c r]) = started ls" "received (ls @ [Received c r]) = received ls @ [(c, r)]"
  by (auto simp: started_def received_def List.map_filter_def)

definition answers :: "Reply \<Rightarrow> Invocation \<Rightarrow> bool" where
  "answers r iv \<longleftrightarrow> rp_session r \<noteq> '''' \<and> rp_invocation r = iv_id iv \<or> r = emptyReply\<lparr>rp_error := replaced\<rparr>"

definition current_call :: "server \<Rightarrow> nat multiset" where
  "current_call s = (case sv_current s of None \<Rightarrow> {#} | Some (c, _) \<Rightarrow> {#c#})"

definition places :: "server \<Rightarrow> rtlabel list \<Rightarrow> nat multiset" where
  "places s ls = current_call s + mset (map fst (sv_sending s)) + mset (map fst (sv_replies s)) + mset (map fst (received ls))"

definition reply_places :: "server \<Rightarrow> rtlabel list \<Rightarrow> (nat \<times> Reply) set" where
  "reply_places s ls = set (sv_sending s) \<union> set (sv_replies s) \<union> set (received ls)"

definition calls_ok :: "server \<Rightarrow> rtlabel list \<Rightarrow> bool" where
  "calls_ok s ls \<longleftrightarrow>
     (\<forall>c. count (places s ls) c \<le> 1) \<and> (\<forall>c \<in># places s ls. c < sv_calls s)
     \<and> (\<forall>c iv. sv_current s = Some (c, iv) \<longrightarrow> (c, iv) \<in> started ls)
     \<and> (\<forall>(c, r) \<in> reply_places s ls. \<exists>iv. (c, iv) \<in> started ls \<and> answers r iv)"

lemma calls_ok_new: "calls_ok NewServer []"
  by (simp add: calls_ok_def NewServer_def places_def current_call_def reply_places_def)

text \<open>A critical section that moves calls along and adds only fitting replies keeps the invariant.\<close>

lemma calls_ok_moved:
  assumes "calls_ok s ls" and "places s' ls' \<subseteq># places s ls" and "sv_calls s \<le> sv_calls s'"
    and "sv_current s' = None \<or> sv_current s' = sv_current s" and "started ls' = started ls"
    and "\<And>c r. (c, r) \<in> reply_places s' ls' \<Longrightarrow> (c, r) \<in> reply_places s ls \<or> (\<exists>iv. sv_current s = Some (c, iv) \<and> answers r iv)"
  shows "calls_ok s' ls'"
proof -
  have "count (places s' ls') c \<le> 1" for c
    using assms(1) mset_subset_eq_count [OF assms(2), of c] by (auto simp: calls_ok_def intro: order_trans)
  moreover have "c < sv_calls s'" if "c \<in># places s' ls'" for c
    using assms(1,3) mset_subset_eqD [OF assms(2) that] by (auto simp: calls_ok_def)
  moreover have "\<exists>iv. (c, iv) \<in> started ls' \<and> answers r iv" if "(c, r) \<in> reply_places s' ls'" for c r
    using assms(1,5) assms(6) [OF that] by (auto simp: calls_ok_def)
  ultimately show ?thesis using assms(1,4,5) by (auto simp: calls_ok_def)
qed

lemma signal_simps [simp]:
  "sv_current (signal s) = sv_current s" "sv_sending (signal s) = sv_sending s" "sv_replies (signal s) = sv_replies s"
  "sv_calls (signal s) = sv_calls s" "sv_changed (signal s) = sv_changed s + 1" "sv_fatal (signal s) = sv_fatal s"
  "sv_session (signal s) = sv_session s" "sv_ready (signal s) = sv_ready s" "sv_failures (signal s) = sv_failures s"
  "sv_checkpointed (signal s) = sv_checkpointed s"
  by (simp_all add: signal_def)

lemmas place_defs = places_def current_call_def reply_places_def

lemma unanswered:
  assumes "calls_ok s ls" and "c \<in># current_call s \<or> c \<in> fst ` set (sv_sending s)"
  shows "c \<notin> fst ` set (sv_replies s)"
proof
  assume r: "c \<in> fst ` set (sv_replies s)"
  have "1 \<le> count (current_call s + mset (map fst (sv_sending s))) c"
    using assms(2) by (auto simp: Suc_le_eq count_greater_zero_iff simp del: count_mset_0_iff)
  moreover have "1 \<le> count (mset (map fst (sv_replies s))) c" using r by (auto simp: Suc_le_eq)
  ultimately have "2 \<le> count (places s ls) c" unfolding places_def count_union by linarith
  moreover have "count (places s ls) c \<le> 1" using assms(1) by (simp add: calls_ok_def)
  ultimately show False by linarith
qed

lemma update_new [simp]: "c \<notin> fst ` set m \<Longrightarrow> AList.update c r m = m @ [(c, r)]"
  by (induction m) auto

lemma connect_calls_ok:
  assumes "calls_ok s ls" and "connect sid s = (r, s')"
  shows "calls_ok s' ls"
proof (rule calls_ok_moved [OF assms(1)])
  have "c \<notin> fst ` set (sv_replies s)" if "sv_current s = Some (c, iv)" for c iv
    using unanswered [OF assms(1), of c] that by (simp add: current_call_def)
  with assms(2) show "places s' ls \<subseteq># places s ls" "sv_calls s \<le> sv_calls s'"
      "sv_current s' = None \<or> sv_current s' = sv_current s"
      "(c, r1) \<in> reply_places s' ls \<Longrightarrow> (c, r1) \<in> reply_places s ls \<or> (\<exists>iv. sv_current s = Some (c, iv) \<and> answers r1 iv)" for c r1
    by (auto simp: connect_def Let_def place_defs answers_def split: option.splits if_splits)
qed simp

lemma complete_calls_ok:
  assumes "calls_ok s ls" and "complete p s = (r, s')"
  shows "calls_ok s' ls"
  by (rule calls_ok_moved [OF assms(1)]; use assms(2) in
      \<open>auto simp: complete_def decode_def place_defs answers_def split: option.splits if_splits payload.splits\<close>)

lemma setReady_calls_ok:
  assumes "calls_ok s ls" and "setReady p s = (r, s')"
  shows "calls_ok s' ls"
  by (rule calls_ok_moved [OF assms(1)]; use assms(2) in
      \<open>auto simp: setReady_def decode_def place_defs split: if_splits payload.splits\<close>)

lemma send_calls_ok:
  assumes "calls_ok s ls" and "sv_sending s = xs @ (c, r) # ys"
  shows "calls_ok (s\<lparr>sv_sending := xs @ ys, sv_replies := AList.update c r (sv_replies s)\<rparr>) ls"
proof -
  have "c \<notin> fst ` set (sv_replies s)" using unanswered [OF assms(1), of c] assms(2) by simp
  then show ?thesis using assms(2) by (intro calls_ok_moved [OF assms(1)]) (auto simp: place_defs split: option.splits)
qed

lemma taken: "c \<in># M \<Longrightarrow> add_mset c (filter_mset (\<lambda>x. c \<noteq> x) M) \<subseteq># M"
  by (auto simp: subseteq_mset_def Suc_le_eq)

lemma receive_calls_ok:
  assumes "calls_ok s ls" and "Invoke_receive c s = Some (r, s')" and "map_of (sv_replies s) c = Some rpl"
  shows "calls_ok s' (ls @ [Received c rpl])"
proof -
  have s': "s' = s\<lparr>sv_replies := AList.delete c (sv_replies s)\<rparr>" using assms(2,3) by (simp add: Invoke_receive_def)
  have c: "(c, rpl) \<in> set (sv_replies s)" using assms(3) by (rule map_of_SomeD)
  then have "c \<in># mset (map fst (sv_replies s))" by force
  then have "add_mset c (mset (map fst (AList.delete c (sv_replies s)))) \<subseteq># mset (map fst (sv_replies s))"
    unfolding delete_keys removeAll_filter_not_eq mset_filter by (rule taken)
  then have "places s' (ls @ [Received c rpl]) \<subseteq># places s ls"
    unfolding s' places_def current_call_def by (simp add: subset_mset.add_mono)
  moreover have "reply_places s' (ls @ [Received c rpl]) \<subseteq> reply_places s ls"
    using c unfolding s' reply_places_def by (auto simp: AList.delete_eq)
  ultimately show ?thesis by (intro calls_ok_moved [OF assms(1)]) (auto simp: s')
qed

lemma start_calls_ok:
  assumes "calls_ok s ls" and "Invoke_start iv i s = (Inr c, s')"
  shows "calls_ok s' (ls @ [Started c (iv\<lparr>iv_id := i\<rparr>)])"
proof -
  have s': "sv_current s = None" "c = sv_calls s" "sv_current s' = Some (c, iv\<lparr>iv_id := i\<rparr>)" "sv_calls s' = c + 1"
      "sv_sending s' = sv_sending s" "sv_replies s' = sv_replies s"
    using assms(2) by (cases "sv_current s"; auto simp: Invoke_start_def Let_def)+
  let ?ls = "ls @ [Started c (iv\<lparr>iv_id := i\<rparr>)]"
  have p: "places s' ?ls = add_mset c (places s ls)" "reply_places s' ?ls = reply_places s ls" using s' by (simp_all add: place_defs)
  have "c \<notin># places s ls" using assms(1) s'(2) by (auto simp: calls_ok_def)
  then have "count (places s' ?ls) d \<le> 1" for d
    using assms(1) unfolding p by (auto simp: calls_ok_def not_in_iff)
  then show ?thesis using assms(1) s' p by (fastforce simp: calls_ok_def)
qed

lemma step_calls_ok:
  assumes "calls_ok s ls" and "runtime_step s l s'"
  shows "calls_ok s' (ls @ [l])"
  using assms(2)
proof cases
  case (serve q r)
  have "calls_ok s' ls" using assms(1) serve(2)
    by (auto simp: ServeHTTP_def split: rtrequest.splits prod.splits
        dest: connect_calls_ok complete_calls_ok setReady_calls_ok)
  then show ?thesis using serve(1) by (simp add: calls_ok_def place_defs)
next
  case (send xs c r ys)
  from send_calls_ok [OF assms(1) send(3)] show ?thesis using send(1,2) by (simp add: calls_ok_def place_defs)
qed (use assms(1) receive_calls_ok start_calls_ok in
    \<open>auto simp: ConfigureCheckpointing_def Invoke_start_def Invoke_cancel_def Let_def place_defs
       intro!: calls_ok_moved [of s ls] split: option.splits if_splits\<close>)

lemma run_calls_ok: "runtime_run s ls \<Longrightarrow> calls_ok s ls"
  by (induction rule: runtime_run.induct) (auto intro: calls_ok_new step_calls_ok)

text \<open>
  C29: Every call of \<^verbatim>\<open>Invoke\<close> is answered at most once and with its own reply, however requests, sends,
  cancellations and new sessions interleave: the reply it takes names its invocation and was posted by
  an application session, or it is the error of a checkpointed session that was replaced. A reply on
  its way never finds the reply channel of its call occupied, so no handler blocks on it.
\<close>

theorem invocation_answered_once:
  assumes "runtime_run s ls"
  shows "distinct (map fst (received ls))
    \<and> (\<forall>(c, r) \<in> set (received ls). \<exists>iv. (c, iv) \<in> started ls \<and> answers r iv)
    \<and> (\<forall>(c, r) \<in> set (sv_sending s). map_of (sv_replies s) c = None)"
proof -
  have ok: "calls_ok s ls" using run_calls_ok [OF assms] .
  have "count (mset (map fst (received ls))) c \<le> count (places s ls) c" for c by (simp add: places_def)
  then have "count (mset (map fst (received ls))) c \<le> 1" for c using ok by (auto simp: calls_ok_def intro: order_trans)
  then have "count (mset (map fst (received ls))) c = (if c \<in> set (map fst (received ls)) then 1 else 0)" for c
    by (metis One_nat_def count_mset_0_iff le_0_eq le_SucE)
  then have "distinct (map fst (received ls))" unfolding distinct_count_atmost_1 by blast
  moreover have "map_of (sv_replies s) c = None" if "(c, r) \<in> set (sv_sending s)" for c r
    using unanswered [OF ok, of c] that by (force simp: map_of_eq_None_iff)
  ultimately show ?thesis using ok by (auto simp: calls_ok_def reply_places_def)
qed

subsection \<open>No waiting request misses a signal\<close>

lemma step_signals:
  assumes "runtime_step s l s'"
  shows "sv_changed s' = sv_changed s + 1
    \<or> sv_changed s' = sv_changed s \<and> sv_session s' = sv_session s \<and> sv_ready s' = sv_ready s
      \<and> sv_current s' = sv_current s \<and> sv_fatal s' = sv_fatal s"
  using assms
proof cases
  case (serve q r)
  then show ?thesis
    by (auto simp: ServeHTTP_def connect_def setReady_def complete_def decode_def Let_def
        split: rtrequest.splits option.splits if_splits payload.splits)
qed (auto simp: ConfigureCheckpointing_def Invoke_start_def Invoke_cancel_def Invoke_receive_def Let_def
    split: option.splits if_splits)

lemma turn_cong:
  "sv_session s' = sv_session s \<and> sv_ready s' = sv_ready s \<and> sv_current s' = sv_current s \<and> sv_fatal s' = sv_fatal s \<Longrightarrow>
   next_turn sid s' = next_turn sid s \<and> WaitReady_turn s' = WaitReady_turn s"
  unfolding next_turn_def WaitReady_turn_def by (elim conjE) (simp only: simp_thms)

definition follows :: "server \<Rightarrow> server \<Rightarrow> bool" where
  "follows = (\<lambda>s s'. \<exists>l. runtime_step s l s')\<^sup>*\<^sup>*"

text \<open>
  C30: No waiting request misses its wake-up. A request for an invocation, or a worker that waits for the
  application, which found nothing and took the signal channel of that moment: if it would be
  answered in any later state, a signal was sent in between.
\<close>

theorem no_lost_wakeup:
  assumes "follows s s'"
    and "next_turn sid s = None \<and> next_turn sid s' \<noteq> None \<or> WaitReady_turn s = None \<and> WaitReady_turn s' \<noteq> None"
  shows "sv_changed s < sv_changed s'"
proof -
  have "sv_changed s < sv_changed s' \<or> next_turn sid s' = next_turn sid s \<and> WaitReady_turn s' = WaitReady_turn s
      \<and> sv_changed s' = sv_changed s"
    using assms(1) unfolding follows_def
  proof (induction rule: rtranclp_induct)
    case (step s1 s2)
    then obtain l where "runtime_step s1 l s2" by blast
    then have "sv_changed s2 = sv_changed s1 + 1 \<or> sv_changed s2 = sv_changed s1
        \<and> next_turn sid s2 = next_turn sid s1 \<and> WaitReady_turn s2 = WaitReady_turn s1"
      using step_signals turn_cong by blast
    with step.IH show ?case by auto
  qed simp
  then show ?thesis using assms(2) by auto
qed

subsection \<open>A refused reply\<close>

lemma validate_shell: "shell (snd (ValidateEmit M ch ky vo w)) = shell w"
  unfolding ValidateEmit_def
  by (rule thenW_inv [where I = "\<lambda>s. shell s = shell w"]) (simp_all add: spec_shell split: option.splits)

lemma validate_outputs_refused:
  assumes "out \<in> set outs" and "\<And>v. shell v = shell w \<Longrightarrow>
    \<exists>e. fst (ValidateEmit M (ou_channel out) (ou_key out) (Some (ou_value out)) v) = Inl e"
    and "run_script (validate_outputs outs k st) M w = (r, st', w')"
  shows "(\<exists>e. r = Inl e) \<and> shell w' = shell w"
  using assms
proof (induction outs arbitrary: w)
  case (Cons o1 outs)
  obtain r1 w1 where v: "ValidateEmit M (ou_channel o1) (ou_key o1) (Some (ou_value o1)) w = (r1, w1)" by fastforce
  have w1: "shell w1 = shell w" using validate_shell [of M "ou_channel o1" "ou_key o1" "Some (ou_value o1)" w] v by simp
  show ?case
  proof (cases r1)
    case (Inl e)
    then show ?thesis using Cons.prems(3) v w1 by (auto simp: outcome_of_def)
  next
    case (Inr u)
    then have "out \<in> set outs" using Cons.prems(1) Cons.prems(2) [OF refl] v by auto
    moreover have "run_script (validate_outputs outs k st) M w1 = (r, st', w')"
      using Cons.prems(3) v Inr by (simp add: outcome_of_def)
    ultimately show ?thesis using Cons.IH [of w1] Cons.prems(2) w1 by simp
  qed
qed simp

text \<open>
  A reply with an output that is refused emits none of its outputs: the worker's buffers, announcements,
  flush order and segments stay, and the handler fails.
\<close>

lemma refused_reply_emits_nothing:
  assumes "invoke (iv\<lparr>iv_epoch := wk_epoch w, iv_maxEpoch := wk_maxEpoch w\<rparr>) st = (Inr rpl, st1)" and "out \<in> set (rp_outputs rpl)"
    and "\<And>v. shell v = shell w \<Longrightarrow> \<exists>e. fst (ValidateEmit M (ou_channel out) (ou_key out) (Some (ou_value out)) v) = Inl e"
    and "run_script (callThroughServer invoke iv st) M w = (r, st', w')"
  shows "(\<exists>e. r = Inl e) \<and> shell w' = shell w"
proof -
  have run: "run_script (validate_outputs (rp_outputs rpl) (emit_outputs (rp_outputs rpl) st1) st1) M w = (r, st', w')"
    using assms(1,4) by (simp add: callThroughServer_def Let_def)
  show ?thesis by (rule validate_outputs_refused [OF assms(2) _ run]) (rule assms(3))
qed

subsection \<open>The client's replies fit\<close>

text \<open>A reply the client builds is one the server accepts while its session and invocation are current.\<close>

lemma client_reply_accepted:
  assumes "client_reply a (sv_session s) iv st = (Inr rpl, st1)" and "sv_session s \<noteq> ''''" and "sv_current s = Some (c, iv)"
  shows "fst (complete (OneValue rpl) s) = (204, NoBody) \<and> sv_sending (snd (complete (OneValue rpl) s)) = sv_sending s @ [(c, rpl)]"
proof -
  have "rp_session rpl = sv_session s" "rp_invocation rpl = iv_id iv"
    using assms(1) by (auto simp: client_reply_def emptyReply_def Let_def split: if_splits option.splits sum.splits prod.splits)
  then show ?thesis using assms(2,3) by (simp add: complete_def decode_def)
qed

subsection \<open>A run\<close>

definition ready_server :: server where
  "ready_server = snd (setReady (OneValue ''s1'') (snd (connect (Some ''s1'') NewServer)))"

definition sample_invocation :: Invocation where
  "sample_invocation = (invocation ''drain'')\<lparr>iv_id := ''i1''\<rparr>"

definition invoking_server :: server where
  "invoking_server = snd (Invoke_start (invocation ''drain'') ''i1'' ready_server)"

definition sample_reply :: Reply where
  "sample_reply = emptyReply\<lparr>rp_session := ''s1'', rp_invocation := ''i1''\<rparr>"

definition completed_server :: server where
  "completed_server = snd (complete (OneValue sample_reply) invoking_server)"

lemmas sample_defs = ready_server_def invoking_server_def completed_server_def sample_reply_def sample_invocation_def
  setReady_def connect_def complete_def Invoke_start_def decode_def NewServer_def signal_def invocation_def emptyReply_def
  ServeHTTP_def Invoke_receive_def

lemma served: "runtime_step s Quiet (snd (ServeHTTP q s))"
  by (rule runtime_step.serve [of q s "fst (ServeHTTP q s)"]) simp

lemma served_simps:
  "snd (ServeHTTP (PostConnect sid) s) = snd (connect sid s)" "snd (ServeHTTP (PostReady p) s) = snd (setReady p s)"
  "snd (ServeHTTP (PostReplies rp) s) = snd (complete rp s)"
  by (simp_all add: ServeHTTP_def case_prod_beta)

lemma ready_run: "runtime_run ready_server [Quiet, Quiet]"
proof -
  have "runtime_step NewServer Quiet (snd (connect (Some ''s1'') NewServer))"
    unfolding served_simps(1) [symmetric] by (rule served)
  from runtime_run.step [OF runtime_run.new this]
  have "runtime_run (snd (connect (Some ''s1'') NewServer)) [Quiet]" by simp
  moreover have "runtime_step (snd (connect (Some ''s1'') NewServer)) Quiet ready_server" 
    unfolding ready_server_def served_simps(2) [symmetric] by (rule served)
  ultimately show ?thesis using runtime_run.step by fastforce
qed

lemma invoking_step: "runtime_step ready_server (Started 0 sample_invocation) invoking_server"
  unfolding sample_invocation_def by (rule runtime_step.start) (simp add: sample_defs Let_def)

theorem invocation_answered_once_witness:
  "\<exists>s. runtime_run s [Quiet, Quiet, Started 0 sample_invocation, Quiet, Quiet, Received 0 sample_reply]
     \<and> (\<exists>iv. (0, iv) \<in> started [Quiet, Quiet, Started 0 sample_invocation, Quiet, Quiet, Received 0 sample_reply]
          \<and> answers sample_reply iv)"
proof -
  let ?sent = "completed_server\<lparr>sv_sending := [], sv_replies := [(0, sample_reply)]\<rparr>"
  have 1: "runtime_step invoking_server Quiet completed_server" 
    unfolding completed_server_def served_simps(3) [symmetric] by (rule served)
  have "runtime_step completed_server Quiet (completed_server\<lparr>sv_sending := [] @ [],
      sv_replies := AList.update 0 sample_reply (sv_replies completed_server)\<rparr>)"
    by (rule runtime_step.send) (simp_all add: sample_defs Let_def)
  then have 2: "runtime_step completed_server Quiet ?sent" by (simp add: sample_defs Let_def)
  have 3: "runtime_step ?sent (Received 0 sample_reply) (?sent\<lparr>sv_replies := []\<rparr>)"
    by (rule runtime_step.receive [where r = "Invoke_result sample_reply"]) (simp_all add: Invoke_receive_def)
  from ready_run invoking_step 1 2 3
  have run: "runtime_run (?sent\<lparr>sv_replies := []\<rparr>)
      (((([Quiet, Quiet] @ [Started 0 sample_invocation]) @ [Quiet]) @ [Quiet]) @ [Received 0 sample_reply])"
    by (blast intro: runtime_run.step)
  from invocation_answered_once [OF run] have "\<exists>iv. (0, iv) \<in> started
      (((([Quiet, Quiet] @ [Started 0 sample_invocation]) @ [Quiet]) @ [Quiet]) @ [Received 0 sample_reply])
      \<and> answers sample_reply iv"
    by (simp add: received_def List.map_filter_def)
  with run show ?thesis by auto
qed

theorem no_lost_wakeup_witness:
  "next_turn ''s1'' ready_server = None \<and> next_turn ''s1'' invoking_server = Some (200, InvocationBody sample_invocation)
   \<and> sv_changed ready_server < sv_changed invoking_server"
proof -
  have "follows ready_server invoking_server" unfolding follows_def using invoking_step by blast
  moreover have a: "next_turn ''s1'' ready_server = None" by (simp add: next_turn_def sample_defs Let_def)
  moreover have b: "next_turn ''s1'' invoking_server = Some (200, InvocationBody sample_invocation)"
    by (simp add: next_turn_def sample_defs Let_def)
  ultimately show ?thesis using no_lost_wakeup [of ready_server invoking_server "''s1''"] by simp
qed

end
