(* ===== verification/Etl.thy ===== *)
theory Etl
  imports Worker Store
begin

text \<open>
  Replayable file splits and committed file output, after \<^verbatim>\<open>pkg/etl/etl.go\<close>, over any \<open>Store\<close>. A value is
  a 64-bit signed integer, a word here, whose sums wrap. Text written is the JSON text; reading a
  manifest back is a parameter, as are the digest that names a split and the application's mapper.
  An error that the code wraps keeps its identity.
\<close>

record Input =
  in_key :: string
  in_version :: string

record Split =
  sp_id :: string
  sp_key :: string
  sp_version :: string

record KeyValue =
  kv_key :: string
  kv_value :: "64 word"

record OutputFile =
  of_partition :: int
  of_key :: string
  of_version :: string
  of_records :: nat

record Manifest =
  mn_dataset :: string
  mn_attempt :: string
  mn_files :: "OutputFile list"

subsection \<open>Splits\<close>

fun plan_splits :: "(string \<Rightarrow> string) \<Rightarrow> 's Store \<Rightarrow> 's \<Rightarrow> string option \<Rightarrow> Input list \<Rightarrow> Split list sresult" where
  "plan_splits digest S s previous [] = Inr []"
| "plan_splits digest S s previous (i # is) =
     (if previous = Some (in_key i) then Inl (OtherError ''duplicate input key %q'')
      else
        (case st_Get S (in_key i) s of
           Inl e \<Rightarrow> Inl e
         | Inr obj \<Rightarrow>
             if obj_version obj \<noteq> in_version i
             then Inl (OtherError ''input %q version changed: have %s, want %s'')
             else
               (case plan_splits digest S s (Some (in_key i)) is of
                  Inl e \<Rightarrow> Inl e
                | Inr splits \<Rightarrow>
                    Inr (\<lparr>sp_id = digest (in_key i @ [CHR 0x00] @ in_version i), sp_key = in_key i,
                          sp_version = in_version i\<rparr> # splits))))"

definition Plan :: "(string \<Rightarrow> string) \<Rightarrow> 's Store \<Rightarrow> Input list \<Rightarrow> 's \<Rightarrow> Split list sresult" where
  "Plan digest S inputs s = plan_splits digest S s None (sort_key in_key inputs)"

text \<open>
  \<^verbatim>\<open>bufio.Scanner\<close>: the lines without their end of line, up to one that does not fit its buffer.
\<close>

definition drop_cr :: "string \<Rightarrow> string" where
  "drop_cr l = (if l \<noteq> [] \<and> last l = CHR 0x0D then butlast l else l)"

function scan_lines :: "nat \<Rightarrow> string \<Rightarrow> string list \<times> bool" where
  "scan_lines limit bs =
     (if bs = [] then ([], True)
      else
        (let l = takeWhile (\<lambda>c. c \<noteq> CHR 0x0A) bs; rest = dropWhile (\<lambda>c. c \<noteq> CHR 0x0A) bs in
         if limit \<le> length l then ([], False)
         else (case scan_lines limit (drop 1 rest) of (ls, complete) \<Rightarrow> (drop_cr l # ls, complete))))"
  by pat_completeness auto

termination scan_lines
proof (relation "measure (\<lambda>(limit, bs). length bs)", goal_cases)
  case (2 limit bs l rest)
  have "length (dropWhile (\<lambda>c. c \<noteq> CHR 0x0A) bs) \<le> length bs" by (rule length_dropWhile_le)
  then show ?case using 2(1,3) by (cases bs) auto
qed simp

definition trim_space :: "string \<Rightarrow> string" where
  "trim_space s = rev (dropWhile is_space (rev (dropWhile is_space s)))"

definition maxLine :: nat where "maxLine = 16777216"

fun map_lines :: "(string \<Rightarrow> (string \<times> 64 word \<times> bool) sresult) \<Rightarrow> string list \<Rightarrow> KeyValue list sresult" where
  "map_lines mapper [] = Inr []"
| "map_lines mapper (l # ls) =
     (if trim_space l = '''' then map_lines mapper ls
      else
        (case mapper (trim_space l) of
           Inl e \<Rightarrow> Inl e
         | Inr (ky, v, keep) \<Rightarrow>
             (case map_lines mapper ls of
                Inl e \<Rightarrow> Inl e
              | Inr out \<Rightarrow> Inr ((if keep then [\<lparr>kv_key = ky, kv_value = v\<rparr>] else []) @ out))))"

definition TransformJSONLines ::
  "'s Store \<Rightarrow> Split \<Rightarrow> (string \<Rightarrow> (string \<times> 64 word \<times> bool) sresult) \<Rightarrow> 's \<Rightarrow> KeyValue list sresult" where
  "TransformJSONLines S split mapper s =
     (case st_Get S (sp_key split) s of
        Inl e \<Rightarrow> Inl e
      | Inr obj \<Rightarrow>
          if obj_version obj \<noteq> sp_version split then Inl (OtherError ''split %s input version changed'')
          else
            (let (ls, complete) = scan_lines maxLine (obj_bytes obj) in
             case map_lines mapper ls of
               Inl e \<Rightarrow> Inl e
             | Inr out \<Rightarrow> if complete then Inr out else Inl (OtherError ''bufio.Scanner: token too long'')))"

subsection \<open>Aggregation\<close>

definition add_record :: "KeyValue \<Rightarrow> (string, 64 word) gomap \<Rightarrow> (string, 64 word) gomap" where
  "add_record r totals = AList.update (kv_key r) (map_get 0 totals (kv_key r) + kv_value r) totals"

definition Aggregate :: "KeyValue list \<Rightarrow> KeyValue list" where
  "Aggregate records =
     sort_key kv_key (map (\<lambda>(k, v). \<lparr>kv_key = k, kv_value = v\<rparr>) (fold add_record records []))"

subsection \<open>Output\<close>

definition bad_component :: "string \<Rightarrow> bool" where
  "bad_component s \<longleftrightarrow> s = '''' \<or> s = ''.'' \<or> s = ''..'' \<or> CHR ''/'' \<in> set s \<or> CHR 0x5C \<in> set s"

definition validateComponent :: "string \<Rightarrow> unit sresult" where
  "validateComponent s = (if bad_component s then Inl (OtherError ''invalid %s %q'') else Inr ())"

definition padded :: "int \<Rightarrow> string" where
  "padded p = replicate (5 - length (itoa (nat p))) (CHR ''0'') @ itoa (nat p)"

definition part_key :: "string \<Rightarrow> string \<Rightarrow> int \<Rightarrow> string" where
  "part_key dataset attempt p =
     ''datasets/'' @ dataset @ ''/attempts/'' @ attempt @ ''/part-'' @ padded p @ ''.jsonl''"

definition complete_key :: "string \<Rightarrow> string" where
  "complete_key dataset = ''datasets/'' @ dataset @ ''/complete.json''"

definition kv_line :: "KeyValue \<Rightarrow> string" where
  "kv_line r = json_text (JObject [(''key'', JString (kv_key r)), (''value'', JNumber (itoa_int (sint (kv_value r))))]) @ [CHR 0x0A]"

definition WritePartition ::
  "'s Store \<Rightarrow> string \<Rightarrow> string \<Rightarrow> int \<Rightarrow> KeyValue list \<Rightarrow> 's \<Rightarrow> OutputFile sresult \<times> 's" where
  "WritePartition S dataset attempt p records s =
     (if bad_component dataset \<or> bad_component attempt then (Inl (OtherError ''invalid %s %q''), s)
      else if p < 0 then (Inl (OtherError ''partition must be non-negative''), s)
      else
        (let sorted = sort_key kv_key (sort_key (\<lambda>r. sint (kv_value r)) records);
             k = part_key dataset attempt p in
         case PutImmutable S k (concat (map kv_line sorted)) s of
           (Inl e, s1) \<Rightarrow> (Inl e, s1)
         | (Inr _, s1) \<Rightarrow>
             (case st_Get S k s1 of
                Inl e \<Rightarrow> (Inl e, s1)
              | Inr obj \<Rightarrow>
                  (Inr \<lparr>of_partition = p, of_key = k, of_version = obj_version obj, of_records = length records\<rparr>, s1))))"

definition file_json :: "OutputFile \<Rightarrow> json" where
  "file_json f = JObject [(''partition'', JNumber (itoa_int (of_partition f))), (''key'', JString (of_key f)),
     (''version'', JString (of_version f)), (''records'', JNumber (itoa (of_records f)))]"

definition manifest_text :: "Manifest \<Rightarrow> string" where
  "manifest_text m = json_text (JObject [(''dataset'', JString (mn_dataset m)), (''attempt'', JString (mn_attempt m)),
     (''files'', JArray (map file_json (mn_files m)))])"

text \<open>Every partition in order: present once, under its own key, in the recorded version.\<close>

fun check_files :: "'s Store \<Rightarrow> string \<Rightarrow> string \<Rightarrow> 's \<Rightarrow> int list \<Rightarrow> nat \<Rightarrow> OutputFile list \<Rightarrow> serror option" where
  "check_files S dataset attempt s seen n [] = None"
| "check_files S dataset attempt s seen n (f # fs) =
     (if of_partition f \<in> set seen then Some (OtherError ''duplicate output partition %d'')
      else if of_partition f \<noteq> int n then Some (OtherError ''missing output partition %d'')
      else if of_key f \<noteq> part_key dataset attempt (int n)
      then Some (OtherError ''output partition %d has key %q, want %q'')
      else
        (case st_Get S (of_key f) s of
           Inl e \<Rightarrow> Some e
         | Inr obj \<Rightarrow>
             if obj_version obj \<noteq> of_version f then Some (OtherError ''output partition %d version changed'')
             else check_files S dataset attempt s (of_partition f # seen) (n + 1) fs))"

text \<open>
  \<open>others 0\<close> and \<open>others 1\<close> are what other processes do to the store before the completion object is written
  and, when it is there already, before it is read.
\<close>

definition Publish ::
  "'s Store \<Rightarrow> (nat \<Rightarrow> 's \<Rightarrow> 's) \<Rightarrow> string \<Rightarrow> string \<Rightarrow> int \<Rightarrow> OutputFile list \<Rightarrow> 's \<Rightarrow> Manifest sresult \<times> 's" where
  "Publish S others dataset attempt count files s =
     (if bad_component dataset \<or> bad_component attempt then (Inl (OtherError ''invalid %s %q''), s)
      else if count \<le> 0 then (Inl (OtherError ''partition count must be positive''), s)
      else if int (length files) \<noteq> count then (Inl (OtherError ''have %d output partitions, want %d''), s)
      else
        (let sorted = sort_key of_partition files in
         case check_files S dataset attempt s [] 0 sorted of
           Some e \<Rightarrow> (Inl e, s)
         | None \<Rightarrow>
             (let m = \<lparr>mn_dataset = dataset, mn_attempt = attempt, mn_files = sorted\<rparr> in
              case st_CompareAndSwap S (complete_key dataset) '''' (manifest_text m) (others 0 s) of
                (Inr _, s1) \<Rightarrow> (Inr m, s1)
              | (Inl e, s1) \<Rightarrow>
                  if e \<noteq> ErrConflict then (Inl e, s1)
                  else
                    (let s2 = others 1 s1 in
                     case st_Get S (complete_key dataset) s2 of
                       Inr obj \<Rightarrow> if obj_bytes obj = manifest_text m then (Inr m, s2) else (Inl e, s2)
                     | Inl _ \<Rightarrow> (Inl e, s2)))))"

definition file_available :: "'s Store \<Rightarrow> 's \<Rightarrow> OutputFile \<Rightarrow> bool" where
  "file_available S s f = (case st_Get S (of_key f) s of Inl _ \<Rightarrow> False | Inr obj \<Rightarrow> obj_version obj = of_version f)"

definition Open_dataset :: "(bytes \<Rightarrow> Manifest sresult) \<Rightarrow> 's Store \<Rightarrow> string \<Rightarrow> 's \<Rightarrow> Manifest sresult" where
  "Open_dataset parse S dataset s =
     (if bad_component dataset then Inl (OtherError ''invalid %s %q'')
      else
        (case st_Get S (complete_key dataset) s of
           Inl e \<Rightarrow> Inl e
         | Inr obj \<Rightarrow>
             (case parse (obj_bytes obj) of
                Inl e \<Rightarrow> Inl e
              | Inr m \<Rightarrow>
                  if mn_dataset m \<noteq> dataset then Inl (OtherError ''completion manifest names dataset %q'')
                  else if list_all (file_available S s) (mn_files m) then Inr m
                  else Inl (OtherError ''published partition %d is unavailable or changed''))))"

end
