(* ===== verification/Datasets.thy ===== *)
theory Datasets
  imports Etl Checkpoints
begin

text \<open>
  Properties of the file helpers: aggregation sums by key, and a dataset is published at most once. The
  second rests on the contract of a store (\<open>lawful_store\<close>) and is stated for the directory backend.
\<close>

subsection \<open>Aggregation\<close>

definition key_total :: "KeyValue list \<Rightarrow> string \<Rightarrow> 64 word" where
  "key_total rs k = sum_list (map kv_value (filter (\<lambda>r. kv_key r = k) rs))"

lemma fold_add_record:
  assumes "distinct (map fst m)"
  shows "distinct (map fst (fold add_record rs m)) \<and> fst ` set (fold add_record rs m) = fst ` set m \<union> kv_key ` set rs
    \<and> map_get 0 (fold add_record rs m) k = map_get 0 m k + key_total rs k"
  using assms
proof (induction rs arbitrary: m)
  case Nil
  then show ?case by (simp add: key_total_def)
next
  case (Cons r rs)
  have "distinct (map fst (add_record r m))" using Cons.prems by (simp add: add_record_def distinct_update)
  moreover have "fst ` set (add_record r m) = insert (kv_key r) (fst ` set m)" by (simp add: add_record_def dom_update)
  moreover have "map_get 0 (add_record r m) k = map_get 0 m k + (if kv_key r = k then kv_value r else 0)"
    by (auto simp: add_record_def map_get_def update_conv' split: option.splits)
  ultimately show ?case using Cons.IH [of "add_record r m"] by (auto simp: key_total_def)
qed

lemma insort_map: "insort_key g (f k) (map f ks) = map f (insort_key (\<lambda>x. g (f x)) k ks)"
  by (induction ks) auto

lemma sort_map: "sort_key g (map f ks) = map f (sort_key (\<lambda>x. g (f x)) ks)"
  by (induction ks) (simp_all add: insort_map)

lemma gomap_values:
  assumes "distinct (map fst m)"
  shows "m = map (\<lambda>k. (k, map_get d m k)) (map fst m)"
proof -
  have "map (\<lambda>p. (fst p, map_get d m (fst p))) m = m" by (rule map_idI) (use assms in \<open>auto simp: map_get_def\<close>)
  then show ?thesis by (simp add: comp_def)
qed

text \<open>
  \<^verbatim>\<open>Aggregate\<close> returns one record per key, in the order of the keys, whose value is the sum of the values
  emitted for that key, in 64-bit arithmetic. The order of the input and the order in which Go visits
  its map make no difference.
\<close>

theorem Aggregate_sums:
  "Aggregate rs = map (\<lambda>k. \<lparr>kv_key = k, kv_value = key_total rs k\<rparr>) (sorted_list_of_set (kv_key ` set rs))"
proof -
  let ?m = "fold add_record rs []"
  have m: "distinct (map fst ?m)" "fst ` set ?m = kv_key ` set rs" "map_get 0 ?m k = key_total rs k" for k
    using fold_add_record [of "[]" rs k] by (simp_all add: map_get_def)
  have "?m = map (\<lambda>k. (k, key_total rs k)) (map fst ?m)" using gomap_values [OF m(1), of 0] by (simp only: m(3))
  then have "Aggregate rs = sort_key kv_key (map (\<lambda>k. \<lparr>kv_key = k, kv_value = key_total rs k\<rparr>) (map fst ?m))"
    unfolding Aggregate_def by (metis (no_types, lifting) map_map comp_def case_prod_conv map_eq_conv)
  moreover have "sort (map fst ?m) = sorted_list_of_set (kv_key ` set rs)"
    using m(1,2) by (metis list.set_map sorted_list_of_set_sort_remdups distinct_remdups_id)
  ultimately show ?thesis by (simp only: sort_map KeyValue.select_convs)
qed

subsection \<open>Publication\<close>

text \<open>What \<^verbatim>\<open>Publish\<close> checked of the files of a manifest.\<close>

definition complete_manifest :: "string \<Rightarrow> string \<Rightarrow> Manifest \<Rightarrow> bool" where
  "complete_manifest dataset attempt m \<longleftrightarrow>
     mn_dataset m = dataset \<and> mn_attempt m = attempt \<and> mn_files m \<noteq> []
     \<and> map of_partition (mn_files m) = map int [0..<length (mn_files m)]
     \<and> map of_key (mn_files m) = map (\<lambda>i. part_key dataset attempt (int i)) [0..<length (mn_files m)]"

lemma check_files_ok:
  assumes "check_files S dataset attempt s seen n fs = None"
  shows "map of_partition fs = map int [n..<n + length fs]
    \<and> map of_key fs = map (\<lambda>i. part_key dataset attempt (int i)) [n..<n + length fs] \<and> list_all (file_available S s) fs"
  using assms
proof (induction fs arbitrary: seen n)
  case (Cons f fs)
  then have *: "of_partition f = int n" "of_key f = part_key dataset attempt (int n)"
      "check_files S dataset attempt s (of_partition f # seen) (n + 1) fs = None" "file_available S s f"
    by (auto simp: file_available_def split: if_splits sum.splits)
  show ?case using Cons.IH [OF *(3)] *(1,2,4) by (simp add: upt_conv_Cons del: upt_Suc)
qed simp

lemma Publish_manifest:
  assumes "Publish S others dataset attempt count files s = (Inr m, s')"
  shows "complete_manifest dataset attempt m \<and> list_all (file_available S s) (mn_files m)"
proof -
  have "check_files S dataset attempt s [] 0 (sort_key of_partition files) = None" "files \<noteq> []"
      "m = \<lparr>mn_dataset = dataset, mn_attempt = attempt, mn_files = sort_key of_partition files\<rparr>"
    using assms by (auto simp: Publish_def Let_def split: if_splits option.splits prod.splits sum.splits)
  then show ?thesis using check_files_ok [of S dataset attempt s "[]" 0] 
    by (auto simp: complete_manifest_def dest: arg_cong [of _ _ length])
qed

context lawful_store
begin

lemma Publish_stores:
  assumes "Publish S others dataset attempt count files s = (Inr m, s')"
  shows "objects s' (complete_key dataset) = Some (manifest_text m)"
  using assms
  by (auto simp: Publish_def Let_def split: if_splits option.splits prod.splits sum.splits dest!: cas_done get_found)

lemma Publish_keeps:
  assumes "Publish S others dataset attempt count files s = (r, s')"
    and "objects s (complete_key dataset) = Some b"
    and others: "\<And>n s. objects s (complete_key dataset) = Some b \<Longrightarrow> objects (others n s) (complete_key dataset) = Some b"
  shows "objects s' (complete_key dataset) = Some b"
proof -
  note there = others [OF assms(2), of 0]
  have cas: "(\<exists>e. x = Inl e) \<and> objects s1 (complete_key dataset) = Some b"
    if "st_CompareAndSwap S (complete_key dataset) [] body (others 0 s) = (x, s1)" for body x s1
    using that there by (cases x) (auto dest!: cas_done cas_failed)
  show ?thesis using assms(1,2) there
    by (auto simp: Publish_def Let_def split: if_splits option.splits prod.splits sum.splits dest!: cas intro: others)
qed

end

text \<open>
  Attempts to publish a dataset, in any number and from any process, between other activity that leaves its
  completion object alone. \<open>ms\<close> lists the manifests that were returned. What others do during an
  attempt may include publishing; it never replaces a completion object.
\<close>

inductive publishing :: "('a \<Rightarrow> 's Store) \<Rightarrow> ('s \<Rightarrow> string \<Rightarrow> bytes option) \<Rightarrow> string \<Rightarrow> 's \<Rightarrow> Manifest list \<Rightarrow> bool"
  for F objects dataset where
  start: "publishing F objects dataset s []"
| other: "publishing F objects dataset s ms \<Longrightarrow> objects s' (complete_key dataset) = objects s (complete_key dataset) \<Longrightarrow>
    publishing F objects dataset s' ms"
| attempt: "publishing F objects dataset s ms \<Longrightarrow>
    (\<And>n s b. objects s (complete_key dataset) = Some b \<Longrightarrow> objects (others n s) (complete_key dataset) = Some b) \<Longrightarrow>
    Publish (F a) others dataset attempt_id count files s = (Inr m, s') \<Longrightarrow> publishing F objects dataset s' (ms @ [m])"
| failure: "publishing F objects dataset s ms \<Longrightarrow>
    (\<And>n s b. objects s (complete_key dataset) = Some b \<Longrightarrow> objects (others n s) (complete_key dataset) = Some b) \<Longrightarrow>
    Publish (F a) others dataset attempt_id count files s = (Inl e, s') \<Longrightarrow> publishing F objects dataset s' ms"

context store_family
begin

lemma published_text:
  assumes "publishing F objects dataset s ms" and "m \<in> set ms"
  shows "objects s (complete_key dataset) = Some (manifest_text m)"
  using assms
proof (induction arbitrary: m)
  case (attempt s ms others a attempt_id count files m1 s')
  have new: "objects s' (complete_key dataset) = Some (manifest_text m1)"
    by (rule lawful_store.Publish_stores [OF lawful attempt.hyps(3)])
  show ?case
  proof (cases "m = m1")
    case False
    then have "objects s (complete_key dataset) = Some (manifest_text m)" using attempt.IH attempt.prems by auto
    then show ?thesis by (rule lawful_store.Publish_keeps [OF lawful attempt.hyps(3)]) (use attempt.hyps(2) in blast)
  qed (use new in simp)
next
  case (failure s ms others a attempt_id count files e s')
  then have "objects s (complete_key dataset) = Some (manifest_text m)" by blast
  then show ?case by (rule lawful_store.Publish_keeps [OF lawful failure.hyps(3)]) (use failure.hyps(2) in blast)
qed auto

end

text \<open>
  C31: A dataset is published at most once: the first complete attempt wins. However many processes publish a
  dataset on the directory backend, with system calls failing at any point, all calls that
  return a manifest return the same one, and opening the dataset returns that manifest or an error.
  The decoder of manifests is assumed to read back what was written.
\<close>

theorem first_publication_wins:
  assumes "publishing (local_store sha dir) (stored dir) dataset fs ms" and "m \<in> set ms"
    and "\<forall>x \<in> set ms. parse (manifest_text x) = Inr x"
  shows "(\<forall>x \<in> set ms. x = m)
    \<and> (Open_dataset parse (local_store sha dir o1) dataset fs = Inr m
       \<or> (\<exists>e. Open_dataset parse (local_store sha dir o1) dataset fs = Inl e))"
proof -
  have held: "stored dir fs (complete_key dataset) = Some (manifest_text x)" if "x \<in> set ms" for x
    by (rule local.published_text [OF assms(1) that])
  have "x = m" if "x \<in> set ms" for x
    using held [OF that] held [OF assms(2)] assms(2,3) that by (metis Inr_inject option.inject)
  moreover have "Open_dataset parse (local_store sha dir o1) dataset fs = Inr x \<Longrightarrow> x = m" for x
    using held [OF assms(2)] assms(2,3) by (auto simp: Open_dataset_def split: if_splits sum.splits dest!: object.get_found)
  ultimately show ?thesis by (cases "Open_dataset parse (local_store sha dir o1) dataset fs") auto
qed

definition disk :: files where
  "disk = snd (WritePartition (local_store sum_digest ''/data'' calm) ''d'' ''a1'' 0 [\<lparr>kv_key = ''k'', kv_value = 3\<rparr>] [])"

definition disk_files :: "OutputFile list" where
  "disk_files = (case fst (WritePartition (local_store sum_digest ''/data'' calm) ''d'' ''a1'' 0
     [\<lparr>kv_key = ''k'', kv_value = 3\<rparr>] []) of Inl _ \<Rightarrow> [] | Inr f \<Rightarrow> [f])"

definition disk_manifest :: Manifest where
  "disk_manifest = \<lparr>mn_dataset = ''d'', mn_attempt = ''a1'', mn_files = disk_files\<rparr>"

definition published_disk :: files where
  "published_disk = snd (Publish (local_store sum_digest ''/data'' calm) (\<lambda>_ x. x) ''d'' ''a1'' 1 disk_files disk)"

lemma disk_check:
  "case WritePartition (local_store sum_digest ''/data'' calm) ''d'' ''a1'' 0 [\<lparr>kv_key = ''k'', kv_value = 3\<rparr>] [] of
     (Inl _, _) \<Rightarrow> False
   | (Inr f, s) \<Rightarrow>
       (case Publish (local_store sum_digest ''/data'' calm) (\<lambda>_ x. x) ''d'' ''a1'' 1 [f] s of
          (Inl _, _) \<Rightarrow> False
        | (Inr m, s') \<Rightarrow>
            m = \<lparr>mn_dataset = ''d'', mn_attempt = ''a1'', mn_files = [f]\<rparr>
            \<and> (case Open_dataset (\<lambda>_. Inr m) (local_store sum_digest ''/data'' calm) ''d'' s' of Inl _ \<Rightarrow> False | Inr _ \<Rightarrow> True))"
  by code_simp

lemma disk_publish:
  "Publish (local_store sum_digest ''/data'' calm) (\<lambda>_ x. x) ''d'' ''a1'' 1 disk_files disk = (Inr disk_manifest, published_disk)"
  "\<exists>m. Open_dataset (\<lambda>_. Inr disk_manifest) (local_store sum_digest ''/data'' calm) ''d'' published_disk = Inr m"
proof -
  obtain f s where w: "WritePartition (local_store sum_digest ''/data'' calm) ''d'' ''a1'' 0 [\<lparr>kv_key = ''k'', kv_value = 3\<rparr>] [] = (Inr f, s)"
    using disk_check by (auto split: prod.splits sum.splits)
  obtain r s' where p: "Publish (local_store sum_digest ''/data'' calm) (\<lambda>_ x. x) ''d'' ''a1'' 1 [f] s = (r, s')" by fastforce
  have d: "disk = s" "disk_files = [f]" by (simp_all add: disk_def disk_files_def w)
  have "r = Inr disk_manifest \<and> (\<exists>m. Open_dataset (\<lambda>_. Inr disk_manifest) (local_store sum_digest ''/data'' calm) ''d'' s' = Inr m)"
    using disk_check by (auto simp: w p d disk_manifest_def split: sum.splits)
  then show "Publish (local_store sum_digest ''/data'' calm) (\<lambda>_ x. x) ''d'' ''a1'' 1 disk_files disk = (Inr disk_manifest, published_disk)"
    "\<exists>m. Open_dataset (\<lambda>_. Inr disk_manifest) (local_store sum_digest ''/data'' calm) ''d'' published_disk = Inr m"
    using p by (simp_all add: d published_disk_def)
qed

theorem first_publication_wins_witness:
  "publishing (local_store sum_digest ''/data'') (stored ''/data'') ''d'' published_disk [disk_manifest]
   \<and> Open_dataset (\<lambda>_. Inr disk_manifest) (local_store sum_digest ''/data'' calm) ''d'' published_disk = Inr disk_manifest"
proof -
  have run: "publishing (local_store sum_digest ''/data'') (stored ''/data'') ''d'' published_disk ([] @ [disk_manifest])"
    by (rule publishing.attempt [where F = "local_store sum_digest ''/data''" and a = calm, OF publishing.start _ disk_publish(1)]) simp
  then show ?thesis
    using first_publication_wins [OF run, of disk_manifest "\<lambda>_. Inr disk_manifest" calm] disk_publish(2) by auto
qed

end
