(* ===== verification/Workload.thy ===== *)
theory Workload
  imports Graph
begin

text \<open>
  The workload a user declares, after \<^verbatim>\<open>api/v1alpha1/types.go\<close>: operations with their pod template,
  scaling, collective group, egress and segment volume, the channels between them, and the
  coordinator's object store; and the status the controller reports.

  Of the Kubernetes types a pod template is made of, the model has the fields the controller reads or
  writes. A container restart policy is only compared with \<^verbatim>\<open>Always\<close>, a \<^verbatim>\<open>resource.Quantity\<close> is an
  integer, and a duration is in nanoseconds.
\<close>

datatype Completion = CompletionDrain | CompletionNever

record HorizontalScaling =
  hs_min :: int
  hs_max :: int
  hs_cpuUtilizationPercent :: int

datatype VerticalScalingMode = VerticalUnset | VerticalOff | VerticalInitial | VerticalAuto

record Scaling =
  sc_horizontal :: HorizontalScaling
  sc_vertical :: "VerticalScalingMode option"

datatype EgressDestination = EgressMetadata | EgressInternet | EgressUnknown string

datatype CollectivePlacement = CollectivePlacementOrdinary | CollectivePlacementGang

record CollectiveSpec =
  co_size :: int
  co_maxAttempts :: int
  co_placement :: CollectivePlacement
  co_checkpoint :: string

subsection \<open>Pod templates\<close>

datatype env_source = Literal string | FieldRef string | SecretRef string string bool

record Container =
  ct_name :: string
  ct_image :: string
  ct_command :: "string list"
  ct_restartAlways :: bool
  ct_limit :: "int option"
  ct_request :: "int option"
  ct_startupProbe :: "(string \<times> int) option"
  ct_readinessProbe :: "(string \<times> int) option"
  ct_env :: "(string \<times> env_source) list"
  ct_volumeMounts :: "(string \<times> string) list"
  ct_ports :: "(int \<times> string) list"

record Volume =
  vol_name :: string
  vol_sizeLimit :: "int option"

record PodTemplate =
  tp_labels :: "(string, string) gomap"
  tp_serviceAccountName :: string
  tp_containers :: "Container list"
  tp_initContainers :: "Container list"
  tp_volumes :: "Volume list"
  tp_restartPolicy :: string
  tp_subdomain :: string
  tp_setHostnameAsFQDN :: "bool option"

subsection \<open>Operations and workloads\<close>

record Operation =
  op_name :: string
  op_checkpoint :: bool
  op_completion :: Completion
  op_template :: PodTemplate
  op_scaling :: Scaling
  op_slots :: int
  op_collective :: "CollectiveSpec option"
  op_tickInterval :: "int option"
  op_egress :: "EgressDestination list"
  op_segments :: "int option"

record ObjectStoreSpec =
  os_endpoint :: string
  os_region :: string
  os_credentialsSecret :: string

record CoordinatorSpec =
  cd_image :: string
  cd_objectStore :: "ObjectStoreSpec option"

record WorkloadSpec =
  ws_operations :: "Operation list"
  ws_channels :: "Channel list"
  ws_coordinator :: CoordinatorSpec

datatype OperationPhase = OperationNone | OperationWaiting | OperationRunning | OperationSucceeded | OperationFailed

record OperationStatus =
  ost_name :: string
  ost_phase :: OperationPhase
  ost_reason :: string
  ost_message :: string
  ost_replicas :: int
  ost_ready :: int
  ost_runnableTasks :: int
  ost_holdsUnconsumed :: bool

record ChannelStatus =
  cst_name :: string
  cst_sealed :: bool
  cst_pending :: int
  cst_inFlight :: int
  cst_produced :: int
  cst_acknowledged :: int
  cst_epoch :: int
  cst_overflowed :: int
  cst_lost :: int
  cst_latestDeliveryFailure :: string

datatype WorkloadPhase = WorkloadNone | WorkloadPending | WorkloadRunning | WorkloadSucceeded | WorkloadFailed

record WorkloadStatus =
  wst_phase :: WorkloadPhase
  wst_reason :: string
  wst_message :: string
  wst_operations :: "OperationStatus list"
  wst_channels :: "ChannelStatus list"

record Workload =
  wl_name :: string
  wl_namespace :: string
  wl_uid :: string
  wl_spec :: WorkloadSpec
  wl_status :: WorkloadStatus

definition OperationByName :: "WorkloadSpec \<Rightarrow> string \<Rightarrow> Operation option" where
  "OperationByName s name = find (\<lambda>o1. op_name o1 = name) (ws_operations s)"

definition Inbound :: "WorkloadSpec \<Rightarrow> string \<Rightarrow> Channel list" where
  "Inbound s name = filter (\<lambda>c. ch_to c = name) (ws_channels s)"

definition Outbound :: "WorkloadSpec \<Rightarrow> string \<Rightarrow> Channel list" where
  "Outbound s name = filter (\<lambda>c. ch_from c = name) (ws_channels s)"

end
