(* ===== verification/Validation.thy ===== *)
theory Validation
  imports Workload
begin

text \<open>
  Admission of a workload: \<^verbatim>\<open>Validate\<close> of \<^verbatim>\<open>pkg/controller/reconciler.go\<close>. It refuses a workload at the
  first objection, in the order of the code, and ends with a depth-first search for cycles without
  a feedback channel.

  The parser of URLs is a parameter. The search starts from the operations in the order in which Go
  iterates over a map, which is arbitrary: it is a parameter \<open>order\<close> that lists the operations. A
  secret name is blank if it consists of ASCII white space.
\<close>

record Url =
  u_scheme :: string
  u_host :: string
  u_user :: bool
  u_rawQuery :: string
  u_fragment :: string
  u_port :: string

definition first_error :: "(bool \<times> string) list \<Rightarrow> string option" where
  "first_error checks = map_option snd (find fst checks)"

definition objectStore_checks :: "(string \<Rightarrow> Url option) \<Rightarrow> ObjectStoreSpec \<Rightarrow> (bool \<times> string) list" where
  "objectStore_checks parse st =
     [(case parse (os_endpoint st) of
         None \<Rightarrow> True
       | Some u \<Rightarrow> u_scheme u \<noteq> ''http'' \<and> u_scheme u \<noteq> ''https'' \<or> u_host u = '''' \<or> u_user u
           \<or> u_rawQuery u \<noteq> '''' \<or> u_fragment u \<noteq> '''',
       ''coordinator object store endpoint must be an HTTP or HTTPS URL with a host and without user information, query parameters, or a fragment''),
      (list_all is_space (os_credentialsSecret st), ''coordinator object store credentialsSecret is required'')]"

subsection \<open>Ephemeral storage\<close>

definition minSegmentSize :: int where "minSegmentSize = 1048576"

definition segmentVolumeName :: string where "segmentVolumeName = ''stark8s-segments''"

definition add_limit :: "Container \<Rightarrow> int \<times> bool \<Rightarrow> int \<times> bool" where
  "add_limit c acc = (case ct_limit c of None \<Rightarrow> acc | Some l \<Rightarrow> (fst acc + l, True))"

definition raise_limit :: "Container \<Rightarrow> int \<times> bool \<Rightarrow> int \<times> bool" where
  "raise_limit c acc =
     (if ct_restartAlways c then acc
      else (case ct_limit c of None \<Rightarrow> acc | Some l \<Rightarrow> (if fst acc < l then l else fst acc, True)))"

definition podEphemeralStorageLimit :: "PodTemplate \<Rightarrow> int \<times> bool" where
  "podEphemeralStorageLimit t =
     fold raise_limit (tp_initContainers t)
       (fold add_limit (tp_containers t)
         (fold add_limit (filter ct_restartAlways (tp_initContainers t)) (0, False)))"

subsection \<open>Operations\<close>

definition collective_checks :: "WorkloadSpec \<Rightarrow> Operation \<Rightarrow> CollectiveSpec \<Rightarrow> (bool \<times> string) list" where
  "collective_checks s o1 c =
     [(op_completion o1 = CompletionNever, ''operation %q: a collective must be finite''),
      (co_size c < 2, ''operation %q: collective size must be at least 2''),
      (co_placement c = CollectivePlacementGang, ''operation %q: gang placement requires the native WorkloadWithJob capability, which this controller has not enabled''),
      (1 < co_maxAttempts c \<and> list_ex (\<lambda>h. ch_from h = op_name o1 \<or> ch_to h = op_name o1) (ws_channels s)
         \<and> (\<not> op_checkpoint o1 \<or> cd_objectStore (ws_coordinator s) = None),
       ''operation %q: retrying a collective connected to graph channels requires an operation checkpoint and coordinator objectStore to fence graph I/O'')]"

definition egress_check :: "EgressDestination \<Rightarrow> bool \<times> string" where
  "egress_check e =
     (case e of EgressUnknown _ \<Rightarrow> (True, ''operation %q: unknown egress destination %q, want one of %q or %q'')
      | _ \<Rightarrow> (False, ''''))"

definition segment_checks :: "Operation \<Rightarrow> int \<Rightarrow> (bool \<times> string) list" where
  "segment_checks o1 sz =
     [(sz \<le> 0, ''operation %q: segments.size must be greater than zero''),
      (sz < minSegmentSize, ''operation %q: segments.size %s is below %s; a size without a unit suffix is bytes''),
      (list_ex (\<lambda>v. vol_name v = segmentVolumeName) (tp_volumes (op_template o1)),
       ''operation %q: segments.size and a pod template volume named %q both size the segment volume; declare one or the other''),
      (snd (podEphemeralStorageLimit (op_template o1)) \<and> fst (podEphemeralStorageLimit (op_template o1)) \<le> sz,
       ''operation %q: segments.size %s leaves nothing under the pod's ephemeral-storage limit of %s, which is charged the segment volume together with every container's writable layer and logs''),
      (case tp_containers (op_template o1) of
         [] \<Rightarrow> False
       | c # _ \<Rightarrow> (case ct_limit c of None \<Rightarrow> False | Some l \<Rightarrow> l < sz),
       ''operation %q: segments.size %s exceeds the %s ephemeral-storage limit on container %q, which carries the request'')]"

definition operation_checks :: "WorkloadSpec \<Rightarrow> Operation \<Rightarrow> (bool \<times> string) list" where
  "operation_checks s o1 =
     [(op_slots o1 < 0, ''operation %q: slots must be at least 1''),
      (op_checkpoint o1 \<and> op_collective o1 = None
         \<and> (1 < hs_min (sc_horizontal (op_scaling o1)) \<or> 1 < hs_max (sc_horizontal (op_scaling o1))),
       ''operation %q: checkpointing initially supports one replica'')]
     @ (case op_collective o1 of None \<Rightarrow> [] | Some c \<Rightarrow> collective_checks s o1 c)
     @ [(case op_tickInterval o1 of None \<Rightarrow> False | Some d \<Rightarrow> d < 0, ''operation %q: tickInterval must not be negative'')]
     @ map egress_check (op_egress o1)
     @ (case op_segments o1 of None \<Rightarrow> [] | Some sz \<Rightarrow> segment_checks o1 sz)"

fun check_operations :: "WorkloadSpec \<Rightarrow> string list \<Rightarrow> Operation list \<Rightarrow> string option" where
  "check_operations s seen [] = None"
| "check_operations s seen (o1 # os) =
     (if op_name o1 \<in> set seen then Some ''duplicate operation %q''
      else
        (case first_error (operation_checks s o1) of
           Some e \<Rightarrow> Some e
         | None \<Rightarrow> check_operations s (op_name o1 # seen) os))"

subsection \<open>Channels\<close>

fun duplicate_channel :: "string list \<Rightarrow> Channel list \<Rightarrow> bool" where
  "duplicate_channel seen [] = False"
| "duplicate_channel seen (c # cs) = (ch_name c \<in> set seen \<or> duplicate_channel (ch_name c # seen) cs)"

definition declared :: "WorkloadSpec \<Rightarrow> string \<Rightarrow> bool" where
  "declared s name \<longleftrightarrow> name \<in> op_name ` set (ws_operations s)"

definition collective_named :: "WorkloadSpec \<Rightarrow> string \<Rightarrow> bool" where
  "collective_named s name \<longleftrightarrow> list_ex (\<lambda>o1. op_name o1 = name \<and> op_collective o1 \<noteq> None) (ws_operations s)"

definition channel_checks :: "WorkloadSpec \<Rightarrow> Channel \<Rightarrow> (bool \<times> string) list" where
  "channel_checks s c =
     [(ch_from c \<noteq> '''' \<and> \<not> declared s (ch_from c), ''channel %q: unknown producer %q''),
      (ch_to c \<noteq> '''' \<and> \<not> declared s (ch_to c), ''channel %q: unknown consumer %q''),
      (ch_to c \<noteq> '''' \<and> collective_named s (ch_from c) \<and> cd_objectStore (ws_coordinator s) = None,
       ''channel %q: collective operation %q needs coordinator objectStore for durable internal output'')]
     @ (case ch_feedback c of
          None \<Rightarrow> []
        | Some f \<Rightarrow>
            [(ch_to c = '''', ''channel %q: feedback channels need a consuming operation''),
             (f_overflow f \<noteq> '''' \<and> f_overflow f \<notin> ch_name ` set (ws_channels s), ''channel %q: overflow channel %q is not declared''),
             (f_overflow f \<noteq> '''' \<and> f_overflow f = ch_name c, ''channel %q: overflow channel must be a different channel'')])"

subsection \<open>Cycles\<close>

definition forward :: "Channel \<Rightarrow> bool" where
  "forward c \<longleftrightarrow> ch_from c \<noteq> '''' \<and> ch_to c \<noteq> '''' \<and> ch_feedback c = None"

definition adj :: "WorkloadSpec \<Rightarrow> string \<Rightarrow> string list" where
  "adj s n = map ch_to (filter (\<lambda>c. forward c \<and> ch_from c = n) (ws_channels s))"

datatype colour = White | Grey | Black

type_synonym colours = "(string, colour) gomap"

definition colour_of :: "colours \<Rightarrow> string \<Rightarrow> colour" where
  "colour_of m n = map_get White m n"

text \<open>
  \<open>visits s n ms\<close> is the loop of \<^verbatim>\<open>visit\<close> at \<open>n\<close> over the neighbours \<open>ms\<close> that are left; the recursive call
  of \<^verbatim>\<open>visit\<close> is the loop at \<open>m\<close> over all its neighbours, between colouring it grey and black.
\<close>

function visits :: "WorkloadSpec \<Rightarrow> string \<Rightarrow> string list \<Rightarrow> colours \<Rightarrow> string + colours" where
  "visits s n [] col = Inr col"
| "visits s n (m # ms) col =
     (case colour_of col m of
        Grey \<Rightarrow> Inl ''cycle through %q and %q has no feedback channel''
      | Black \<Rightarrow> visits s n ms col
      | White \<Rightarrow>
          (case visits s m (adj s m) (AList.update m Grey col) of
             Inl e \<Rightarrow> Inl e
           | Inr col1 \<Rightarrow> visits s n ms (AList.update m Black col1)))"
  by pat_completeness auto

text \<open>
  The search ends because a recursive call colours a white operation and none ever becomes white again.
\<close>

lemma colour_of_update [simp]: "colour_of (AList.update m x col) n = (if n = m then x else colour_of col n)"
  by (simp add: colour_of_def map_get_def update_conv')

lemma visits_coloured:
  assumes "visits_dom (s, n, ms, col)" and "visits s n ms col = Inr col1" and "colour_of col x \<noteq> White"
  shows "colour_of col1 x \<noteq> White"
  using assms
  by (induction arbitrary: col1 rule: visits.pinduct)
    (auto simp: visits.psimps split: colour.splits sum.splits if_splits)

definition uncoloured :: "WorkloadSpec \<Rightarrow> string list \<Rightarrow> colours \<Rightarrow> string set" where
  "uncoloured s ms col = {n \<in> ch_to ` set (ws_channels s) \<union> set ms. colour_of col n = White}"

lemma adj_targets: "set (adj s n) \<subseteq> ch_to ` set (ws_channels s)"
  by (auto simp: adj_def)

lemma uncoloured_less:
  assumes "colour_of col m = White" and "set ms' \<subseteq> ch_to ` set (ws_channels s) \<union> set ms"
    and "colour_of col1 m \<noteq> White" and "\<And>x. colour_of col x \<noteq> White \<Longrightarrow> colour_of col1 x \<noteq> White"
  shows "card (uncoloured s ms' col1) < card (uncoloured s (m # ms) col)"
proof (rule psubset_card_mono)
  show "finite (uncoloured s (m # ms) col)" by (simp add: uncoloured_def)
  show "uncoloured s ms' col1 \<subset> uncoloured s (m # ms) col" using assms by (auto simp: uncoloured_def)
qed

lemma uncoloured_tail: "card (uncoloured s ms col) \<le> card (uncoloured s (m # ms) col)"
  by (rule card_mono) (auto simp: uncoloured_def)

termination visits
proof (relation "measures [\<lambda>(s, n, ms, col). card (uncoloured s ms col), \<lambda>(s, n, ms, col). length ms]", goal_cases)
  case 1
  show ?case by simp
next
  case (2 s n m ms col)
  have "card (uncoloured s (adj s m) (AList.update m Grey col)) < card (uncoloured s (m # ms) col)"
    by (rule uncoloured_less) (use 2 adj_targets [of s m] in auto)
  then show ?case by simp
next
  case (3 s n m ms col col1)
  have "colour_of (AList.update m Black col1) x \<noteq> White" if "colour_of col x \<noteq> White" for x
    using visits_coloured [OF 3(3) 3(2)] that by auto
  then have "card (uncoloured s ms (AList.update m Black col1)) < card (uncoloured s (m # ms) col)"
    by (intro uncoloured_less) (use 3(1) in auto)
  then show ?case by simp
next
  case (4 s n m ms col)
  then show ?case using uncoloured_tail [of s ms col m] by (simp add: le_less)
qed

definition visit :: "WorkloadSpec \<Rightarrow> string \<Rightarrow> colours \<Rightarrow> string + colours" where
  "visit s n col =
     (case visits s n (adj s n) (AList.update n Grey col) of
        Inl e \<Rightarrow> Inl e
      | Inr col1 \<Rightarrow> Inr (AList.update n Black col1))"

fun visit_operations :: "WorkloadSpec \<Rightarrow> string list \<Rightarrow> colours \<Rightarrow> string option" where
  "visit_operations s [] col = None"
| "visit_operations s (n # ns) col =
     (if colour_of col n = White
      then (case visit s n col of Inl e \<Rightarrow> Some e | Inr col1 \<Rightarrow> visit_operations s ns col1)
      else visit_operations s ns col)"

definition Validate :: "(string \<Rightarrow> Url option) \<Rightarrow> string list \<Rightarrow> WorkloadSpec \<Rightarrow> string option" where
  "Validate parse order s =
     (case (case cd_objectStore (ws_coordinator s) of
              None \<Rightarrow> None | Some st \<Rightarrow> first_error (objectStore_checks parse st)) of
        Some e \<Rightarrow> Some e
      | None \<Rightarrow>
          (case check_operations s [] (ws_operations s) of
             Some e \<Rightarrow> Some e
           | None \<Rightarrow>
               if duplicate_channel [] (ws_channels s) then Some ''duplicate channel %q''
               else
                 (case first_error (concat (map (channel_checks s) (ws_channels s))) of
                    Some e \<Rightarrow> Some e
                  | None \<Rightarrow> visit_operations s order [])))"

end
