(* ===== verification/Admission.thy ===== *)
theory Admission
  imports Validation
begin

text \<open>
  What \<^verbatim>\<open>Validate\<close> admits: a declarative description of a valid workload, and the proof that the code
  accepts exactly the valid ones.
\<close>

subsection \<open>The search finds cycles\<close>

definition edges :: "WorkloadSpec \<Rightarrow> (string \<times> string) set" where
  "edges s = {(ch_from c, ch_to c) | c. c \<in> set (ws_channels s) \<and> forward c}"

lemma adj_edges [simp]: "set (adj s n) = edges s `` {n}"
  by (auto simp: adj_def edges_def)

definition paint :: "colours \<Rightarrow> colour \<Rightarrow> string set" where
  "paint col x = {n. colour_of col n = x}"

lemma paint_iff [simp]: "n \<in> paint col x \<longleftrightarrow> colour_of col n = x"
  by (simp add: paint_def)

text \<open>The black operations are finished: their successors are black, and no cycle runs through them.\<close>

definition finished :: "WorkloadSpec \<Rightarrow> string set \<Rightarrow> bool" where
  "finished s B \<longleftrightarrow> edges s `` B \<subseteq> B \<and> acyclic (edges s \<inter> B \<times> B)"

lemma finished_insert:
  assumes "finished s B" and "m \<notin> B" and "edges s `` {m} \<subseteq> B"
  shows "finished s (insert m B)"
proof -
  have "edges s \<inter> insert m B \<times> insert m B = (edges s \<inter> B \<times> B) \<union> {m} \<times> (edges s `` {m})"
    using assms by (auto simp: finished_def)
  moreover have "acyclic ((edges s \<inter> B \<times> B) \<union> {m} \<times> (edges s `` {m}))"
  proof (rule acyclicI, intro allI notI)
    fix x
    let ?R = "(edges s \<inter> B \<times> B) \<union> {m} \<times> (edges s `` {m})"
    assume x: "(x, x) \<in> ?R\<^sup>+"
    have B: "b \<in> B \<and> (a, b) \<in> (edges s \<inter> B \<times> B)\<^sup>+" if "(a, b) \<in> ?R\<^sup>+" "a \<in> B" for a b
      using that
    proof (induction rule: trancl_induct)
      case (step b c)
      then show ?case using assms(2) by (auto intro: trancl_into_trancl)
    qed (use assms(2) in auto)
    have "b \<in> B" if "(a, b) \<in> ?R\<^sup>+" for a b using that assms(3) by (induction rule: trancl_induct) auto
    then have "x \<in> B" using x by blast
    then have "(x, x) \<in> (edges s \<inter> B \<times> B)\<^sup>+" using B x by blast
    then show False using assms(1) by (auto simp: finished_def acyclic_def)
  qed
  ultimately show ?thesis using assms by (auto simp: finished_def)
qed

lemma visits_grey:
  assumes "visits s n ms col = Inr col1"
  shows "colour_of col1 g = Grey \<longleftrightarrow> colour_of col g = Grey"
  using assms
  by (induction s n ms col arbitrary: col1 rule: visits.induct) (auto split: colour.splits sum.splits if_splits)

lemma grey_black [simp]: "colour_of col m = White \<Longrightarrow> paint (AList.update m Grey col) Black = paint col Black"
  by (auto split: if_splits)

text \<open>Returning from the call for a white operation and colouring it black.\<close>

lemma blacken:
  assumes "visits s m (adj s m) (AList.update m Grey col) = Inr col2" and "finished s (paint col2 Black)"
    and "edges s `` {m} \<subseteq> paint col2 Black"
  shows "finished s (paint (AList.update m Black col2) Black)"
    and "paint (AList.update m Black col2) Black = insert m (paint col2 Black)"
proof -
  have "colour_of col2 m = Grey" using visits_grey [OF assms(1), of m] by simp
  then have "m \<notin> paint col2 Black" by simp
  moreover show "paint (AList.update m Black col2) Black = insert m (paint col2 Black)" by (auto split: if_splits)
  ultimately show "finished s (paint (AList.update m Black col2) Black)" using finished_insert assms(2,3) by metis
qed

lemma visits_finished:
  assumes "visits s n ms col = Inr col1" and "finished s (paint col Black)"
  shows "finished s (paint col1 Black) \<and> paint col Black \<subseteq> paint col1 Black \<and> set ms \<subseteq> paint col1 Black"
  using assms
proof (induction s n ms col arbitrary: col1 rule: visits.induct)
  case (2 s n m ms col)
  show ?case
  proof (cases "colour_of col m")
    case White
    then obtain col2 where v: "visits s m (adj s m) (AList.update m Grey col) = Inr col2"
        "visits s n ms (AList.update m Black col2) = Inr col1"
      using "2.prems"(1) by (auto split: sum.splits)
    have h: "finished s (paint col2 Black)" "paint col Black \<subseteq> paint col2 Black" "edges s `` {m} \<subseteq> paint col2 Black"
      using "2.IH"(1) [OF White v(1)] "2.prems"(2) White by simp_all
    note b = blacken [OF v(1) h(1,3)]
    from "2.IH"(2) [OF White v(1) v(2) b(1)] h(2) show ?thesis unfolding b(2) by auto
  qed (use 2 in auto)
qed simp

lemma visits_cycle:
  assumes "visits s n ms col = Inl e" and "set ms \<subseteq> edges s `` {n}" and "\<And>g. colour_of col g = Grey \<Longrightarrow> (g, n) \<in> (edges s)\<^sup>*"
  shows "\<not> acyclic (edges s)"
  using assms
proof (induction s n ms col arbitrary: e rule: visits.induct)
  case (1 s n col)
  then show ?case by simp
next
  case (2 s n m ms col)
  have nm: "(n, m) \<in> edges s" using "2.prems"(2) by simp
  show ?case
  proof (cases "colour_of col m")
    case Grey
    then show ?thesis using "2.prems"(3) nm by (auto simp: acyclic_def intro: rtrancl_into_trancl2)
  next
    case Black
    then show ?thesis using 2 by auto
  next
    case White
    have grey: "(g, m) \<in> (edges s)\<^sup>*" if "colour_of (AList.update m Grey col) g = Grey" for g
      using that "2.prems"(3) nm by (auto split: if_splits intro: rtrancl_into_rtrancl)
    show ?thesis
    proof (cases "visits s m (adj s m) (AList.update m Grey col)")
      case (Inl e1)
      then show ?thesis using "2.IH"(1) [OF White Inl] grey by auto
    next
      case (Inr col1)
      then have v: "visits s n ms (AList.update m Black col1) = Inl e" using "2.prems"(1) White by simp
      have "(g, n) \<in> (edges s)\<^sup>*" if "colour_of (AList.update m Black col1) g = Grey" for g
        using that visits_grey [OF Inr, of g] "2.prems"(3) by (auto split: if_splits)
      then show ?thesis using "2.IH"(2) [OF White Inr v] "2.prems"(2) by auto
    qed
  qed
qed


lemma visit_finished:
  assumes "visit s n col = Inr col1" and "finished s (paint col Black)" and "\<And>g. colour_of col g \<noteq> Grey" and "colour_of col n = White"
  shows "finished s (paint col1 Black)" and "\<And>g. colour_of col1 g \<noteq> Grey" and "insert n (paint col Black) \<subseteq> paint col1 Black"
proof -
  obtain col2 where v: "visits s n (adj s n) (AList.update n Grey col) = Inr col2" "col1 = AList.update n Black col2"
    using assms(1) by (auto simp: visit_def split: sum.splits)
  have h: "finished s (paint col2 Black)" "paint col Black \<subseteq> paint col2 Black" "edges s `` {n} \<subseteq> paint col2 Black"
    using visits_finished [OF v(1)] assms(2,4) by simp_all
  note b = blacken [OF v(1) h(1,3)]
  show "finished s (paint col1 Black)" "insert n (paint col Black) \<subseteq> paint col1 Black"
    using b h(2) v(2) by auto
  show "colour_of col1 g \<noteq> Grey" for g
    using visits_grey [OF v(1), of g] assms(3) [of g] v(2) by (auto split: if_splits)
qed

lemma visit_cycle:
  assumes "visit s n col = Inl e" and "\<And>g. colour_of col g \<noteq> Grey"
  shows "\<not> acyclic (edges s)"
proof -
  have "visits s n (adj s n) (AList.update n Grey col) = Inl e" using assms(1) by (auto simp: visit_def split: sum.splits)
  then show ?thesis by (rule visits_cycle) (use assms(2) in \<open>auto split: if_splits\<close>)
qed

lemma visit_operations_finished:
  assumes "visit_operations s ns col = None" and "finished s (paint col Black)" and "\<And>g. colour_of col g \<noteq> Grey"
  shows "\<exists>B. finished s B \<and> set ns \<subseteq> B \<and> paint col Black \<subseteq> B"
  using assms
proof (induction ns arbitrary: col)
  case (Cons n ns)
  show ?case
  proof (cases "colour_of col n")
    case White
    then obtain col1 where v: "visit s n col = Inr col1" "visit_operations s ns col1 = None"
      using Cons.prems(1) by (auto split: sum.splits)
    note f = visit_finished [OF v(1) Cons.prems(2,3) White]
    obtain B where B: "finished s B" "set ns \<subseteq> B" "paint col1 Black \<subseteq> B" using Cons.IH [OF v(2) f(1,2)] by blast
    then have "insert n (paint col Black) \<subseteq> B" using f(3) by (meson order_trans)
    then show ?thesis using B by auto
  next
    case Black
    then obtain B where "finished s B" "set ns \<subseteq> B" "paint col Black \<subseteq> B" using Cons.IH [of col] Cons.prems by auto
    moreover from this(3) Black have "n \<in> B" by (simp add: subset_iff)
    ultimately show ?thesis by auto
  qed (use Cons.prems in auto)
qed auto

lemma visit_operations_cycle:
  assumes "visit_operations s ns col = Some e" and "finished s (paint col Black)" and "\<And>g. colour_of col g \<noteq> Grey"
  shows "\<not> acyclic (edges s)"
  using assms
proof (induction ns arbitrary: col)
  case (Cons n ns)
  show ?case
  proof (cases "colour_of col n = White")
    case True
    show ?thesis
    proof (cases "visit s n col")
      case (Inl e1)
      then show ?thesis using visit_cycle Cons.prems(3) by blast
    next
      case (Inr col1)
      note f = visit_finished [OF Inr Cons.prems(2,3) True]
      have "visit_operations s ns col1 = Some e" using Cons.prems(1) Inr True by simp
      then show ?thesis using Cons.IH f(1,2) by blast
    qed
  next
    case False
    then show ?thesis using Cons.IH [of col] Cons.prems by simp
  qed
qed simp

lemma visit_operations_acyclic:
  assumes "Domain (edges s) \<subseteq> set order"
  shows "visit_operations s order [] = None \<longleftrightarrow> acyclic (edges s)"
proof
  have none: "colour_of [] g \<noteq> Grey" for g by (simp add: colour_of_def map_get_def)
  have "paint [] Black = {}" by (auto simp: colour_of_def map_get_def)
  then have start: "finished s (paint [] Black)" by (simp add: finished_def acyclic_def)
  {
    assume "visit_operations s order [] = None"
    then obtain B where B: "finished s B" "set order \<subseteq> B" using visit_operations_finished [OF _ start none] by blast
    have "edges s \<subseteq> B \<times> B"
    proof
      fix e assume e: "e \<in> edges s"
      then have "fst e \<in> B" using assms B(2) by (cases e) auto
      then show "e \<in> B \<times> B" using B(1) e by (cases e) (auto simp: finished_def)
    qed
    then show "acyclic (edges s)" using B(1) by (simp add: finished_def Int_absorb2)
  }
  show "visit_operations s order [] = None" if "acyclic (edges s)"
    using visit_operations_cycle [OF _ start none] that by (cases "visit_operations s order []") auto
qed

subsection \<open>Valid workloads\<close>

text \<open>
  The ephemeral-storage budget of a pod: the containers that run together share it, and a plain init
  container has to fit on its own.
\<close>

definition running_together :: "PodTemplate \<Rightarrow> Container list" where
  "running_together t = filter ct_restartAlways (tp_initContainers t) @ tp_containers t"

definition limits :: "Container list \<Rightarrow> int list" where
  "limits cs = List.map_filter ct_limit cs"

definition pod_budget :: "PodTemplate \<Rightarrow> int option" where
  "pod_budget t =
     (let plain_init = filter (\<lambda>c. \<not> ct_restartAlways c) (tp_initContainers t) in
      if limits (running_together t) = [] \<and> limits plain_init = [] then None
      else Some (Max (set (sum_list (limits (running_together t)) # limits plain_init))))"

definition endpoint_ok :: "Url \<Rightarrow> bool" where
  "endpoint_ok u \<longleftrightarrow> u_scheme u \<in> {''http'', ''https''} \<and> u_host u \<noteq> '''' \<and> \<not> u_user u \<and> u_rawQuery u = '''' \<and> u_fragment u = ''''"

definition segments_ok :: "PodTemplate \<Rightarrow> int \<Rightarrow> bool" where
  "segments_ok t sz \<longleftrightarrow>
     1048576 \<le> sz \<and> (\<forall>v \<in> set (tp_volumes t). vol_name v \<noteq> ''stark8s-segments'')
     \<and> (\<forall>b. pod_budget t = Some b \<longrightarrow> sz < b)
     \<and> (\<forall>c cs l. tp_containers t = c # cs \<longrightarrow> ct_limit c = Some l \<longrightarrow> sz \<le> l)"

definition collective_ok :: "WorkloadSpec \<Rightarrow> Operation \<Rightarrow> CollectiveSpec \<Rightarrow> bool" where
  "collective_ok s o1 c \<longleftrightarrow>
     op_completion o1 = CompletionDrain \<and> 2 \<le> co_size c \<and> co_placement c = CollectivePlacementOrdinary
     \<and> (1 < co_maxAttempts c \<and> (\<exists>h \<in> set (ws_channels s). ch_from h = op_name o1 \<or> ch_to h = op_name o1)
        \<longrightarrow> op_checkpoint o1 \<and> cd_objectStore (ws_coordinator s) \<noteq> None)"

definition operation_ok :: "WorkloadSpec \<Rightarrow> Operation \<Rightarrow> bool" where
  "operation_ok s o1 \<longleftrightarrow>
     0 \<le> op_slots o1
     \<and> (op_checkpoint o1 \<and> op_collective o1 = None \<longrightarrow>
          hs_min (sc_horizontal (op_scaling o1)) \<le> 1 \<and> hs_max (sc_horizontal (op_scaling o1)) \<le> 1)
     \<and> (\<forall>c. op_collective o1 = Some c \<longrightarrow> collective_ok s o1 c)
     \<and> (\<forall>d. op_tickInterval o1 = Some d \<longrightarrow> 0 \<le> d)
     \<and> set (op_egress o1) \<subseteq> {EgressMetadata, EgressInternet}
     \<and> (\<forall>sz. op_segments o1 = Some sz \<longrightarrow> segments_ok (op_template o1) sz)"

definition channel_ok :: "WorkloadSpec \<Rightarrow> Channel \<Rightarrow> bool" where
  "channel_ok s c \<longleftrightarrow>
     (ch_from c \<noteq> '''' \<longrightarrow> declared s (ch_from c)) \<and> (ch_to c \<noteq> '''' \<longrightarrow> declared s (ch_to c))
     \<and> (ch_to c \<noteq> '''' \<and> collective_named s (ch_from c) \<longrightarrow> cd_objectStore (ws_coordinator s) \<noteq> None)
     \<and> (\<forall>f. ch_feedback c = Some f \<longrightarrow> ch_to c \<noteq> ''''
          \<and> (f_overflow f = '''' \<or> f_overflow f \<in> ch_name ` set (ws_channels s) - {ch_name c}))"

definition valid_workload :: "(string \<Rightarrow> Url option) \<Rightarrow> WorkloadSpec \<Rightarrow> bool" where
  "valid_workload parse s \<longleftrightarrow>
     (\<forall>st. cd_objectStore (ws_coordinator s) = Some st \<longrightarrow>
        (\<exists>u. parse (os_endpoint st) = Some u \<and> endpoint_ok u) \<and> (\<exists>x \<in> set (os_credentialsSecret st). \<not> is_space x))
     \<and> distinct (map op_name (ws_operations s)) \<and> (\<forall>o1 \<in> set (ws_operations s). operation_ok s o1)
     \<and> distinct (map ch_name (ws_channels s)) \<and> (\<forall>c \<in> set (ws_channels s). channel_ok s c)
     \<and> acyclic (edges s)"

subsection \<open>Validate accepts exactly these\<close>

lemma or_else_None [simp]: "case_option y Some x = None \<longleftrightarrow> x = None \<and> y = None"
  by (cases x) simp_all

lemma first_error_None: "first_error checks = None \<longleftrightarrow> (\<forall>c \<in> set checks. \<not> fst c)"
  by (auto simp: first_error_def find_None_iff)

lemma check_operations_None:
  "check_operations s seen os = None \<longleftrightarrow>
     distinct (map op_name os) \<and> op_name ` set os \<inter> set seen = {} \<and> (\<forall>o1 \<in> set os. first_error (operation_checks s o1) = None)"
  by (induction os arbitrary: seen) (auto split: option.splits)

lemma duplicate_channel_iff:
  "duplicate_channel seen cs \<longleftrightarrow> \<not> (distinct (map ch_name cs) \<and> ch_name ` set cs \<inter> set seen = {})"
  by (induction cs arbitrary: seen) auto

lemma fold_add_limit: "fold add_limit cs (n, b) = (n + sum_list (limits cs), b \<or> limits cs \<noteq> [])"
  by (induction cs arbitrary: n b) (auto simp: add_limit_def limits_def map_filter_simps split: option.splits)

lemma fold_raise_limit:
  "fold raise_limit cs (n, b) =
     (fold max (limits (filter (\<lambda>c. \<not> ct_restartAlways c) cs)) n, b \<or> limits (filter (\<lambda>c. \<not> ct_restartAlways c) cs) \<noteq> [])"
  by (induction cs arbitrary: n b) (auto simp: raise_limit_def limits_def map_filter_simps max_def split: option.splits)

lemma limits_append [simp]: "limits (xs @ ys) = limits xs @ limits ys"
  by (simp add: limits_def List.map_filter_def)

lemma podEphemeralStorageLimit_eq:
  "(if snd (podEphemeralStorageLimit t) then Some (fst (podEphemeralStorageLimit t)) else None) = pod_budget t"
proof -
  have "Max (set (n # xs)) = fold max xs n" for n :: int and xs by (rule Max.set_eq_fold)
  then show ?thesis
    by (simp add: podEphemeralStorageLimit_def pod_budget_def running_together_def fold_add_limit fold_raise_limit Let_def
        del: list.set)
qed

lemma objectStore_checks_None:
  "first_error (objectStore_checks parse st) = None \<longleftrightarrow>
     (\<exists>u. parse (os_endpoint st) = Some u \<and> endpoint_ok u) \<and> (\<exists>x \<in> set (os_credentialsSecret st). \<not> is_space x)"
  by (auto simp: first_error_None objectStore_checks_def endpoint_ok_def list_all_iff split: option.splits)

lemma collective_checks_None: "(\<forall>c \<in> set (collective_checks s o1 c1). \<not> fst c) \<longleftrightarrow> collective_ok s o1 c1"
  by (cases "op_completion o1"; cases "co_placement c1")
    (auto simp: collective_checks_def collective_ok_def list_ex_iff)

lemma egress_checks_None: "(\<forall>c \<in> set (map egress_check es). \<not> fst c) \<longleftrightarrow> set es \<subseteq> {EgressMetadata, EgressInternet}"
  by (induction es) (auto simp: egress_check_def split: EgressDestination.splits)

lemma segment_checks_None:
  "(\<forall>c \<in> set (segment_checks o1 sz). \<not> fst c) \<longleftrightarrow> segments_ok (op_template o1) sz"
proof -
  have "(snd (podEphemeralStorageLimit (op_template o1)) \<and> fst (podEphemeralStorageLimit (op_template o1)) \<le> sz)
      \<longleftrightarrow> \<not> (\<forall>b. pod_budget (op_template o1) = Some b \<longrightarrow> sz < b)"
    unfolding podEphemeralStorageLimit_eq [symmetric] by auto
  then show ?thesis
    by (auto simp: segment_checks_def segments_ok_def minSegmentSize_def segmentVolumeName_def list_ex_iff
        split: list.splits option.splits)
qed

lemma operation_checks_None: "first_error (operation_checks s o1) = None \<longleftrightarrow> operation_ok s o1"
proof -
  have "(\<forall>c \<in> set (case op_collective o1 of None \<Rightarrow> [] | Some c \<Rightarrow> collective_checks s o1 c). \<not> fst c)
      \<longleftrightarrow> (\<forall>c. op_collective o1 = Some c \<longrightarrow> collective_ok s o1 c)"
    by (cases "op_collective o1") (simp_all only: option.case collective_checks_None, simp_all)
  moreover have "(\<forall>c \<in> set (case op_segments o1 of None \<Rightarrow> [] | Some sz \<Rightarrow> segment_checks o1 sz). \<not> fst c)
      \<longleftrightarrow> (\<forall>sz. op_segments o1 = Some sz \<longrightarrow> segments_ok (op_template o1) sz)"
    by (cases "op_segments o1") (simp_all only: option.case segment_checks_None, simp_all)
  moreover have "(case op_tickInterval o1 of None \<Rightarrow> False | Some d \<Rightarrow> d < 0) \<longleftrightarrow> \<not> (\<forall>d. op_tickInterval o1 = Some d \<longrightarrow> 0 \<le> d)"
    by (auto split: option.splits)
  ultimately show ?thesis
    unfolding first_error_None operation_checks_def operation_ok_def set_append ball_Un egress_checks_None
    by (cases "op_collective o1") (simp_all add: not_less)
qed

lemma channel_checks_None: "(\<forall>x \<in> set (channel_checks s c). \<not> fst x) \<longleftrightarrow> channel_ok s c"
  by (cases "ch_feedback c") (simp_all add: channel_checks_def channel_ok_def, blast+)

lemma edges_declared: "\<forall>c \<in> set (ws_channels s). channel_ok s c \<Longrightarrow> Domain (edges s) \<subseteq> op_name ` set (ws_operations s)"
  by (auto simp: edges_def forward_def channel_ok_def declared_def)

text \<open>
  C17: \<^verbatim>\<open>Validate\<close> accepts exactly the valid workloads: operation and channel names are unique, channels
  and overflow targets refer to declared operations and channels, collectives, checkpoints, egress
  and segment volumes meet their rules, and without the feedback channels the graph has no cycle.
  The order in which the search visits the operations does not matter.
\<close>

theorem Validate_iff_valid:
  assumes "set order = op_name ` set (ws_operations s)"
  shows "Validate parse order s = None \<longleftrightarrow> valid_workload parse s"
proof -
  have channels: "first_error (concat (map (channel_checks s) (ws_channels s))) = None
      \<longleftrightarrow> (\<forall>c \<in> set (ws_channels s). channel_ok s c)"
    using channel_checks_None [of s] by (auto simp: first_error_None)
  have "visit_operations s order [] = None \<longleftrightarrow> acyclic (edges s)" if "\<forall>c \<in> set (ws_channels s). channel_ok s c"
    using visit_operations_acyclic edges_declared [OF that] assms by simp
  moreover have "(case cd_objectStore (ws_coordinator s) of None \<Rightarrow> None | Some st \<Rightarrow> first_error (objectStore_checks parse st)) = None
      \<longleftrightarrow> (\<forall>st. cd_objectStore (ws_coordinator s) = Some st \<longrightarrow>
        (\<exists>u. parse (os_endpoint st) = Some u \<and> endpoint_ok u) \<and> (\<exists>x \<in> set (os_credentialsSecret st). \<not> is_space x))"
    using objectStore_checks_None [of parse] by (simp split: option.splits)
  ultimately show ?thesis
    by (simp add: Validate_def valid_workload_def check_operations_None operation_checks_None duplicate_channel_iff channels)
      blast
qed


definition sample_template :: PodTemplate where
  "sample_template = \<lparr>tp_labels = [], tp_serviceAccountName = '''',
     tp_containers = [\<lparr>ct_name = ''app'', ct_image = ''app'', ct_command = [], ct_restartAlways = False, ct_limit = Some 8388608, ct_request = None,
       ct_startupProbe = None, ct_readinessProbe = None, ct_env = [], ct_volumeMounts = [], ct_ports = []\<rparr>],
     tp_initContainers = [], tp_volumes = [], tp_restartPolicy = '''', tp_subdomain = '''', tp_setHostnameAsFQDN = None\<rparr>"

definition sample_operation :: "string \<Rightarrow> Operation" where
  "sample_operation name = \<lparr>op_name = name, op_checkpoint = False, op_completion = CompletionDrain,
     op_template = sample_template,
     op_scaling = \<lparr>sc_horizontal = \<lparr>hs_min = 1, hs_max = 1, hs_cpuUtilizationPercent = 0\<rparr>, sc_vertical = None\<rparr>,
     op_slots = 1, op_collective = None, op_tickInterval = None, op_egress = [EgressInternet], op_segments = Some 2097152\<rparr>"

definition sample_channel :: "string \<Rightarrow> string \<Rightarrow> string \<Rightarrow> Feedback option \<Rightarrow> Channel" where
  "sample_channel name from to fb = \<lparr>ch_name = name, ch_from = from, ch_to = to,
     ch_partitioning = \<lparr>p_mode = PartitionHash, p_partitions = 2\<rparr>, ch_delivery = DeliveryPipelined,
     ch_durability = DurabilityEphemeral, ch_combine = CombineNone, ch_feedback = fb\<rparr>"

definition sample_spec :: "Feedback option \<Rightarrow> WorkloadSpec" where
  "sample_spec fb = \<lparr>ws_operations = [sample_operation ''a'', sample_operation ''b''],
     ws_channels = [sample_channel ''ab'' ''a'' ''b'' None, sample_channel ''ba'' ''b'' ''a'' fb],
     ws_coordinator = \<lparr>cd_image = '''', cd_objectStore = None\<rparr>\<rparr>"

theorem Validate_iff_valid_witness:
  "valid_workload (\<lambda>_. None) (sample_spec (Some \<lparr>f_mode = FeedbackSynchronous, f_maxEpochs = 3, f_overflow = ''''\<rparr>))
   \<and> \<not> valid_workload (\<lambda>_. None) (sample_spec None)"
proof -
  have a: "Validate (\<lambda>_. None) [''b'', ''a''] (sample_spec (Some \<lparr>f_mode = FeedbackSynchronous, f_maxEpochs = 3, f_overflow = ''''\<rparr>)) = None"
    by code_simp
  have b: "Validate (\<lambda>_. None) [''b'', ''a''] (sample_spec None) = Some ''cycle through %q and %q has no feedback channel''"
    by code_simp
  have s: "set [''b'', ''a''] = op_name ` set (ws_operations (sample_spec fb))" for fb
    by (auto simp: sample_spec_def sample_operation_def)
  show ?thesis using Validate_iff_valid [OF s] a b by (metis option.distinct(1))
qed

end
