(* ===== verification/Returning.thy ===== *)
theory Returning
  imports Committing
begin

text \<open>
  \<^verbatim>\<open>Run\<close> returns once its context has ended. No operation of a worker forgets a call it made, and every pass
  of the loop asks for the state of the context first, so a context that ends after some number of
  calls ends the loop after at most as many passes.
\<close>

definition deep :: "nat \<Rightarrow> worker \<Rightarrow> bool" where
  "deep n w \<longleftrightarrow> n \<le> length (wk_trace w)"

named_theorems deep_intros \<open>operations that keep the calls made so far\<close>

lemma deep_ask [deep_intros]: "deep n w \<Longrightarrow> deep n (snd (ask M c w))"
  by (simp add: deep_def ask_def Let_def)

lemma ask_deeper: "ask M c w = (a, w') \<Longrightarrow> length (wk_trace w') = length (wk_trace w) + 1"
  by (auto simp: ask_def Let_def)

lemma deep_updates [simp]:
  "deep n (w\<lparr>wk_specs := a1\<rparr>) = deep n w" "deep n (w\<lparr>wk_store := a2\<rparr>) = deep n w" "deep n (w\<lparr>wk_addr := a3\<rparr>) = deep n w"
  "deep n (w\<lparr>wk_segmentSeq := a4\<rparr>) = deep n w" "deep n (w\<lparr>wk_order := a5\<rparr>) = deep n w" "deep n (w\<lparr>wk_rr := a6\<rparr>) = deep n w"
  "deep n (w\<lparr>wk_overflowed := a7\<rparr>) = deep n w" "deep n (w\<lparr>wk_unannounced := a8\<rparr>) = deep n w"
  "deep n (w\<lparr>wk_buffers := a9\<rparr>) = deep n w" "deep n (w\<lparr>wk_bufBytes := b1\<rparr>) = deep n w"
  "deep n (w\<lparr>wk_combineIndex := b2\<rparr>) = deep n w" "deep n (w\<lparr>wk_bufferedBytes := b3\<rparr>) = deep n w"
  "deep n (w\<lparr>wk_epoch := b4\<rparr>) = deep n w" "deep n (w\<lparr>wk_maxEpoch := b5\<rparr>) = deep n w" "deep n (w\<lparr>wk_syncLoop := b6\<rparr>) = deep n w"
  "deep n (w\<lparr>wk_lastDone := b7\<rparr>) = deep n w" "deep n (w\<lparr>wk_task := b8\<rparr>) = deep n w" "deep n (w\<lparr>wk_checkpoint := b9\<rparr>) = deep n w"
  by (simp_all add: deep_def)

text \<open>A sequence keeps what its parts keep, and so does a call whose answer is taken apart.\<close>

lemmas deep_then = thenW_inv [where I = "deep n" for n]

lemmas deep_then2 = thenW_inv [where I = "\<lambda>st. deep n (snd st)" for n]

lemma deep_asked: "ask M c w = (a, w') \<Longrightarrow> deep n w \<Longrightarrow> deep n w'"
  using deep_ask [of n w M c] by simp

lemma deep_request [deep_intros]: "deep n w \<Longrightarrow> deep n (snd (do_request M q w))"
  using deep_ask [of n w M "Http q"] by (simp add: do_request_def case_prod_beta Let_def)

lemma deep_call_ok [deep_intros]: "deep n w \<Longrightarrow> deep n (snd (call_ok M q w))"
  unfolding call_ok_def by (rule deep_then) (simp_all add: deep_intros)

lemma deep_topology [deep_intros]: "deep n w \<Longrightarrow> deep n (snd (loadTopology M w))"
  unfolding loadTopology_def by (rule deep_then) (auto simp: deep_intros split: body.splits)

lemma deep_spec [deep_intros]: "deep n w \<Longrightarrow> deep n (snd (spec_of M ch w))"
  unfolding spec_of_def by (rule deep_then) (auto simp: deep_intros split: option.splits)

lemma deep_serve [deep_intros]: "deep n w \<Longrightarrow> deep n (snd (serveSegments M w))"
  unfolding serveSegments_def by (auto split: option.splits prod.splits answer.splits dest: deep_asked)

lemma deep_durable [deep_intros]: "deep n w \<Longrightarrow> deep n (snd (write_durable M recs w))"
  unfolding write_durable_def by (auto simp: Let_def split: option.splits prod.splits answer.splits dest!: deep_asked)

lemma deep_local [deep_intros]: "deep n w \<Longrightarrow> deep n (snd (write_local M recs w))"
  unfolding write_local_def by (auto simp: Let_def split: option.splits prod.splits sum.splits dest!: deep_asked)

lemma deep_small [simp]:
  "deep n (clear_buffer k w) = deep n w" "deep n (drop_buffer k w) = deep n w" "deep n (queue_announcement ch a w) = deep n w"
  "deep n (bind_blobs i bs w) = deep n w" "deep n (drop_blob_of b w) = deep n w" "deep n (add_bytes k m w) = deep n w"
  "deep n (append_record k r w) = deep n w" "deep n (observe ch resp w) = deep n w"
  by (simp_all add: deep_def clear_buffer_def drop_buffer_def queue_announcement_def bind_blobs_def drop_blob_of_def add_bytes_def
      append_record_def observe_def Let_def)

lemma deep_flush [deep_intros]:
  assumes "deep n w"
  shows "deep n (snd (flushBuffer M k w))"
proof -
  have "deep n (snd (flush_external M k recs v))" if "deep n v" for recs v
    using that unfolding flush_external_def by (auto intro!: deep_then simp: deep_intros)
  moreover have "deep n (snd (flush_segment M k recs v))" if "deep n v" for recs v
    unfolding flush_segment_def by (intro deep_then) (use that in \<open>auto simp: deep_intros\<close>)
  ultimately show ?thesis using assms unfolding flushBuffer_def Let_def by (auto intro!: deep_then simp: deep_intros)
qed

lemma deep_combine [deep_intros]: "deep n w \<Longrightarrow> deep n (snd (combine M k mode ky v ep w))"
  by (auto simp: combine_def setCombined_def new_key_def Let_def split: option.splits)

interpretation calls: output_invariant M "deep n" for M n
  by unfold_locales
    (simp_all add: deep_intros store_in_buffer_def)

lemmas deep_output [deep_intros] =
  calls.validated calls.Emits calls.EmitBlobs calls.Flushes calls.materializes calls.publishes

subsection \<open>Reading and retrying\<close>

lemma deep_pause [deep_intros]: "deep n w \<Longrightarrow> deep n (pause M ms w)"
  by (simp add: pause_def deep_ask)

lemma deep_retry [deep_intros]:
  assumes "deep n w" and f: "\<And>v. deep n v \<Longrightarrow> deep n (snd (f v))"
  shows "deep n (snd (retry M f w))"
proof -
  have "deep n (snd (retry_loop M m err f w))" for m err
    using assms(1)
  proof (induction m arbitrary: err w)
    case (Suc m)
    obtain c w1 where a: "ask M ContextErr w = (c, w1)" by fastforce
    obtain r w2 where b: "f w1 = (r, w2)" by fastforce
    have "deep n w1" "deep n w2" using deep_asked [OF a Suc.prems] f [of w1] b by simp_all
    then show ?case using Suc.IH a b deep_pause [of n w2 M 1000] by (auto split: sum.splits)
  qed simp
  then show ?thesis by (simp add: retry_def)
qed

lemma deep_fetch [deep_intros]: "deep n w \<Longrightarrow> deep n (snd (fetch M sg w))"
  by (auto simp: fetch_def fetchDurable_def split: prod.splits answer.splits dest: deep_asked)

lemma deep_fetch_loop [deep_intros]: "deep n w \<Longrightarrow> deep n (snd (fetch_loop M deadline sg left wait w))"
proof (induction left arbitrary: wait w)
  case (Suc left)
  obtain d w1 where a: "retry_context_ended M deadline w = (d, w1)" by fastforce
  then have w1: "deep n w1" using Suc.prems by (auto simp: retry_context_ended_def Let_def split: prod.splits dest!: deep_asked)
  obtain r w2 where b: "fetch M sg w1 = (r, w2)" by fastforce
  have "deep n (pause M wait w2)" "deep n w2" using deep_fetch [OF w1, of M sg] b deep_pause by simp_all
  then show ?case using Suc.IH a b w1 by (auto split: sum.splits)
qed simp

lemma deep_fetchRetry [deep_intros]:
  assumes "deep n w"
  shows "deep n (snd (fetchRetry M sg w))"
proof -
  obtain t w1 where a: "ask M Clock w = (t, w1)" by fastforce
  obtain r w2 where b: "fetch_loop M (int (clock_of t) + fetchRetryBudget * 1000000) sg fetchAttempts fetchRetryFloor w1 = (r, w2)"
    by fastforce
  have "deep n w2" using deep_fetch_loop [OF deep_asked [OF a assms]] b by (metis snd_conv)
  then show ?thesis using a b by (auto simp: fetchRetry_def Let_def split: option.splits prod.splits dest: deep_asked)
qed

lemma deep_open [deep_intros]: "deep n w \<Longrightarrow> deep n (snd (OpenBlobContext M v w))"
proof -
  have "deep n u \<Longrightarrow> deep n (snd (open_loop M h k left u))" for h k left u
  proof (induction left arbitrary: k u)
    case (Suc left)
    obtain c u1 where a: "(if k = 0 then (Local 0 None, u) else ask M ContextErr (pause M (200 * int k) u)) = (c, u1)" by fastforce
    have "deep n u1" using a Suc.prems deep_asked [OF _ deep_pause [OF Suc.prems]] by (cases "k = 0") auto
    then show ?case using Suc.IH a by (auto split: prod.splits answer.splits dest: deep_asked)
  qed simp
  then show "deep n w \<Longrightarrow> ?thesis" by (simp add: OpenBlobContext_def openBlob_def split: option.splits)
qed

subsection \<open>Handlers and passes\<close>

abbreviation deep_state :: "nat \<Rightarrow> 'a \<times> worker \<Rightarrow> bool" where
  "deep_state n st \<equiv> deep n (snd st)"

lemma deep_on_worker [deep_intros]:
  "(\<And>w. deep n w \<Longrightarrow> deep n (snd (f w))) \<Longrightarrow> deep_state n st \<Longrightarrow> deep_state n (snd (on_worker f st))"
  by (simp add: on_worker_def case_prod_beta Let_def)

lemma deep_action [deep_intros]: "deep n w \<Longrightarrow> deep n (snd (do_action M a w))"
  by (cases a) (auto simp: case_prod_beta Let_def deep_intros split: sum.splits)

lemma deep_script [deep_intros]: "deep n w \<Longrightarrow> deep n (snd (snd (run_script s M w)))"
  by (induction s arbitrary: w) (auto simp: case_prod_beta Let_def deep_action)

lemma deep_handle [deep_intros]: "deep_state n st \<Longrightarrow> deep_state n (snd (handle M f st))"
  by (auto simp: handle_def deep_script case_prod_beta Let_def split: option.splits)

lemma deep_requests [deep_intros]:
  assumes "deep n w"
  shows "deep n (snd (ack M ch ks w))" "deep n (snd (nack M ch ks w))" "deep n (snd (reportDone M w))"
    "deep n (snd (consume M ch k w))" "deep n (snd (call_done M c msg w))"
  using assms
  by (auto simp: ack_def nack_def reportDone_def consume_def call_done_def deep_intros intro!: deep_then
      split: body.splits prod.splits answer.splits option.splits dest: deep_asked)

lemma deep_commit [deep_intros]:
  assumes "deep_state n st"
  shows "deep_state n (snd (commitCheckpoint M h ch acks c e st))"
  unfolding commitCheckpoint_def
proof (rule deep_then2, goal_cases)
  case 1
  show ?case by (rule deep_on_worker [OF _ assms]) (simp add: deep_intros)
next
  case (2 x s1)
  then show ?case
    by (auto simp: Let_def split: option.splits sum.splits intro!: deep_then2 deep_on_worker deep_requests deep_output deep_retry)
qed

lemma deep_records [deep_intros]: "deep_state n st \<Longrightarrow> deep_state n (snd (on_records M h ch rs st))"
  by (induction rs arbitrary: st) (auto simp: Let_def intro!: deep_then2 deep_handle)

lemma deep_finish [deep_intros]: "deep_state n st \<Longrightarrow> deep_state n (snd (finish_segment M h ch sg st))"
  unfolding finish_segment_def Let_def
  by (auto intro!: deep_then2 deep_on_worker deep_retry deep_commit deep_requests deep_output)

lemma deep_return [deep_intros]: "deep n w \<Longrightarrow> deep n (snd (return_delivery M ch sg w))"
  by (simp add: return_delivery_def Let_def case_prod_beta deep_intros split: sum.splits)

lemma deep_process [deep_intros]: "deep_state n st \<Longrightarrow> deep_state n (snd (process_segment M h ch p sg st))"
  unfolding process_segment_def case_prod_beta
  by (auto split: sum.splits intro!: deep_then2 deep_on_worker deep_retry deep_requests deep_return deep_records deep_finish
      simp: deep_fetchRetry)

lemma deep_process_all [deep_intros]: "deep_state n st \<Longrightarrow> deep_state n (snd (process_all M h ch ws st))"
  by (induction ws arbitrary: st) (auto intro!: deep_then2 deep_process)

lemma deep_poll [deep_intros]: "deep_state n st \<Longrightarrow> deep_state n (snd (poll_channel M h ch pf st))"
  unfolding poll_channel_def case_prod_beta
  by (auto split: sum.splits intro!: deep_then2 deep_process_all deep_pause simp: deep_requests)

lemma deep_polls [deep_intros]: "deep_state n st \<Longrightarrow> deep_state n (snd (poll_channels M h chs pf st))"
  by (induction chs arbitrary: pf st) (auto intro!: deep_then2 deep_poll)

lemma deep_commit_or_flush [deep_intros]: "deep_state n st \<Longrightarrow> deep_state n (snd (commit_or_flush M h c e st))"
  unfolding commit_or_flush_def by (auto intro!: deep_on_worker deep_retry deep_commit deep_output)

lemma deep_now [deep_intros]: "deep n w \<Longrightarrow> deep n (snd (now M w))"
  by (simp add: now_def Let_def case_prod_beta deep_intros)

lemma deep_tick [deep_intros]: "deep_state n st \<Longrightarrow> deep_state n (snd (maybe_tick M h lp st))"
  unfolding maybe_tick_def Let_def case_prod_beta
  by (auto intro!: deep_then2 deep_on_worker deep_retry deep_handle deep_output simp: deep_now)

lemma deep_ends [deep_intros]:
  assumes "deep_state n st"
  shows "deep_state n (snd (end_of_input M h st))" "deep_state n (snd (end_epoch M h lp st))" "deep_state n (snd (sleep M h lp st))"
  using assms unfolding end_of_input_def end_epoch_def sleep_def Let_def case_prod_beta
  by (auto intro!: deep_then2 deep_on_worker deep_retry deep_handle deep_commit_or_flush deep_requests deep_call_ok deep_pause
      simp: deep_now)

lemma deep_pass: "deep_state n st \<Longrightarrow> deep_state n (snd (one_pass M h lp st))"
  unfolding one_pass_def Let_def by (auto intro!: deep_then2 deep_polls deep_tick deep_ends)

subsection \<open>The loop ends\<close>

text \<open>Every pass makes one call at least, so a context that ends is seen after as many passes.\<close>

lemma run_loop_returns:
  "(\<And>tr. N \<le> length tr \<Longrightarrow> ended (mc_world M tr ContextErr)) \<Longrightarrow> deep_state (N - k) st \<Longrightarrow> k \<le> N \<Longrightarrow>
   \<exists>r st'. run_loop (Suc k) M h lp st = (Some r, st')"
proof (induction k arbitrary: lp st)
  case 0
  then have "ended (fst (ask M ContextErr (snd st)))" by (simp add: deep_def ask_def Let_def)
  then show ?case by (simp add: case_prod_beta Let_def)
next
  case (Suc k)
  obtain c w1 where a: "ask M ContextErr (snd st) = (c, w1)" by fastforce
  obtain r st2 where b: "one_pass M h lp (fst st, w1) = (r, st2)" by (rule prod.exhaust)
  have "deep (N - k) w1" using Suc.prems(2,3) ask_deeper [OF a] by (simp add: deep_def)
  then have "deep_state (N - k) st2" using deep_pass [of "N - k" "(fst st, w1)" M h lp] b by simp
  then have "\<exists>r st'. run_loop (Suc k) M h lp1 st2 = (Some r, st')" for lp1 by (intro Suc.IH) (use Suc.prems in auto)
  then show ?case using a b by (subst run_loop.simps) (auto simp: Let_def split: sum.splits verdict.splits simp del: run_loop.simps)
qed

text \<open>
  C18: A worker whose context ends returns. If the context has ended for every history of at least \<open>N\<close> calls,
  \<open>Run\<close> returns, with an error or with nil, within \<open>N + 1\<close> passes over the inbound channels, whatever the
  coordinator, the other workers, the stores and the handlers answer: \<open>Suc N\<close> as fuel is enough.
\<close>

theorem Run_returns:
  assumes "\<And>tr. N \<le> length tr \<Longrightarrow> ended (mc_world M tr ContextErr)"
  shows "\<exists>r st'. Run (Suc N) M h st = (Some r, st')"
proof -
  have "\<exists>r st'. run_loop (Suc N) M h lp st = (Some r, st')" for lp st
    by (rule run_loop_returns [OF assms]) (auto simp: deep_def)
  then show ?thesis unfolding Run_def Let_def case_prod_beta by (auto split: sum.splits option.splits simp del: run_loop.simps)
qed

subsection \<open>A sample run\<close>

text \<open>A pod whose context ends after twelve calls, polling a coordinator that has no work for it yet.\<close>

definition expiring :: "history \<Rightarrow> call \<Rightarrow> answer" where
  "expiring h c =
     (if c = ContextErr \<and> 12 \<le> length h then Local 0 (Some ''context canceled'') else helpful two_channels h c)"

definition expiring_machine :: "nat machine" where
  "expiring_machine = small_machine expiring"

lemma expired_run:
  "fst (Run 13 expiring_machine no_handlers ((), map_pod)) = Some (Inl (WorkerError ''context canceled''))
   \<and> fst (Run 2 expiring_machine no_handlers ((), map_pod)) = None"
  by code_simp

theorem Run_returns_witness:
  "\<exists>st'. Run 13 expiring_machine no_handlers ((), map_pod) = (Some (Inl (WorkerError ''context canceled'')), st')"
proof -
  have "\<exists>r st'. Run (Suc 12) expiring_machine no_handlers ((), map_pod) = (Some r, st')"
    by (rule Run_returns) (simp add: expiring_machine_def small_machine_def expiring_def ended_def)
  then show ?thesis using expired_run by auto
qed

end
