(* ===== verification/Cluster.thy ===== *)
theory Cluster
  imports Validation Api
begin

text \<open>
  What the controller of \<^verbatim>\<open>pkg/controller\<close> talks to: the Kubernetes API and the HTTP interface of the
  workload's coordinator.

  Both are outside the controller, so every call is put to an environment that answers as a function
  of what happened before, and may fail. \<open>upsert\<close> is \<^verbatim>\<open>controllerutil.CreateOrUpdate\<close>: the environment
  answers with the object that existed, if any, and with the status of the object afterwards; what the
  callback makes of the existing object is recorded as \<open>Applied\<close>. All objects live in the namespace of the
  workload. An owner is the UID of the controlling workload, as \<^verbatim>\<open>SetControllerReference\<close> sets it.

  The events of a pass are kept in order: calls with their answers, objects applied, and events recorded
  on the workload. Objects have the fields the controller reads or writes.
\<close>

type_synonym labels = "(string, string) gomap"

subsection \<open>Objects\<close>

record Condition =
  cn_type :: string
  cn_status :: string
  cn_reason :: string
  cn_message :: string

record Deployment =
  dp_labels :: labels
  dp_owner :: string
  dp_replicas :: "int option"
  dp_strategy :: string
  dp_selector :: labels
  dp_template :: PodTemplate

record DeploymentStatus =
  ds_replicas :: int
  ds_readyReplicas :: int
  ds_conditions :: "Condition list"

record ServicePort =
  sp_name :: string
  sp_port :: int
  sp_targetPort :: "int option"

record Service =
  svc_labels :: labels
  svc_owner :: string
  svc_selector :: labels
  svc_ports :: "ServicePort list"
  svc_clusterIP :: string
  svc_publishNotReadyAddresses :: bool

record ServiceAccount =
  acct_labels :: labels
  acct_owner :: string

record Job =
  jb_labels :: labels
  jb_owner :: string
  jb_backoffLimit :: "int option"
  jb_parallelism :: "int option"
  jb_completions :: "int option"
  jb_completionMode :: string
  jb_template :: PodTemplate
  jb_conditions :: "Condition list"
  jb_succeeded :: int
  jb_ready :: "int option"

datatype protocol = TCP | UDP

datatype peer = PodPeer labels | NamespacePeer labels | IPBlock string "string list"

text \<open>A rule without peers, or without ports, matches every peer, or every port.\<close>

record rule =
  ru_peers :: "peer list"
  ru_ports :: "(protocol \<times> int) list"

datatype policyType = PolicyIngress | PolicyEgress

record NetworkPolicy =
  np_labels :: labels
  np_owner :: string
  np_podSelector :: labels
  np_policyTypes :: "policyType list"
  np_ingress :: "rule list"
  np_egress :: "rule list"

record VerticalPodAutoscaler =
  vpa_labels :: labels
  vpa_owner :: string
  vpa_targetRef :: "string \<times> string \<times> string"
  vpa_updateMode :: VerticalScalingMode

record ContainerStatus =
  st_name :: string
  st_started :: "bool option"
  st_terminated :: "(int \<times> string) option"
  st_waiting :: "string option"

record Pod =
  pod_name :: string
  pod_initContainerStatuses :: "ContainerStatus list"

datatype object =
    ADeployment Deployment | AService Service | AServiceAccount ServiceAccount | AJob Job
  | APolicy NetworkPolicy | AVerticalPodAutoscaler VerticalPodAutoscaler

datatype kind =
    KDeployment | KService | KServiceAccount | KJob | KNetworkPolicy | KVerticalPodAutoscaler | KHorizontalPodAutoscaler

subsection \<open>Calls\<close>

datatype payload = NoBody | ChannelsBody "Channel list" | OperationsBody "OperationSpec list"

datatype kcall =
    GetWorkload string string
  | CreateOrUpdate kind string
  | DeleteObject kind string
  | ListPolicies labels
  | ListJobs labels
  | ListPods labels
  | UpdateStatus WorkloadStatus
  | RESTMapping string string string
  | HttpDo string string payload

datatype kanswer =
    KOk
  | KNotFound
  | KNoMatch
  | KFailed string
  | KWorkload Workload
  | KExisting "object option" DeploymentStatus
  | KPolicies "(string \<times> NetworkPolicy) list"
  | KJobs "(string \<times> Job) list"
  | KPods "Pod list"
  | KReply int "Metrics option"

datatype eventType = EventNormal | EventWarning

datatype kevent =
    Called kcall kanswer
  | Applied kind string object
  | Recorded eventType string string

type_synonym pass = "kevent list"

record controller =
  rc_world :: "pass \<Rightarrow> kcall \<Rightarrow> kanswer"
  rc_coordinatorImage :: string
  rc_controllerNamespace :: string
  rc_coordinatorURL :: "(Workload \<Rightarrow> string) option"
  rc_recorder :: bool
  rc_parse :: "string \<Rightarrow> Url option"
  rc_order :: "WorkloadSpec \<Rightarrow> string list"

type_synonym 'a kresult = "string + 'a"

definition thenK :: "'a kresult \<times> pass \<Rightarrow> ('a \<Rightarrow> pass \<Rightarrow> 'b kresult \<times> pass) \<Rightarrow> 'b kresult \<times> pass" where
  "thenK m f = (case m of (Inl e, t) \<Rightarrow> (Inl e, t) | (Inr x, t) \<Rightarrow> f x t)"

lemma thenK_simps [simp]: "thenK (Inl e, t) f = (Inl e, t)" "thenK (Inr x, t) f = f x t"
  by (simp_all add: thenK_def)

definition kask :: "controller \<Rightarrow> kcall \<Rightarrow> pass \<Rightarrow> kanswer \<times> pass" where
  "kask C c t = (let a = rc_world C t c in (a, t @ [Called c a]))"

definition upsert ::
  "controller \<Rightarrow> kind \<Rightarrow> string \<Rightarrow> (object option \<Rightarrow> object) \<Rightarrow> pass \<Rightarrow> (object \<times> DeploymentStatus) kresult \<times> pass"
where
  "upsert C k name f t =
     (case kask C (CreateOrUpdate k name) t of
        (KExisting old st, t1) \<Rightarrow> (Inr (f old, st), t1 @ [Applied k name (f old)])
      | (KFailed e, t1) \<Rightarrow> (Inl e, t1)
      | (_, t1) \<Rightarrow> (Inl ''create or update'', t1))"

definition apply_object :: "controller \<Rightarrow> kind \<Rightarrow> string \<Rightarrow> object \<Rightarrow> pass \<Rightarrow> unit kresult \<times> pass" where
  "apply_object C k name new t = thenK (upsert C k name (\<lambda>_. new) t) (\<lambda>_ t1. (Inr (), t1))"

text \<open>\<^verbatim>\<open>client.IgnoreNotFound(r.Delete(ctx, obj))\<close>\<close>

definition delete_object :: "controller \<Rightarrow> kind \<Rightarrow> string \<Rightarrow> pass \<Rightarrow> unit kresult \<times> pass" where
  "delete_object C k name t =
     (case kask C (DeleteObject k name) t of
        (KOk, t1) \<Rightarrow> (Inr (), t1)
      | (KNotFound, t1) \<Rightarrow> (Inr (), t1)
      | (KFailed e, t1) \<Rightarrow> (Inl e, t1)
      | (_, t1) \<Rightarrow> (Inl ''delete'', t1))"

definition recorded :: "controller \<Rightarrow> bool \<Rightarrow> eventType \<Rightarrow> string \<Rightarrow> string \<Rightarrow> pass \<Rightarrow> pass" where
  "recorded C b ty reason msg t = (if rc_recorder C \<and> b then t @ [Recorded ty reason msg] else t)"

subsection \<open>Text\<close>

definition sprint :: "int \<Rightarrow> string" where
  "sprint i = (if i < 0 then ''-'' @ itoa (nat (- i)) else itoa (nat i))"

definition is_decimal :: "char \<Rightarrow> bool" where
  "is_decimal c \<longleftrightarrow> 48 \<le> (of_char c :: nat) \<and> (of_char c :: nat) \<le> 57"

definition decimal :: "string \<Rightarrow> nat" where
  "decimal s = fold (\<lambda>c n. 10 * n + (of_char c - 48)) s 0"

text \<open>\<^verbatim>\<open>strconv.Atoi\<close>: the number it returns and whether the error is nil.\<close>

definition Atoi :: "string \<Rightarrow> int \<times> bool" where
  "Atoi s =
     (let neg = HasPrefix s ''-''; ds = (if neg \<or> HasPrefix s ''+'' then tl s else s);
          v = (if neg then - int (decimal ds) else int (decimal ds)) in
      if ds = '''' \<or> \<not> list_all is_decimal ds then (0, False)
      else if 2 ^ 63 \<le> v then (2 ^ 63 - 1, False)
      else if v < - (2 ^ 63) then (- (2 ^ 63), False)
      else (v, True))"

fun join_with :: "string \<Rightarrow> string list \<Rightarrow> string" where
  "join_with sep [] = ''''"
| "join_with sep [x] = x"
| "join_with sep (x # y # xs) = x @ sep @ join_with sep (y # xs)"

definition Contains :: "string \<Rightarrow> string \<Rightarrow> bool" where
  "Contains s sub \<longleftrightarrow> list_ex (\<lambda>n. HasPrefix (drop n s) sub) [0..<Suc (length s)]"

text \<open>
  \<^verbatim>\<open>Duration.String\<close> for a positive duration in nanoseconds; \<open>fraction\<close> leaves out trailing zeros, and the
  point with them.
\<close>

fun pad_digits :: "nat \<Rightarrow> nat \<Rightarrow> string" where
  "pad_digits 0 n = ''''"
| "pad_digits (Suc k) n = pad_digits k (n div 10) @ [digit (n mod 10)]"

definition fraction :: "nat \<Rightarrow> nat \<Rightarrow> string" where
  "fraction prec n =
     (let ds = rev (dropWhile (\<lambda>c. c = CHR ''0'') (rev (pad_digits prec (n mod 10 ^ prec)))) in
      if ds = '''' then '''' else ''.'' @ ds)"

definition duration_string :: "nat \<Rightarrow> string" where
  "duration_string u =
     (if u = 0 then ''0s''
      else if u < 10 ^ 3 then itoa u @ ''ns''
      else if u < 10 ^ 6 then itoa (u div 10 ^ 3) @ fraction 3 u @ [CHR 0xC2, CHR 0xB5, CHR ''s'']
      else if u < 10 ^ 9 then itoa (u div 10 ^ 6) @ fraction 6 u @ ''ms''
      else
        (let s = u div 10 ^ 9; m = s div 60; h = m div 60 in
         (if 0 < h then itoa h @ ''h'' else '''') @ (if 0 < m then itoa (m mod 60) @ ''m'' else '''')
         @ itoa (s mod 60) @ fraction 9 u @ ''s''))"

subsection \<open>Names and labels\<close>

definition LabelWorkload :: string where "LabelWorkload = ''stark8s.io/workload''"
definition LabelOperation :: string where "LabelOperation = ''stark8s.io/operation''"
definition LabelRole :: string where "LabelRole = ''stark8s.io/role''"
definition LabelChannel :: string where "LabelChannel = ''stark8s.io/channel''"
definition LabelCollective :: string where "LabelCollective = ''stark8s.io/collective-operation''"
definition RoleOperation :: string where "RoleOperation = ''operation''"
definition RoleCoordinator :: string where "RoleCoordinator = ''coordinator''"

definition ControlPort :: int where "ControlPort = 8080"
definition SegmentPort :: int where "SegmentPort = 8090"

definition coordinatorName :: "Workload \<Rightarrow> string" where
  "coordinatorName wl = wl_name wl @ ''-coordinator''"

definition coordinatorLabels :: "Workload \<Rightarrow> labels" where
  "coordinatorLabels wl = [(LabelWorkload, wl_name wl), (LabelRole, RoleCoordinator)]"

definition opName :: "Workload \<Rightarrow> Operation \<Rightarrow> string" where
  "opName wl o1 = wl_name wl @ ''-'' @ op_name o1"

definition opLabels :: "Workload \<Rightarrow> Operation \<Rightarrow> labels" where
  "opLabels wl o1 = [(LabelWorkload, wl_name wl), (LabelOperation, op_name o1), (LabelRole, RoleOperation)]"

definition coordinatorURL :: "controller \<Rightarrow> Workload \<Rightarrow> string" where
  "coordinatorURL C wl =
     (case rc_coordinatorURL C of
        Some f \<Rightarrow> f wl
      | None \<Rightarrow> ''http://'' @ coordinatorName wl @ ''.'' @ wl_namespace wl @ ''.svc:'' @ sprint ControlPort)"

end
