(* ===== verification/Provisioning.thy ===== *)
theory Provisioning
  imports Cluster
begin

text \<open>
  The objects a workload consists of, apart from its network policies: the coordinator's Deployment and
  Service, a service account per operation, the pod template of an operation with what is injected into
  it, and the autoscalers, after \<^verbatim>\<open>pkg/controller/reconciler.go\<close>.
\<close>

subsection \<open>The coordinator\<close>

definition objectStoreEnv :: "Workload \<Rightarrow> (string \<times> env_source) list" where
  "objectStoreEnv wl =
     (case cd_objectStore (ws_coordinator (wl_spec wl)) of
        None \<Rightarrow> []
      | Some s \<Rightarrow>
          (let prefix = (if wl_uid wl = '''' then wl_namespace wl @ ''/'' @ wl_name wl else wl_uid wl);
               secret = (\<lambda>name k optional. (name, SecretRef (os_credentialsSecret s) k optional)) in
           [(''STARK8S_OBJECT_STORE_ENDPOINT'', Literal (os_endpoint s)),
            (''STARK8S_OBJECT_STORE_REGION'', Literal (os_region s)),
            (''STARK8S_OBJECT_STORE_PREFIX'', Literal prefix),
            secret ''STARK8S_OBJECT_STORE_ACCESS_KEY'' ''accessKey'' False,
            secret ''STARK8S_OBJECT_STORE_SECRET_KEY'' ''secretKey'' False,
            secret ''STARK8S_OBJECT_STORE_SESSION_TOKEN'' ''sessionToken'' True]))"

definition new_template :: PodTemplate where
  "new_template = \<lparr>tp_labels = [], tp_serviceAccountName = '''', tp_containers = [], tp_initContainers = [], tp_volumes = [],
     tp_restartPolicy = '''', tp_subdomain = '''', tp_setHostnameAsFQDN = None\<rparr>"

definition new_deployment :: Deployment where
  "new_deployment = \<lparr>dp_labels = [], dp_owner = '''', dp_replicas = None, dp_strategy = '''', dp_selector = [], dp_template = new_template\<rparr>"

definition deployment_of :: "object option \<Rightarrow> Deployment" where
  "deployment_of old = (case old of Some (ADeployment d) \<Rightarrow> d | _ \<Rightarrow> new_deployment)"

definition new_service :: Service where
  "new_service = \<lparr>svc_labels = [], svc_owner = '''', svc_selector = [], svc_ports = [], svc_clusterIP = '''', svc_publishNotReadyAddresses = False\<rparr>"

definition service_of :: "object option \<Rightarrow> Service" where
  "service_of old = (case old of Some (AService s) \<Rightarrow> s | _ \<Rightarrow> new_service)"

definition coordinator_container :: "controller \<Rightarrow> Workload \<Rightarrow> Container" where
  "coordinator_container C wl =
     \<lparr>ct_name = ''coordinator'',
      ct_image = (if cd_image (ws_coordinator (wl_spec wl)) = '''' then rc_coordinatorImage C else cd_image (ws_coordinator (wl_spec wl))),
      ct_command = [''/coordinator''], ct_restartAlways = False, ct_limit = None, ct_request = None, ct_startupProbe = None,
      ct_readinessProbe = Some (''/healthz'', ControlPort),
      ct_env = [(''STARK8S_SEGMENT_ADDR'', Literal (coordinatorName wl @ ''.'' @ wl_namespace wl @ ''.svc:'' @ sprint SegmentPort)),
                (''STARK8S_WORKLOAD'', Literal (wl_name wl))] @ objectStoreEnv wl,
      ct_volumeMounts = [], ct_ports = [(ControlPort, ''control''), (SegmentPort, ''segments'')]\<rparr>"

definition coordinator_deployment :: "controller \<Rightarrow> Workload \<Rightarrow> object option \<Rightarrow> object" where
  "coordinator_deployment C wl old =
     (let d = deployment_of old; ls = coordinatorLabels wl in
      ADeployment (d\<lparr>dp_labels := ls, dp_replicas := Some 1, dp_strategy := ''Recreate'', dp_selector := ls,
        dp_template := (dp_template d)\<lparr>tp_labels := ls, tp_containers := [coordinator_container C wl]\<rparr>, dp_owner := wl_uid wl\<rparr>))"

definition coordinator_service :: "Workload \<Rightarrow> object option \<Rightarrow> object" where
  "coordinator_service wl old =
     (let ls = coordinatorLabels wl in
      AService ((service_of old)\<lparr>svc_labels := ls, svc_selector := ls,
        svc_ports := [\<lparr>sp_name = ''control'', sp_port = ControlPort, sp_targetPort = Some ControlPort\<rparr>,
                      \<lparr>sp_name = ''segments'', sp_port = SegmentPort, sp_targetPort = Some SegmentPort\<rparr>],
        svc_owner := wl_uid wl\<rparr>))"

definition ensureCoordinator :: "controller \<Rightarrow> Workload \<Rightarrow> pass \<Rightarrow> unit kresult \<times> pass" where
  "ensureCoordinator C wl t =
     thenK (upsert C KDeployment (coordinatorName wl) (coordinator_deployment C wl) t) (\<lambda>_ t1.
     thenK (upsert C KService (coordinatorName wl) (coordinator_service wl) t1) (\<lambda>_ t2. (Inr (), t2)))"

subsection \<open>Pods of an operation\<close>

definition slots :: "Operation \<Rightarrow> int" where
  "slots o1 = (if op_slots o1 < 1 then 1 else op_slots o1)"

definition desiredReplicas :: "Operation \<Rightarrow> int" where
  "desiredReplicas o1 = (let m = hs_max (sc_horizontal (op_scaling o1)) in if m < 1 then 1 else m)"

definition SegmentDir :: string where "SegmentDir = ''/var/lib/stark8s/segments''"
definition runtimeContainer :: string where "runtimeContainer = ''stark8s-runtime''"
definition runtimePort :: int where "runtimePort = 8081"

definition requestEphemeralStorage :: "int \<Rightarrow> Container \<Rightarrow> Container" where
  "requestEphemeralStorage sz c =
     (let have = (case ct_request c of None \<Rightarrow> ct_limit c | Some r \<Rightarrow> Some r) in
      if (case have of None \<Rightarrow> False | Some r \<Rightarrow> sz \<le> r) then c else c\<lparr>ct_request := Some sz\<rparr>)"

definition worker_env :: "Workload \<Rightarrow> Operation \<Rightarrow> (string \<times> env_source) list" where
  "worker_env wl o1 =
     (let inb = Inbound (wl_spec wl) (op_name o1); outb = Outbound (wl_spec wl) (op_name o1);
          names = (\<lambda>cs. Literal (join_with '','' (map ch_name cs))); fed = filter (\<lambda>c. ch_feedback c \<noteq> None) in
      [(''STARK8S_COORDINATOR'', Literal (''http://'' @ coordinatorName wl @ '':'' @ sprint ControlPort)),
       (''STARK8S_WORKLOAD'', Literal (wl_name wl)),
       (''STARK8S_OPERATION'', Literal (op_name o1)),
       (''STARK8S_INSTANCE'', FieldRef ''metadata.name''),
       (''STARK8S_POD_IP'', FieldRef ''status.podIP''),
       (''STARK8S_SLOTS'', Literal (sprint (slots o1))),
       (''STARK8S_INBOUND'', names inb),
       (''STARK8S_OUTBOUND'', names outb),
       (''STARK8S_FEEDBACK'', names (fed inb)),
       (''STARK8S_FEEDBACK_OUT'', names (fed outb)),
       (''STARK8S_SEGMENT_DIR'', Literal SegmentDir),
       (''STARK8S_CHECKPOINT'', Literal (if op_checkpoint o1 then ''true'' else ''false''))]
      @ (case op_tickInterval o1 of
           None \<Rightarrow> [] | Some d \<Rightarrow> if 0 < d then [(''STARK8S_TICK_INTERVAL'', Literal (duration_string (nat d)))] else [])
      @ objectStoreEnv wl)"

definition inject :: "Workload \<Rightarrow> Operation \<Rightarrow> Container \<Rightarrow> Container" where
  "inject wl o1 c =
     (let c1 = c\<lparr>ct_env := worker_env wl o1 @ ct_env c,
                 ct_volumeMounts :=
                   (if list_ex (\<lambda>m. fst m = segmentVolumeName) (ct_volumeMounts c) then ct_volumeMounts c
                    else ct_volumeMounts c @ [(segmentVolumeName, SegmentDir)]),
                 ct_ports :=
                   (if list_ex (\<lambda>p. fst p = SegmentPort) (ct_ports c) then ct_ports c else ct_ports c @ [(SegmentPort, ''segments'')])\<rparr> in
      case op_segments o1 of None \<Rightarrow> c1 | Some sz \<Rightarrow> requestEphemeralStorage sz c1)"

definition runtime_sidecar :: "Container \<Rightarrow> bool" where
  "runtime_sidecar c \<longleftrightarrow> ct_name c = runtimeContainer \<and> ct_restartAlways c"

definition default_probe :: "Container \<Rightarrow> Container" where
  "default_probe c = (if ct_startupProbe c = None then c\<lparr>ct_startupProbe := Some (''/healthz'', runtimePort)\<rparr> else c)"

fun on_first :: "('a \<Rightarrow> bool) \<Rightarrow> ('a \<Rightarrow> 'a) \<Rightarrow> 'a list \<Rightarrow> 'a list" where
  "on_first P f [] = []"
| "on_first P f (x # xs) = (if P x then f x # xs else x # on_first P f xs)"

definition podTemplate :: "Workload \<Rightarrow> Operation \<Rightarrow> PodTemplate" where
  "podTemplate wl o1 =
     (let t = op_template o1;
          t1 = t\<lparr>tp_labels := fold (\<lambda>(k, v). AList.update k v) (opLabels wl o1) (tp_labels t),
                 tp_serviceAccountName := opName wl o1,
                 tp_volumes :=
                   (if list_ex (\<lambda>v. vol_name v = segmentVolumeName) (tp_volumes t) then tp_volumes t
                    else tp_volumes t @ [\<lparr>vol_name = segmentVolumeName, vol_sizeLimit = op_segments o1\<rparr>])\<rparr> in
      if list_ex runtime_sidecar (tp_initContainers t)
      then t1\<lparr>tp_initContainers := on_first runtime_sidecar (inject wl o1 \<circ> default_probe) (tp_initContainers t)\<rparr>
      else t1\<lparr>tp_containers := on_first (\<lambda>_. True) (inject wl o1) (tp_containers t)\<rparr>)"

fun ensureServiceAccounts :: "controller \<Rightarrow> Workload \<Rightarrow> Operation list \<Rightarrow> pass \<Rightarrow> unit kresult \<times> pass" where
  "ensureServiceAccounts C wl [] t = (Inr (), t)"
| "ensureServiceAccounts C wl (o1 # os) t =
     thenK (apply_object C KServiceAccount (opName wl o1) (AServiceAccount \<lparr>acct_labels = opLabels wl o1, acct_owner = wl_uid wl\<rparr>) t)
       (\<lambda>_ t1. ensureServiceAccounts C wl os t1)"

subsection \<open>Autoscalers\<close>

definition ensureHPA :: "controller \<Rightarrow> Workload \<Rightarrow> Operation \<Rightarrow> pass \<Rightarrow> unit kresult \<times> pass" where
  "ensureHPA C wl o1 t = delete_object C KHorizontalPodAutoscaler (opName wl o1) t"

definition vertical_pod_autoscaler :: "Workload \<Rightarrow> Operation \<Rightarrow> VerticalScalingMode \<Rightarrow> object" where
  "vertical_pod_autoscaler wl o1 mode =
     AVerticalPodAutoscaler \<lparr>vpa_labels = opLabels wl o1, vpa_owner = wl_uid wl,
       vpa_targetRef = (''apps/v1'', ''Deployment'', opName wl o1), vpa_updateMode = mode\<rparr>"

definition ensureVPA :: "controller \<Rightarrow> Workload \<Rightarrow> Operation \<Rightarrow> pass \<Rightarrow> unit kresult \<times> pass" where
  "ensureVPA C wl o1 t =
     (case sc_vertical (op_scaling o1) of
        None \<Rightarrow> (Inr (), t)
      | Some mode \<Rightarrow>
          if mode = VerticalUnset \<or> mode = VerticalOff then (Inr (), t)
          else
            (case kask C (RESTMapping ''autoscaling.k8s.io'' ''v1'' ''VerticalPodAutoscaler'') t of
               (KNoMatch, t1) \<Rightarrow> (Inr (), t1)
             | (KOk, t1) \<Rightarrow>
                 if mode = VerticalAuto then delete_object C KVerticalPodAutoscaler (opName wl o1) t1
                 else apply_object C KVerticalPodAutoscaler (opName wl o1) (vertical_pod_autoscaler wl o1 mode) t1
             | (KFailed e, t1) \<Rightarrow> (Inl e, t1)
             | (_, t1) \<Rightarrow> (Inl ''rest mapping'', t1)))"

fun disable_scaling :: "controller \<Rightarrow> Workload \<Rightarrow> Operation list \<Rightarrow> pass \<Rightarrow> unit kresult \<times> pass" where
  "disable_scaling C wl [] t = (Inr (), t)"
| "disable_scaling C wl (o1 # os) t =
     thenK (ensureHPA C wl o1 t) (\<lambda>_ t1.
     thenK (if sc_vertical (op_scaling o1) = Some VerticalAuto then ensureVPA C wl o1 t1 else (Inr (), t1)) (\<lambda>_ t2.
       disable_scaling C wl os t2))"

end
