(* ===== verification/Policies.thy ===== *)
theory Policies
  imports Cluster
begin

text \<open>
  The network policies of a workload, after \<^verbatim>\<open>ensureNetworkPolicies\<close> of \<^verbatim>\<open>pkg/controller/reconciler.go\<close>: one
  for all operation pods, one for the coordinator, one per operation with declared egress, one per
  collective, one per channel edge; and the deletion of policies whose reason is gone.
\<close>

definition edgePolicyName :: "Workload \<Rightarrow> string \<Rightarrow> string" where
  "edgePolicyName wl channel = wl_name wl @ ''-edge-'' @ channel"

definition egressPolicyName :: "Workload \<Rightarrow> string \<Rightarrow> string" where
  "egressPolicyName wl op = wl_name wl @ ''-egress-'' @ op"

definition collectivePolicyName :: "Workload \<Rightarrow> string \<Rightarrow> string" where
  "collectivePolicyName wl op = wl_name wl @ ''-collective-'' @ op"

definition metadataCIDR :: string where "metadataCIDR = ''169.254.169.254/32''"

definition privateRanges :: "string list" where
  "privateRanges = [''10.0.0.0/8'', ''172.16.0.0/12'', ''192.168.0.0/16'', ''169.254.0.0/16'']"

fun egress_rule :: "EgressDestination \<Rightarrow> rule list" where
  "egress_rule EgressMetadata = [\<lparr>ru_peers = [IPBlock metadataCIDR []], ru_ports = [(TCP, 80)]\<rparr>]"
| "egress_rule EgressInternet = [\<lparr>ru_peers = [IPBlock ''0.0.0.0/0'' privateRanges], ru_ports = [(TCP, 443)]\<rparr>]"
| "egress_rule (EgressUnknown _) = []"

definition egressRulesFor :: "Operation \<Rightarrow> rule list" where
  "egressRulesFor o1 = concat (map egress_rule (op_egress o1))"

definition workloadPods :: "Workload \<Rightarrow> labels" where
  "workloadPods wl = [(LabelWorkload, wl_name wl), (LabelRole, RoleOperation)]"

definition operationPods :: "Workload \<Rightarrow> string \<Rightarrow> labels" where
  "operationPods wl op = [(LabelWorkload, wl_name wl), (LabelRole, RoleOperation), (LabelOperation, op)]"

definition dnsRule :: rule where
  "dnsRule = \<lparr>ru_peers = [], ru_ports = [(UDP, 53), (TCP, 53)]\<rparr>"

definition bothPorts :: "(protocol \<times> int) list" where
  "bothPorts = [(TCP, ControlPort), (TCP, SegmentPort)]"

definition store_rules :: "controller \<Rightarrow> Workload \<Rightarrow> rule list" where
  "store_rules C wl =
     (case cd_objectStore (ws_coordinator (wl_spec wl)) of
        None \<Rightarrow> []
      | Some s \<Rightarrow>
          (case rc_parse C (os_endpoint s) of
             None \<Rightarrow> []
           | Some u \<Rightarrow>
               (let (parsed, ok) = Atoi (u_port u);
                    port = (if ok then parsed else if u_scheme u = ''http'' then 80 else 443) in
                [\<lparr>ru_peers = [], ru_ports = [(TCP, port)]\<rparr>])))"

definition egress_rules :: "controller \<Rightarrow> Workload \<Rightarrow> rule list" where
  "egress_rules C wl = dnsRule # store_rules C wl"

definition operations_policy :: "controller \<Rightarrow> Workload \<Rightarrow> string \<times> NetworkPolicy" where
  "operations_policy C wl =
     (wl_name wl @ ''-operations'',
      \<lparr>np_labels = [(LabelWorkload, wl_name wl)], np_owner = wl_uid wl, np_podSelector = workloadPods wl,
       np_policyTypes = [PolicyIngress, PolicyEgress], np_ingress = [],
       np_egress =
         [\<lparr>ru_peers = [PodPeer (coordinatorLabels wl)], ru_ports = bothPorts\<rparr>,
          \<lparr>ru_peers = [PodPeer (workloadPods wl)], ru_ports = [(TCP, SegmentPort)]\<rparr>] @ egress_rules C wl\<rparr>)"

definition coordinator_policy :: "controller \<Rightarrow> Workload \<Rightarrow> string \<times> NetworkPolicy" where
  "coordinator_policy C wl =
     (coordinatorName wl,
      \<lparr>np_labels = [(LabelWorkload, wl_name wl)], np_owner = wl_uid wl, np_podSelector = coordinatorLabels wl,
       np_policyTypes = [PolicyIngress, PolicyEgress],
       np_ingress =
         [\<lparr>ru_peers = PodPeer (workloadPods wl)
             # (if rc_controllerNamespace C = '''' then []
                else [NamespacePeer [(''kubernetes.io/metadata.name'', rc_controllerNamespace C)]]),
           ru_ports = bothPorts\<rparr>],
       np_egress = egress_rules C wl\<rparr>)"

definition wantEgress :: "Workload \<Rightarrow> Operation list" where
  "wantEgress wl = filter (\<lambda>o1. egressRulesFor o1 \<noteq> []) (ws_operations (wl_spec wl))"

definition egress_policy :: "Workload \<Rightarrow> Operation \<Rightarrow> string \<times> NetworkPolicy" where
  "egress_policy wl o1 =
     (egressPolicyName wl (op_name o1),
      \<lparr>np_labels = [(LabelWorkload, wl_name wl), (LabelOperation, op_name o1)], np_owner = wl_uid wl,
       np_podSelector = operationPods wl (op_name o1), np_policyTypes = [PolicyEgress], np_ingress = [], np_egress = egressRulesFor o1\<rparr>)"

definition wantedCollectives :: "Workload \<Rightarrow> Operation list" where
  "wantedCollectives wl = filter (\<lambda>o1. op_collective o1 \<noteq> None) (ws_operations (wl_spec wl))"

definition collective_policy :: "Workload \<Rightarrow> Operation \<Rightarrow> string \<times> NetworkPolicy" where
  "collective_policy wl o1 =
     (collectivePolicyName wl (op_name o1),
      \<lparr>np_labels = [(LabelWorkload, wl_name wl), (LabelCollective, op_name o1)], np_owner = wl_uid wl,
       np_podSelector = opLabels wl o1, np_policyTypes = [PolicyIngress, PolicyEgress],
       np_ingress = [\<lparr>ru_peers = [PodPeer (opLabels wl o1)], ru_ports = []\<rparr>],
       np_egress = [\<lparr>ru_peers = [PodPeer (opLabels wl o1)], ru_ports = []\<rparr>]\<rparr>)"

definition edges :: "Workload \<Rightarrow> Channel list" where
  "edges wl = filter (\<lambda>c. ch_from c \<noteq> '''' \<and> ch_to c \<noteq> '''') (ws_channels (wl_spec wl))"

definition edge_policy :: "Workload \<Rightarrow> Channel \<Rightarrow> string \<times> NetworkPolicy" where
  "edge_policy wl c =
     (edgePolicyName wl (ch_name c),
      \<lparr>np_labels = [(LabelWorkload, wl_name wl), (LabelChannel, ch_name c)], np_owner = wl_uid wl,
       np_podSelector = operationPods wl (ch_from c), np_policyTypes = [PolicyIngress],
       np_ingress = [\<lparr>ru_peers = [PodPeer (operationPods wl (ch_to c))], ru_ports = [(TCP, SegmentPort)]\<rparr>], np_egress = []\<rparr>)"

definition wanted_policies :: "controller \<Rightarrow> Workload \<Rightarrow> (string \<times> NetworkPolicy) list" where
  "wanted_policies C wl =
     operations_policy C wl # coordinator_policy C wl
     # map (egress_policy wl) (wantEgress wl) @ map (collective_policy wl) (wantedCollectives wl) @ map (edge_policy wl) (edges wl)"

fun apply_policies :: "controller \<Rightarrow> (string \<times> NetworkPolicy) list \<Rightarrow> pass \<Rightarrow> unit kresult \<times> pass" where
  "apply_policies C [] t = (Inr (), t)"
| "apply_policies C ((name, np) # nps) t =
     thenK (apply_object C KNetworkPolicy name (APolicy np) t) (\<lambda>_ t1. apply_policies C nps t1)"

definition stale :: "Workload \<Rightarrow> NetworkPolicy \<Rightarrow> bool" where
  "stale wl np \<longleftrightarrow>
     (case map_of (np_labels np) LabelCollective of
        Some op \<Rightarrow> op \<notin> op_name ` set (wantedCollectives wl)
      | None \<Rightarrow>
          (case map_of (np_labels np) LabelChannel of
             Some ch \<Rightarrow> ch \<notin> ch_name ` set (edges wl)
           | None \<Rightarrow>
               (case map_of (np_labels np) LabelOperation of
                  Some op \<Rightarrow> op \<notin> op_name ` set (wantEgress wl)
                | None \<Rightarrow> False)))"

fun prune_policies :: "controller \<Rightarrow> Workload \<Rightarrow> (string \<times> NetworkPolicy) list \<Rightarrow> pass \<Rightarrow> unit kresult \<times> pass" where
  "prune_policies C wl [] t = (Inr (), t)"
| "prune_policies C wl ((name, np) # nps) t =
     (if stale wl np
      then thenK (delete_object C KNetworkPolicy name t) (\<lambda>_ t1. prune_policies C wl nps t1)
      else prune_policies C wl nps t)"

definition ensureNetworkPolicies :: "controller \<Rightarrow> Workload \<Rightarrow> pass \<Rightarrow> unit kresult \<times> pass" where
  "ensureNetworkPolicies C wl t =
     thenK (apply_policies C (wanted_policies C wl) t) (\<lambda>_ t1.
       case kask C (ListPolicies [(LabelWorkload, wl_name wl)]) t1 of
         (KPolicies nps, t2) \<Rightarrow> prune_policies C wl nps t2
       | (KFailed e, t2) \<Rightarrow> (Inl e, t2)
       | (_, t2) \<Rightarrow> (Inl ''list policies'', t2))"

end
