(* ===== verification/Controller.thy ===== *)
theory Controller
  imports Provisioning Policies
begin

text \<open>
  A pass of the controller over one workload, after \<^verbatim>\<open>Reconcile\<close> of \<^verbatim>\<open>pkg/controller/reconciler.go\<close> and
  \<^verbatim>\<open>reconcileCollective\<close> of \<^verbatim>\<open>pkg/controller/collective.go\<close>.

  The result of a pass is an error or the delay, in milliseconds, after which the workload is looked
  at again, if it is. A JSON body that does not decode is \<open>None\<close> in the reply.
\<close>

definition pollInterval :: int where "pollInterval = 3000"

subsection \<open>The coordinator's interface\<close>

definition http_call :: "controller \<Rightarrow> string \<Rightarrow> string \<Rightarrow> payload \<Rightarrow> string \<Rightarrow> pass \<Rightarrow> Metrics option kresult \<times> pass" where
  "http_call C meth url b what t =
     (case kask C (HttpDo meth url b) t of
        (KReply status m, t1) \<Rightarrow> (if 300 \<le> status then Inl what else Inr m, t1)
      | (KFailed e, t1) \<Rightarrow> (Inl e, t1)
      | (_, t1) \<Rightarrow> (Inl ''http'', t1))"

definition http_done :: "controller \<Rightarrow> string \<Rightarrow> string \<Rightarrow> payload \<Rightarrow> string \<Rightarrow> pass \<Rightarrow> unit kresult \<times> pass" where
  "http_done C meth url b what t = thenK (http_call C meth url b what t) (\<lambda>_ t1. (Inr (), t1))"

definition pushTopology :: "controller \<Rightarrow> Workload \<Rightarrow> pass \<Rightarrow> unit kresult \<times> pass" where
  "pushTopology C wl t =
     http_done C ''PUT'' (coordinatorURL C wl @ ''/topology'') (ChannelsBody (ws_channels (wl_spec wl))) ''topology push: %s'' t"

record metricsView =
  mv_report :: Metrics
  mv_channels :: "(string, ChannelMetrics) gomap"
  mv_operations :: "(string, OperationMetrics) gomap"

definition metrics_view :: "Metrics \<Rightarrow> metricsView" where
  "metrics_view m =
     \<lparr>mv_report = m, mv_channels = fold (\<lambda>c. AList.update (cm_name c) c) (m_channels m) [],
      mv_operations = fold (\<lambda>x. AList.update (om_name x) x) (m_operations m) []\<rparr>"

definition metrics :: "controller \<Rightarrow> Workload \<Rightarrow> pass \<Rightarrow> metricsView kresult \<times> pass" where
  "metrics C wl t =
     thenK (http_call C ''GET'' (coordinatorURL C wl @ ''/metrics'') NoBody ''metrics: %s'' t) (\<lambda>m t1.
       case m of None \<Rightarrow> (Inl ''invalid character'', t1) | Some r \<Rightarrow> (Inr (metrics_view r), t1))"

definition zeroChannelMetrics :: ChannelMetrics where
  "zeroChannelMetrics = \<lparr>cm_name = '''', cm_from = '''', cm_to = '''', cm_sealed = False, cm_pending = 0, cm_inFlight = 0,
     cm_produced = 0, cm_epoch = 0, cm_overflowed = 0, cm_lost = 0, cm_productionClosed = False, cm_acknowledged = 0,
     cm_latestDeliveryFailure = '''', cm_pendingByPartition = []\<rparr>"

definition channel_metrics :: "metricsView \<Rightarrow> string \<Rightarrow> ChannelMetrics" where
  "channel_metrics mv name = map_get zeroChannelMetrics (mv_channels mv) name"

definition membership :: "Operation \<Rightarrow> OperationSpec" where
  "membership o1 = \<lparr>os_name = op_name o1, os_replicas = (if op_collective o1 \<noteq> None then 1 else desiredReplicas o1)\<rparr>"

definition pushOperations :: "controller \<Rightarrow> Workload \<Rightarrow> pass \<Rightarrow> unit kresult \<times> pass" where
  "pushOperations C wl t =
     http_done C ''PUT'' (coordinatorURL C wl @ ''/operations'') (OperationsBody (map membership (ws_operations (wl_spec wl))))
       ''operation push: %s'' t"

definition seal_url :: "controller \<Rightarrow> Workload \<Rightarrow> string \<Rightarrow> string" where
  "seal_url C wl channel = coordinatorURL C wl @ ''/channels/'' @ channel @ ''/seal''"

definition post_seal :: "controller \<Rightarrow> Workload \<Rightarrow> string \<Rightarrow> pass \<Rightarrow> unit kresult \<times> pass" where
  "post_seal C wl channel t = http_done C ''POST'' (seal_url C wl channel) NoBody ''seal %s: %s'' t"

fun seal_all :: "controller \<Rightarrow> Workload \<Rightarrow> Channel list \<Rightarrow> pass \<Rightarrow> unit kresult \<times> pass" where
  "seal_all C wl [] t = (Inr (), t)"
| "seal_all C wl (c # cs) t = thenK (post_seal C wl (ch_name c) t) (\<lambda>_ t1. seal_all C wl cs t1)"

subsection \<open>Collective operations\<close>

definition labelCollectiveAttempt :: string where "labelCollectiveAttempt = ''stark8s.io/collective-attempt''"

definition collectiveAttempt :: "Job \<Rightarrow> int" where
  "collectiveAttempt j = fst (Atoi (map_get '''' (jb_labels j) labelCollectiveAttempt))"

definition jobComplete :: "Job \<Rightarrow> bool" where
  "jobComplete j \<longleftrightarrow> list_ex (\<lambda>c. cn_type c = ''Complete'' \<and> cn_status c = ''True'') (jb_conditions j)"

definition jobFailed :: "Job \<Rightarrow> bool" where
  "jobFailed j \<longleftrightarrow> list_ex (\<lambda>c. cn_type c = ''Failed'' \<and> cn_status c = ''True'') (jb_conditions j)"

definition new_job :: Job where
  "new_job = \<lparr>jb_labels = [], jb_owner = '''', jb_backoffLimit = None, jb_parallelism = None, jb_completions = None,
     jb_completionMode = '''', jb_template = new_template, jb_conditions = [], jb_succeeded = 0, jb_ready = None\<rparr>"

definition job_of :: "object option \<Rightarrow> Job" where
  "job_of old = (case old of Some (AJob j) \<Rightarrow> j | _ \<Rightarrow> new_job)"

definition new_status :: "string \<Rightarrow> OperationPhase \<Rightarrow> OperationStatus" where
  "new_status name ph = \<lparr>ost_name = name, ost_phase = ph, ost_reason = '''', ost_message = '''', ost_replicas = 0, ost_ready = 0,
     ost_runnableTasks = 0, ost_holdsUnconsumed = False\<rparr>"

definition attempt_name :: "Workload \<Rightarrow> Operation \<Rightarrow> int \<Rightarrow> string" where
  "attempt_name wl o1 attempt = opName wl o1 @ ''-attempt-'' @ sprint attempt"

definition attempt_labels :: "Workload \<Rightarrow> Operation \<Rightarrow> int \<Rightarrow> labels" where
  "attempt_labels wl o1 attempt = AList.update labelCollectiveAttempt (sprint attempt) (opLabels wl o1)"

definition attempt_service :: "Workload \<Rightarrow> Operation \<Rightarrow> int \<Rightarrow> object option \<Rightarrow> object" where
  "attempt_service wl o1 attempt old =
     AService ((service_of old)\<lparr>svc_labels := attempt_labels wl o1 attempt, svc_clusterIP := ''None'', svc_publishNotReadyAddresses := True,
       svc_selector := attempt_labels wl o1 attempt,
       svc_ports := [\<lparr>sp_name = ''rank-discovery'', sp_port = SegmentPort, sp_targetPort = None\<rparr>], svc_owner := wl_uid wl\<rparr>)"

definition collective_env :: "Workload \<Rightarrow> Operation \<Rightarrow> CollectiveSpec \<Rightarrow> int \<Rightarrow> (string \<times> env_source) list" where
  "collective_env wl o1 co attempt =
     (let job = attempt_name wl o1 attempt in
      [(''STARK8S_COLLECTIVE_RANK'', FieldRef ''metadata.annotations['batch.kubernetes.io/job-completion-index']''),
       (''STARK8S_COLLECTIVE_SIZE'', Literal (sprint (co_size co))),
       (''STARK8S_COLLECTIVE_ATTEMPT'', Literal job),
       (''STARK8S_COLLECTIVE_RENDEZVOUS'', Literal (job @ ''-0.'' @ job @ ''.'' @ wl_namespace wl @ ''.svc'')),
       (''STARK8S_COLLECTIVE_CHECKPOINT'', Literal (co_checkpoint co))])"

definition attempt_template :: "Workload \<Rightarrow> Operation \<Rightarrow> CollectiveSpec \<Rightarrow> int \<Rightarrow> PodTemplate" where
  "attempt_template wl o1 co attempt =
     (let t = podTemplate wl o1; add = (\<lambda>c. c\<lparr>ct_env := collective_env wl o1 co attempt @ ct_env c\<rparr>) in
      t\<lparr>tp_labels := attempt_labels wl o1 attempt, tp_restartPolicy := ''Never'', tp_subdomain := attempt_name wl o1 attempt,
        tp_setHostnameAsFQDN := Some False, tp_containers := map add (tp_containers t),
        tp_initContainers := map (\<lambda>c. if runtime_sidecar c then add c else c) (tp_initContainers t)\<rparr>)"

definition attempt_job :: "Workload \<Rightarrow> Operation \<Rightarrow> CollectiveSpec \<Rightarrow> int \<Rightarrow> object option \<Rightarrow> object" where
  "attempt_job wl o1 co attempt old =
     AJob ((job_of old)\<lparr>jb_labels := attempt_labels wl o1 attempt, jb_backoffLimit := Some 0, jb_parallelism := Some (co_size co),
       jb_completions := Some (co_size co), jb_completionMode := ''Indexed'', jb_template := attempt_template wl o1 co attempt,
       jb_owner := wl_uid wl\<rparr>)"

definition start_attempt ::
  "controller \<Rightarrow> Workload \<Rightarrow> Operation \<Rightarrow> CollectiveSpec \<Rightarrow> int \<Rightarrow> pass \<Rightarrow> OperationStatus kresult \<times> pass" where
  "start_attempt C wl o1 co attempt t =
     thenK (upsert C KService (attempt_name wl o1 attempt) (attempt_service wl o1 attempt) t) (\<lambda>_ t1.
     thenK (upsert C KJob (attempt_name wl o1 attempt) (attempt_job wl o1 co attempt) t1) (\<lambda>_ t2.
       (Inr ((new_status (op_name o1) OperationRunning)\<lparr>ost_replicas := co_size co\<rparr>), t2)))"

text \<open>
  Jobs are sorted by their attempt; jobs of one attempt, which the names of the jobs rule out, stay in the
  order of the list.
\<close>

definition reconcileCollective ::
  "controller \<Rightarrow> Workload \<Rightarrow> Operation \<Rightarrow> CollectiveSpec \<Rightarrow> pass \<Rightarrow> OperationStatus kresult \<times> pass" where
  "reconcileCollective C wl o1 co t =
     (case kask C (ListJobs (opLabels wl o1)) t of
        (KJobs listed, t1) \<Rightarrow>
          (let jobs = sort_key collectiveAttempt (filter (\<lambda>j. jb_owner j = wl_uid wl) (map snd listed)) in
           if jobs = [] then start_attempt C wl o1 co 1 t1
           else
             (let current = last jobs; attempt = collectiveAttempt current in
              if jobComplete current then
                thenK (seal_all C wl (filter (\<lambda>c. ch_feedback c = None) (Outbound (wl_spec wl) (op_name o1))) t1) (\<lambda>_ t2.
                  (Inr ((new_status (op_name o1) OperationSucceeded)\<lparr>ost_ready := jb_succeeded current, ost_replicas := co_size co\<rparr>), t2))
              else if \<not> jobFailed current then
                (Inr ((new_status (op_name o1) OperationRunning)\<lparr>ost_ready := (case jb_ready current of None \<Rightarrow> 0 | Some r \<Rightarrow> r),
                   ost_replicas := co_size co\<rparr>), t1)
              else if max 1 (co_maxAttempts co) \<le> attempt then (Inr (new_status (op_name o1) OperationFailed), t1)
              else if co_checkpoint co = '''' then
                (Inl ''collective operation %q failed and cannot replace the group without a committed checkpoint'', t1)
              else start_attempt C wl o1 co (attempt + 1) t1))
      | (KFailed e, t1) \<Rightarrow> (Inl e, t1)
      | (_, t1) \<Rightarrow> (Inl ''list jobs'', t1))"

subsection \<open>Operations\<close>

definition holdsRetainedSegments :: "WorkloadSpec \<Rightarrow> Operation \<Rightarrow> bool" where
  "holdsRetainedSegments s o1 \<longleftrightarrow> list_ex (\<lambda>c. ch_to c \<noteq> '''' \<and> ch_durability c = DurabilityRetained) (Outbound s (op_name o1))"

definition dependency_reason :: "Pod \<Rightarrow> ContainerStatus \<Rightarrow> string \<times> string" where
  "dependency_reason p s =
     (let at = ''pod '' @ pod_name p @ '' dependency '' @ st_name s;
          waiting = (''DependencyWaiting'', at @ '': ''
            @ (case st_waiting s of
                 Some why \<Rightarrow> if why \<noteq> '''' then why else ''startup probe has not succeeded''
               | None \<Rightarrow> ''startup probe has not succeeded'')) in
      case st_terminated s of
        Some (code, why) \<Rightarrow> if code \<noteq> 0 then (''DependencyFailed'', at @ '' exited: '' @ why) else waiting
      | None \<Rightarrow> waiting)"

definition unstarted :: "PodTemplate \<Rightarrow> ContainerStatus \<Rightarrow> bool" where
  "unstarted tpl s \<longleftrightarrow>
     list_ex (\<lambda>c. ct_restartAlways c \<and> ct_startupProbe c \<noteq> None \<and> ct_name c = st_name s) (tp_initContainers tpl)
     \<and> st_started s \<noteq> Some True"

definition pods_reason :: "PodTemplate \<Rightarrow> Pod list \<Rightarrow> (string \<times> string) option" where
  "pods_reason tpl pods =
     map_option (\<lambda>(p, s). dependency_reason p s)
       (find (\<lambda>(p, s). unstarted tpl s) (concat (map (\<lambda>p. map (Pair p) (pod_initContainerStatuses p)) pods)))"

definition ready_reason :: "Deployment \<Rightarrow> DeploymentStatus \<Rightarrow> string \<times> string" where
  "ready_reason d ds =
     (let want = (case dp_replicas d of None \<Rightarrow> 0 | Some r \<Rightarrow> r) in
      if ds_readyReplicas ds < want
      then (''PodsNotReady'', sprint (ds_readyReplicas ds) @ '' of '' @ sprint want @ '' replicas ready'')
      else (''Processing'', ''operation replicas are ready''))"

definition operationReason ::
  "controller \<Rightarrow> Workload \<Rightarrow> Operation \<Rightarrow> Deployment \<Rightarrow> DeploymentStatus \<Rightarrow> metricsView \<Rightarrow> pass \<Rightarrow> (string \<times> string) \<times> pass" where
  "operationReason C wl o1 d ds mv t =
     (case find (\<lambda>c. cm_latestDeliveryFailure (channel_metrics mv (ch_name c)) \<noteq> '''') (Inbound (wl_spec wl) (op_name o1)) of
        Some c \<Rightarrow>
          ((''DeliveryFailureRecorded'',
            ''channel '' @ ch_name c @ '': '' @ cm_latestDeliveryFailure (channel_metrics mv (ch_name c))), t)
      | None \<Rightarrow>
          (case find (\<lambda>cn. cn_type cn = ''Progressing'' \<and> cn_status cn = ''False'') (ds_conditions ds) of
             Some cn \<Rightarrow> ((''OperationFailed'', cn_reason cn @ '': '' @ cn_message cn), t)
           | None \<Rightarrow>
               (case kask C (ListPods (opLabels wl o1)) t of
                  (KPods pods, t1) \<Rightarrow>
                    (case pods_reason (dp_template d) pods of Some r \<Rightarrow> (r, t1) | None \<Rightarrow> (ready_reason d ds, t1))
                | (_, t1) \<Rightarrow> (ready_reason d ds, t1))))"

definition barred :: "Workload \<Rightarrow> Operation \<Rightarrow> metricsView \<Rightarrow> bool" where
  "barred wl o1 mv \<longleftrightarrow>
     list_ex (\<lambda>c. ch_delivery c = DeliveryMaterialized \<and> ch_feedback c = None
         \<and> \<not> cm_sealed (channel_metrics mv (ch_name c)) \<and> \<not> cm_productionClosed (channel_metrics mv (ch_name c)))
       (Inbound (wl_spec wl) (op_name o1))"

definition drain_complete :: "Operation \<Rightarrow> metricsView \<Rightarrow> bool" where
  "drain_complete o1 mv \<longleftrightarrow>
     (case map_of (mv_operations mv) (op_name o1) of None \<Rightarrow> False | Some x \<Rightarrow> om_complete x) \<and> op_completion o1 \<noteq> CompletionNever"

definition holds_unconsumed :: "Operation \<Rightarrow> metricsView \<Rightarrow> bool" where
  "holds_unconsumed o1 mv \<longleftrightarrow> (case map_of (mv_operations mv) (op_name o1) of None \<Rightarrow> False | Some x \<Rightarrow> om_holdsUnconsumed x)"

definition want_replicas :: "Workload \<Rightarrow> Operation \<Rightarrow> metricsView \<Rightarrow> int \<Rightarrow> int" where
  "want_replicas wl o1 mv current =
     (if drain_complete o1 mv \<and> (holds_unconsumed o1 mv \<or> holdsRetainedSegments (wl_spec wl) o1) then (if current < 1 then 1 else current)
      else if drain_complete o1 mv then 0
      else desiredReplicas o1)"

definition operation_deployment :: "Workload \<Rightarrow> Operation \<Rightarrow> metricsView \<Rightarrow> object option \<Rightarrow> Deployment" where
  "operation_deployment wl o1 mv old =
     (let d = deployment_of old; current = (case dp_replicas d of None \<Rightarrow> 0 | Some r \<Rightarrow> r) in
      d\<lparr>dp_labels := opLabels wl o1, dp_replicas := Some (want_replicas wl o1 mv current), dp_selector := opLabels wl o1,
        dp_template := podTemplate wl o1, dp_owner := wl_uid wl\<rparr>)"

definition waiting_status :: "Operation \<Rightarrow> metricsView \<Rightarrow> OperationStatus" where
  "waiting_status o1 mv =
     (let x = map_of (mv_operations mv) (op_name o1) in
      (new_status (op_name o1) OperationWaiting)\<lparr>ost_reason := ''InputNotReady'', ost_message := ''waiting for materialized input'',
        ost_runnableTasks := (case x of None \<Rightarrow> 0 | Some y \<Rightarrow> om_runnableTasks y), ost_holdsUnconsumed := holds_unconsumed o1 mv\<rparr>)"

definition deployed_status ::
  "controller \<Rightarrow> Workload \<Rightarrow> Operation \<Rightarrow> metricsView \<Rightarrow> Deployment \<Rightarrow> DeploymentStatus \<Rightarrow> pass \<Rightarrow> OperationStatus \<times> pass" where
  "deployed_status C wl o1 mv d ds t =
     (let replicas = (case dp_replicas d of None \<Rightarrow> 0 | Some r \<Rightarrow> r);
          ((reason, msg), t1) = operationReason C wl o1 d ds mv t;
          st = (waiting_status o1 mv)\<lparr>ost_replicas := replicas, ost_ready := ds_readyReplicas ds,
                 ost_phase := (if reason = ''OperationFailed'' then OperationFailed else OperationRunning),
                 ost_reason := reason, ost_message := msg\<rparr> in
      (if drain_complete o1 mv \<and> replicas = 0 \<and> ds_replicas ds = 0
       then st\<lparr>ost_phase := OperationSucceeded, ost_reason := ''OperationDrained'',
               ost_message := ''operation completed and released its pods''\<rparr>
       else st, t1))"

definition deploy_operation ::
  "controller \<Rightarrow> Workload \<Rightarrow> Operation \<Rightarrow> metricsView \<Rightarrow> pass \<Rightarrow> OperationStatus kresult \<times> pass" where
  "deploy_operation C wl o1 mv t =
     thenK (upsert C KDeployment (opName wl o1) (\<lambda>old. ADeployment (operation_deployment wl o1 mv old)) t) (\<lambda>(new, ds) t1.
       let (st, t2) = deployed_status C wl o1 mv (deployment_of (Some new)) ds t1 in
       if op_completion o1 \<noteq> CompletionNever then (Inr st, t2)
       else thenK (ensureVPA C wl o1 t2) (\<lambda>_ t3. (Inr st, t3)))"

definition unsealed_outputs :: "Workload \<Rightarrow> Operation \<Rightarrow> metricsView \<Rightarrow> Channel list" where
  "unsealed_outputs wl o1 mv =
     filter (\<lambda>c. ch_feedback c = None \<and> \<not> cm_sealed (channel_metrics mv (ch_name c))) (Outbound (wl_spec wl) (op_name o1))"

definition reconcileOperation ::
  "controller \<Rightarrow> Workload \<Rightarrow> metricsView \<Rightarrow> Operation \<Rightarrow> pass \<Rightarrow> OperationStatus kresult \<times> pass" where
  "reconcileOperation C wl mv o1 t =
     (if barred wl o1 mv then (Inr (waiting_status o1 mv), t)
      else
        (case op_collective o1 of
           Some co \<Rightarrow> reconcileCollective C wl o1 co t
         | None \<Rightarrow>
             thenK (if drain_complete o1 mv then seal_all C wl (unsealed_outputs wl o1 mv) t else (Inr (), t)) (\<lambda>_ t1.
               deploy_operation C wl o1 mv t1)))"

fun reconcile_operations ::
  "controller \<Rightarrow> Workload \<Rightarrow> metricsView \<Rightarrow> Operation list \<Rightarrow> pass \<Rightarrow> OperationStatus list kresult \<times> pass" where
  "reconcile_operations C wl mv [] t = (Inr [], t)"
| "reconcile_operations C wl mv (o1 # os) t =
     thenK (reconcileOperation C wl mv o1 t) (\<lambda>st t1.
     thenK (reconcile_operations C wl mv os t1) (\<lambda>sts t2. (Inr (st # sts), t2)))"

subsection \<open>Status\<close>

definition channelStatus :: "ChannelMetrics \<Rightarrow> ChannelStatus" where
  "channelStatus m =
     \<lparr>cst_name = cm_name m, cst_sealed = cm_sealed m, cst_pending = cm_pending m, cst_inFlight = cm_inFlight m,
      cst_produced = cm_produced m, cst_acknowledged = cm_acknowledged m, cst_epoch = cm_epoch m, cst_overflowed = cm_overflowed m,
      cst_lost = cm_lost m, cst_latestDeliveryFailure = cm_latestDeliveryFailure m\<rparr>"

definition setPhase ::
  "controller \<Rightarrow> WorkloadStatus \<Rightarrow> WorkloadPhase \<Rightarrow> string \<Rightarrow> string \<Rightarrow> pass \<Rightarrow> int option kresult \<times> pass" where
  "setPhase C st ph reason msg t =
     (let st1 = st\<lparr>wst_phase := ph, wst_reason := reason, wst_message := msg\<rparr>;
          ty = (if ph = WorkloadFailed then EventWarning else EventNormal) in
      case kask C (UpdateStatus st1) t of
        (KOk, t1) \<Rightarrow> (Inr None, recorded C (wst_reason st \<noteq> reason) ty reason msg t1)
      | (KNotFound, t1) \<Rightarrow> (Inr None, recorded C (wst_reason st \<noteq> reason) ty reason msg t1)
      | (KFailed e, t1) \<Rightarrow> (Inl e, t1)
      | (_, t1) \<Rightarrow> (Inl ''update status'', t1))"

definition reasonForPhase :: "WorkloadPhase \<Rightarrow> string \<Rightarrow> string" where
  "reasonForPhase ph msg =
     (if ph = WorkloadSucceeded then ''OperationsDrained''
      else if ph = WorkloadFailed then ''OperationFailed''
      else if Contains msg ''automatic scaling disabled'' then ''AutomaticScalingDisabled''
      else ''OperationsRunning'')"

definition by_name :: "OperationStatus list \<Rightarrow> (string, OperationStatus) gomap" where
  "by_name sts = fold (\<lambda>s. AList.update (ost_name s) s) sts []"

definition previous_status :: "OperationStatus list \<Rightarrow> string \<Rightarrow> OperationStatus" where
  "previous_status sts name = map_get (new_status '''' OperationNone) (by_name sts) name"

definition status_event :: "OperationStatus \<Rightarrow> string" where
  "status_event s = ''operation '' @ ost_name s @ '': '' @ ost_message s"

fun emit_operations :: "controller \<Rightarrow> OperationStatus list \<Rightarrow> OperationStatus list \<Rightarrow> pass \<Rightarrow> pass" where
  "emit_operations C old [] t = t"
| "emit_operations C old (s # ss) t =
     emit_operations C old ss
       (recorded C (ost_reason s \<noteq> '''' \<and> ost_reason (previous_status old (ost_name s)) \<noteq> ost_reason s)
          (if ost_phase s = OperationFailed then EventWarning else EventNormal) (ost_reason s) (status_event s) t)"

definition emitStatusTransitions :: "controller \<Rightarrow> WorkloadStatus \<Rightarrow> string \<Rightarrow> OperationStatus list \<Rightarrow> pass \<Rightarrow> pass" where
  "emitStatusTransitions C st oldReason old t =
     emit_operations C old (wst_operations st)
       (recorded C (wst_reason st \<noteq> oldReason) EventNormal (wst_reason st) (wst_message st) t)"

subsection \<open>Lost records\<close>

definition lost_status :: "ChannelMetrics list \<Rightarrow> OperationStatus list \<Rightarrow> Operation \<Rightarrow> OperationStatus" where
  "lost_status ms old o1 =
     fold (\<lambda>m s. if cm_to m = op_name o1 \<and> 0 < cm_lost m
                 then s\<lparr>ost_phase := OperationFailed, ost_reason := ''UnavailableData'',
                        ost_message := ''channel '' @ cm_name m @ '' lost '' @ sprint (cm_lost m) @ '' required records''\<rparr>
                 else s)
       ms ((previous_status old (op_name o1))\<lparr>ost_name := op_name o1\<rparr>)"

fun emit_lost :: "controller \<Rightarrow> OperationStatus list \<Rightarrow> OperationStatus list \<Rightarrow> pass \<Rightarrow> pass" where
  "emit_lost C old [] t = t"
| "emit_lost C old (s # ss) t =
     emit_lost C old ss
       (recorded C (ost_reason s = ''UnavailableData'' \<and> ost_reason (previous_status old (ost_name s)) \<noteq> ost_reason s)
          EventWarning (ost_reason s) (status_event s) t)"

definition report_lost :: "controller \<Rightarrow> Workload \<Rightarrow> Metrics \<Rightarrow> pass \<Rightarrow> int option kresult \<times> pass" where
  "report_lost C wl m t =
     (let old = wst_operations (wl_status wl);
          lost = map (\<lambda>c. cm_name c @ '' ('' @ sprint (cm_lost c) @ '' records)'') (filter (\<lambda>c. 0 < cm_lost c) (m_channels m));
          ops = map (lost_status (m_channels m) old) (ws_operations (wl_spec wl));
          st = (wl_status wl)\<lparr>wst_channels := map channelStatus (m_channels m), wst_operations := ops\<rparr> in
      setPhase C st WorkloadFailed ''RequiredRecordsLost'' (''required records lost on channel '' @ join_with '', '' lost)
        (emit_lost C old ops t))"

subsection \<open>A pass\<close>

definition scaling_disabled :: "Workload \<Rightarrow> bool" where
  "scaling_disabled wl \<longleftrightarrow>
     list_ex (\<lambda>o1. 0 < hs_cpuUtilizationPercent (sc_horizontal (op_scaling o1)) \<or> sc_vertical (op_scaling o1) = Some VerticalAuto)
       (ws_operations (wl_spec wl))"

definition overall :: "Workload \<Rightarrow> OperationStatus list \<Rightarrow> WorkloadPhase \<times> string" where
  "overall wl sts =
     (let ops = ws_operations (wl_spec wl) in
      if list_ex (\<lambda>s. ost_phase s = OperationFailed) sts then (WorkloadFailed, ''one or more operations failed'')
      else if list_all (\<lambda>(o1, s). op_completion o1 = CompletionNever \<or> ost_phase s = OperationSucceeded) (zip ops sts)
              \<and> \<not> list_ex (\<lambda>o1. op_completion o1 = CompletionNever) ops
      then (WorkloadSucceeded, ''all operations drained'')
      else (WorkloadRunning,
            if scaling_disabled wl then ''automatic scaling disabled because operation pods may hold local state or output'' else ''''))"

definition conclude :: "controller \<Rightarrow> Workload \<Rightarrow> metricsView \<Rightarrow> OperationStatus list \<Rightarrow> pass \<Rightarrow> int option kresult \<times> pass" where
  "conclude C wl mv sts t =
     (let (fresh, t1) = metrics C wl t;
          m = (case fresh of Inl _ \<Rightarrow> mv_report mv | Inr v \<Rightarrow> mv_report v);
          (ph, msg) = overall wl sts;
          st = \<lparr>wst_phase = ph, wst_reason = reasonForPhase ph msg, wst_message = msg, wst_operations = sts,
                wst_channels = map channelStatus (m_channels m)\<rparr> in
      case kask C (UpdateStatus st) t1 of
        (KOk, t2) \<Rightarrow>
          (Inr (if ph = WorkloadRunning then Some pollInterval else None),
           emitStatusTransitions C st (wst_reason (wl_status wl)) (wst_operations (wl_status wl)) t2)
      | (KNotFound, t2) \<Rightarrow> (Inr None, t2)
      | (KFailed e, t2) \<Rightarrow> (Inl e, t2)
      | (_, t2) \<Rightarrow> (Inl ''update status'', t2))"

definition drive :: "controller \<Rightarrow> Workload \<Rightarrow> metricsView \<Rightarrow> pass \<Rightarrow> int option kresult \<times> pass" where
  "drive C wl mv t =
     thenK (disable_scaling C wl (ws_operations (wl_spec wl)) t) (\<lambda>_ t1.
     thenK (pushOperations C wl t1) (\<lambda>_ t2.
     thenK (reconcile_operations C wl mv (ws_operations (wl_spec wl)) t2) (\<lambda>sts t3. conclude C wl mv sts t3)))"

definition observe_workload :: "controller \<Rightarrow> Workload \<Rightarrow> pass \<Rightarrow> int option kresult \<times> pass" where
  "observe_workload C wl t =
     (case pushTopology C wl t of
        (Inl _, t1) \<Rightarrow>
          thenK (setPhase C (wl_status wl) WorkloadPending ''CoordinatorUnavailable'' ''waiting for coordinator'' t1)
            (\<lambda>_ t2. (Inr (Some pollInterval), t2))
      | (Inr _, t1) \<Rightarrow>
          (case metrics C wl t1 of
             (Inl _, t2) \<Rightarrow> (Inr (Some pollInterval), t2)
           | (Inr mv, t2) \<Rightarrow>
               if list_ex (\<lambda>m. cm_lost m \<noteq> 0) (m_channels (mv_report mv)) then report_lost C wl (mv_report mv) t2
               else drive C wl mv t2))"

definition reconcile_workload :: "controller \<Rightarrow> Workload \<Rightarrow> pass \<Rightarrow> int option kresult \<times> pass" where
  "reconcile_workload C wl t =
     (if wst_phase (wl_status wl) = WorkloadSucceeded \<or> wst_phase (wl_status wl) = WorkloadFailed then (Inr None, t)
      else
        (case Validate (rc_parse C) (rc_order C (wl_spec wl)) (wl_spec wl) of
           Some e \<Rightarrow> setPhase C (wl_status wl) WorkloadFailed ''InvalidWorkload'' (''invalid workload: '' @ e) t
         | None \<Rightarrow>
             thenK (ensureCoordinator C wl t) (\<lambda>_ t1.
             thenK (ensureServiceAccounts C wl (ws_operations (wl_spec wl)) t1) (\<lambda>_ t2.
             thenK (ensureNetworkPolicies C wl t2) (\<lambda>_ t3. observe_workload C wl t3)))))"

definition Reconcile :: "controller \<Rightarrow> string \<Rightarrow> string \<Rightarrow> pass \<Rightarrow> int option kresult \<times> pass" where
  "Reconcile C ns name t =
     (case kask C (GetWorkload ns name) t of
        (KWorkload wl, t1) \<Rightarrow> reconcile_workload C wl t1
      | (KNotFound, t1) \<Rightarrow> (Inr None, t1)
      | (KFailed e, t1) \<Rightarrow> (Inl e, t1)
      | (_, t1) \<Rightarrow> (Inl ''get workload'', t1))"

end
