(* ===== verification/Reconciling.thy ===== *)
theory Reconciling
  imports Controller Admission
begin

text \<open>
  What a pass of the controller does to the cluster: when it starts the pods of an operation, when it
  gives them up, and when it declares a workload finished.

  The proofs follow the events of a pass. \<open>grows P t t'\<close> says that \<open>t'\<close> extends \<open>t\<close> by events each of which
  satisfies \<open>P\<close> together with the events before it.
\<close>

subsection \<open>Events of a pass\<close>

inductive grows :: "(pass \<Rightarrow> kevent \<Rightarrow> bool) \<Rightarrow> pass \<Rightarrow> pass \<Rightarrow> bool" for P where
  refl [simp, intro]: "grows P t t"
| snoc: "grows P t t' \<Longrightarrow> P t' e \<Longrightarrow> grows P t (t' @ [e])"

lemma grows_chain: "grows P t2 t3 \<Longrightarrow> grows P t1 t2 \<Longrightarrow> grows P t1 t3"
  by (induction rule: grows.induct) (auto intro: grows.intros)

lemma grows_one: "P t e \<Longrightarrow> grows P t (t @ [e])"
  by (rule grows.snoc) auto

lemma grows_weaken: "grows P t t' \<Longrightarrow> (\<And>u e. P u e \<Longrightarrow> Q u e) \<Longrightarrow> grows Q t t'"
  by (induction rule: grows.induct) (auto intro: grows.intros)

lemma grows_keeps: "grows P t t' \<Longrightarrow> set t \<subseteq> set t'"
  by (induction rule: grows.induct) auto

lemma grows_extends: "grows P t t' \<Longrightarrow> \<exists>es. t' = t @ es"
  by (induction rule: grows.induct) auto

lemma grows_event:
  "grows P t t' \<Longrightarrow> t' = pre @ e # post \<Longrightarrow> length t \<le> length pre \<Longrightarrow> P pre e"
proof (induction arbitrary: post rule: grows.induct)
  case (snoc t' e')
  then show ?case by (cases post rule: rev_cases) auto
qed auto

lemma grows_thenK:
  "grows P t (snd m) \<Longrightarrow> (\<And>x u. m = (Inr x, u) \<Longrightarrow> grows P t u \<Longrightarrow> grows P u (snd (f x u))) \<Longrightarrow> grows P t (snd (thenK m f))"
  by (cases m; cases "fst m") (auto simp: thenK_def intro: grows_chain)

lemma thenK_Inr: "thenK m f = (Inr y, t') \<longleftrightarrow> (\<exists>x t. m = (Inr x, t) \<and> f x t = (Inr y, t'))"
  by (cases m; cases "fst m") (auto simp: thenK_def)

lemma kask_eq: "kask C c t = (rc_world C t c, t @ [Called c (rc_world C t c)])"
  by (simp add: kask_def Let_def)

lemma upsert_grows:
  assumes "\<And>a. P t (Called (CreateOrUpdate k n) a)"
    and "\<And>old ds. P (t @ [Called (CreateOrUpdate k n) (KExisting old ds)]) (Applied k n (f old))"
  shows "grows P t (snd (upsert C k n f t))"
proof -
  have "grows P t (t @ [Called (CreateOrUpdate k n) a])" for a by (rule grows_one) (rule assms)
  then show ?thesis
    using assms(2) by (auto simp: upsert_def kask_eq split: kanswer.split intro: grows.snoc simp flip: append_assoc)
qed

lemma upsert_Inr:
  "upsert C k n f t = (Inr (x, ds), t') \<longleftrightarrow>
   (\<exists>old. x = f old \<and> t' = t @ [Called (CreateOrUpdate k n) (KExisting old ds), Applied k n x] \<and> rc_world C t (CreateOrUpdate k n) = KExisting old ds)"
  by (auto simp: upsert_def kask_eq split: kanswer.splits)

lemma apply_grows:
  assumes "\<And>a. P t (Called (CreateOrUpdate k n) a)"
    and "\<And>old ds. P (t @ [Called (CreateOrUpdate k n) (KExisting old ds)]) (Applied k n x)"
  shows "grows P t (snd (apply_object C k n x t))"
  unfolding apply_object_def by (rule grows_thenK) (auto intro: upsert_grows assms)

lemma delete_grows: "(\<And>a. P t (Called (DeleteObject k n) a)) \<Longrightarrow> grows P t (snd (delete_object C k n t))"
  by (auto simp: delete_object_def kask_eq split: kanswer.split intro: grows_one)

lemma recorded_grows: "(\<And>ty r m. P t (Recorded ty r m)) \<Longrightarrow> grows P t (recorded C b ty' r' m' t)"
  by (auto simp: recorded_def intro: grows_one)

lemma http_call_grows: "(\<And>a. P t (Called (HttpDo meth url b) a)) \<Longrightarrow> grows P t (snd (http_call C meth url b what t))"
  by (auto simp: http_call_def kask_eq split: kanswer.split intro: grows_one)

lemma http_grows: "(\<And>a. P t (Called (HttpDo meth url b) a)) \<Longrightarrow> grows P t (snd (http_done C meth url b what t))"
  unfolding http_done_def by (rule grows_thenK) (auto intro: http_call_grows)


subsection \<open>What the controller was told\<close>

definition answered :: "controller \<Rightarrow> Workload \<Rightarrow> Metrics \<Rightarrow> pass \<Rightarrow> bool" where
  "answered C wl m t \<longleftrightarrow>
     (\<exists>s < 300. Called (HttpDo ''GET'' (coordinatorURL C wl @ ''/metrics'') NoBody) (KReply s (Some m)) \<in> set t)"

definition seal_accepted :: "controller \<Rightarrow> Workload \<Rightarrow> string \<Rightarrow> pass \<Rightarrow> bool" where
  "seal_accepted C wl ch t \<longleftrightarrow> (\<exists>s b. s < 300 \<and> Called (HttpDo ''POST'' (seal_url C wl ch) NoBody) (KReply s b) \<in> set t)"

definition reported_sealed :: "Metrics \<Rightarrow> string \<Rightarrow> bool" where
  "reported_sealed m ch \<longleftrightarrow> (\<exists>cm \<in> set (m_channels m). cm_name cm = ch \<and> cm_sealed cm)"

text \<open>The inputs an operation waits for are complete.\<close>

definition inputs_ready :: "Workload \<Rightarrow> Operation \<Rightarrow> Metrics \<Rightarrow> bool" where
  "inputs_ready wl o1 m \<longleftrightarrow>
     (\<forall>c \<in> set (ws_channels (wl_spec wl)). ch_to c = op_name o1 \<and> ch_delivery c = DeliveryMaterialized \<and> ch_feedback c = None
        \<longrightarrow> (\<exists>cm \<in> set (m_channels m). cm_name cm = ch_name c \<and> (cm_sealed cm \<or> cm_productionClosed cm)))"

text \<open>An operation is complete, needs none of its pods any more, and its outputs are closed.\<close>

definition outputs_closed :: "controller \<Rightarrow> Workload \<Rightarrow> Operation \<Rightarrow> Metrics \<Rightarrow> pass \<Rightarrow> bool" where
  "outputs_closed C wl o1 m t \<longleftrightarrow>
     (\<forall>c \<in> set (ws_channels (wl_spec wl)). ch_from c = op_name o1 \<and> ch_feedback c = None
        \<longrightarrow> reported_sealed m (ch_name c) \<or> seal_accepted C wl (ch_name c) t)"

definition pods_unneeded :: "Workload \<Rightarrow> Operation \<Rightarrow> Metrics \<Rightarrow> bool" where
  "pods_unneeded wl o1 m \<longleftrightarrow>
     op_completion o1 \<noteq> CompletionNever
     \<and> (\<exists>x \<in> set (m_operations m). om_name x = op_name o1 \<and> om_complete x \<and> \<not> om_holdsUnconsumed x)
     \<and> (\<forall>c \<in> set (ws_channels (wl_spec wl)). ch_from c = op_name o1 \<and> ch_to c \<noteq> '''' \<longrightarrow> ch_durability c \<noteq> DurabilityRetained)"

definition finished_operation :: "controller \<Rightarrow> Workload \<Rightarrow> Metrics \<Rightarrow> pass \<Rightarrow> Operation \<Rightarrow> bool" where
  "finished_operation C wl m t o1 \<longleftrightarrow>
     (if op_collective o1 = None
      then pods_unneeded wl o1 m \<and> outputs_closed C wl o1 m t
        \<and> (\<exists>old ds d. Called (CreateOrUpdate KDeployment (opName wl o1)) (KExisting old ds) \<in> set t \<and> ds_replicas ds = 0
             \<and> Applied KDeployment (opName wl o1) (ADeployment d) \<in> set t \<and> dp_replicas d = Some 0)
      else outputs_closed C wl o1 m t
        \<and> (\<exists>jobs j. Called (ListJobs (opLabels wl o1)) (KJobs jobs) \<in> set t \<and> j \<in> snd ` set jobs
             \<and> jb_owner j = wl_uid wl \<and> jobComplete j))"

lemma told_mono:
  assumes "set t \<subseteq> set t'"
  shows "answered C wl m t \<Longrightarrow> answered C wl m t'" "seal_accepted C wl ch t \<Longrightarrow> seal_accepted C wl ch t'"
    "outputs_closed C wl o1 m t \<Longrightarrow> outputs_closed C wl o1 m t'"
    "finished_operation C wl m t o1 \<Longrightarrow> finished_operation C wl m t' o1"
proof -
  show "answered C wl m t \<Longrightarrow> answered C wl m t'" using assms unfolding answered_def by blast
  show s: "seal_accepted C wl ch t \<Longrightarrow> seal_accepted C wl ch t'" for ch using assms unfolding seal_accepted_def by blast
  show o: "outputs_closed C wl o1 m t \<Longrightarrow> outputs_closed C wl o1 m t'" using s unfolding outputs_closed_def by blast
  show "finished_operation C wl m t o1 \<Longrightarrow> finished_operation C wl m t' o1"
    using o assms unfolding finished_operation_def by (auto split: if_splits)
qed

text \<open>Looking a name up in the view of a report gives an entry of the report.\<close>

lemma map_of_index:
  "map_of (fold (\<lambda>x. AList.update (f x) x) xs m0) k = Some y \<Longrightarrow> map_of m0 k = Some y \<or> y \<in> set xs \<and> f y = k"
  by (induction xs arbitrary: m0) (fastforce simp: map_of_update_iff split: if_splits)+

lemma channel_metrics_in:
  assumes "cm_sealed (channel_metrics (metrics_view m) n) \<or> cm_productionClosed (channel_metrics (metrics_view m) n)"
  shows "channel_metrics (metrics_view m) n \<in> set (m_channels m)" "cm_name (channel_metrics (metrics_view m) n) = n"
proof -
  have "\<exists>y. map_of (mv_channels (metrics_view m)) n = Some y"
    using assms by (cases "map_of (mv_channels (metrics_view m)) n") (auto simp: channel_metrics_def map_get_def zeroChannelMetrics_def)
  then obtain y where y: "map_of (mv_channels (metrics_view m)) n = Some y" by blast
  then have "channel_metrics (metrics_view m) n = y" by (simp add: channel_metrics_def map_get_def)
  with y map_of_index [of cm_name "m_channels m" "[]" n y]
  show "channel_metrics (metrics_view m) n \<in> set (m_channels m)" "cm_name (channel_metrics (metrics_view m) n) = n"
    by (auto simp: metrics_view_def)
qed

lemma operation_metrics_in:
  "map_of (mv_operations (metrics_view m)) n = Some x \<Longrightarrow> x \<in> set (m_operations m) \<and> om_name x = n"
  using map_of_index [of om_name "m_operations m" "[]" n x] by (simp add: metrics_view_def)

lemma not_barred: "\<not> barred wl o1 (metrics_view m) \<Longrightarrow> inputs_ready wl o1 m"
  unfolding barred_def inputs_ready_def list_ex_iff Inbound_def using channel_metrics_in by fastforce

lemma unsealed_others:
  "c \<in> set (ws_channels (wl_spec wl)) \<Longrightarrow> ch_from c = op_name o1 \<Longrightarrow> ch_feedback c = None \<Longrightarrow>
   reported_sealed m (ch_name c) \<or> c \<in> set (unsealed_outputs wl o1 (metrics_view m))"
  unfolding unsealed_outputs_def Outbound_def reported_sealed_def using channel_metrics_in [of m "ch_name c"] by auto

lemma want_zero:
  assumes "want_replicas wl o1 (metrics_view m) k = 0"
  shows "pods_unneeded wl o1 m \<and> drain_complete o1 (metrics_view m)"
proof -
  have "1 \<le> desiredReplicas o1" by (simp add: desiredReplicas_def Let_def)
  then have d: "drain_complete o1 (metrics_view m)" "\<not> holds_unconsumed o1 (metrics_view m)" "\<not> holdsRetainedSegments (wl_spec wl) o1"
    using assms by (auto simp: want_replicas_def split: if_splits)
  then obtain x where "map_of (mv_operations (metrics_view m)) (op_name o1) = Some x" "om_complete x" "\<not> om_holdsUnconsumed x"
    by (auto simp: drain_complete_def holds_unconsumed_def split: option.splits)
  with d operation_metrics_in [of m "op_name o1" x] show ?thesis
    by (auto simp: pods_unneeded_def drain_complete_def holdsRetainedSegments_def list_ex_iff Outbound_def)
qed

subsection \<open>Events without consequence for operations\<close>

definition operation_of :: "object \<Rightarrow> string option" where
  "operation_of x =
     (case x of
        ADeployment d \<Rightarrow> map_of (tp_labels (dp_template d)) LabelOperation
      | AJob j \<Rightarrow> map_of (tp_labels (jb_template j)) LabelOperation
      | _ \<Rightarrow> None)"

fun plain :: "kevent \<Rightarrow> bool" where
  "plain (Applied k n x) \<longleftrightarrow> operation_of x = None \<and> (\<forall>d. x = ADeployment d \<longrightarrow> dp_replicas d \<noteq> Some 0)"
| "plain (Called c a) \<longleftrightarrow> (\<forall>st. c = UpdateStatus st \<longrightarrow> wst_phase st \<noteq> WorkloadSucceeded)"
| "plain (Recorded ty r m) \<longleftrightarrow> True"

abbreviation quietly :: "pass \<Rightarrow> pass \<Rightarrow> bool" where
  "quietly \<equiv> grows (\<lambda>_. plain)"

named_theorems quiet_intros \<open>operations whose events are plain\<close>

lemma quiet_upsert [quiet_intros]: "(\<And>old. plain (Applied k n (f old))) \<Longrightarrow> quietly t (snd (upsert C k n f t))"
  by (rule upsert_grows) auto

lemma quiet_apply [quiet_intros]: "plain (Applied k n x) \<Longrightarrow> quietly t (snd (apply_object C k n x t))"
  by (rule apply_grows) auto

lemma quiet_delete [quiet_intros]: "quietly t (snd (delete_object C k n t))"
  by (rule delete_grows) auto

lemma quiet_recorded [quiet_intros]: "quietly t (recorded C b ty r m t)"
  by (rule recorded_grows) auto

lemma quiet_http_call [quiet_intros]: "quietly t (snd (http_call C meth url b what t))"
  by (rule http_call_grows) auto

lemma quiet_http [quiet_intros]: "quietly t (snd (http_done C meth url b what t))"
  by (rule http_grows) auto

lemma quiet_metrics [quiet_intros]: "quietly t (snd (metrics C wl t))"
  unfolding metrics_def by (rule grows_thenK) (auto intro: quiet_intros split: option.split)

lemma quiet_coordinator [quiet_intros]: "quietly t (snd (ensureCoordinator C wl t))"
  unfolding ensureCoordinator_def
  by (intro grows_thenK quiet_intros)
    (auto simp: coordinator_deployment_def coordinator_service_def operation_of_def coordinatorLabels_def LabelOperation_def LabelWorkload_def
      LabelRole_def Let_def)

lemma quiet_accounts [quiet_intros]: "quietly t (snd (ensureServiceAccounts C wl os t))"
  by (induction os arbitrary: t) (auto intro!: grows_thenK quiet_intros simp: operation_of_def)

lemma quiet_policies [quiet_intros]: "quietly t (snd (ensureNetworkPolicies C wl t))"
proof -
  have a: "quietly u (snd (apply_policies C nps u))" for nps u
    by (induction nps arbitrary: u) (auto intro!: grows_thenK quiet_intros simp: operation_of_def)
  have p: "quietly u (snd (prune_policies C wl nps u))" for nps u
    by (induction nps arbitrary: u) (auto intro!: grows_thenK quiet_intros)
  have o: "quietly u (u @ [Called (ListPolicies ls) x])" for u ls x by (rule grows_one) simp
  show ?thesis
    unfolding ensureNetworkPolicies_def
    by (rule grows_thenK [OF a]) (auto simp: kask_eq split: kanswer.split intro: o grows_chain [OF p o])
qed

lemma quiet_vpa [quiet_intros]: "quietly t (snd (ensureVPA C wl o1 t))"
proof -
  have o: "quietly t (t @ [Called (RESTMapping a b c) x])" for a b c x by (rule grows_one) simp
  have v: "plain (Applied KVerticalPodAutoscaler n (vertical_pod_autoscaler wl o1 mode))" for n mode
    by (simp add: vertical_pod_autoscaler_def operation_of_def)
  show ?thesis
    by (auto simp: ensureVPA_def kask_eq split: kanswer.split option.split
        intro: o grows_chain [OF quiet_delete o] grows_chain [OF quiet_apply [OF v] o])
qed

lemma quiet_scaling [quiet_intros]: "quietly t (snd (disable_scaling C wl os t))"
  by (induction os arbitrary: t) (auto simp: ensureHPA_def intro!: grows_thenK quiet_intros)

lemma quiet_phase [quiet_intros]: "ph \<noteq> WorkloadSucceeded \<Longrightarrow> quietly t (snd (setPhase C st ph r m t))"
proof -
  assume ph: "ph \<noteq> WorkloadSucceeded"
  define st1 where "st1 = st\<lparr>wst_phase := ph, wst_reason := r, wst_message := m\<rparr>"
  have o: "quietly t (t @ [Called (UpdateStatus st1) x])" for x by (rule grows_one) (simp add: ph st1_def)
  show ?thesis
    unfolding setPhase_def Let_def st1_def [symmetric]
    by (auto simp: kask_eq split: kanswer.split intro: o grows_chain [OF quiet_recorded o])
qed

lemma quiet_lost [quiet_intros]: "quietly t (snd (report_lost C wl m t))"
proof -
  have "quietly u (emit_lost C old sts u)" for old sts u
    by (induction sts arbitrary: u) (auto intro: quiet_recorded grows_chain)
  then show ?thesis by (auto simp: report_lost_def Let_def intro!: grows_chain [OF quiet_phase])
qed

lemma quiet_seal [quiet_intros]: "quietly t (snd (seal_all C wl cs t))"
  by (induction cs arbitrary: t) (auto simp: post_seal_def intro!: grows_thenK quiet_intros)

lemma quiet_reason [quiet_intros]: "quietly t (snd (operationReason C wl o1 d ds mv t))"
  by (auto simp: operationReason_def kask_eq split: option.split kanswer.split intro!: grows_one)

lemma quiet_status [quiet_intros]: "quietly t (snd (deployed_status C wl o1 mv d ds t))"
  using quiet_reason [of t C wl o1 d ds mv] by (auto simp: deployed_status_def Let_def split: prod.splits)

lemma quiet_transitions [quiet_intros]: "quietly t (emitStatusTransitions C st r old t)"
proof -
  have "quietly u (emit_operations C old sts u)" for sts u
    by (induction sts arbitrary: u) (auto intro: quiet_recorded grows_chain)
  then show ?thesis by (auto simp: emitStatusTransitions_def intro: grows_chain [OF _ quiet_recorded])
qed

subsection \<open>Operations\<close>

definition informed :: "controller \<Rightarrow> Workload \<Rightarrow> Metrics \<Rightarrow> pass \<Rightarrow> kevent \<Rightarrow> bool" where
  "informed C wl m pre e \<longleftrightarrow>
     (case e of
        Applied k n x \<Rightarrow>
          (\<forall>op. operation_of x = Some op \<longrightarrow> (\<exists>o1 \<in> set (ws_operations (wl_spec wl)). op_name o1 = op \<and> inputs_ready wl o1 m))
          \<and> (\<forall>d. x = ADeployment d \<and> dp_replicas d = Some 0 \<longrightarrow>
               (\<exists>o1 \<in> set (ws_operations (wl_spec wl)). n = opName wl o1 \<and> pods_unneeded wl o1 m \<and> outputs_closed C wl o1 m pre))
      | Called c a \<Rightarrow>
          (\<forall>st. c = UpdateStatus st \<and> wst_phase st = WorkloadSucceeded \<longrightarrow>
             (\<forall>o1 \<in> set (ws_operations (wl_spec wl)). op_completion o1 \<noteq> CompletionNever \<and> finished_operation C wl m pre o1))
      | Recorded _ _ _ \<Rightarrow> True)"

lemma quiet_informed: "quietly t t' \<Longrightarrow> grows (informed C wl m) t t'"
proof (erule grows_weaken)
  fix u e
  assume "plain e"
  then show "informed C wl m u e" by (cases e) (auto simp: informed_def)
qed

lemmas informed_intros = quiet_intros [THEN quiet_informed]

lemma http_done_Inr:
  "http_done C meth url b what t = (Inr (), t') \<Longrightarrow> \<exists>s x. s < 300 \<and> Called (HttpDo meth url b) (KReply s x) \<in> set t'"
  by (auto simp: http_done_def thenK_Inr http_call_def kask_eq split: kanswer.splits if_splits) force

lemma seal_all_Inr:
  "seal_all C wl cs t = (Inr (), t') \<Longrightarrow> c \<in> set cs \<Longrightarrow> seal_accepted C wl (ch_name c) t'"
proof (induction cs arbitrary: t)
  case (Cons a cs)
  then obtain t1 where s: "post_seal C wl (ch_name a) t = (Inr (), t1)" "seal_all C wl cs t1 = (Inr (), t')"
    by (auto simp: thenK_Inr)
  have "seal_accepted C wl (ch_name a) t1" using http_done_Inr s(1) unfolding post_seal_def seal_accepted_def by blast
  moreover have "set t1 \<subseteq> set t'" using grows_keeps [OF quiet_seal, of t1 C wl cs] s(2) by simp
  ultimately show ?case using Cons s(2) told_mono(2) by auto
qed simp

lemma outputs_sealed:
  assumes "seal_all C wl (unsealed_outputs wl o1 (metrics_view m)) t = (Inr (), t')"
  shows "outputs_closed C wl o1 m t'"
  unfolding outputs_closed_def using seal_all_Inr [OF assms] unsealed_others by blast

lemma labels_known: "LabelOperation \<noteq> LabelWorkload" "LabelRole \<noteq> LabelOperation" "labelCollectiveAttempt \<noteq> LabelOperation"
  by (simp_all add: LabelOperation_def LabelWorkload_def LabelRole_def labelCollectiveAttempt_def)

lemma template_operation: "map_of (tp_labels (podTemplate wl o1)) LabelOperation = Some (op_name o1)"
  using labels_known by (auto simp: podTemplate_def Let_def opLabels_def map_of_update_iff)

lemma attempt_operation: "map_of (tp_labels (attempt_template wl o1 co n)) LabelOperation = Some (op_name o1)"
  using labels_known by (auto simp: attempt_template_def attempt_labels_def Let_def opLabels_def map_of_update_iff)

lemma start_attempt_grows:
  assumes "o1 \<in> set (ws_operations (wl_spec wl))" and "inputs_ready wl o1 m"
  shows "grows (informed C wl m) t (snd (start_attempt C wl o1 co n t))"
  unfolding start_attempt_def
proof (intro grows_thenK, goal_cases)
  case 1
  then show ?case by (intro informed_intros) (simp add: attempt_service_def operation_of_def)
next
  case (2 x u)
  show ?case
    by (rule upsert_grows) (use assms in \<open>auto simp: informed_def attempt_job_def operation_of_def attempt_operation\<close>)
qed auto

lemma reconcileCollective_grows:
  assumes "o1 \<in> set (ws_operations (wl_spec wl))" and "inputs_ready wl o1 m"
  shows "grows (informed C wl m) t (snd (reconcileCollective C wl o1 co t))"
proof -
  have o: "grows (informed C wl m) t (t @ [Called (ListJobs ls) x])" for ls x by (rule grows_one) (simp add: informed_def)
  have s: "grows (informed C wl m) u (snd (thenK (seal_all C wl cs u) (\<lambda>_ v. (Inr (x :: OperationStatus), v))))" for cs u x
    by (rule grows_thenK) (auto intro: informed_intros)
  show ?thesis
    by (auto simp: reconcileCollective_def kask_eq Let_def split: kanswer.split
        intro: o grows_chain [OF start_attempt_grows [OF assms] o] grows_chain [OF s o])
qed

lemma deploy_grows:
  assumes "o1 \<in> set (ws_operations (wl_spec wl))" and "inputs_ready wl o1 m"
    and "drain_complete o1 (metrics_view m) \<Longrightarrow> outputs_closed C wl o1 m t"
  shows "grows (informed C wl m) t (snd (deploy_operation C wl o1 (metrics_view m) t))"
  unfolding deploy_operation_def
proof (rule grows_thenK, goal_cases)
  case 1
  have "outputs_closed C wl o1 m (t @ [x]) \<and> pods_unneeded wl o1 m"
    if "dp_replicas (operation_deployment wl o1 (metrics_view m) old) = Some 0" for old x
    using that want_zero told_mono(3) [of t "t @ [x]" C wl o1 m] assms(3) by (auto simp: operation_deployment_def Let_def)
  then show ?case
    by (intro upsert_grows) (use assms in \<open>auto simp: informed_def operation_of_def operation_deployment_def template_operation Let_def\<close>)
next
  case (2 x u)
  obtain new ds where x: "x = (new, ds)" by fastforce
  obtain st v where v: "deployed_status C wl o1 (metrics_view m) (deployment_of (Some new)) ds u = (st, v)" by fastforce
  then have "grows (informed C wl m) u v" using quiet_informed [OF quiet_status] by (metis snd_conv)
  then show ?case using v x by (auto intro!: grows_chain [OF grows_thenK] informed_intros)
qed

lemma reconcileOperation_grows:
  assumes "o1 \<in> set (ws_operations (wl_spec wl))"
  shows "grows (informed C wl m) t (snd (reconcileOperation C wl (metrics_view m) o1 t))"
proof (cases "barred wl o1 (metrics_view m)")
  case True
  then show ?thesis by (simp add: reconcileOperation_def)
next
  case False
  note ready = not_barred [OF this]
  show ?thesis
  proof (cases "op_collective o1")
    case None
    then show ?thesis
      using False
      by (auto simp: reconcileOperation_def intro!: grows_thenK deploy_grows assms ready outputs_sealed informed_intros split: if_splits)
  next
    case (Some co)
    then show ?thesis using False reconcileCollective_grows [OF assms ready] by (simp add: reconcileOperation_def)
  qed
qed

lemma reconcile_operations_grows:
  "set os \<subseteq> set (ws_operations (wl_spec wl)) \<Longrightarrow> grows (informed C wl m) t (snd (reconcile_operations C wl (metrics_view m) os t))"
  by (induction os arbitrary: t) (auto intro!: grows_thenK reconcileOperation_grows)

subsection \<open>Operations that succeed\<close>

lemma deploy_finished:
  assumes "deploy_operation C wl o1 (metrics_view m) t = (Inr st, t')" and "ost_phase st = OperationSucceeded"
    and "drain_complete o1 (metrics_view m) \<Longrightarrow> outputs_closed C wl o1 m t" and "op_collective o1 = None"
  shows "finished_operation C wl m t' o1"
proof -
  obtain new ds u where u: "upsert C KDeployment (opName wl o1) (\<lambda>old. ADeployment (operation_deployment wl o1 (metrics_view m) old)) t
      = (Inr (new, ds), u)"
    using assms(1) unfolding deploy_operation_def by (auto simp: thenK_Inr)
  then obtain old where new: "new = ADeployment (operation_deployment wl o1 (metrics_view m) old)"
      and "u = t @ [Called (CreateOrUpdate KDeployment (opName wl o1)) (KExisting old ds), Applied KDeployment (opName wl o1) new]"
    unfolding upsert_Inr by blast
  then have in_u: "Called (CreateOrUpdate KDeployment (opName wl o1)) (KExisting old ds) \<in> set u"
      "Applied KDeployment (opName wl o1) new \<in> set u" "set t \<subseteq> set u" by auto
  obtain s v where v: "deployed_status C wl o1 (metrics_view m) (operation_deployment wl o1 (metrics_view m) old) ds u = (s, v)"
    by fastforce
  have uv: "set u \<subseteq> set v" using grows_keeps [OF quiet_status] v by (metis snd_conv)
  have "s = st" and vt: "set v \<subseteq> set t'"
    using assms(1) u v grows_keeps [OF quiet_vpa, of v C wl o1]
    by (auto simp: deploy_operation_def new deployment_of_def thenK_Inr split: if_splits)
  then have "drain_complete o1 (metrics_view m)" "ds_replicas ds = 0"
      "dp_replicas (operation_deployment wl o1 (metrics_view m) old) = Some 0"
    using assms(2) v
    by (auto simp: deployed_status_def operation_deployment_def Let_def split: prod.splits if_splits)
  moreover from this have "pods_unneeded wl o1 m"
    using want_zero by (auto simp: operation_deployment_def Let_def)
  moreover have "outputs_closed C wl o1 m t'" using told_mono(3) [of t t' C wl o1 m] assms(3) calculation(1) in_u(3) uv vt by blast
  ultimately show ?thesis using in_u(1,2) uv vt assms(4) unfolding finished_operation_def new by (auto intro!: exI)
qed

lemma start_attempt_running: "start_attempt C wl o1 co n t = (Inr st, t') \<Longrightarrow> ost_phase st = OperationRunning"
  by (auto simp: start_attempt_def thenK_Inr new_status_def)

lemma collective_finished:
  assumes "reconcileCollective C wl o1 co t = (Inr st, t')" and "ost_phase st = OperationSucceeded" and "op_collective o1 = Some co"
  shows "finished_operation C wl m t' o1"
proof -
  let ?u = "t @ [Called (ListJobs (opLabels wl o1)) (rc_world C t (ListJobs (opLabels wl o1)))]"
  let ?cs = "filter (\<lambda>c. ch_feedback c = None) (Outbound (wl_spec wl) (op_name o1))"
  obtain listed where l: "rc_world C t (ListJobs (opLabels wl o1)) = KJobs listed"
    using assms(1) by (auto simp: reconcileCollective_def kask_eq split: kanswer.splits)
  define jobs where "jobs = sort_key collectiveAttempt (filter (\<lambda>j. jb_owner j = wl_uid wl) (map snd listed))"
  have s: "jobs \<noteq> []" "jobComplete (last jobs)" "seal_all C wl ?cs ?u = (Inr (), t')"
    using assms(1,2) start_attempt_running
    by (fastforce simp: reconcileCollective_def kask_eq l jobs_def [symmetric] Let_def thenK_Inr new_status_def split: if_splits)+
  have "last jobs \<in> set jobs" using s(1) by simp
  then obtain i where "i \<in> set listed" "snd i = last jobs" "jb_owner (last jobs) = wl_uid wl" by (auto simp: jobs_def)
  moreover have "Called (ListJobs (opLabels wl o1)) (KJobs listed) \<in> set t'"
    using grows_keeps [OF quiet_seal, of ?u C wl ?cs] s(3) l by auto
  moreover have "outputs_closed C wl o1 m t'"
    unfolding outputs_closed_def using seal_all_Inr [OF s(3)] by (auto simp: Outbound_def)
  ultimately show ?thesis using s(2) assms(3) unfolding finished_operation_def
    by (auto intro!: exI [of _ listed] bexI [of _ i])
qed

lemma reconcileOperation_finished:
  assumes "reconcileOperation C wl (metrics_view m) o1 t = (Inr st, t')" and "ost_phase st = OperationSucceeded"
  shows "finished_operation C wl m t' o1"
proof -
  have b: "\<not> barred wl o1 (metrics_view m)" using assms by (auto simp: reconcileOperation_def waiting_status_def new_status_def Let_def)
  show ?thesis
  proof (cases "op_collective o1")
    case None
    obtain u where u: "(if drain_complete o1 (metrics_view m) then seal_all C wl (unsealed_outputs wl o1 (metrics_view m)) t else (Inr (), t)) = (Inr (), u)"
        "deploy_operation C wl o1 (metrics_view m) u = (Inr st, t')"
      using assms(1) b None by (auto simp: reconcileOperation_def thenK_Inr)
    show ?thesis by (rule deploy_finished [OF u(2) assms(2) _ None]) (use u(1) outputs_sealed in auto)
  next
    case (Some co)
    then show ?thesis using assms b collective_finished by (auto simp: reconcileOperation_def)
  qed
qed

lemma operations_finished:
  "reconcile_operations C wl (metrics_view m) os t = (Inr sts, t') \<Longrightarrow> set os \<subseteq> set (ws_operations (wl_spec wl)) \<Longrightarrow>
   list_all2 (\<lambda>o1 s. ost_phase s = OperationSucceeded \<longrightarrow> finished_operation C wl m t' o1) os sts"
proof (induction os arbitrary: t sts)
  case (Cons o1 os)
  then obtain s u ss where u: "reconcileOperation C wl (metrics_view m) o1 t = (Inr s, u)"
      "reconcile_operations C wl (metrics_view m) os u = (Inr ss, t')" "sts = s # ss"
    by (auto simp: thenK_Inr)
  have "set u \<subseteq> set t'"
    using grows_keeps [OF reconcile_operations_grows, of os wl u C m] Cons.prems(2) u(2) by simp
  then show ?case using Cons u reconcileOperation_finished [OF u(1)] told_mono(4) by auto
qed simp

lemma overall_succeeded:
  assumes "fst (overall wl sts) = WorkloadSucceeded" and "list_all2 P (ws_operations (wl_spec wl)) sts" and "\<And>o1 s. P o1 s \<Longrightarrow> ost_phase s = OperationSucceeded \<Longrightarrow> Q o1"
  shows "\<forall>o1 \<in> set (ws_operations (wl_spec wl)). op_completion o1 \<noteq> CompletionNever \<and> Q o1"
proof
  fix o1
  assume "o1 \<in> set (ws_operations (wl_spec wl))"
  then obtain s where s: "(o1, s) \<in> set (zip (ws_operations (wl_spec wl)) sts)"
    using list_all2_lengthD [OF assms(2)] by (metis in_set_impl_in_set_zip1)
  have "P o1 s" using assms(2) s by (auto simp: list_all2_iff)
  then show "op_completion o1 \<noteq> CompletionNever \<and> Q o1"
    using assms(1,3) s \<open>o1 \<in> _\<close> by (fastforce simp: overall_def Let_def list_all_iff list_ex_iff split: if_splits)
qed

subsection \<open>Passes\<close>

definition lossless :: "Metrics \<Rightarrow> bool" where
  "lossless m \<longleftrightarrow> (\<forall>cm \<in> set (m_channels m). cm_lost cm = 0)"

definition accounted :: "controller \<Rightarrow> Workload \<Rightarrow> pass \<Rightarrow> kevent \<Rightarrow> bool" where
  "accounted C wl pre e \<longleftrightarrow> plain e \<or> (\<exists>m. answered C wl m pre \<and> lossless m \<and> informed C wl m pre e)"

lemma informed_accounted:
  "grows (informed C wl m) t t' \<Longrightarrow> answered C wl m t \<Longrightarrow> lossless m \<Longrightarrow> grows (accounted C wl) t t'"
proof (induction rule: grows.induct)
  case (snoc t' e)
  then show ?case using told_mono(1) [OF grows_keeps [OF snoc(1)]] by (intro grows.snoc) (auto simp: accounted_def)
qed simp

lemma quiet_accounted: "quietly t t' \<Longrightarrow> grows (accounted C wl) t t'"
  by (erule grows_weaken) (simp add: accounted_def)

lemmas accounted_intros = quiet_intros [THEN quiet_accounted]

lemma conclude_grows:
  assumes "list_all2 (\<lambda>o1 s. ost_phase s = OperationSucceeded \<longrightarrow> finished_operation C wl m t o1) (ws_operations (wl_spec wl)) sts"
  shows "grows (informed C wl m) t (snd (conclude C wl mv sts t))"
proof -
  obtain fresh t1 where f: "metrics C wl t = (fresh, t1)" by fastforce
  have g: "grows (informed C wl m) t t1" using quiet_informed [OF quiet_metrics] f by (metis snd_conv)
  obtain ph msg where o: "overall wl sts = (ph, msg)" by fastforce
  have "informed C wl m t1 (Called (UpdateStatus st) a)" if "wst_phase st = ph" for st a
  proof -
    have "\<forall>o1 \<in> set (ws_operations (wl_spec wl)). op_completion o1 \<noteq> CompletionNever \<and> finished_operation C wl m t1 o1"
      if "ph = WorkloadSucceeded"
      by (rule overall_succeeded [OF _ assms]) (use o that told_mono(4) [OF grows_keeps [OF g]] in auto)
    then show ?thesis using that by (simp add: informed_def)
  qed
  then have u: "grows (informed C wl m) t (t1 @ [Called (UpdateStatus st) a])" if "wst_phase st = ph" for st a
    using that g by (auto intro: grows.snoc)
  show ?thesis
    by (auto simp: conclude_def f o kask_eq Let_def split: kanswer.split intro: u grows_chain [OF quiet_informed [OF quiet_transitions] u])
qed

lemma metrics_Inr:
  assumes "metrics C wl t = (Inr mv, t')"
  obtains m where "mv = metrics_view m" "mv_report mv = m" "answered C wl m t'"
proof -
  let ?c = "HttpDo ''GET'' (coordinatorURL C wl @ ''/metrics'') NoBody"
  from assms obtain s m where "s < 300" "rc_world C t ?c = KReply s (Some m)" "mv = metrics_view m" "t' = t @ [Called ?c (KReply s (Some m))]"
    by (auto simp: metrics_def thenK_Inr http_call_def kask_eq split: kanswer.splits option.splits if_splits)
  then show thesis using that [of m] by (auto simp: answered_def metrics_view_def)
qed

lemma drive_grows:
  assumes "answered C wl m t" and "lossless m"
  shows "grows (accounted C wl) t (snd (drive C wl (metrics_view m) t))"
proof (rule informed_accounted [OF _ assms])
  show "grows (informed C wl m) t (snd (drive C wl (metrics_view m) t))"
    unfolding drive_def pushOperations_def
    by (intro grows_thenK informed_intros reconcile_operations_grows conclude_grows operations_finished) auto
qed

lemma observe_grows: "grows (accounted C wl) t (snd (observe_workload C wl t))"
proof -
  obtain x t1 where p: "pushTopology C wl t = (x, t1)" by fastforce
  have g: "grows (accounted C wl) t t1" using quiet_accounted [OF quiet_http] p unfolding pushTopology_def by (metis snd_conv)
  obtain y t2 where m: "metrics C wl t1 = (y, t2)" by fastforce
  have h: "grows (accounted C wl) t t2" using grows_chain [OF quiet_accounted [OF quiet_metrics] g] m by (metis snd_conv)
  have w: "grows (accounted C wl) t (snd (thenK (setPhase C st WorkloadPending r s t1) (\<lambda>_ u. (Inr i, u))))" for st r s and i :: "int option"
    by (rule grows_chain [OF grows_thenK g]) (auto intro: accounted_intros)
  have d: "grows (accounted C wl) t (snd (if list_ex (\<lambda>m. cm_lost m \<noteq> 0) (m_channels (mv_report mv)) then report_lost C wl (mv_report mv) t2
        else drive C wl mv t2))" if "y = Inr mv" for mv
  proof -
    obtain r where "mv = metrics_view r" "mv_report mv = r" "answered C wl r t2" using metrics_Inr m \<open>y = Inr mv\<close> by metis
    then show ?thesis
      by (auto simp: lossless_def list_ex_iff intro!: grows_chain [OF _ h] drive_grows accounted_intros)
  qed
  show ?thesis using w d h by (cases x; cases y) (auto simp: observe_workload_def p m)
qed

lemma reconcile_grows: "grows (accounted C wl) t (snd (reconcile_workload C wl t))"
proof -
  have "grows (accounted C wl) t (snd (thenK (ensureCoordinator C wl t) (\<lambda>_ t1.
      thenK (ensureServiceAccounts C wl (ws_operations (wl_spec wl)) t1) (\<lambda>_ t2.
      thenK (ensureNetworkPolicies C wl t2) (\<lambda>_ t3. observe_workload C wl t3)))))"
    by (intro grows_thenK accounted_intros observe_grows)
  then show ?thesis by (auto simp: reconcile_workload_def intro!: accounted_intros split: option.split)
qed

definition admitted :: "controller \<Rightarrow> string \<Rightarrow> string \<Rightarrow> Workload \<Rightarrow> pass \<Rightarrow> bool" where
  "admitted C ns name wl t \<longleftrightarrow>
     Called (GetWorkload ns name) (KWorkload wl) \<in> set t
     \<and> wst_phase (wl_status wl) \<noteq> WorkloadSucceeded \<and> wst_phase (wl_status wl) \<noteq> WorkloadFailed
     \<and> Validate (rc_parse C) (rc_order C (wl_spec wl)) (wl_spec wl) = None"

lemma Reconcile_event:
  assumes "Reconcile C ns name [] = (r, pre @ e # post)" and "\<not> plain e"
  obtains wl m where "admitted C ns name wl pre" "answered C wl m pre" "lossless m" "informed C wl m pre e"
proof -
  let ?a = "rc_world C [] (GetWorkload ns name)"
  have k: "kask C (GetWorkload ns name) [] = (?a, [Called (GetWorkload ns name) ?a])" by (simp add: kask_eq)
  obtain wl where wl: "?a = KWorkload wl"
    using assms by (cases "?a") (auto simp: Reconcile_def k append_eq_Cons_conv Cons_eq_append_conv)
  then have w: "reconcile_workload C wl [Called (GetWorkload ns name) (KWorkload wl)] = (r, pre @ e # post)"
    using assms(1) k by (simp add: Reconcile_def)
  obtain es where "pre @ e # post = Called (GetWorkload ns name) (KWorkload wl) # es"
    using grows_extends [OF reconcile_grows [of C wl "[Called (GetWorkload ns name) (KWorkload wl)]"]] w by auto
  then obtain p where p: "pre = Called (GetWorkload ns name) (KWorkload wl) # p" using assms(2) by (cases pre) auto
  have q: "grows P [Called (GetWorkload ns name) (KWorkload wl)] (pre @ e # post) \<Longrightarrow> P pre e" for P
    by (erule grows_event) (simp_all add: p)
  have a: "admitted C ns name wl pre"
    unfolding admitted_def
  proof (intro conjI)
    show "Called (GetWorkload ns name) (KWorkload wl) \<in> set pre" by (simp add: p)
    show "wst_phase (wl_status wl) \<noteq> WorkloadSucceeded" "wst_phase (wl_status wl) \<noteq> WorkloadFailed"
      using w p by (auto simp: reconcile_workload_def)
    show "Validate (rc_parse C) (rc_order C (wl_spec wl)) (wl_spec wl) = None"
    proof (rule ccontr)
      assume "Validate (rc_parse C) (rc_order C (wl_spec wl)) (wl_spec wl) \<noteq> None"
      then have "quietly [Called (GetWorkload ns name) (KWorkload wl)] (pre @ e # post)"
        using w quiet_phase [of WorkloadFailed "[Called (GetWorkload ns name) (KWorkload wl)]" C "wl_status wl"]
        by (auto simp: reconcile_workload_def split: if_splits) (metis WorkloadPhase.distinct snd_conv)+
      then show False using q assms(2) by blast
    qed
  qed
  have "accounted C wl pre e" using q [of "accounted C wl"] reconcile_grows [of C wl "[Called (GetWorkload ns name) (KWorkload wl)]"] w by simp
  then show thesis using that a assms(2) unfolding accounted_def by blast
qed

subsection \<open>Guarantees\<close>

text \<open>
  C8: The stage barrier. A pass applies a Deployment or Job whose pods run an operation only for an
  operation of an admitted workload whose materialized inputs are complete: in a report the coordinator gave
  in that pass, every inbound materialized channel that is not a feedback channel was sealed or closed
  for production; and that report had no lost records.
\<close>

theorem stage_barrier:
  assumes "Reconcile C ns name [] = (r, pre @ Applied k n x # post)" and "operation_of x = Some op"
  shows "\<exists>wl m. admitted C ns name wl pre \<and> answered C wl m pre \<and> lossless m
    \<and> (\<exists>o1 \<in> set (ws_operations (wl_spec wl)). op_name o1 = op \<and> inputs_ready wl o1 m)"
  by (rule Reconcile_event [OF assms(1)]) (use assms(2) in \<open>auto simp: informed_def\<close>)

text \<open>
  C9: Pods are given up only when nothing needs them. A pass scales a Deployment to zero only for an
  operation the coordinator reported complete and without unconsumed segments, that has no retained output
  for another operation and is not a streaming one; and by then every output that is not a feedback channel is
  sealed, by the report or by a request of this pass that the coordinator accepted.
\<close>

theorem pods_given_up:
  assumes "Reconcile C ns name [] = (r, pre @ Applied k n (ADeployment d) # post)" and "dp_replicas d = Some 0"
  shows "\<exists>wl m. admitted C ns name wl pre \<and> answered C wl m pre
    \<and> (\<exists>o1 \<in> set (ws_operations (wl_spec wl)). n = opName wl o1 \<and> pods_unneeded wl o1 m \<and> outputs_closed C wl o1 m pre)"
  by (rule Reconcile_event [OF assms(1)]) (use assms(2) in \<open>auto simp: informed_def\<close>)

text \<open>
  C10: A workload is reported Succeeded only when it is: no operation is a streaming one, the coordinator reported
  no lost records, and every operation finished, which for a collective means that a Job of the
  workload completed, and for the others that the pass scaled its Deployment to zero, saw no replica left, and
  the conditions for giving up its pods hold.
\<close>

theorem succeeded_when_drained:
  assumes "Reconcile C ns name [] = (r, pre @ Called (UpdateStatus st) a # post)" and "wst_phase st = WorkloadSucceeded"
  shows "\<exists>wl m. admitted C ns name wl pre \<and> answered C wl m pre \<and> lossless m
    \<and> (\<forall>o1 \<in> set (ws_operations (wl_spec wl)). op_completion o1 \<noteq> CompletionNever \<and> finished_operation C wl m pre o1)"
  by (rule Reconcile_event [OF assms(1)]) (use assms(2) in \<open>auto simp: informed_def\<close>)

end
