(* ===== verification/Lifetimes.thy ===== *)
theory Lifetimes
  imports Reconciling Guarantees
begin

text \<open>
  The controller and the coordinator together: what the reports of a coordinator mean for the pods the
  controller gives up, and a sample pass over a workload whose coordinator has run to the end.
\<close>

subsection \<open>Reports of the coordinator\<close>

lemma holdsUnconsumed_cong: "co_channels co = co_channels co' \<Longrightarrow> holdsUnconsumed co n = holdsUnconsumed co' n"
  by (simp add: holdsUnconsumed_def)

lemma reported_unconsumed:
  "x \<in> set (fst (operations_metrics ns co)) \<Longrightarrow> om_holdsUnconsumed x = holdsUnconsumed co (om_name x)"
proof (induction ns arbitrary: co)
  case (Cons n ns)
  have c: "co_channels (snd (operationMetrics n co)) = co_channels co" by (simp add: operationMetrics_def Let_def)
  have "om_holdsUnconsumed (fst (operationMetrics n co)) = holdsUnconsumed co (om_name (fst (operationMetrics n co)))"
    by (simp add: operationMetrics_def Let_def holdsUnconsumed_cong [of "ensure_op n co" co])
  then show ?case using Cons holdsUnconsumed_cong [OF c] by (auto simp: split_def Let_def)
qed simp

lemma unconsumed_reported:
  assumes "x \<in> set (m_operations (fst (Metrics e co)))" and "\<not> om_holdsUnconsumed x"
  shows "\<not> holdsUnconsumed (snd (Metrics e co)) (om_name x)"
  using assms reported_unconsumed [of x]
    holdsUnconsumed_cong [of "snd (operations_metrics ns (settle (expireAll e co)))" "settle (expireAll e co)" for ns]
  by (simp add: Metrics_def Let_def split_def)


subsection \<open>A sample pass\<close>

definition finished_coordinator :: coordinator where
  "finished_coordinator = serve_all (sample_setup @
     [GetConsume ''words'' ''count'' ''c0'' ''i1'' 5,
      PostAck ''words'' ''count'' ''c0'' ''i1'' [sample_ack ''a'', sample_ack ''b''],
      PostSourceDone (sample_registration ''split'' ''s0''), PostSeal ''words'',
      PostSourceDone (sample_registration ''count'' ''c0'')]) (New ''h:0'')"

definition finished_report :: Metrics where
  "finished_report = fst (Metrics sample_env finished_coordinator)"

text \<open>The report of that coordinator, and a cluster in which every call of the controller goes through.\<close>

definition done_channel :: "string \<Rightarrow> string \<Rightarrow> string \<Rightarrow> bool \<Rightarrow> int \<Rightarrow> int list \<Rightarrow> ChannelMetrics" where
  "done_channel name from to done n pend =
     \<lparr>cm_name = name, cm_from = from, cm_to = to, cm_sealed = done, cm_pending = 0, cm_inFlight = 0, cm_produced = n, cm_epoch = 0,
      cm_overflowed = 0, cm_lost = 0, cm_productionClosed = done, cm_acknowledged = n, cm_latestDeliveryFailure = '''',
      cm_pendingByPartition = pend\<rparr>"

definition done_operation :: "string \<Rightarrow> OperationMetrics" where
  "done_operation name = \<lparr>om_name = name, om_runnableTasks = 0, om_complete = True, om_holdsUnconsumed = False, om_livePods = 1\<rparr>"

definition done_report :: Metrics where
  "done_report =
     \<lparr>m_channels = [done_channel ''totals'' ''count'' '''' False 0 [0], done_channel ''words'' ''split'' ''count'' True 7 [0, 0]],
      m_operations = [done_operation ''count'', done_operation ''split'']\<rparr>"

lemma done_report: "done_report = fst (Metrics sample_env finished_coordinator)"
  by code_simp

definition counting :: Workload where
  "counting = \<lparr>wl_name = ''wc'', wl_namespace = ''default'', wl_uid = ''u1'',
     wl_spec = \<lparr>ws_operations = [Admission.sample_operation ''split'', Admission.sample_operation ''count''],
       ws_channels = [words_spec\<lparr>ch_delivery := DeliveryMaterialized\<rparr>, totals_spec],
       ws_coordinator = \<lparr>cd_image = '''', cd_objectStore = None\<rparr>\<rparr>,
     wl_status = \<lparr>wst_phase = WorkloadRunning, wst_reason = '''', wst_message = '''', wst_operations = [], wst_channels = []\<rparr>\<rparr>"

fun calm_cluster :: "pass \<Rightarrow> kcall \<Rightarrow> kanswer" where
  "calm_cluster t (GetWorkload ns name) = KWorkload counting"
| "calm_cluster t (CreateOrUpdate k n) = KExisting None \<lparr>ds_replicas = 0, ds_readyReplicas = 0, ds_conditions = []\<rparr>"
| "calm_cluster t (DeleteObject k n) = KNotFound"
| "calm_cluster t (ListPolicies ls) = KPolicies []"
| "calm_cluster t (ListJobs ls) = KJobs []"
| "calm_cluster t (ListPods ls) = KPods []"
| "calm_cluster t (UpdateStatus st) = KOk"
| "calm_cluster t (RESTMapping a b c) = KNoMatch"
| "calm_cluster t (HttpDo meth url b) = KReply 200 (if meth = ''GET'' then Some done_report else None)"

definition calm_controller :: controller where
  "calm_controller = \<lparr>rc_world = calm_cluster, rc_coordinatorImage = ''coordinator'', rc_controllerNamespace = '''', rc_coordinatorURL = None,
     rc_recorder = False, rc_parse = (\<lambda>_. None), rc_order = (\<lambda>s. map op_name (ws_operations s))\<rparr>"

definition none_status :: DeploymentStatus where
  "none_status = \<lparr>ds_replicas = 0, ds_readyReplicas = 0, ds_conditions = []\<rparr>"

definition applying :: "kind \<Rightarrow> string \<Rightarrow> object \<Rightarrow> pass" where
  "applying k n x = [Called (CreateOrUpdate k n) (KExisting None none_status), Applied k n x]"

lemma calm_kask: "kask calm_controller c t = (calm_cluster t c, t @ [Called c (calm_cluster t c)])"
  by (simp add: kask_eq calm_controller_def)

lemma calm_upsert: "upsert calm_controller k n f t = (Inr (f None, none_status), t @ applying k n (f None))"
  by (simp add: upsert_def calm_kask applying_def none_status_def)

lemma calm_apply: "apply_object calm_controller k n x t = (Inr (), t @ applying k n x)"
  by (simp add: apply_object_def calm_upsert)

lemma calm_http:
  "http_call calm_controller meth url b what t
   = (Inr (if meth = ''GET'' then Some done_report else None),
      t @ [Called (HttpDo meth url b) (KReply 200 (if meth = ''GET'' then Some done_report else None))])"
  by (simp add: http_call_def calm_kask)

lemma calm_accounts: "ensureServiceAccounts calm_controller wl os t = (Inr (), t @ concat (map (\<lambda>o1. applying KServiceAccount (opName wl o1)
    (AServiceAccount \<lparr>acct_labels = opLabels wl o1, acct_owner = wl_uid wl\<rparr>)) os))"
  by (induction os arbitrary: t) (simp_all add: calm_apply)

lemma calm_policies: "apply_policies calm_controller nps t = (Inr (), t @ concat (map (\<lambda>(n, np). applying KNetworkPolicy n (APolicy np)) nps))"
  by (induction nps arbitrary: t) (auto simp: calm_apply)

definition setup_events :: pass where
  "setup_events =
     [Called (GetWorkload ''default'' ''wc'') (KWorkload counting)]
     @ applying KDeployment (coordinatorName counting) (coordinator_deployment calm_controller counting None)
     @ applying KService (coordinatorName counting) (coordinator_service counting None)
     @ concat (map (\<lambda>o1. applying KServiceAccount (opName counting o1)
         (AServiceAccount \<lparr>acct_labels = opLabels counting o1, acct_owner = wl_uid counting\<rparr>)) (ws_operations (wl_spec counting)))
     @ concat (map (\<lambda>(n, np). applying KNetworkPolicy n (APolicy np)) (wanted_policies calm_controller counting))
     @ [Called (ListPolicies [(LabelWorkload, wl_name counting)]) (KPolicies []),
        Called (HttpDo ''PUT'' (coordinatorURL calm_controller counting @ ''/topology'') (ChannelsBody (ws_channels (wl_spec counting)))) (KReply 200 None),
        Called (HttpDo ''GET'' (coordinatorURL calm_controller counting @ ''/metrics'') Cluster.NoBody) (KReply 200 (Some done_report))]"

lemma setup_done:
  "Reconcile calm_controller ''default'' ''wc'' [] = drive calm_controller counting (metrics_view done_report) setup_events"
proof -
  have v: "Validate (\<lambda>_. None) [''split'', ''count''] (wl_spec counting) = None" by code_simp
  have o: "rc_order calm_controller (wl_spec counting) = [''split'', ''count'']" "rc_parse calm_controller = (\<lambda>_. None)"
    by (simp_all add: calm_controller_def counting_def Admission.sample_operation_def)
  have l: "\<not> list_ex (\<lambda>m. cm_lost m \<noteq> 0) (m_channels done_report)" by code_simp
  have p: "wst_phase (wl_status counting) = WorkloadRunning" by (simp add: counting_def)
  show ?thesis
    by (simp add: Reconcile_def calm_kask reconcile_workload_def v o p ensureCoordinator_def calm_upsert calm_accounts
        ensureNetworkPolicies_def calm_policies observe_workload_def pushTopology_def http_done_def calm_http metrics_def setup_events_def
        metrics_view_def l)
qed

definition given_up :: "Operation \<Rightarrow> Deployment" where
  "given_up o1 = operation_deployment counting o1 (metrics_view done_report) None"

lemma given_up_replicas: "dp_replicas (given_up o1) = Some (want_replicas counting o1 (metrics_view done_report) 0)"
  by (simp add: given_up_def operation_deployment_def deployment_of_def new_deployment_def Let_def)

definition done_status :: "Operation \<Rightarrow> OperationStatus" where
  "done_status o1 = (new_status (op_name o1) OperationSucceeded)\<lparr>ost_reason := ''OperationDrained'',
     ost_message := ''operation completed and released its pods''\<rparr>"

lemma deployed_calm:
  assumes "o1 = Admission.sample_operation ''split'' \<or> o1 = Admission.sample_operation ''count''"
  shows "deploy_operation calm_controller counting o1 (metrics_view done_report) t
    = (Inr (done_status o1), t @ applying KDeployment (opName counting o1) (ADeployment (given_up o1)) @ [Called (ListPods (opLabels counting o1)) (KPods [])])"
proof -
  have w: "want_replicas counting o1 (metrics_view done_report) 0 = 0 \<and> drain_complete o1 (metrics_view done_report)
      \<and> find (\<lambda>c. cm_latestDeliveryFailure (channel_metrics (metrics_view done_report) (ch_name c)) \<noteq> '''') (Inbound (wl_spec counting) (op_name o1)) = None
      \<and> waiting_status o1 (metrics_view done_report) = (new_status (op_name o1) OperationWaiting)\<lparr>ost_reason := ''InputNotReady'',
          ost_message := ''waiting for materialized input''\<rparr>"
    using assms by (elim disjE) (hypsubst, code_simp)+
  have c: "op_completion o1 \<noteq> CompletionNever" using w by (simp add: drain_complete_def)
  show ?thesis
    using w c
    by (simp add: deploy_operation_def calm_upsert given_up_def [symmetric] deployment_of_def deployed_status_def operationReason_def none_status_def
        calm_kask pods_reason_def given_up_replicas done_status_def new_status_def)
qed

abbreviation split_operation :: Operation where
  "split_operation \<equiv> Admission.sample_operation ''split''"

abbreviation count_operation :: Operation where
  "count_operation \<equiv> Admission.sample_operation ''count''"

abbreviation deploying :: "Operation \<Rightarrow> pass" where
  "deploying o1 \<equiv> applying KDeployment (opName counting o1) (ADeployment (given_up o1)) @ [Called (ListPods (opLabels counting o1)) (KPods [])]"

abbreviation metrics_called :: kevent where
  "metrics_called \<equiv> Called (HttpDo ''GET'' (coordinatorURL calm_controller counting @ ''/metrics'') Cluster.NoBody) (KReply 200 (Some done_report))"

definition before_split :: pass where
  "before_split = setup_events
     @ [Called (DeleteObject KHorizontalPodAutoscaler (opName counting split_operation)) KNotFound,
        Called (DeleteObject KHorizontalPodAutoscaler (opName counting count_operation)) KNotFound,
        Called (HttpDo ''PUT'' (coordinatorURL calm_controller counting @ ''/operations'') (OperationsBody (map membership [split_operation, count_operation])))
          (KReply 200 None)]"

definition before_count :: pass where
  "before_count = before_split @ deploying split_operation
     @ [Called (HttpDo ''POST'' (seal_url calm_controller counting ''totals'') Cluster.NoBody) (KReply 200 None),
        Called (CreateOrUpdate KDeployment (opName counting count_operation)) (KExisting None none_status)]"

definition before_status :: pass where
  "before_status = before_count
     @ [Applied KDeployment (opName counting count_operation) (ADeployment (given_up count_operation)),
        Called (ListPods (opLabels counting count_operation)) (KPods []), metrics_called]"

definition final_status :: WorkloadStatus where
  "final_status = \<lparr>wst_phase = WorkloadSucceeded, wst_reason = ''OperationsDrained'', wst_message = ''all operations drained'',
     wst_operations = [done_status split_operation, done_status count_operation],
     wst_channels = map channelStatus (m_channels done_report)\<rparr>"

lemma pass_done:
  "Reconcile calm_controller ''default'' ''wc'' [] = (Inr None, before_status @ [Called (UpdateStatus final_status) KOk])"
proof -
  have ops: "ws_operations (wl_spec counting) = [split_operation, count_operation]" by (simp add: counting_def)
  have f: "\<not> barred counting split_operation (metrics_view done_report)" "\<not> barred counting count_operation (metrics_view done_report)"
      "drain_complete split_operation (metrics_view done_report)" "drain_complete count_operation (metrics_view done_report)"
      "unsealed_outputs counting split_operation (metrics_view done_report) = []"
      "unsealed_outputs counting count_operation (metrics_view done_report) = [totals_spec]"
      "overall counting [done_status split_operation, done_status count_operation] = (WorkloadSucceeded, ''all operations drained'')"
    by code_simp+
  have n: "op_collective (Admission.sample_operation a) = None" "sc_vertical (op_scaling (Admission.sample_operation a)) = None"
      "ch_name totals_spec = ''totals''" for a
    by (simp_all add: Admission.sample_operation_def totals_spec_def)
  have silent: "rc_recorder calm_controller = False" by (simp add: calm_controller_def)
  show ?thesis
    unfolding setup_done
    by (simp add: drive_def ops ensureHPA_def delete_object_def calm_kask n pushOperations_def http_done_def calm_http reconcileOperation_def f
        deployed_calm post_seal_def conclude_def metrics_def before_status_def before_count_def before_split_def final_status_def
        reasonForPhase_def emitStatusTransitions_def recorded_def silent applying_def metrics_view_def [THEN arg_cong, of mv_report])
qed

lemma count_deployed:
  "Reconcile calm_controller ''default'' ''wc'' [] = (Inr None, before_count @ Applied KDeployment (opName counting count_operation)
     (ADeployment (given_up count_operation)) # Called (ListPods (opLabels counting count_operation)) (KPods []) # metrics_called
     # [Called (UpdateStatus final_status) KOk])"
  by (simp add: pass_done before_status_def)

lemma count_replicas: "dp_replicas (given_up count_operation) = Some 0"
proof -
  have "want_replicas counting count_operation (metrics_view done_report) 0 = 0" by code_simp
  then show ?thesis by (simp add: given_up_replicas)
qed

lemma count_operation_of: "operation_of (ADeployment (given_up count_operation)) = Some ''count''"
  using template_operation [of counting count_operation]
  by (simp add: operation_of_def given_up_def operation_deployment_def Let_def Admission.sample_operation_def)

theorem stage_barrier_witness:
  "\<exists>wl m. admitted calm_controller ''default'' ''wc'' wl before_count \<and> answered calm_controller wl m before_count \<and> lossless m
    \<and> (\<exists>o1 \<in> set (ws_operations (wl_spec wl)). op_name o1 = ''count'' \<and> inputs_ready wl o1 m)"
  by (rule stage_barrier [OF count_deployed count_operation_of])

theorem pods_given_up_witness:
  "\<exists>wl m. admitted calm_controller ''default'' ''wc'' wl before_count \<and> answered calm_controller wl m before_count
    \<and> (\<exists>o1 \<in> set (ws_operations (wl_spec wl)). opName counting count_operation = opName wl o1 \<and> pods_unneeded wl o1 m
         \<and> outputs_closed calm_controller wl o1 m before_count)"
  by (rule pods_given_up [OF count_deployed count_replicas])

theorem succeeded_when_drained_witness:
  "\<exists>wl m. admitted calm_controller ''default'' ''wc'' wl before_status \<and> answered calm_controller wl m before_status \<and> lossless m
    \<and> (\<forall>o1 \<in> set (ws_operations (wl_spec wl)). op_completion o1 \<noteq> CompletionNever \<and> finished_operation calm_controller wl m before_status o1)"
  by (rule succeeded_when_drained [where st = final_status, OF pass_done]) (simp add: final_status_def)

lemma reports_of_coordinator:
  assumes "answered calm_controller wl m before_count"
  shows "m = done_report"
  using assms unfolding answered_def before_count_def before_split_def setup_events_def by (auto simp: applying_def)


end
