(* ===== verification/Isolation.thy ===== *)
theory Isolation
  imports Reconciling
begin

text \<open>
  The network of a workload: which pods the policies let in, and that a pass leaves exactly the policies
  that are wanted.

  \<open>ingress_allowed\<close> is the meaning of network policies: a pod that some policy selects for ingress accepts
  only what a rule of such a policy admits. Policies are additive.
\<close>

subsection \<open>Who may connect\<close>

definition selects :: "labels \<Rightarrow> labels \<Rightarrow> bool" where
  "selects sel ls \<longleftrightarrow> list_all (\<lambda>(k, v). map_of ls k = Some v) sel"

fun admits :: "string \<Rightarrow> labels \<Rightarrow> peer \<Rightarrow> bool" where
  "admits ns src (PodPeer sel) \<longleftrightarrow> selects sel src"
| "admits ns src (NamespacePeer sel) \<longleftrightarrow> selects sel [(''kubernetes.io/metadata.name'', ns)]"
| "admits ns src (IPBlock cidr except) \<longleftrightarrow> False"

definition rule_admits :: "string \<Rightarrow> labels \<Rightarrow> protocol \<Rightarrow> int \<Rightarrow> rule \<Rightarrow> bool" where
  "rule_admits ns src proto port ru \<longleftrightarrow>
     (ru_peers ru = [] \<or> list_ex (admits ns src) (ru_peers ru)) \<and> (ru_ports ru = [] \<or> (proto, port) \<in> set (ru_ports ru))"

definition isolates :: "labels \<Rightarrow> NetworkPolicy \<Rightarrow> bool" where
  "isolates dst np \<longleftrightarrow> selects (np_podSelector np) dst \<and> PolicyIngress \<in> set (np_policyTypes np)"

definition ingress_allowed :: "string \<Rightarrow> NetworkPolicy list \<Rightarrow> labels \<Rightarrow> labels \<Rightarrow> protocol \<Rightarrow> int \<Rightarrow> bool" where
  "ingress_allowed ns nps src dst proto port \<longleftrightarrow>
     (\<forall>np \<in> set nps. \<not> isolates dst np) \<or> (\<exists>np \<in> set nps. isolates dst np \<and> list_ex (rule_admits ns src proto port) (np_ingress np))"

lemma labels_distinct:
  "LabelWorkload \<noteq> LabelRole" "LabelWorkload \<noteq> LabelOperation" "LabelRole \<noteq> LabelOperation" "RoleCoordinator \<noteq> RoleOperation"
  "LabelCollective \<noteq> LabelWorkload" "LabelChannel \<noteq> LabelWorkload" "LabelCollective \<noteq> LabelChannel" "LabelCollective \<noteq> LabelOperation"
  "LabelChannel \<noteq> LabelOperation"
  by (simp_all add: LabelWorkload_def LabelRole_def LabelOperation_def RoleCoordinator_def RoleOperation_def LabelCollective_def LabelChannel_def)

lemma template_labels:
  "map_of (tp_labels (podTemplate wl a)) LabelWorkload = Some (wl_name wl)"
  "map_of (tp_labels (podTemplate wl a)) LabelRole = Some RoleOperation"
  "map_of (tp_labels (podTemplate wl a)) LabelOperation = Some (op_name a)"
  using labels_distinct by (auto simp: podTemplate_def Let_def opLabels_def map_of_update_iff)

lemma isolates_wanted:
  fixes wl a
  defines "dst \<equiv> tp_labels (podTemplate wl a)"
  shows "isolates dst (snd (operations_policy C wl))" "\<not> isolates dst (snd (coordinator_policy C wl))"
    "\<not> isolates dst (snd (egress_policy wl o1))" "isolates dst (snd (collective_policy wl o1)) \<longleftrightarrow> op_name o1 = op_name a"
    "isolates dst (snd (edge_policy wl c)) \<longleftrightarrow> ch_from c = op_name a"
  using labels_distinct
  by (auto simp: dst_def isolates_def selects_def operations_policy_def coordinator_policy_def egress_policy_def collective_policy_def
      edge_policy_def workloadPods_def coordinatorLabels_def operationPods_def opLabels_def template_labels)


subsection \<open>Convergence\<close>

text \<open>The policies of the namespace after the events of a pass.\<close>

fun policies_step :: "kevent \<Rightarrow> (string \<rightharpoonup> NetworkPolicy) \<Rightarrow> (string \<rightharpoonup> NetworkPolicy)" where
  "policies_step (Applied KNetworkPolicy n (APolicy np)) m = m(n \<mapsto> np)"
| "policies_step (Called (DeleteObject KNetworkPolicy n) KOk) m = m(n := None)"
| "policies_step _ m = m"

definition policies_after :: "(string \<rightharpoonup> NetworkPolicy) \<Rightarrow> pass \<Rightarrow> (string \<rightharpoonup> NetworkPolicy)" where
  "policies_after m t = fold policies_step t m"

definition listing_faithful :: "controller \<Rightarrow> (string \<rightharpoonup> NetworkPolicy) \<Rightarrow> bool" where
  "listing_faithful C m0 \<longleftrightarrow>
     (\<forall>t ls nps. rc_world C t (ListPolicies ls) = KPolicies nps \<longrightarrow>
        (\<forall>n np. (n, np) \<in> set nps \<longleftrightarrow> policies_after m0 t n = Some np \<and> selects ls (np_labels np)))
     \<and> (\<forall>t n. rc_world C t (DeleteObject KNetworkPolicy n) = KNotFound \<longrightarrow> policies_after m0 t n = None)"

lemma policies_after_simps [simp]:
  "policies_after m [] = m" "policies_after m (t @ t') = policies_after (policies_after m t) t'"
  "policies_after m (e # t) = policies_after (policies_step e m) t"
  by (simp_all add: policies_after_def)

lemma applied_policies:
  "apply_policies C nps t = (Inr (), t') \<Longrightarrow> distinct (map fst nps) \<Longrightarrow>
   policies_after m0 t' n = (case map_of nps n of Some np \<Rightarrow> Some np | None \<Rightarrow> policies_after m0 t n)"
proof (induction nps arbitrary: t)
  case (Cons x nps)
  obtain a np where x: "x = (a, np)" by fastforce
  with Cons.prems obtain t1 where t1: "apply_object C KNetworkPolicy a (APolicy np) t = (Inr (), t1)" "apply_policies C nps t1 = (Inr (), t')"
    by (auto simp: thenK_Inr)
  then have "policies_after m0 t1 = (policies_after m0 t)(a \<mapsto> np)"
    by (auto simp: apply_object_def thenK_Inr upsert_Inr)
  then show ?case using Cons.IH [OF t1(2)] Cons.prems(2) x
    by (auto simp: map_of_eq_None_iff image_iff split: option.splits)
qed simp

lemma deleted_policy:
  assumes "delete_object C KNetworkPolicy a t = (Inr (), t')" and "listing_faithful C m0"
  shows "policies_after m0 t' = (policies_after m0 t)(a := None)"
  using assms unfolding delete_object_def listing_faithful_def by (auto simp: kask_eq fun_eq_iff split: kanswer.splits)

lemma pruned_policies:
  "prune_policies C wl nps t = (Inr (), t') \<Longrightarrow> listing_faithful C m0 \<Longrightarrow>
   policies_after m0 t' n = (if \<exists>np. (n, np) \<in> set nps \<and> stale wl np then None else policies_after m0 t n)"
proof (induction nps arbitrary: t)
  case (Cons x nps)
  obtain a np where x: "x = (a, np)" by fastforce
  show ?case
  proof (cases "stale wl np")
    case True
    then obtain t1 where t1: "delete_object C KNetworkPolicy a t = (Inr (), t1)" "prune_policies C wl nps t1 = (Inr (), t')"
      using Cons.prems x by (auto simp: thenK_Inr)
    then show ?thesis using Cons.IH [OF t1(2)] deleted_policy [OF t1(1)] Cons.prems(2) x True by auto
  qed (use Cons x in auto)
qed simp

lemma wanted_names:
  assumes "distinct (map op_name (ws_operations (wl_spec wl)))" and "distinct (map ch_name (ws_channels (wl_spec wl)))"
  shows "distinct (map fst (wanted_policies C wl))"
  using assms
  by (auto simp: wanted_policies_def operations_policy_def coordinator_policy_def coordinatorName_def egress_policy_def collective_policy_def
      edge_policy_def comp_def edgePolicyName_def egressPolicyName_def collectivePolicyName_def wantEgress_def wantedCollectives_def
      Policies.edges_def distinct_map inj_on_def)

lemma wanted_not_stale: "(n, np) \<in> set (wanted_policies C wl) \<Longrightarrow> \<not> stale wl np"
  using labels_distinct
  by (auto simp: wanted_policies_def stale_def operations_policy_def coordinator_policy_def egress_policy_def collective_policy_def edge_policy_def)


subsection \<open>A sample namespace\<close>

text \<open>An API that keeps the policies it is given, in a namespace with the policy of a channel that is gone.\<close>

definition old_policy :: NetworkPolicy where
  "old_policy = \<lparr>np_labels = [(LabelWorkload, ''w''), (LabelChannel, ''old'')], np_owner = '''', np_podSelector = [],
     np_policyTypes = [PolicyIngress], np_ingress = [], np_egress = []\<rparr>"

fun list_step :: "kevent \<Rightarrow> (string \<times> NetworkPolicy) list \<Rightarrow> (string \<times> NetworkPolicy) list" where
  "list_step (Applied KNetworkPolicy n (APolicy np)) m = AList.update n np m"
| "list_step (Called (DeleteObject KNetworkPolicy n) KOk) m = AList.delete n m"
| "list_step _ m = m"

definition policy_list :: "pass \<Rightarrow> (string \<times> NetworkPolicy) list" where
  "policy_list t = fold list_step t [(''w-edge-old'', old_policy)]"

fun keeping_api :: "pass \<Rightarrow> kcall \<Rightarrow> kanswer" where
  "keeping_api t (CreateOrUpdate k n) = KExisting None \<lparr>ds_replicas = 0, ds_readyReplicas = 0, ds_conditions = []\<rparr>"
| "keeping_api t (DeleteObject k n) = (if map_of (policy_list t) n = None then KNotFound else KOk)"
| "keeping_api t (ListPolicies ls) = KPolicies (filter (\<lambda>(n, np). selects ls (np_labels np)) (policy_list t))"
| "keeping_api t c = KOk"

definition keeping_controller :: controller where
  "keeping_controller = \<lparr>rc_world = keeping_api, rc_coordinatorImage = '''', rc_controllerNamespace = '''', rc_coordinatorURL = None,
     rc_recorder = False, rc_parse = (\<lambda>_. None), rc_order = (\<lambda>s. map op_name (ws_operations s))\<rparr>"

lemma step_list: "map_of (list_step e m) = policies_step e (map_of m)"
  by (cases "(e, m)" rule: list_step.cases) (auto simp: AList.update_conv' AList.delete_conv')

lemma step_distinct: "distinct (map fst m) \<Longrightarrow> distinct (map fst (list_step e m))"
  by (cases "(e, m)" rule: list_step.cases) auto

lemma fold_list: "map_of (fold list_step t m) = policies_after (map_of m) t \<and> (distinct (map fst m) \<longrightarrow> distinct (map fst (fold list_step t m)))"
  by (induction t arbitrary: m) (auto simp: step_list step_distinct)

lemma keeping_faithful: "listing_faithful keeping_controller [''w-edge-old'' \<mapsto> old_policy]"
proof -
  have m: "map_of (policy_list t) = policies_after [''w-edge-old'' \<mapsto> old_policy] t" "distinct (map fst (policy_list t))" for t
    using fold_list [of t "[(''w-edge-old'', old_policy)]"] by (simp_all add: policy_list_def)
  show ?thesis
    by (auto simp: listing_faithful_def keeping_controller_def map_of_eq_Some_iff [OF m(2), symmetric] m(1) split: if_splits)
qed

definition small_workload :: Workload where
  "small_workload = \<lparr>wl_name = ''w'', wl_namespace = ''n'', wl_uid = ''u'',
     wl_spec = \<lparr>ws_operations = [Admission.sample_operation ''a'', Admission.sample_operation ''b''],
       ws_channels = [sample_channel ''ab'' ''a'' ''b'' None], ws_coordinator = \<lparr>cd_image = '''', cd_objectStore = None\<rparr>\<rparr>,
     wl_status = \<lparr>wst_phase = WorkloadRunning, wst_reason = '''', wst_message = '''', wst_operations = [], wst_channels = []\<rparr>\<rparr>"

lemma small_pass: "fst (ensureNetworkPolicies keeping_controller small_workload []) = Inr ()"
  by code_simp


end
