(* ===== verification/Volumes.thy ===== *)
theory Volumes
  imports Controller Admission
begin

text \<open>
  The segment volume of an operation: what \<^verbatim>\<open>Validate\<close> admits and what \<^verbatim>\<open>podTemplate\<close> makes of it fit together,
  except where the worker is a runtime sidecar.
\<close>

text \<open>Kubernetes takes an absent request to be the limit of the container.\<close>

definition effective_request :: "Container \<Rightarrow> int option" where
  "effective_request c = (case ct_request c of None \<Rightarrow> ct_limit c | Some r \<Rightarrow> Some r)"

lemma Validate_operations: "Validate parse order s = None \<Longrightarrow> o1 \<in> set (ws_operations s) \<Longrightarrow> operation_ok s o1"
  by (auto simp: Validate_def check_operations_None operation_checks_None split: option.splits)

lemma requested:
  assumes "\<And>l. ct_limit c = Some l \<Longrightarrow> sz \<le> l" and "\<And>r l. ct_request c = Some r \<Longrightarrow> ct_limit c = Some l \<Longrightarrow> r \<le> l"
  shows "\<exists>v. effective_request (requestEphemeralStorage sz c) = Some v \<and> sz \<le> v \<and> (\<forall>l. ct_limit c = Some l \<longrightarrow> v \<le> l)
    \<and> (\<forall>v0. effective_request c = Some v0 \<longrightarrow> v0 \<le> v)"
  using assms by (cases "ct_request c"; cases "ct_limit c") (auto simp: effective_request_def requestEphemeralStorage_def)

lemma inject_container:
  "op_segments o1 = Some sz \<Longrightarrow>
   effective_request (inject wl o1 c) = effective_request (requestEphemeralStorage sz c) \<and> ct_limit (inject wl o1 c) = ct_limit c"
  by (cases "ct_request c"; cases "ct_limit c") (simp_all add: inject_def requestEphemeralStorage_def effective_request_def Let_def)

text \<open>
  C33: An admitted segment volume fits its pod. In the pod template of an admitted operation with a segment size
  and no runtime sidecar, the segment volume has that size as its limit, the request of the first container covers
  the volume and is not lowered, it does not exceed the limit of the container if the template's own request does
  not, and the ephemeral-storage limit of the whole pod, if there is one, exceeds the volume.
\<close>

theorem admitted_volume_fits:
  assumes "Validate parse order (wl_spec wl) = None" and "o1 \<in> set (ws_operations (wl_spec wl))" and "op_segments o1 = Some sz"
    and "\<not> list_ex runtime_sidecar (tp_initContainers (op_template o1))" and "tp_containers (op_template o1) = c # cs"
    and "\<And>r l. ct_request c = Some r \<Longrightarrow> ct_limit c = Some l \<Longrightarrow> r \<le> l"
  shows "\<exists>c' v. tp_containers (podTemplate wl o1) = c' # cs \<and> effective_request c' = Some v \<and> sz \<le> v
    \<and> (\<forall>l. ct_limit c' = Some l \<longrightarrow> v \<le> l) \<and> (\<forall>v0. effective_request c = Some v0 \<longrightarrow> v0 \<le> v)
    \<and> \<lparr>vol_name = segmentVolumeName, vol_sizeLimit = Some sz\<rparr> \<in> set (tp_volumes (podTemplate wl o1))
    \<and> (snd (podEphemeralStorageLimit (podTemplate wl o1)) \<longrightarrow> sz < fst (podEphemeralStorageLimit (podTemplate wl o1)))"
proof -
  have ok: "segments_ok (op_template o1) sz" using Validate_operations [OF assms(1,2)] assms(3) by (simp add: operation_ok_def)
  have v: "\<not> list_ex (\<lambda>v. vol_name v = segmentVolumeName) (tp_volumes (op_template o1))"
    using ok by (auto simp: segments_ok_def list_ex_iff segmentVolumeName_def)
  have t: "tp_containers (podTemplate wl o1) = inject wl o1 c # cs" "tp_initContainers (podTemplate wl o1) = tp_initContainers (op_template o1)"
      "tp_volumes (podTemplate wl o1) = tp_volumes (op_template o1) @ [\<lparr>vol_name = segmentVolumeName, vol_sizeLimit = Some sz\<rparr>]"
    using assms(3-5) v by (simp_all add: podTemplate_def Let_def)
  have l: "\<And>l. ct_limit c = Some l \<Longrightarrow> sz \<le> l" using ok assms(5) by (simp add: segments_ok_def)
  have i: "effective_request (inject wl o1 c) = effective_request (requestEphemeralStorage sz c)" "ct_limit (inject wl o1 c) = ct_limit c"
    using inject_container [OF assms(3)] by simp_all
  have "podEphemeralStorageLimit (podTemplate wl o1) = podEphemeralStorageLimit (op_template o1)"
    using assms(5) i(2) by (simp add: podEphemeralStorageLimit_def t add_limit_def)
  then have "snd (podEphemeralStorageLimit (podTemplate wl o1)) \<longrightarrow> sz < fst (podEphemeralStorageLimit (podTemplate wl o1))"
    using ok podEphemeralStorageLimit_eq [of "op_template o1"] by (auto simp: segments_ok_def)
  moreover obtain w where "effective_request (inject wl o1 c) = Some w" "sz \<le> w" "\<forall>l. ct_limit c = Some l \<longrightarrow> w \<le> l"
      "\<forall>v0. effective_request c = Some v0 \<longrightarrow> v0 \<le> w"
    using requested [of c sz, OF l assms(6)] i(1) by auto
  ultimately show ?thesis using t i(2) by simp
qed

subsection \<open>Samples\<close>

definition sized :: "Container list \<Rightarrow> Workload" where
  "sized inits =
     \<lparr>wl_name = ''w'', wl_namespace = ''n'', wl_uid = ''u'',
      wl_spec = \<lparr>ws_operations = [(Admission.sample_operation ''a'')\<lparr>op_template := sample_template\<lparr>tp_initContainers := inits\<rparr>\<rparr>],
        ws_channels = [], ws_coordinator = \<lparr>cd_image = '''', cd_objectStore = None\<rparr>\<rparr>,
      wl_status = \<lparr>wst_phase = WorkloadNone, wst_reason = '''', wst_message = '''', wst_operations = [], wst_channels = []\<rparr>\<rparr>"

definition sized_operation :: Operation where
  "sized_operation = hd (ws_operations (wl_spec (sized [])))"

theorem admitted_volume_fits_witness:
  "\<exists>c' v. tp_containers (podTemplate (sized []) sized_operation) = [c'] \<and> effective_request c' = Some v \<and> 2097152 \<le> v
    \<and> (\<forall>l. ct_limit c' = Some l \<longrightarrow> v \<le> l) \<and> (\<forall>v0. effective_request (hd (tp_containers sample_template)) = Some v0 \<longrightarrow> v0 \<le> v)
    \<and> \<lparr>vol_name = segmentVolumeName, vol_sizeLimit = Some 2097152\<rparr> \<in> set (tp_volumes (podTemplate (sized []) sized_operation))
    \<and> (snd (podEphemeralStorageLimit (podTemplate (sized []) sized_operation))
        \<longrightarrow> 2097152 < fst (podEphemeralStorageLimit (podTemplate (sized []) sized_operation)))"
proof (rule admitted_volume_fits [of "\<lambda>_. None" "[''a'']"])
  show "Validate (\<lambda>_. None) [''a''] (wl_spec (sized [])) = None" by code_simp
qed (simp_all add: sized_operation_def sized_def Admission.sample_operation_def sample_template_def)

text \<open>
  With a runtime sidecar the request goes on the sidecar, whose limit is not looked at: an admitted workload
  whose pod has a container that requests more than its limit.
\<close>

definition small_sidecar :: Container where
  "small_sidecar = (hd (tp_containers sample_template))\<lparr>ct_name := runtimeContainer, ct_restartAlways := True, ct_limit := Some 1048576\<rparr>"

theorem sidecar_request_exceeds_limit:
  "Validate (\<lambda>_. None) [''a''] (wl_spec (sized [small_sidecar])) = None
   \<and> map (\<lambda>c. (ct_request c, ct_limit c)) (tp_initContainers (podTemplate (sized [small_sidecar]) (hd (ws_operations (wl_spec (sized [small_sidecar]))))))
     = [(Some 2097152, Some 1048576)]"
proof
  show "Validate (\<lambda>_. None) [''a''] (wl_spec (sized [small_sidecar])) = None" by code_simp
  have o: "runtime_sidecar small_sidecar" "ct_request (default_probe small_sidecar) = None" "ct_limit (default_probe small_sidecar) = Some 1048576"
    by code_simp+
  have "tp_initContainers (podTemplate wl (hd (ws_operations (wl_spec (sized [small_sidecar])))))
      = [inject wl (hd (ws_operations (wl_spec (sized [small_sidecar])))) (default_probe small_sidecar)]" for wl
    using o(1) by (simp add: podTemplate_def sized_def Let_def)
  moreover have "op_segments (hd (ws_operations (wl_spec (sized [small_sidecar])))) = Some 2097152"
    by (simp add: sized_def Admission.sample_operation_def)
  ultimately show "map (\<lambda>c. (ct_request c, ct_limit c)) (tp_initContainers (podTemplate (sized [small_sidecar]) (hd (ws_operations (wl_spec (sized [small_sidecar]))))))
     = [(Some 2097152, Some 1048576)]"
    using o(2,3) by (simp add: inject_def requestEphemeralStorage_def Let_def)
qed

end
