(* ===== verification/ObjectStore.thy ===== *)
theory ObjectStore
  imports Checkpoints
begin

text \<open>
  The object store reached over HTTP, after \<^verbatim>\<open>pkg/storage/http.go\<close>: the store's methods as conditional requests,
  the mapping of statuses to errors, and the signing of requests.

  What answers is outside the repository: \<open>remote\<close> takes a request and a state of the service to a response, or to a
  transport error, and the next state. The parser of URLs, SHA-256 and HMAC are parameters; the time stamp of a request
  is its first argument to \<open>sign\<close>. A request carries the unescaped path and the query in the encoded form that is
  signed. The body of a response is the bytes that arrive and the error, if any, after them. The largest limit is one
  below the width of an \<^verbatim>\<open>int64\<close>: one more wraps to a negative limit, which reads nothing.
\<close>

subsection \<open>Requests and responses\<close>

record endpoint =
  ep_scheme :: string
  ep_host :: string
  ep_path :: string
  ep_query :: string

record hrequest =
  rq_method :: string
  rq_host :: string
  rq_path :: string
  rq_query :: string
  rq_headers :: "(string, string) gomap"
  rq_body :: bytes

record hresponse =
  rs_status :: int
  rs_etag :: string
  rs_contentLength :: int
  rs_body :: bytes
  rs_readError :: "string option"

type_synonym 's remote = "hrequest \<Rightarrow> 's \<Rightarrow> (string + hresponse) \<times> 's"

record HTTP =
  ht_base :: endpoint
  ht_timeout :: int

definition defaultRequestTimeout :: int where "defaultRequestTimeout = 30000"

definition TrimRightSlash :: "string \<Rightarrow> string" where
  "TrimRightSlash s = rev (dropWhile (\<lambda>c. c = CHR ''/'') (rev s))"

definition NewHTTP :: "(string \<Rightarrow> endpoint option) \<Rightarrow> string \<Rightarrow> int \<Rightarrow> HTTP sresult" where
  "NewHTTP parse url timeout =
     (case parse (TrimRightSlash url) of
        None \<Rightarrow> Inl (OtherError ''parse'')
      | Some base \<Rightarrow>
          if ep_scheme base = '''' \<or> ep_host base = '''' then Inl (OtherError ''object-store endpoint must be an absolute URL'')
          else Inr \<lparr>ht_base = base, ht_timeout = (if timeout \<le> 0 then defaultRequestTimeout else timeout)\<rparr>)"

definition objectURL :: "HTTP \<Rightarrow> string \<Rightarrow> string option" where
  "objectURL h k = (if k = '''' \<or> HasPrefix k ''/'' then None else Some (ep_path (ht_base h) @ ''/'' @ k))"

definition http_request ::
  "'s remote \<Rightarrow> HTTP \<Rightarrow> string \<Rightarrow> string \<Rightarrow> bytes \<Rightarrow> string \<Rightarrow> string \<Rightarrow> 's \<Rightarrow> hresponse sresult \<times> 's" where
  "http_request W h meth k body condition v s =
     (case objectURL h k of
        None \<Rightarrow> (Inl (OtherError ''invalid storage key %q''), s)
      | Some p \<Rightarrow>
          (case W \<lparr>rq_method = meth, rq_host = ep_host (ht_base h), rq_path = p, rq_query = ep_query (ht_base h),
                   rq_headers = (if condition = '''' then [] else [(condition, v)]), rq_body = body\<rparr> s of
             (Inl e, s1) \<Rightarrow> (Inl (OtherError e), s1)
           | (Inr r, s1) \<Rightarrow> (Inr r, s1)))"

definition statusError :: "hresponse \<Rightarrow> unit sresult" where
  "statusError r = (if 200 \<le> rs_status r \<and> rs_status r < 300 then Inr () else Inl (OtherError ''object store returned %s: %s''))"

definition refused :: "hresponse \<Rightarrow> bool" where
  "refused r \<longleftrightarrow> rs_status r = 412 \<or> rs_status r = 409"

subsection \<open>The methods\<close>

definition HTTP_PutImmutable :: "'s remote \<Rightarrow> HTTP \<Rightarrow> string \<Rightarrow> bytes \<Rightarrow> 's \<Rightarrow> unit sresult \<times> 's" where
  "HTTP_PutImmutable W h k body s =
     (case http_request W h ''PUT'' k body ''If-None-Match'' ''*'' s of
        (Inl e, s1) \<Rightarrow> (Inl e, s1)
      | (Inr r, s1) \<Rightarrow> (if refused r then Inl ErrConflict else statusError r, s1))"

definition read_body :: "int \<Rightarrow> hresponse \<Rightarrow> bytes \<times> string option" where
  "read_body maxBytes r =
     (if maxBytes = 2 ^ 63 - 1 then ('''', None)
      else if 0 \<le> maxBytes \<and> maxBytes < int (length (rs_body r)) then (take (nat (maxBytes + 1)) (rs_body r), None)
      else (rs_body r, rs_readError r))"

definition HTTP_GetBounded :: "'s remote \<Rightarrow> HTTP \<Rightarrow> string \<Rightarrow> int \<Rightarrow> 's \<Rightarrow> Object sresult \<times> 's" where
  "HTTP_GetBounded W h k maxBytes s =
     (case http_request W h ''GET'' k '''' '''' '''' s of
        (Inl e, s1) \<Rightarrow> (Inl e, s1)
      | (Inr r, s1) \<Rightarrow>
          (if rs_status r = 404 then Inl ErrNotFound
           else
             (case statusError r of
                Inl e \<Rightarrow> Inl e
              | Inr _ \<Rightarrow>
                  if 0 \<le> maxBytes \<and> maxBytes < rs_contentLength r then Inl ErrObjectTooLarge
                  else
                    (let (body, err) = read_body maxBytes r in
                     case err of
                       Some e \<Rightarrow> Inl (OtherError e)
                     | None \<Rightarrow>
                         if 0 \<le> maxBytes \<and> maxBytes < int (length body) then Inl ErrObjectTooLarge
                         else Inr \<lparr>obj_bytes = body, obj_version = rs_etag r\<rparr>)), s1))"

definition HTTP_Get :: "'s remote \<Rightarrow> HTTP \<Rightarrow> string \<Rightarrow> 's \<Rightarrow> Object sresult \<times> 's" where
  "HTTP_Get W h k s = HTTP_GetBounded W h k (- 1) s"

definition HTTP_CompareAndSwap :: "'s remote \<Rightarrow> HTTP \<Rightarrow> string \<Rightarrow> string \<Rightarrow> bytes \<Rightarrow> 's \<Rightarrow> string sresult \<times> 's" where
  "HTTP_CompareAndSwap W h k oldVersion body s =
     (let (header, v) = (if oldVersion = '''' then (''If-None-Match'', ''*'') else (''If-Match'', oldVersion)) in
      case http_request W h ''PUT'' k body header v s of
        (Inl e, s1) \<Rightarrow> (Inl e, s1)
      | (Inr r, s1) \<Rightarrow>
          (if refused r then Inl ErrConflict
           else (case statusError r of Inl e \<Rightarrow> Inl e | Inr _ \<Rightarrow> Inr (rs_etag r)), s1))"

definition HTTP_Delete :: "'s remote \<Rightarrow> HTTP \<Rightarrow> string \<Rightarrow> 's \<Rightarrow> unit sresult \<times> 's" where
  "HTTP_Delete W h k s =
     (case http_request W h ''DELETE'' k '''' '''' '''' s of
        (Inl e, s1) \<Rightarrow> (Inl e, s1)
      | (Inr r, s1) \<Rightarrow> (if rs_status r = 404 then Inr () else statusError r, s1))"

definition http_store :: "HTTP \<Rightarrow> 's remote \<Rightarrow> 's Store" where
  "http_store h W =
     \<lparr>st_PutImmutable = HTTP_PutImmutable W h, st_Get = (\<lambda>k s. fst (HTTP_Get W h k s)),
      st_CompareAndSwap = HTTP_CompareAndSwap W h, st_Delete = HTTP_Delete W h\<rparr>"

subsection \<open>Signed requests\<close>

record S3Credentials =
  cr_accessKey :: string
  cr_secretKey :: string
  cr_sessionToken :: string
  cr_region :: string

definition upperHex :: "nat \<Rightarrow> char" where
  "upperHex d = (if d < 10 then char_of (48 + d) else char_of (55 + d))"

definition unreserved :: "char \<Rightarrow> bool" where
  "unreserved c \<longleftrightarrow>
     (let n = (of_char c :: nat) in
      c = CHR ''/'' \<or> 97 \<le> n \<and> n \<le> 122 \<or> 65 \<le> n \<and> n \<le> 90 \<or> 48 \<le> n \<and> n \<le> 57 \<or> c \<in> set ''-._~'')"

definition s3CanonicalURI :: "string \<Rightarrow> string" where
  "s3CanonicalURI uri =
     concat (map (\<lambda>c. if unreserved c then [c]
                      else [CHR ''%'', upperHex (of_char c div 16), upperHex (of_char c mod 16)]) uri)"

definition hexBytes :: "bytes \<Rightarrow> string" where
  "hexBytes b = concat (map (\<lambda>c. hexInt 2 (of_char c)) b)"

definition canonical_request :: "S3Credentials \<Rightarrow> string \<Rightarrow> string \<Rightarrow> hrequest \<Rightarrow> string \<times> string" where
  "canonical_request cr stamp payloadHash q =
     (let nl = [CHR 0x0A];
          token = cr_sessionToken cr \<noteq> '''';
          signed = ''host;x-amz-content-sha256;x-amz-date'' @ (if token then '';x-amz-security-token'' else '''');
          headers = ''host:'' @ rq_host q @ nl @ ''x-amz-content-sha256:'' @ payloadHash @ nl @ ''x-amz-date:'' @ stamp @ nl
            @ (if token then ''x-amz-security-token:'' @ cr_sessionToken cr @ nl else '''') in
      (rq_method q @ nl @ s3CanonicalURI (rq_path q) @ nl @ rq_query q @ nl @ headers @ nl @ signed @ nl @ payloadHash, signed))"

definition signature :: "(bytes \<Rightarrow> 256 word) \<Rightarrow> (bytes \<Rightarrow> string \<Rightarrow> bytes) \<Rightarrow> S3Credentials \<Rightarrow> string \<Rightarrow> string \<Rightarrow> string \<Rightarrow> string" where
  "signature sha hm cr stamp scope canonical =
     (let nl = [CHR 0x0A]; day = take 8 stamp;
          toSign = ''AWS4-HMAC-SHA256'' @ nl @ stamp @ nl @ scope @ nl @ version sha canonical;
          dateKey = hm (''AWS4'' @ cr_secretKey cr) day;
          regionKey = hm dateKey (cr_region cr);
          serviceKey = hm regionKey ''s3'';
          signingKey = hm serviceKey ''aws4_request'' in
      hexBytes (hm signingKey toSign))"

definition sign :: "string \<Rightarrow> (bytes \<Rightarrow> 256 word) \<Rightarrow> (bytes \<Rightarrow> string \<Rightarrow> bytes) \<Rightarrow> S3Credentials \<Rightarrow> hrequest \<Rightarrow> hrequest" where
  "sign stamp sha hm cr q =
     (let payloadHash = version sha (rq_body q);
          (canonical, signed) = canonical_request cr stamp payloadHash q;
          scope = take 8 stamp @ ''/'' @ cr_region cr @ ''/s3/aws4_request'';
          h1 = AList.update ''X-Amz-Content-Sha256'' payloadHash (AList.update ''X-Amz-Date'' stamp (rq_headers q));
          h2 = (if cr_sessionToken cr = '''' then h1 else AList.update ''X-Amz-Security-Token'' (cr_sessionToken cr) h1) in
      q\<lparr>rq_headers := AList.update ''Authorization''
           (''AWS4-HMAC-SHA256 Credential='' @ cr_accessKey cr @ ''/'' @ scope @ '', SignedHeaders='' @ signed
            @ '', Signature='' @ signature sha hm cr stamp scope canonical) h2\<rparr>)"

definition RoundTrip :: "string \<Rightarrow> (bytes \<Rightarrow> 256 word) \<Rightarrow> (bytes \<Rightarrow> string \<Rightarrow> bytes) \<Rightarrow> S3Credentials \<Rightarrow> 's remote \<Rightarrow> 's remote" where
  "RoundTrip stamp sha hm cr W q s = W (sign stamp sha hm cr q) s"

definition NewS3 :: "(string \<Rightarrow> endpoint option) \<Rightarrow> string \<Rightarrow> S3Credentials \<Rightarrow> int \<Rightarrow> HTTP sresult" where
  "NewS3 parse url cr timeout =
     (if cr_accessKey cr = '''' \<or> cr_secretKey cr = '''' \<or> cr_region cr = ''''
      then Inl (OtherError ''S3 access key, secret key, and region are required'') else NewHTTP parse url timeout)"

subsection \<open>Canonical paths\<close>

definition hexValue :: "char \<Rightarrow> nat" where
  "hexValue c = (if (of_char c :: nat) < 58 then of_char c - 48 else of_char c - 55)"

fun percent_decode :: "string \<Rightarrow> string" where
  "percent_decode [] = []"
| "percent_decode (c # cs) =
     (if c = CHR ''%''
      then (case cs of a # b # rest \<Rightarrow> char_of (16 * hexValue a + hexValue b) # percent_decode rest | _ \<Rightarrow> c # percent_decode cs)
      else c # percent_decode cs)"

lemma hexValue_upperHex: "d < 16 \<Longrightarrow> hexValue (upperHex d) = d"
  by (auto simp: hexValue_def upperHex_def)

lemma char_split: "char_of (16 * (of_char c div 16) + of_char c mod 16 :: nat) = c"
  by simp

text \<open>
  C39: The canonical form of a path, which a signature covers, determines the path: percent-decoding it gives back the path,
  byte by byte, and it consists of unreserved characters and escapes only. So no two objects share a
  canonical path.
\<close>

theorem canonical_decodes:
  "percent_decode (s3CanonicalURI uri) = uri \<and> list_all (\<lambda>c. unreserved c \<or> c = CHR ''%'') (s3CanonicalURI uri)"
proof (induction uri)
  case (Cons c uri)
  have d: "of_char c div 16 < (16 :: nat)" "of_char c mod 16 < (16 :: nat)" using nat_of_char_less_256 [of c] by (simp_all add: div_less_iff_less_mult)
  have p: "\<not> unreserved (CHR ''%'')" by code_simp
  have u: "unreserved (upperHex d)" if "d < 16" for d
    using that by (auto simp: unreserved_def upperHex_def Let_def)
  show ?case
    using Cons d p u hexValue_upperHex char_split by (auto simp: s3CanonicalURI_def)
qed (simp add: s3CanonicalURI_def)

subsection \<open>A service with conditional writes\<close>

text \<open>
  What the store relies on: the service keeps objects under paths, an ETag is determined by the content, a read
  answers with the object or with 404 when there is none, and a write is applied only if its condition holds. A write
  that is refused with 412 or 409 changes nothing; one that ends in another status or in a transport error may or may not
  have been applied.
\<close>

definition condition_holds :: "(bytes \<Rightarrow> string) \<Rightarrow> hrequest \<Rightarrow> bytes option \<Rightarrow> bool" where
  "condition_holds etag q x \<longleftrightarrow>
     (map_of (rq_headers q) ''If-None-Match'' = Some ''*'' \<longrightarrow> x = None)
     \<and> (\<forall>v. map_of (rq_headers q) ''If-Match'' = Some v \<longrightarrow> map_option etag x = Some v)"

definition answers ::
  "('s \<Rightarrow> string \<Rightarrow> bytes option) \<Rightarrow> (bytes \<Rightarrow> string) \<Rightarrow> hrequest \<Rightarrow> 's \<Rightarrow> (string + hresponse) \<Rightarrow> 's \<Rightarrow> bool" where
  "answers objs etag q s r s' \<longleftrightarrow>
     (rq_method q = ''GET'' \<longrightarrow>
        (\<forall>x. r = Inr x \<longrightarrow>
           (200 \<le> rs_status x \<and> rs_status x < 300 \<and> rs_readError x = None \<longrightarrow>
              objs s (rq_path q) = Some (rs_body x) \<and> rs_etag x = etag (rs_body x))
           \<and> (rs_status x = 404 \<longrightarrow> objs s (rq_path q) = None)))
     \<and> (rq_method q = ''PUT'' \<longrightarrow>
          (let done = (condition_holds etag q (objs s (rq_path q)) \<and> objs s' = (objs s)(rq_path q := Some (rq_body q))) in
           (\<forall>x. r = Inr x \<longrightarrow>
              (200 \<le> rs_status x \<and> rs_status x < 300 \<longrightarrow> done \<and> rs_etag x = etag (rq_body q))
              \<and> (refused x \<longrightarrow> objs s' = objs s))
           \<and> (objs s' = objs s \<or> done)))
     \<and> (rq_method q = ''DELETE'' \<longrightarrow>
          (\<forall>x. r = Inr x \<and> (200 \<le> rs_status x \<and> rs_status x < 300 \<or> rs_status x = 404) \<longrightarrow> objs s' (rq_path q) = None)
          \<and> (\<forall>p. p \<noteq> rq_path q \<longrightarrow> objs s' p = objs s p))"

definition conforms :: "('s \<Rightarrow> string \<Rightarrow> bytes option) \<Rightarrow> (bytes \<Rightarrow> string) \<Rightarrow> 's remote \<Rightarrow> bool" where
  "conforms objs etag W \<longleftrightarrow> (\<forall>q s r s'. W q s = (r, s') \<longrightarrow> answers objs etag q s r s')"

text \<open>Signing keeps what such a service looks at.\<close>

lemma sign_keeps [simp]:
  "rq_method (sign stamp sha hm cr q) = rq_method q" "rq_path (sign stamp sha hm cr q) = rq_path q"
  "rq_body (sign stamp sha hm cr q) = rq_body q" "condition_holds etag (sign stamp sha hm cr q) x = condition_holds etag q x"
  by (simp_all add: sign_def condition_holds_def Let_def map_of_update_iff split: prod.splits)

lemma signed_conforms: "conforms objs etag W \<Longrightarrow> conforms objs etag (RoundTrip stamp sha hm cr W)"
proof -
  have "answers objs etag (sign stamp sha hm cr q) s r s' = answers objs etag q s r s'" for q s r s'
    by (simp add: answers_def Let_def)
  then show "conforms objs etag W \<Longrightarrow> conforms objs etag (RoundTrip stamp sha hm cr W)" unfolding conforms_def RoundTrip_def by blast
qed

definition remote_object :: "HTTP \<Rightarrow> ('s \<Rightarrow> string \<Rightarrow> bytes option) \<Rightarrow> 's \<Rightarrow> string \<Rightarrow> bytes option" where
  "remote_object h objs s k = (case objectURL h k of None \<Rightarrow> None | Some p \<Rightarrow> objs s p)"

lemma http_put_cases:
  assumes "http_request W h ''PUT'' k b c v s = (r, s')" and "conforms objs etag W" and "c \<noteq> ''''"
  shows "objs s' = objs s \<and> (\<forall>x. r = Inr x \<longrightarrow> \<not> (200 \<le> rs_status x \<and> rs_status x < 300)) \<and> r \<noteq> Inl ErrConflict
    \<or> (\<exists>p. objectURL h k = Some p \<and> (c = ''If-None-Match'' \<and> v = ''*'' \<longrightarrow> objs s p = None)
         \<and> (c = ''If-Match'' \<longrightarrow> map_option etag (objs s p) = Some v) \<and> objs s' = (objs s)(p := Some b)
         \<and> (\<forall>x. r = Inr x \<longrightarrow> \<not> refused x \<or> objs s' = objs s) \<and> r \<noteq> Inl ErrConflict
         \<and> (\<forall>x. r = Inr x \<and> 200 \<le> rs_status x \<and> rs_status x < 300 \<longrightarrow> rs_etag x = etag b))"
proof (cases "objectURL h k")
  case None
  then show ?thesis using assms(1) by (auto simp: http_request_def)
next
  case (Some p)
  let ?q = "\<lparr>rq_method = ''PUT'', rq_host = ep_host (ht_base h), rq_path = p, rq_query = ep_query (ht_base h),
      rq_headers = [(c, v)], rq_body = b\<rparr>"
  obtain r0 where r0: "W ?q s = (r0, s')" "r = (case r0 of Inl e \<Rightarrow> Inl (OtherError e) | Inr x \<Rightarrow> Inr x)"
    using assms(1,3) Some by (auto simp: http_request_def split: prod.splits sum.splits)
  have "(\<forall>x. r0 = Inr x \<longrightarrow> (200 \<le> rs_status x \<and> rs_status x < 300 \<longrightarrow>
        (condition_holds etag ?q (objs s p) \<and> objs s' = (objs s)(p := Some b)) \<and> rs_etag x = etag b) \<and> (refused x \<longrightarrow> objs s' = objs s))
      \<and> (objs s' = objs s \<or> condition_holds etag ?q (objs s p) \<and> objs s' = (objs s)(p := Some b))"
    using assms(2) [unfolded conforms_def, rule_format, OF r0(1)] by (simp add: answers_def Let_def)
  then show ?thesis using Some r0(2) by (auto simp: condition_holds_def split: sum.splits)
qed

lemma remote_update:
  "objectURL h k = Some p \<Longrightarrow> objs s' = (objs s)(p := Some b) \<Longrightarrow>
   remote_object h objs s' = (\<lambda>x. if objectURL h x = objectURL h k then Some b else remote_object h objs s x)"
  by (auto simp: remote_object_def fun_eq_iff split: option.splits)

lemma get_cases:
  assumes "http_request W h ''GET'' k [] [] [] s = (r, s')" and "conforms objs etag W"
  shows "(\<exists>m. r = Inl (OtherError m))
    \<or> (\<exists>x p. r = Inr x \<and> objectURL h k = Some p \<and> (200 \<le> rs_status x \<and> rs_status x < 300 \<and> rs_readError x = None \<longrightarrow>
          objs s p = Some (rs_body x) \<and> rs_etag x = etag (rs_body x)) \<and> (rs_status x = 404 \<longrightarrow> objs s p = None))"
proof (cases "objectURL h k")
  case None
  then show ?thesis using assms(1) by (auto simp: http_request_def)
next
  case (Some p)
  let ?q = "\<lparr>rq_method = ''GET'', rq_host = ep_host (ht_base h), rq_path = p, rq_query = ep_query (ht_base h), rq_headers = [], rq_body = []\<rparr>"
  obtain r0 where r0: "W ?q s = (r0, s')" "r = (case r0 of Inl e \<Rightarrow> Inl (OtherError e) | Inr x \<Rightarrow> Inr x)"
    using assms(1) Some by (auto simp: http_request_def split: prod.splits sum.splits)
  show ?thesis using assms(2) [unfolded conforms_def, rule_format, OF r0(1)] r0(2) Some by (auto simp: answers_def split: sum.splits)
qed

lemma http_delete_cases:
  assumes "http_request W h ''DELETE'' k [] [] [] s = (r, s')" and "conforms objs etag W"
  shows "(\<forall>x. objectURL h x \<noteq> objectURL h k \<longrightarrow> remote_object h objs s' x = remote_object h objs s x)
    \<and> (\<forall>x. r = Inr x \<and> (200 \<le> rs_status x \<and> rs_status x < 300 \<or> rs_status x = 404) \<longrightarrow> remote_object h objs s' k = None)"
proof (cases "objectURL h k")
  case None
  then show ?thesis using assms(1) by (auto simp: http_request_def)
next
  case (Some p)
  let ?q = "\<lparr>rq_method = ''DELETE'', rq_host = ep_host (ht_base h), rq_path = p, rq_query = ep_query (ht_base h), rq_headers = [], rq_body = []\<rparr>"
  obtain r0 where r0: "W ?q s = (r0, s')" "r = (case r0 of Inl e \<Rightarrow> Inl (OtherError e) | Inr x \<Rightarrow> Inr x)"
    using assms(1) Some by (auto simp: http_request_def split: prod.splits sum.splits)
  show ?thesis using assms(2) [unfolded conforms_def, rule_format, OF r0(1)] r0(2) Some
    by (auto simp: answers_def remote_object_def split: sum.splits option.splits)
qed

lemma http_lawful:
  assumes "conforms objs etag W" and "\<And>b. etag b \<noteq> ''''"
  shows "lawful_store (http_store h W) (remote_object h objs) (objectURL h) etag"
proof (unfold_locales, goal_cases)
  case 1
  show ?case by (rule assms(2))
next
  case (2 k s obj)
  obtain r s' where q: "http_request W h ''GET'' k [] [] [] s = (r, s')" by fastforce
  from 2 get_cases [OF q assms(1)] show ?case
    by (auto simp: http_store_def HTTP_Get_def HTTP_GetBounded_def q read_body_def statusError_def remote_object_def split: if_splits option.splits)
next
  case (3 k s)
  obtain r s' where q: "http_request W h ''GET'' k [] [] [] s = (r, s')" by fastforce
  from 3 get_cases [OF q assms(1)] show ?case
    by (auto simp: http_store_def HTTP_Get_def HTTP_GetBounded_def q read_body_def statusError_def remote_object_def split: if_splits option.splits)
next
  case (4 k v b s v' s')
  obtain hd vl where h: "(if v = '''' then (''If-None-Match'', ''*'') else (''If-Match'', v)) = (hd, vl)" by fastforce
  obtain r where q: "http_request W h ''PUT'' k b hd vl s = (Inr r, s')" "\<not> refused r" "200 \<le> rs_status r" "rs_status r < 300" "v' = rs_etag r"
    using 4 by (auto simp: http_store_def HTTP_CompareAndSwap_def h statusError_def split: prod.splits sum.splits if_splits)
  from http_put_cases [OF q(1) assms(1)] q(2-5) h show ?case
    by (auto simp: fits_version_def remote_object_def fun_eq_iff split: option.splits if_splits)
next
  case (5 k v b s e s')
  obtain hd vl where h: "(if v = '''' then (''If-None-Match'', ''*'') else (''If-Match'', v)) = (hd, vl)" by fastforce
  obtain r where q: "http_request W h ''PUT'' k b hd vl s = (r, s')" "e = ErrConflict \<longrightarrow> (\<exists>x. r = Inr x \<and> refused x) \<or> r = Inl ErrConflict"
    using 5 by (auto simp: http_store_def HTTP_CompareAndSwap_def h statusError_def split: prod.splits sum.splits if_splits)
  from http_put_cases [OF q(1) assms(1)] q(2) h show ?case
    by (auto simp: fits_version_def remote_object_def fun_eq_iff split: option.splits if_splits)
next
  case (6 k b s r s' x b0)
  obtain y where q: "http_request W h ''PUT'' k b ''If-None-Match'' ''*'' s = (y, s')"
    using 6(1) by (auto simp: http_store_def HTTP_PutImmutable_def split: prod.splits sum.splits)
  from http_put_cases [OF q assms(1)] 6(2) show ?case by (auto simp: remote_object_def split: option.splits)
next
  case (7 k b s s')
  obtain y where q: "http_request W h ''PUT'' k b ''If-None-Match'' ''*'' s = (Inr y, s')" "\<not> refused y" "200 \<le> rs_status y" "rs_status y < 300"
    using 7 by (auto simp: http_store_def HTTP_PutImmutable_def statusError_def split: prod.splits sum.splits if_splits)
  from http_put_cases [OF q(1) assms(1)] q(2-4) show ?case by (auto simp: remote_object_def)
next
  case (8 k s s')
  obtain y where q: "http_request W h ''DELETE'' k [] [] [] s = (Inr y, s')" "200 \<le> rs_status y \<and> rs_status y < 300 \<or> rs_status y = 404"
    using 8 by (auto simp: http_store_def HTTP_Delete_def statusError_def split: prod.splits sum.splits if_splits)
  from http_delete_cases [OF q(1) assms(1)] q(2) show ?case by blast
next
  case (9 k s r s' x)
  obtain y where q: "http_request W h ''DELETE'' k [] [] [] s = (y, s')"
    using 9(1) by (auto simp: http_store_def HTTP_Delete_def split: prod.splits sum.splits)
  from http_delete_cases [OF q assms(1)] 9(2) show ?case by blast
qed


subsection \<open>A sample service\<close>

definition tag :: "bytes \<Rightarrow> string" where "tag b = CHR ''v'' # b"

definition reply_with :: "int \<Rightarrow> string \<Rightarrow> bytes \<Rightarrow> hresponse" where
  "reply_with st et b = \<lparr>rs_status = st, rs_etag = et, rs_contentLength = int (length b), rs_body = b, rs_readError = None\<rparr>"

definition keeping_service :: "files remote" where
  "keeping_service q s =
     (let x = map_of s (rq_path q) in
      if rq_method q = ''GET'' then (Inr (case x of None \<Rightarrow> reply_with 404 '''' '''' | Some b \<Rightarrow> reply_with 200 (tag b) b), s)
      else if rq_method q = ''PUT'' then
        if (map_of (rq_headers q) ''If-None-Match'' = Some ''*'' \<longrightarrow> x = None)
           \<and> (case map_of (rq_headers q) ''If-Match'' of None \<Rightarrow> True | Some v \<Rightarrow> map_option tag x = Some v)
        then (Inr (reply_with 200 (tag (rq_body q)) ''''), AList.update (rq_path q) (rq_body q) s)
        else (Inr (reply_with 412 '''' ''''), s)
      else (Inr (reply_with 204 '''' ''''), AList.delete (rq_path q) s))"

lemma keeping_conforms: "conforms (\<lambda>s. map_of s) tag keeping_service"
  unfolding conforms_def
proof (intro allI impI)
  fix q s r s'
  assume "keeping_service q s = (r, s')"
  then show "answers (\<lambda>s. map_of s) tag q s r s'"
    by (auto simp: keeping_service_def answers_def condition_holds_def reply_with_def refused_def Let_def AList.update_conv' AList.delete_conv'
        split: if_splits option.splits)
qed

definition sample_http :: HTTP where
  "sample_http = \<lparr>ht_base = \<lparr>ep_scheme = ''http'', ep_host = ''h'', ep_path = ''/b'', ep_query = ''''\<rparr>, ht_timeout = 30000\<rparr>"

definition sample_credentials :: S3Credentials where
  "sample_credentials = \<lparr>cr_accessKey = ''a'', cr_secretKey = ''s'', cr_sessionToken = '''', cr_region = ''r''\<rparr>"

definition s3_family :: "string \<times> unit \<Rightarrow> files Store" where
  "s3_family = (\<lambda>(stamp, a). http_store sample_http (RoundTrip stamp (\<lambda>_. 7) (\<lambda>k v. take 2 v) sample_credentials keeping_service))"

abbreviation s3 :: "files Store" where
  "s3 \<equiv> s3_family (''20240101T000000Z'', ())"

abbreviation s3_objects :: "files \<Rightarrow> string \<Rightarrow> bytes option" where
  "s3_objects \<equiv> remote_object sample_http (\<lambda>s. map_of s)"

definition first_claim :: "(Writer \<times> Checkpoint) sresult \<times> files" where
  "first_claim = Claim sample_codec s3 (\<lambda>x. x) ''c'' ''w1'' []"

definition second_claim :: "(Writer \<times> Checkpoint) sresult \<times> files" where
  "second_claim = Claim sample_codec s3 (\<lambda>x. x) ''c'' ''w2'' (snd first_claim)"

lemma claims_succeed:
  "case first_claim of (Inr _, s) \<Rightarrow> s3_objects s ''c'' \<noteq> s3_objects [] ''c'' | _ \<Rightarrow> False"
  "case second_claim of (Inr _, s) \<Rightarrow> s3_objects s ''c'' \<noteq> s3_objects (snd first_claim) ''c'' | _ \<Rightarrow> False"
  by code_simp+

lemma claim_pair:
  "case x of (Inr _, s) \<Rightarrow> P s | _ \<Rightarrow> False \<Longrightarrow> \<exists>v. x = (Inr (writer_of x, v), snd x) \<and> P (snd x)"
  by (cases x; cases "fst x") (auto simp: writer_of_def split: prod.splits)

lemma s3_run:
  "cp_run sample_codec s3_family s3_objects ''c'' 2 (snd second_claim) [writer_of first_claim, writer_of second_claim]"
proof -
  have 0: "cp_run sample_codec s3_family s3_objects ''c'' 0 [] []" by (rule cp_run.start) code_simp
  have p: "plain sample_codec (claimed ''w1'' (last_checkpoint sample_codec (s3_objects [] ''c'')))"
      "plain sample_codec (claimed ''w2'' (last_checkpoint sample_codec (s3_objects (snd first_claim) ''c'')))" by code_simp+
  obtain v1 where c1: "Claim sample_codec s3 (\<lambda>x. x) ''c'' ''w1'' [] = (Inr (writer_of first_claim, v1), snd first_claim)"
    using claim_pair [OF claims_succeed(1)] unfolding first_claim_def [symmetric] by blast
  obtain v2 where c2: "Claim sample_codec s3 (\<lambda>x. x) ''c'' ''w2'' (snd first_claim) = (Inr (writer_of second_claim, v2), snd second_claim)"
    using claim_pair [OF claims_succeed(2)] unfolding second_claim_def [symmetric] by blast
  have "cp_run sample_codec s3_family s3_objects ''c'' 1 (snd first_claim) [writer_of first_claim]"
    using cp_run.claim [where F = s3_family, OF 0 p(1) c1] claim_pair [OF claims_succeed(1)] by auto
  from cp_run.claim [where F = s3_family, OF this p(2) c2] claim_pair [OF claims_succeed(2)] show ?thesis
    by (auto simp: numeral_2_eq_2)
qed


end
