(* ===== verification/Configuration.thy ===== *)
theory Configuration
  imports Worker ObjectStore Provisioning Admission
begin

text \<open>
  The configuration a worker reads from its environment, after \<^verbatim>\<open>FromEnv\<close> of \<^verbatim>\<open>pkg/sdk/sdk.go\<close>, and that it is
  the one the controller wrote into the pod.

  \<open>getenv\<close> is the environment, empty text for a variable that is not set. The parser of durations, of the endpoint
  URL, the host name and the random incarnation are parameters. White space is ASCII white space. A tick interval in
  nanoseconds is rounded up to the milliseconds of the model. The store over HTTP supports bounded reads. Of the
  fields \<^verbatim>\<open>FromEnv\<close> fills, those that no modelled code reads (workload, pod address, outbound channels, the attempt and
  rendezvous of a collective) are left out.
\<close>

fun split_on :: "char \<Rightarrow> string \<Rightarrow> string list" where
  "split_on c [] = [[]]"
| "split_on c (x # xs) = (if x = c then [] # split_on c xs else (x # hd (split_on c xs)) # tl (split_on c xs))"

definition TrimSpace :: "string \<Rightarrow> string" where
  "TrimSpace s = rev (dropWhile is_space (rev (dropWhile is_space s)))"

definition split_names :: "string \<Rightarrow> string list" where
  "split_names s = (if s = '''' then [] else filter (\<lambda>p. p \<noteq> '''') (map TrimSpace (split_on (CHR '','') s)))"

definition byteLimitFromEnv :: "(string \<Rightarrow> string) \<Rightarrow> string \<Rightarrow> int \<Rightarrow> int sresult" where
  "byteLimitFromEnv getenv name fallback =
     (let v = TrimSpace (getenv name) in
      if v = '''' then Inr fallback
      else (let (n, ok) = Atoi v in if \<not> ok \<or> n \<le> 0 then Inl (OtherError ''%s=%q: must be a positive integer'') else Inr n))"

definition ParseBool :: "string \<Rightarrow> bool" where
  "ParseBool s \<longleftrightarrow> s \<in> set [''1'', ''t'', ''T'', ''TRUE'', ''true'', ''True'']"

definition with_limit :: "int sresult \<Rightarrow> (int \<Rightarrow> 'a sresult) \<Rightarrow> 'a sresult" where
  "with_limit r f = (case r of Inl e \<Rightarrow> Inl e | Inr n \<Rightarrow> f n)"

definition worker_fields :: "(string \<Rightarrow> string) \<Rightarrow> worker" where
  "worker_fields getenv =
     (zero_worker (getenv ''STARK8S_OPERATION'') (getenv ''STARK8S_INSTANCE'') (split_names (getenv ''STARK8S_INBOUND'')))
       \<lparr>wk_slots := wrap32 (fst (Atoi (getenv ''STARK8S_SLOTS''))), wk_segmentDir := getenv ''STARK8S_SEGMENT_DIR'',
        wk_baseURL := getenv ''STARK8S_OBJECT_STORE_ENDPOINT'', wk_prefix := getenv ''STARK8S_OBJECT_STORE_PREFIX'',
        wk_rank := fst (Atoi (getenv ''STARK8S_COLLECTIVE_RANK'')), wk_size := fst (Atoi (getenv ''STARK8S_COLLECTIVE_SIZE''))\<rparr>"

definition credentials_from_env :: "(string \<Rightarrow> string) \<Rightarrow> S3Credentials" where
  "credentials_from_env getenv =
     \<lparr>cr_accessKey = getenv ''STARK8S_OBJECT_STORE_ACCESS_KEY'', cr_secretKey = getenv ''STARK8S_OBJECT_STORE_SECRET_KEY'',
      cr_sessionToken = getenv ''STARK8S_OBJECT_STORE_SESSION_TOKEN'', cr_region = getenv ''STARK8S_OBJECT_STORE_REGION''\<rparr>"

definition attach_store :: "(string \<Rightarrow> endpoint option) \<Rightarrow> (string \<Rightarrow> string) \<Rightarrow> worker \<Rightarrow> worker sresult" where
  "attach_store parse getenv w =
     (if wk_baseURL w = '''' then Inr w
      else
        (case NewS3 parse (wk_baseURL w) (credentials_from_env getenv) 0 of
           Inl e \<Rightarrow> Inl e
         | Inr _ \<Rightarrow>
             (let w1 = w\<lparr>wk_durable := True, wk_bounded := True\<rparr> in
              Inr (if ParseBool (getenv ''STARK8S_CHECKPOINT'')
                   then w1\<lparr>wk_checkpointed := True, wk_checkpointPrefix := wk_prefix w1\<rparr> else w1))))"

definition read_limits :: "(string \<Rightarrow> string) \<Rightarrow> worker \<Rightarrow> worker sresult" where
  "read_limits getenv w =
     with_limit (byteLimitFromEnv getenv ''STARK8S_MAX_RECORD_BYTES'' (wk_maxRecordBytes w)) (\<lambda>a.
     with_limit (byteLimitFromEnv getenv ''STARK8S_MAX_BUFFERED_BYTES'' (wk_maxBufferedBytes w)) (\<lambda>b.
     with_limit (byteLimitFromEnv getenv ''STARK8S_MAX_FETCHED_BYTES'' (wk_maxFetchedBytes w)) (\<lambda>c.
     with_limit (byteLimitFromEnv getenv ''STARK8S_MAX_FETCHED_RECORDS'' (wk_maxFetchedRecords w)) (\<lambda>d.
     with_limit (byteLimitFromEnv getenv ''STARK8S_MAX_SEGMENT_STORE_BYTES'' (wk_maxSegmentStoreBytes w)) (\<lambda>e.
       Inr (w\<lparr>wk_maxRecordBytes := a, wk_maxBufferedBytes := b, wk_maxFetchedBytes := c, wk_maxFetchedRecords := d,
              wk_maxSegmentStoreBytes := e\<rparr>))))))"

definition read_tick :: "(string \<Rightarrow> int option) \<Rightarrow> (string \<Rightarrow> string) \<Rightarrow> worker \<Rightarrow> worker sresult" where
  "read_tick duration getenv w =
     (let v = TrimSpace (getenv ''STARK8S_TICK_INTERVAL'') in
      if v = '''' then Inr w
      else
        (case duration v of
           None \<Rightarrow> Inl (OtherError ''%s=%q: %w'')
         | Some d \<Rightarrow>
             if d < 0 then Inl (OtherError ''%s=%q: the tick interval must not be negative'')
             else Inr (w\<lparr>wk_tickInterval := (d + 999999) div 1000000\<rparr>)))"

definition FromEnv ::
  "(string \<Rightarrow> int option) \<Rightarrow> (string \<Rightarrow> endpoint option) \<Rightarrow> string \<Rightarrow> string \<Rightarrow> (string \<Rightarrow> string) \<Rightarrow> worker sresult" where
  "FromEnv duration parse random hostname getenv =
     (case attach_store parse getenv (worker_fields getenv) of
        Inl e \<Rightarrow> Inl e
      | Inr w0 \<Rightarrow>
          (case read_limits getenv (init_worker random w0) of
             Inl e \<Rightarrow> Inl e
           | Inr w1 \<Rightarrow>
               (let w2 = SetFeedback (split_names (getenv ''STARK8S_FEEDBACK'')) (split_names (getenv ''STARK8S_FEEDBACK_OUT'')) w1 in
                case read_tick duration getenv w2 of
                  Inl e \<Rightarrow> Inl e
                | Inr w3 \<Rightarrow>
                    if getenv ''STARK8S_COORDINATOR'' = '''' \<or> wk_operation w3 = '''' then Inl (OtherError ''%s and %s must be set'')
                    else Inr (if wk_instance w3 = '''' then w3\<lparr>wk_instance := hostname\<rparr> else w3))))"

subsection \<open>Names and numbers survive the environment\<close>

lemma split_on_ne: "split_on c s \<noteq> []"
  by (cases s) simp_all

lemma split_on_word: "c \<notin> set x \<Longrightarrow> split_on c (x @ c # rest) = x # split_on c rest"
  by (induction x) auto

lemma split_on_last: "c \<notin> set x \<Longrightarrow> split_on c x = [x]"
  by (induction x) auto

lemma split_join_with: "xs \<noteq> [] \<Longrightarrow> \<forall>x \<in> set xs. c \<notin> set x \<Longrightarrow> split_on c (join_with [c] xs) = xs"
  by (induction xs rule: induct_list012) (auto simp: split_on_last split_on_word)

definition plain_name :: "string \<Rightarrow> bool" where
  "plain_name x \<longleftrightarrow> x \<noteq> '''' \<and> CHR '','' \<notin> set x \<and> list_all (\<lambda>c. \<not> is_space c) x"

lemma TrimSpace_plain: "list_all (\<lambda>c. \<not> is_space c) x \<Longrightarrow> TrimSpace x = x"
proof -
  have "list_all (\<lambda>c. \<not> is_space c) y \<Longrightarrow> dropWhile is_space y = y" for y by (cases y) simp_all
  then show "list_all (\<lambda>c. \<not> is_space c) x \<Longrightarrow> TrimSpace x = x" by (simp add: TrimSpace_def)
qed

lemma split_names_join: "list_all plain_name xs \<Longrightarrow> split_names (join_with '','' xs) = xs"
proof (cases "xs = []")
  case False
  assume p: "list_all plain_name xs"
  have s: "split_on (CHR '','') (join_with '','' xs) = xs"
    using split_join_with [OF False, of "CHR '',''"] p by (simp add: list_all_iff plain_name_def)
  have "map TrimSpace xs = xs" using p by (simp add: map_idI list_all_iff plain_name_def TrimSpace_plain)
  moreover have "filter (\<lambda>p. p \<noteq> '''') xs = xs" using p by (auto simp: list_all_iff plain_name_def filter_id_conv)
  moreover have "join_with '','' xs \<noteq> ''''" using s False p by (auto simp: list_all_iff plain_name_def)
  ultimately show ?thesis by (simp add: split_names_def s)
qed (simp add: split_names_def)

lemma decimal_digit: "d < 10 \<Longrightarrow> is_decimal (digit d) \<and> of_char (digit d) = (48 + d :: nat)"
  by (simp add: is_decimal_def digit_def)

lemma decimal_itoa: "decimal (itoa n) = n \<and> list_all is_decimal (itoa n)"
proof (induction n rule: itoa.induct)
  case (1 n)
  show ?case
  proof (cases "n < 10")
    case True
    then show ?thesis using decimal_digit by (simp add: itoa.simps [of n] decimal_def)
  next
    case False
    have "decimal (s @ [digit d]) = 10 * decimal s + d" if "d < 10" for s d using decimal_digit [OF that] by (simp add: decimal_def)
    then show ?thesis using 1 False decimal_digit [of "n mod 10"] by (simp add: itoa.simps [of n])
  qed
qed

lemma Atoi_sprint:
  assumes "0 \<le> i" and "i < 2 ^ 63"
  shows "Atoi (sprint i) = (i, True)"
proof -
  have "\<not> HasPrefix (itoa (nat i)) [c]" if "\<not> is_decimal c" for c
    using decimal_itoa [of "nat i"] that by (cases "itoa (nat i)") (auto simp: HasPrefix_def)
  then have "\<not> HasPrefix (itoa (nat i)) ''-''" "\<not> HasPrefix (itoa (nat i)) ''+''" by (simp_all add: is_decimal_def)
  then show ?thesis using assms decimal_itoa [of "nat i"] by (simp add: Atoi_def sprint_def Let_def)
qed

subsection \<open>The controller's environment\<close>

definition resolve :: "(string \<Rightarrow> string) \<Rightarrow> (string \<Rightarrow> string \<Rightarrow> string) \<Rightarrow> env_source \<Rightarrow> string" where
  "resolve field secret src = (case src of Literal v \<Rightarrow> v | FieldRef f \<Rightarrow> field f | SecretRef name k optional \<Rightarrow> secret name k)"

definition environment :: "(string \<Rightarrow> string) \<Rightarrow> (string \<Rightarrow> string \<Rightarrow> string) \<Rightarrow> (string \<times> env_source) list \<Rightarrow> string \<Rightarrow> string" where
  "environment field secret env name = (case map_of env name of None \<Rightarrow> '''' | Some src \<Rightarrow> resolve field secret src)"

lemma environment_of_worker:
  fixes field secret wl o1
  defines "g \<equiv> environment field secret (worker_env wl o1)"
  shows "g ''STARK8S_OPERATION'' = op_name o1" "g ''STARK8S_INSTANCE'' = field ''metadata.name''"
    "g ''STARK8S_COORDINATOR'' \<noteq> ''''" "g ''STARK8S_SLOTS'' = sprint (slots o1)" "g ''STARK8S_SEGMENT_DIR'' = SegmentDir"
    "g ''STARK8S_INBOUND'' = join_with '','' (map ch_name (Inbound (wl_spec wl) (op_name o1)))"
    "g ''STARK8S_FEEDBACK'' = join_with '','' (map ch_name (filter (\<lambda>c. ch_feedback c \<noteq> None) (Inbound (wl_spec wl) (op_name o1))))"
    "g ''STARK8S_FEEDBACK_OUT'' = join_with '','' (map ch_name (filter (\<lambda>c. ch_feedback c \<noteq> None) (Outbound (wl_spec wl) (op_name o1))))"
    "g ''STARK8S_CHECKPOINT'' = (if op_checkpoint o1 then ''true'' else ''false'')"
    "g ''STARK8S_TICK_INTERVAL'' = (case op_tickInterval o1 of None \<Rightarrow> '''' | Some d \<Rightarrow> if 0 < d then duration_string (nat d) else '''')"
    "g ''STARK8S_COLLECTIVE_RANK'' = ''''" "g ''STARK8S_COLLECTIVE_SIZE'' = ''''"
    "g ''STARK8S_MAX_RECORD_BYTES'' = ''''" "g ''STARK8S_MAX_BUFFERED_BYTES'' = ''''" "g ''STARK8S_MAX_FETCHED_BYTES'' = ''''"
    "g ''STARK8S_MAX_FETCHED_RECORDS'' = ''''" "g ''STARK8S_MAX_SEGMENT_STORE_BYTES'' = ''''"
  by (simp_all add: g_def environment_def worker_env_def resolve_def Let_def objectStoreEnv_def split: option.split)

lemma digits_no_space: "list_all is_decimal s \<Longrightarrow> list_all (\<lambda>c. \<not> is_space c) s"
  by (auto simp: list_all_iff is_decimal_def is_space_def)

lemma itoa_no_space: "list_all (\<lambda>c. \<not> is_space c) (itoa n)"
  using decimal_itoa digits_no_space by blast

lemma fraction_no_space: "list_all (\<lambda>c. \<not> is_space c) (fraction prec n)"
proof -
  have "list_all is_decimal (pad_digits k m)" for k m by (induction k arbitrary: m) (auto simp: decimal_digit)
  then have "list_all is_decimal (rev (dropWhile P (rev (pad_digits k m))))" for P k m
    by (fastforce simp: list_all_iff dest: set_dropWhileD)
  then show ?thesis using digits_no_space by (simp add: fraction_def Let_def is_space_def)
qed

lemma duration_no_space: "list_all (\<lambda>c. \<not> is_space c) (duration_string n) \<and> duration_string n \<noteq> ''''"
  using itoa_no_space fraction_no_space by (simp add: duration_string_def Let_def is_space_def)

text \<open>The store of a worker, from the controller's environment.\<close>

definition store_credentials :: "(string \<Rightarrow> string \<Rightarrow> string) \<Rightarrow> ObjectStoreSpec \<Rightarrow> S3Credentials" where
  "store_credentials secret s =
     \<lparr>cr_accessKey = secret (os_credentialsSecret s) ''accessKey'', cr_secretKey = secret (os_credentialsSecret s) ''secretKey'',
      cr_sessionToken = secret (os_credentialsSecret s) ''sessionToken'', cr_region = os_region s\<rparr>"

lemma store_of_worker:
  fixes field secret wl o1
  defines "g \<equiv> environment field secret (worker_env wl o1)"
  shows "g ''STARK8S_OBJECT_STORE_ENDPOINT'' = (case cd_objectStore (ws_coordinator (wl_spec wl)) of None \<Rightarrow> '''' | Some s \<Rightarrow> os_endpoint s)"
    "cd_objectStore (ws_coordinator (wl_spec wl)) = Some s \<Longrightarrow> credentials_from_env g = store_credentials secret s"
  by (simp_all add: g_def environment_def worker_env_def resolve_def Let_def objectStoreEnv_def credentials_from_env_def store_credentials_def
      split: option.split)

lemma limits_unset:
  assumes "\<And>n. n \<in> {''STARK8S_MAX_RECORD_BYTES'', ''STARK8S_MAX_BUFFERED_BYTES'', ''STARK8S_MAX_FETCHED_BYTES'', ''STARK8S_MAX_FETCHED_RECORDS'',
      ''STARK8S_MAX_SEGMENT_STORE_BYTES''} \<Longrightarrow> getenv n = ''''"
  shows "read_limits getenv w = Inr w"
  using assms by (simp add: read_limits_def byteLimitFromEnv_def with_limit_def TrimSpace_def)

lemma set_fold_add: "set (fold set_add xs s) = set xs \<union> set s"
  by (induction xs arbitrary: s) auto

lemma attach_store_deployed:
  fixes field secret wl o1
  defines "g \<equiv> environment field secret (worker_env wl o1)"
  assumes "\<And>s. cd_objectStore (ws_coordinator (wl_spec wl)) = Some s \<Longrightarrow>
      os_endpoint s \<noteq> '''' \<and> (\<exists>h. NewS3 parse (os_endpoint s) (store_credentials secret s) 0 = Inr h)"
    and "wk_baseURL w = g ''STARK8S_OBJECT_STORE_ENDPOINT''" and "\<not> wk_durable w" and "\<not> wk_checkpointed w"
  obtains d b c p where "attach_store parse g w = Inr (w\<lparr>wk_durable := d, wk_bounded := b, wk_checkpointed := c, wk_checkpointPrefix := p\<rparr>)"
    "d \<longleftrightarrow> cd_objectStore (ws_coordinator (wl_spec wl)) \<noteq> None" "c \<longleftrightarrow> d \<and> op_checkpoint o1"
proof (cases "cd_objectStore (ws_coordinator (wl_spec wl))")
  case None
  then have "attach_store parse g w = Inr (w\<lparr>wk_durable := False, wk_bounded := wk_bounded w, wk_checkpointed := False,
      wk_checkpointPrefix := wk_checkpointPrefix w\<rparr>)"
    using assms store_of_worker [where field = field and secret = secret and wl = wl and ?o1.0 = o1] by (simp add: attach_store_def)
  then show ?thesis using that None by blast
next
  case (Some s)
  note st = store_of_worker [where field = field and secret = secret and wl = wl and ?o1.0 = o1]
  have "ParseBool (g ''STARK8S_CHECKPOINT'') = op_checkpoint o1" by (simp add: g_def environment_of_worker ParseBool_def)
  then have "attach_store parse g w = Inr (w\<lparr>wk_durable := True, wk_bounded := True, wk_checkpointed := op_checkpoint o1,
      wk_checkpointPrefix := (if op_checkpoint o1 then wk_prefix w else wk_checkpointPrefix w)\<rparr>)"
    using assms(2) [OF Some] assms(3-5) Some st by (auto simp: attach_store_def g_def Let_def)
  then show ?thesis using that Some by blast
qed

lemma read_tick_deployed:
  fixes field secret wl o1
  defines "g \<equiv> environment field secret (worker_env wl o1)"
  assumes "\<And>d. op_tickInterval o1 = Some d \<Longrightarrow> 0 < d \<Longrightarrow> duration (duration_string (nat d)) = Some d" and "wk_tickInterval w = 0"
  obtains t where "read_tick duration g w = Inr (w\<lparr>wk_tickInterval := t\<rparr>)" "0 < t \<longleftrightarrow> (\<exists>d. op_tickInterval o1 = Some d \<and> 0 < d)"
proof (cases "\<exists>d. op_tickInterval o1 = Some d \<and> 0 < d")
  case True
  then obtain d where d: "op_tickInterval o1 = Some d" "0 < d" by blast
  then have v: "TrimSpace (g ''STARK8S_TICK_INTERVAL'') = duration_string (nat d)"
    using TrimSpace_plain duration_no_space by (simp add: g_def environment_of_worker)
  have "read_tick duration g w = Inr (w\<lparr>wk_tickInterval := (d + 999999) div 1000000\<rparr>)"
    using assms(2) [OF d] d duration_no_space [of "nat d"] by (simp add: read_tick_def v)
  moreover have "0 < (d + 999999) div 1000000" using d(2) by linarith
  ultimately show ?thesis using that True by blast
next
  case False
  then have "g ''STARK8S_TICK_INTERVAL'' = ''''" by (auto simp: g_def environment_of_worker split: option.split)
  then have "read_tick duration g w = Inr (w\<lparr>wk_tickInterval := 0\<rparr>)" using assms(3) by (simp add: read_tick_def TrimSpace_def)
  then show ?thesis using that False by blast
qed


lemma digit_0_2: "digit 0 = CHR ''0''" "digit 2 = CHR ''2''"
  by code_simp+

lemma fraction_whole: "n mod 10 ^ prec = 0 \<Longrightarrow> fraction prec n = ''''"
proof -
  have "pad_digits k 0 = replicate k (CHR ''0'')" for k by (induction k) (simp_all add: digit_0_2 replicate_append_same)
  then show "n mod 10 ^ prec = 0 \<Longrightarrow> fraction prec n = ''''" by (simp add: fraction_def)
qed

definition ticking_operation :: Operation where
  "ticking_operation = (Admission.sample_operation ''a'')\<lparr>op_tickInterval := Some 2000000000, op_checkpoint := True\<rparr>"

definition looping_workload :: Workload where
  "looping_workload = \<lparr>wl_name = ''w'', wl_namespace = ''n'', wl_uid = ''u'',
     wl_spec = (sample_spec (Some \<lparr>f_mode = FeedbackSynchronous, f_maxEpochs = 3, f_overflow = ''''\<rparr>))
       \<lparr>ws_coordinator := \<lparr>cd_image = '''', cd_objectStore =
         Some \<lparr>os_endpoint = ''http://s3'', os_region = ''r'', os_credentialsSecret = ''c''\<rparr>\<rparr>\<rparr>,
     wl_status = \<lparr>wst_phase = WorkloadRunning, wst_reason = '''', wst_message = '''', wst_operations = [], wst_channels = []\<rparr>\<rparr>"


end
