(* ===== verification/Spec2Isabelle.thy ===== *)
theory Spec2Isabelle
  imports Guarantees Delivery Declarations Recovery Combining Committing Invocations Datasets Admission
    Returning Lifetimes Isolation Volumes Configuration
begin

text \<open>
  A verification library for stark8s, a coordinator that moves records between the operations of a
  workload graph. The Go sources are under \<^verbatim>\<open>src/\<close>.

  \<^bold>\<open>The system.\<close> A workload graph has operations (groups of worker pods) and channels between
  them. Workers announce segments of records on channels; the coordinator
  (\<^verbatim>\<open>pkg/coordinator\<close>) assigns partitions to consumer pods, hands segments out, takes
  acknowledgements and returns, fences replaced processes by incarnation, returns the work of lost
  pods, closes epochs of loops behind a barrier, decides when an operation is complete and when
  segment bytes may be deleted, and keeps named cursors over retained channels. It persists its
  state through a fenced checkpoint (\<^verbatim>\<open>pkg/storage\<close>). Workers use an SDK (\<^verbatim>\<open>pkg/sdk\<close>), which
  an application in another process reaches over a local protocol (\<^verbatim>\<open>pkg/runtime\<close>). A Kubernetes
  controller (\<^verbatim>\<open>pkg/controller\<close>) admits workloads, publishes the topology to the coordinator, creates and
  scales the pods, isolates them by network policies and reports the status.

  \<^bold>\<open>Model.\<close> One definition per Go function, under its name; the calls compose as in the code. A
  handler takes the environment of the request (clock, outcomes of the durable writer) and the
  coordinator, and returns its result and the coordinator it leaves, on error paths too. The
  coordinator's mutex makes requests atomic, so a run is a sequence of requests.

  \<^item> \<open>Prelude\<close>: errors, Go maps and sets as association lists, 32-bit wrap-around, decimal text.
  \<^item> \<open>Graph\<close>, \<open>Api\<close>: the declarations of \<^verbatim>\<open>api/graph/graph.go\<close> and the wire types of
    \<^verbatim>\<open>pkg/coordinator/api.go\<close>.
  \<^item> \<open>Ownership\<close>, \<open>State\<close>, \<open>Topology\<close>, \<open>Registry\<close>, \<open>Progress\<close>, \<open>Producing\<close>,
    \<open>Consuming\<close>, \<open>Reporting\<close>: \<^verbatim>\<open>pkg/coordinator/coordinator.go\<close> by part. Pointers to segments are
    positions in a per-channel segment store; an access outside a slice sets the channel's panic flag.
  \<^item> \<open>Persistence\<close>: snapshot and restore of \<^verbatim>\<open>pkg/coordinator/persistence.go\<close>.
  \<^item> \<open>Subscriptions\<close>: appends, cursors, replay and retention of \<^verbatim>\<open>pkg/coordinator/subscriptions.go\<close>.
  \<^item> \<open>Server\<close>: the routes of \<^verbatim>\<open>pkg/coordinator/server.go\<close> after decoding.
  \<^item> \<open>Paths\<close>, \<open>Store\<close>, \<open>LocalStore\<close>: cleaning of paths, the \<^verbatim>\<open>Store\<close> interface with its
    checkpoint writer, and the directory backend, with failing system calls
    (\<^verbatim>\<open>pkg/storage/store.go\<close>, \<^verbatim>\<open>checkpoint.go\<close>, \<^verbatim>\<open>local.go\<close>).
  \<^item> \<open>Recovery\<close> also holds \<^verbatim>\<open>NewDurable\<close>, which ties the coordinator to the checkpoint.
  \<^item> \<open>SegmentStore\<close>: the segment and blob files of a pod (\<^verbatim>\<open>segmentStore\<close> of \<^verbatim>\<open>pkg/sdk/sdk.go\<close> and
    \<^verbatim>\<open>pkg/sdk/blob.go\<close>), with failing writes and removals.
  \<^item> \<open>Worker\<close>: the worker's state and its coordinator client (\<^verbatim>\<open>pkg/sdk/sdk.go\<close>). Everything outside the
    process (the coordinator, holders of segments, the durable store, files, clock, context) is a
    \<open>machine\<close>: a function from the calls and answers so far and the next call to its answer. The
    worker keeps its calls and answers as a trace, and properties about what became visible outside
    are stated on it. Requests are those of \<open>Server\<close>.
  \<^item> \<open>Emitting\<close>: validation, buffering, combining, flushing and publishing of output
    (\<^verbatim>\<open>Emit\<close>, \<^verbatim>\<open>EmitBlob\<close>, \<^verbatim>\<open>buffer\<close>, \<^verbatim>\<open>combine\<close>, \<^verbatim>\<open>flushBuffer\<close>, \<^verbatim>\<open>materialize\<close>, \<^verbatim>\<open>publish\<close>, \<^verbatim>\<open>Flush\<close>).
  \<^item> \<open>Fetching\<close>: retries, reading segments and blobs, deleting released segments, the heartbeat.
  \<^item> \<open>Running\<close>: operation checkpoints (\<^verbatim>\<open>pkg/sdk/checkpoint.go\<close>) and \<^verbatim>\<open>Run\<close>. An application handler is a
    script: a tree of SDK calls, each continuing with the outcome of the call.
  \<^item> \<open>Configuration\<close>: how a worker reads its environment (\<^verbatim>\<open>FromEnv\<close>).
  \<^item> \<open>ObjectStore\<close>: the store over HTTP (\<^verbatim>\<open>pkg/storage/http.go\<close>): conditional requests, statuses as errors, and
    the signing of requests. The service that answers is a function from a request and a state of the
    service to a response or a transport error.
  \<^item> \<open>Runtime\<close>: the local protocol (\<^verbatim>\<open>pkg/runtime\<close>), one definition per critical section of the server.
  \<^item> \<open>Etl\<close>: file splits, aggregation and published datasets (\<^verbatim>\<open>pkg/etl/etl.go\<close>) over any store.
  \<^item> \<open>Workload\<close>, \<open>Validation\<close>: the declarations of \<^verbatim>\<open>api/v1alpha1/types.go\<close> and \<^verbatim>\<open>Validate\<close> of
    \<^verbatim>\<open>pkg/controller/reconciler.go\<close>.
  \<^item> \<open>Cluster\<close>, \<open>Provisioning\<close>, \<open>Policies\<close>, \<open>Controller\<close>: a pass of \<^verbatim>\<open>Reconcile\<close> with \<^verbatim>\<open>reconcileOperation\<close>,
    \<^verbatim>\<open>reconcileCollective\<close>, \<^verbatim>\<open>podTemplate\<close> and \<^verbatim>\<open>ensureNetworkPolicies\<close>. The Kubernetes API and the coordinator answer as a
    function of the events of the pass so far; the events (calls with their answers, objects applied,
    events recorded) are kept in order, and properties are stated on them.

  \<^bold>\<open>Invariants.\<close> \<open>Shape\<close>, \<open>Placement\<close>, \<open>Accounting\<close> and \<open>Barrier\<close> state what every
  operation on one channel keeps (the shape of its slices and maps; where an unfinished segment is;
  that the counters add up; that no later epoch is reachable early), and \<open>Processes\<close> the same for
  one operation (cohort slots, retired incarnations). \<open>Contract\<close> gathers them as interfaces: the
  locales \<open>channel_contract\<close> and \<open>operation_contract\<close> list the laws of the elementary operations,
  and \<open>coordinator_contract\<close> builds on both. \<open>Handlers\<close> proves inside that locale that every handler
  keeps the invariant, and \<open>Runs\<close> interprets the locales on the model and obtains the invariant in
  every state that admissible requests reach. Admissible requests declare channels with a positive
  number of partitions below 2^31 and do not repartition an existing channel, and do not delete
  retained history in a way the code answers with a panic.

  \<^bold>\<open>Worker output.\<close> The locale \<open>output_invariant\<close> of \<open>Buffers\<close> lists the elementary changes of the output
  state and the outside calls made in between, and derives that an invariant they keep is kept by
  every emitting and flushing operation. It is interpreted for the byte counts (\<open>Buffers\<close>), and for the
  banked announcements and the checkpoint session (\<open>Outputs\<close>); \<open>Ranges\<close> shows that every announced
  partition is in the range of its channel.

  \<^bold>\<open>Properties.\<close> \<open>Guarantees\<close> (one place per segment, conservation of records, the epoch barrier, fencing,
  fail-stop), \<open>Delivery\<close> (assignment, repeated acknowledgements, Broadcast release, epoch advance),
  \<open>Declarations\<close> (idempotent declarations and announcements), \<open>Ownership\<close> (balanced partitions),
  \<open>Topology\<close> (components), \<open>Checkpoints\<close> (immutability, fencing and atomicity of the checkpoint;
  the locales \<open>lawful_store\<close> and \<open>store_family\<close> of \<open>Store\<close> are interpreted on the directory backend
  for every pattern of failing system calls), \<open>Recovery\<close> (restoring a snapshot, restarting),
  \<open>Blobs\<close> (bytes of the store, lifetime of blobs), \<open>Emission\<close> (bounded buffers, what a flush hands
  over, placeable announcements), \<open>Combining\<close> (combining is folding), \<open>Handling\<close> (retries, output
  before acknowledgement), \<open>Committing\<close> (a checkpoint before its effects, resuming from it) and
  \<open>Returning\<close> (\<^verbatim>\<open>Run\<close> returns once its context ends). \<open>Invocations\<close> (every interleaving of the local protocol:
  an invocation is answered at most once, no wakeup is lost), \<open>Datasets\<close> (the first publication wins, sums by
  key), \<open>Admission\<close> (\<^verbatim>\<open>Validate\<close> accepts exactly the valid workloads). \<open>Reconciling\<close> (when a pass starts the pods
  of an operation, gives them up, and reports success), \<open>Lifetimes\<close> (with the coordinator's own reports: pods
  given up hold nothing a consumer still needs), \<open>Isolation\<close> (who may connect under the policies; a pass
  leaves the wanted ones), \<open>Volumes\<close> (segment volumes fit their pods). \<open>ObjectStore\<close> (the HTTP store over
  any conforming service satisfies the contract \<open>store_family\<close>: a single checkpoint writer; canonical paths) and
  \<open>Configuration\<close> (a worker reads what the controller wrote).
  \<open>Samples\<close> holds the concrete workloads of the witnesses.

  \<^bold>\<open>Bounds.\<close> Epochs are 32-bit and wrap; partitions are below 2^31; the FNV hash, the round-robin
  counter and segment numbers are machine words; the checkpoint generation is a 64-bit word, and the
  single-writer theorem assumes fewer than 2^64 writes. Record and byte counters are mathematical
  integers, as are the worker's byte counts. The loop of \<^verbatim>\<open>Run\<close>, which the context ends, takes the number
  of passes it may make as fuel; \<open>Run_returns\<close> shows that \<open>Suc N\<close> is enough when the context has ended after \<open>N\<close>
  calls. Every other loop is structural, over a finite list, or has a measure
  (\<^verbatim>\<open>reserveBufferBytes\<close>: the length of the flush order).

  \<^bold>\<open>Parameters.\<close> The clock, the outcome of storage calls during a request, the SHA-256 digest and
  the JSON encodings. What is assumed of an encoding is that it reads back what it wrote. The worker's
  machine also gives the floating-point operations that combining uses; assumed of them is that a
  printed number reads back. For the controller, the parser of URLs and durations and the order in which Go
  iterates over a map; of the object service, that it applies conditional writes as documented
  (\<open>conforms\<close>); HMAC. Each assumption is satisfied by the concrete instance of its witness.

  \<^bold>\<open>Not modelled.\<close> The commands (flags, listeners, signals), the example programs, generated deep copies;
  of the controller, its registration with the manager and \<^verbatim>\<open>finiteEpochOperation\<close>, which nothing calls; HTTP
  client settings; the interleaving of the heartbeat with the worker's loop; the text of messages beyond
  their format; the text of the metrics page. The fields of Kubernetes objects are those the controller reads
  or writes.
\<close>

end
